(* ===== verification/Prelude.thy ===== *)
theory Prelude
  imports Main "HOL-Library.List_Lexorder" "HOL-Library.Char_ord"
begin

text \<open>
  What the components share: the types the models are written in (timestamps,
  strings), the Python string helpers the source calls (\<open>str.strip\<close>,
  \<open>str.lower\<close>, \<open>str(x or "").strip() or None\<close>), the interface locales that
  more than one component implements (a priority queue, an encoder with its decoder, a
  table with a key, an invariant of a step relation), and generic list lemmas.

  Timestamps are integers (microseconds for \<open>time.time\<close>, seconds for database
  columns); each theory says which. A Python \<open>str\<close> is a list of bytes, so a
  non-ASCII character is several elements, as in its UTF-8 encoding; case conversion and
  stripping concern the ASCII letters and the ASCII white space only.
\<close>

type_synonym micros = int

named_theorems row_defs \<open>the operations that rewrite rows of a table\<close>

section \<open>Python strings\<close>

definition is_space :: "char \<Rightarrow> bool" where
  "is_space c \<longleftrightarrow> (let n = of_char c :: nat in (9 \<le> n \<and> n \<le> 13) \<or> (28 \<le> n \<and> n \<le> 32))"

definition lower_char :: "char \<Rightarrow> char" where
  "lower_char c = (let n = of_char c :: nat in if 65 \<le> n \<and> n \<le> 90 then char_of (n + 32) else c)"

definition upper_char :: "char \<Rightarrow> char" where
  "upper_char c = (let n = of_char c :: nat in if 97 \<le> n \<and> n \<le> 122 then char_of (n - 32) else c)"

definition py_strip :: "string \<Rightarrow> string" where
  "py_strip s = rev (dropWhile is_space (rev (dropWhile is_space s)))"

definition py_lower :: "string \<Rightarrow> string" where
  "py_lower s = map lower_char s"

definition py_upper :: "string \<Rightarrow> string" where
  "py_upper s = map upper_char s"

definition or_empty :: "string option \<Rightarrow> string" where
  "or_empty x = (case x of None \<Rightarrow> [] | Some s \<Rightarrow> s)"

text \<open>\<open>str(x or "").strip() or None\<close>\<close>

definition norm_opt :: "string option \<Rightarrow> string option" where
  "norm_opt x = (let s = py_strip (or_empty x) in if s = [] then None else Some s)"

text \<open>The first \<open>n\<close> characters of a UTF-8 string.\<close>

fun utf_take :: "nat \<Rightarrow> string \<Rightarrow> string" where
  "utf_take n [] = []"
| "utf_take n (c # s) = (if 128 \<le> (of_char c :: nat) \<and> (of_char c :: nat) < 192 then c # utf_take n s
     else case n of 0 \<Rightarrow> [] | Suc m \<Rightarrow> c # utf_take m s)"

lemma py_strip_Nil [simp]: "py_strip [] = []"
  by (simp add: py_strip_def)

lemma dropWhile_idem [simp]: "dropWhile P (dropWhile P xs) = dropWhile P xs"
  by (induction xs) auto

lemma dropWhile_rev_dropWhile:
  "dropWhile P (rev (dropWhile P (rev (dropWhile P xs)))) = rev (dropWhile P (rev (dropWhile P xs)))"
proof (cases "dropWhile P xs")
  case Nil
  show ?thesis unfolding Nil by simp
next
  case (Cons y ys)
  then have y: "\<not> P y" by (metis dropWhile_eq_Cons_conv)
  have "dropWhile P (rev ys @ [y]) = dropWhile P (rev ys) @ [y]"
    using y by (induction "rev ys" arbitrary: ys) (auto simp: dropWhile_append)
  with Cons y show ?thesis by simp
qed

lemma py_strip_idem [simp]: "py_strip (py_strip s) = py_strip s"
  by (simp add: py_strip_def dropWhile_rev_dropWhile)

lemma norm_opt_idem: "norm_opt (norm_opt x) = norm_opt x"
  by (auto simp: norm_opt_def or_empty_def Let_def)

section \<open>Interfaces\<close>

text \<open>
  A priority queue: \<open>pop\<close> takes an element with the least key, \<open>drop\<close> removes the
  entries of one value. The contract speaks of the multiset-free \<open>elems\<close> only, so a
  heap array and a sorted list both satisfy it.
\<close>

locale priority_queue =
  fixes push :: "'k::linorder \<Rightarrow> 'q \<Rightarrow> 'q"
    and pop :: "'q \<Rightarrow> ('k \<times> 'q) option"
    and elems :: "'q \<Rightarrow> 'k list"
    and ok :: "'q \<Rightarrow> bool"
  assumes ok_push: "ok q \<Longrightarrow> ok (push k q)"
    and elems_push: "ok q \<Longrightarrow> set (elems (push k q)) = insert k (set (elems q))"
    and pop_None: "ok q \<Longrightarrow> pop q = None \<longleftrightarrow> elems q = []"
    and pop_Some: "ok q \<Longrightarrow> pop q = Some (k, q') \<Longrightarrow>
      ok q' \<and> k \<in> set (elems q) \<and> (\<forall>j \<in> set (elems q). k \<le> j) \<and> set (elems q) = insert k (set (elems q'))"
begin

lemma pop_least: "ok q \<Longrightarrow> pop q = Some (k, q') \<Longrightarrow> k = Min (set (elems q))"
  using pop_Some[of q k q'] by (auto intro!: Min_eqI[symmetric])

lemma pop_monotone:
  assumes "ok q" "pop q = Some (k, q')" "pop q' = Some (j, q'')"
  shows "k \<le> j"
proof -
  from assms(1,2) have q': "ok q'" and k: "\<forall>j \<in> set (elems q). k \<le> j"
    and sub: "set (elems q) = insert k (set (elems q'))"
    using pop_Some by blast+
  from q' assms(3) have "j \<in> set (elems q')" using pop_Some by blast
  with k sub show ?thesis by blast
qed

lemma push_pop_le:
  assumes "ok q" "pop (push k q) = Some (j, q')"
  shows "j \<le> k"
  using pop_Some[OF ok_push[OF assms(1)] assms(2)] elems_push[OF assms(1)] by blast

end

text \<open>An encoder and a decoder that reads back what the encoder wrote.\<close>

locale codec =
  fixes enc :: "'a \<Rightarrow> 'b"
    and dec :: "'b \<Rightarrow> 'a option"
    and wf :: "'a \<Rightarrow> bool"
  assumes dec_enc: "wf x \<Longrightarrow> dec (enc x) = Some x"
begin

lemma enc_inj: "wf x \<Longrightarrow> wf y \<Longrightarrow> enc x = enc y \<Longrightarrow> x = y"
  using dec_enc by (metis option.inject)

lemma dec_enc_dec: "wf x \<Longrightarrow> dec b = Some x \<Longrightarrow> dec (enc x) = dec b"
  by (simp add: dec_enc)

end

text \<open>
  A table of rows with a key: looking a row up and rewriting the row of one key.
\<close>

locale keyed_table =
  fixes lookup :: "'s \<Rightarrow> 'k \<Rightarrow> 'r option"
    and modify :: "'k \<Rightarrow> ('r \<Rightarrow> 'r) \<Rightarrow> 's \<Rightarrow> 's"
    and key :: "'r \<Rightarrow> 'k"
  assumes lookup_key: "lookup s k = Some r \<Longrightarrow> key r = k"
    and lookup_modify: "(\<And>r. key (f r) = key r) \<Longrightarrow>
      lookup (modify k f s) j = (if j = k then map_option f (lookup s k) else lookup s j)"
begin

lemma modify_other: "(\<And>r. key (f r) = key r) \<Longrightarrow> j \<noteq> k \<Longrightarrow> lookup (modify k f s) j = lookup s j"
  by (simp add: lookup_modify)

lemma modify_None: "(\<And>r. key (f r) = key r) \<Longrightarrow> lookup (modify k f s) j = None \<longleftrightarrow> lookup s j = None"
  by (simp add: lookup_modify)

lemma modify_Some:
  "(\<And>r. key (f r) = key r) \<Longrightarrow> lookup s k = Some r \<Longrightarrow> lookup (modify k f s) k = Some (f r)"
  by (simp add: lookup_modify)

end

section \<open>Reachable states of a step relation\<close>

inductive reach :: "('s \<Rightarrow> bool) \<Rightarrow> ('s \<Rightarrow> 's \<Rightarrow> bool) \<Rightarrow> 's \<Rightarrow> bool" for init step where
  reach_init: "init s \<Longrightarrow> reach init step s"
| reach_step: "reach init step s \<Longrightarrow> step s t \<Longrightarrow> reach init step t"

locale invariant_system =
  fixes init :: "'s \<Rightarrow> bool"
    and step :: "'s \<Rightarrow> 's \<Rightarrow> bool"
    and inv :: "'s \<Rightarrow> bool"
  assumes inv_init: "init s \<Longrightarrow> inv s"
    and inv_step: "inv s \<Longrightarrow> step s t \<Longrightarrow> inv t"
begin

lemma reach_inv: "reach init step s \<Longrightarrow> inv s"
  by (induction rule: reach.induct) (auto intro: inv_init inv_step)

lemma reach_ind:
  assumes "reach init step s"
    and "\<And>s. init s \<Longrightarrow> P s"
    and "\<And>s t. reach init step s \<Longrightarrow> inv s \<Longrightarrow> P s \<Longrightarrow> step s t \<Longrightarrow> P t"
  shows "P s"
  using assms(1)
  by (induction rule: reach.induct) (use assms(2,3) reach_inv in blast)+

end

section \<open>Lists\<close>

lemma those_map_Some: "(\<And>x. x \<in> set xs \<Longrightarrow> f x = Some (g x)) \<Longrightarrow> those (map f xs) = Some (map g xs)"
  by (induction xs) auto

lemma find_map_key:
  assumes "\<And>r. key (f r) = key r"
  shows "find (\<lambda>r. key r = j) (map (\<lambda>r. if key r = k then f r else r) rows)
    = (if j = k then map_option f (find (\<lambda>r. key r = k) rows) else find (\<lambda>r. key r = j) rows)"
  by (induction rows) (auto simp: assms)

lemma find_by_key: "find (\<lambda>r. key r = k) rows = Some r \<Longrightarrow> r \<in> set rows \<and> key r = k"
  by (auto simp: find_Some_iff)

lemma map_key_upd:
  "(\<And>r. key (f r) = key r) \<Longrightarrow> map key (map (\<lambda>r. if P r then f r else r) rows) = map key rows"
  by (induction rows) auto

lemma length_filter_remove1:
  "distinct xs \<Longrightarrow> x \<in> set xs \<Longrightarrow>
    length (filter P xs) = length (filter P (remove1 x xs)) + (if P x then 1 else 0)"
  by (induction xs) auto

lemma filter_cong_upd:
  "x \<notin> set xs \<Longrightarrow> filter (\<lambda>n. Q ((f(x := v)) n)) xs = filter (\<lambda>n. Q (f n)) xs"
  by (rule filter_cong) auto

end
