(* ===== verification/AgentSlots.thy ===== *)
theory AgentSlots
  imports Prelude "HOL-Library.Product_Lexorder"
begin

text \<open>
  \<open>app/agent_slots.py\<close>: the pod-level pool of agent process slots. A request that
  finds a free slot is granted at once, otherwise its ticket waits in a heap ordered
  by (priority, sequence); a released slot is handed to the first waiter without
  touching the counter \<open>_in_use\<close>.

  Tickets and leases are shared, mutable Python objects; the model keeps them in two
  stores of the manager record, indexed by the ticket's sequence number (unique, and a
  ticket gets at most one lease). Times are microseconds, priorities tenths
  (\<open>API_FILTER = 4.5\<close> is 45). \<open>heapq\<close> is modelled by its contract, a list kept
  sorted by key. \<open>loop.call_soon_threadsafe\<close> either schedules the wake-up
  (\<open>tk_fut_done\<close>) or raises because the waiter's event loop is closed. The session
  metrics written by \<open>acquire\<close> (best effort, exceptions swallowed) are left out.
\<close>

section \<open>Data\<close>

datatype sem_priority =
  R1_J | R1_W | R2_J | R2_W | API_FILTER | R3_J | R3_W | R4_J | R4_W | R5_J | R5_W | DEFAULT

fun sem_value :: "sem_priority \<Rightarrow> int" where
  "sem_value R1_J = 10"
| "sem_value R1_W = 20"
| "sem_value R2_J = 30"
| "sem_value R2_W = 40"
| "sem_value API_FILTER = 45"
| "sem_value R3_J = 50"
| "sem_value R3_W = 60"
| "sem_value R4_J = 70"
| "sem_value R4_W = 80"
| "sem_value R5_J = 90"
| "sem_value R5_W = 100"
| "sem_value DEFAULT = 990"

definition agent_process_limit_default :: int where
  "agent_process_limit_default = 8"

definition agent_process_limit_limit :: int where
  "agent_process_limit_limit = 128"

text \<open>\<open>None\<close> is a value on which Python's \<open>int()\<close> raises TypeError or ValueError.\<close>

definition normalize_agent_process_limit :: "int option \<Rightarrow> int" where
  "normalize_agent_process_limit v =
     (case v of
        None \<Rightarrow> agent_process_limit_default
      | Some c \<Rightarrow> if c < 1 then 1 else min c agent_process_limit_limit)"

definition wait_histogram_buckets :: "micros list" where
  "wait_histogram_buckets =
     [10000, 100000, 500000, 1000000, 3000000, 10000000, 30000000, 60000000, 300000000]"

record ticket =
  tk_priority :: int
  tk_task :: "string option"
  tk_stage :: "string option"
  tk_role :: "string option"
  tk_requested :: micros
  tk_loop_open :: bool
  tk_fut_done :: bool
  tk_cancelled :: bool
  tk_awarded :: bool

record lease =
  ls_requested :: micros
  ls_acquired :: micros
  ls_wait :: micros
  ls_waited :: bool
  ls_pid :: "int option"
  ls_released :: bool

record slot_mgr =
  sm_capacity :: int
  sm_waiters :: "(int \<times> nat) list"
  sm_in_use :: int
  sm_leases :: "nat list"
  sm_sequence :: nat
  sm_total_acquires :: nat
  sm_wait_samples :: nat
  sm_total_wait :: micros
  sm_max_wait :: micros
  sm_histogram :: "(micros \<times> nat) list"
  sm_ticket :: "nat \<Rightarrow> ticket"
  sm_lease :: "nat \<Rightarrow> lease"

definition no_ticket :: ticket where
  "no_ticket = \<lparr>tk_priority = 0, tk_task = None, tk_stage = None, tk_role = None, tk_requested = 0,
     tk_loop_open = True, tk_fut_done = False, tk_cancelled = False, tk_awarded = False\<rparr>"

definition no_lease :: lease where
  "no_lease = \<lparr>ls_requested = 0, ls_acquired = 0, ls_wait = 0, ls_waited = False, ls_pid = None,
     ls_released = False\<rparr>"

definition slot_mgr_init :: "int \<Rightarrow> slot_mgr" where
  "slot_mgr_init cap =
     \<lparr>sm_capacity = max 1 cap, sm_waiters = [], sm_in_use = 0, sm_leases = [], sm_sequence = 0,
      sm_total_acquires = 0, sm_wait_samples = 0, sm_total_wait = 0, sm_max_wait = 0,
      sm_histogram = map (\<lambda>b. (b, 0)) wait_histogram_buckets,
      sm_ticket = (\<lambda>_. no_ticket), sm_lease = (\<lambda>_. no_lease)\<rparr>"

section \<open>Operations\<close>

fun bump_histogram :: "micros \<Rightarrow> (micros \<times> nat) list \<Rightarrow> (micros \<times> nat) list" where
  "bump_histogram w [] = []"
| "bump_histogram w ((b, c) # h) = (if w \<le> b then (b, c + 1) # h else (b, c) # bump_histogram w h)"

definition record_wait :: "micros \<Rightarrow> slot_mgr \<Rightarrow> slot_mgr" where
  "record_wait w m = m\<lparr>sm_wait_samples := sm_wait_samples m + 1,
     sm_total_wait := sm_total_wait m + max 0 w,
     sm_max_wait := max (sm_max_wait m) w,
     sm_histogram := bump_histogram w (sm_histogram m)\<rparr>"

definition heappush :: "int \<times> nat \<Rightarrow> (int \<times> nat) list \<Rightarrow> (int \<times> nat) list" where
  "heappush k q = insort k q"

fun heappop :: "(int \<times> nat) list \<Rightarrow> ((int \<times> nat) \<times> (int \<times> nat) list) option" where
  "heappop [] = None"
| "heappop (k # q) = Some (k, q)"

definition upd_ticket :: "nat \<Rightarrow> (ticket \<Rightarrow> ticket) \<Rightarrow> slot_mgr \<Rightarrow> slot_mgr" where
  "upd_ticket n f m = m\<lparr>sm_ticket := (sm_ticket m)(n := f (sm_ticket m n))\<rparr>"

definition wake_ticket :: "nat \<Rightarrow> slot_mgr \<Rightarrow> slot_mgr" where
  "wake_ticket n m =
     (let t = sm_ticket m n in
      if tk_fut_done t then m
      else if tk_loop_open t then upd_ticket n (tk_fut_done_update (\<lambda>_. True)) m
      else upd_ticket n (tk_cancelled_update (\<lambda>_. True)) m)"

fun award_loop :: "(int \<times> nat) list \<Rightarrow> slot_mgr \<Rightarrow> slot_mgr \<times> bool" where
  "award_loop [] m = (m\<lparr>sm_waiters := []\<rparr>, False)"
| "award_loop ((p, n) # ws) m =
     (if tk_cancelled (sm_ticket m n) then award_loop ws m
      else (wake_ticket n (upd_ticket n (tk_awarded_update (\<lambda>_. True)) (m\<lparr>sm_waiters := ws\<rparr>)), True))"

definition award_next_waiter :: "slot_mgr \<Rightarrow> slot_mgr \<times> bool" where
  "award_next_waiter m = award_loop (sm_waiters m) m"

text \<open>The tail that \<open>release\<close>, the cancel paths and \<open>force_release_orphaned\<close> share.\<close>

definition hand_over :: "slot_mgr \<Rightarrow> slot_mgr" where
  "hand_over m =
     (case award_next_waiter m of
        (m', awarded) \<Rightarrow> if awarded then m' else m'\<lparr>sm_in_use := max 0 (sm_in_use m' - 1)\<rparr>)"

lemma award_loop_frame:
  "award_loop ws m = (m', b) \<Longrightarrow>
    sm_capacity m' = sm_capacity m \<and> sm_in_use m' = sm_in_use m \<and> sm_leases m' = sm_leases m \<and>
    sm_sequence m' = sm_sequence m \<and> sm_lease m' = sm_lease m"
  by (induction ws m rule: award_loop.induct)
    (auto simp: wake_ticket_def upd_ticket_def Let_def split: if_splits)

function fill_slots :: "slot_mgr \<Rightarrow> slot_mgr" where
  "fill_slots m =
     (if sm_in_use m < sm_capacity m then
        (case award_next_waiter m of
           (m', awarded) \<Rightarrow>
             if awarded then fill_slots (m'\<lparr>sm_in_use := sm_in_use m' + 1\<rparr>) else m')
      else m)"
  by pat_completeness auto
termination
  by (relation "measure (\<lambda>m. nat (sm_capacity m - sm_in_use m))")
    (auto simp: award_next_waiter_def dest!: award_loop_frame[OF sym])

declare fill_slots.simps [simp del]

definition set_capacity :: "int option \<Rightarrow> slot_mgr \<Rightarrow> slot_mgr" where
  "set_capacity c m = fill_slots (m\<lparr>sm_capacity := normalize_agent_process_limit c\<rparr>)"

record slot_request =
  rq_priority :: int
  rq_task :: "string option"
  rq_stage :: "string option"
  rq_role :: "string option"
  rq_loop_open :: bool

datatype acquire_outcome = Granted nat | Waiting nat

definition new_ticket :: "slot_request \<Rightarrow> micros \<Rightarrow> ticket" where
  "new_ticket rq t0 = \<lparr>tk_priority = rq_priority rq, tk_task = norm_opt (rq_task rq),
     tk_stage = norm_opt (rq_stage rq), tk_role = norm_opt (rq_role rq), tk_requested = t0,
     tk_loop_open = rq_loop_open rq, tk_fut_done = False, tk_cancelled = False, tk_awarded = False\<rparr>"

definition grant :: "nat \<Rightarrow> micros \<Rightarrow> micros \<Rightarrow> bool \<Rightarrow> slot_mgr \<Rightarrow> slot_mgr" where
  "grant n now at waited m =
     (let t0 = tk_requested (sm_ticket m n); w = max 0 (now - t0);
          m1 = record_wait w (m\<lparr>sm_total_acquires := sm_total_acquires m + 1\<rparr>)
      in m1\<lparr>sm_leases := sm_leases m1 @ [n],
            sm_lease := (sm_lease m1)(n := \<lparr>ls_requested = t0, ls_acquired = at, ls_wait = w,
              ls_waited = waited, ls_pid = None, ls_released = False\<rparr>)\<rparr>)"

text \<open>
  \<open>acquire\<close> up to its first suspension point: \<open>t0\<close>, \<open>t1\<close>, \<open>t2\<close> are the clock
  readings at the request, at the grant and in the lease.
\<close>

definition acquire_begin ::
  "slot_request \<Rightarrow> micros \<Rightarrow> micros \<Rightarrow> micros \<Rightarrow> slot_mgr \<Rightarrow> slot_mgr \<times> acquire_outcome" where
  "acquire_begin rq t0 t1 t2 m =
     (let n = sm_sequence m + 1;
          m1 = upd_ticket n (\<lambda>_. new_ticket rq t0) (m\<lparr>sm_sequence := n\<rparr>)
      in if sm_in_use m1 < sm_capacity m1
         then (grant n t1 t2 False (m1\<lparr>sm_in_use := sm_in_use m1 + 1\<rparr>), Granted n)
         else (m1\<lparr>sm_waiters := heappush (rq_priority rq, n) (sm_waiters m1)\<rparr>, Waiting n))"

datatype resume_outcome = Acquired | CancelledErr | StillWaiting

text \<open>The waiter's own coroutine after \<open>asyncio.wait\<close> returned without a cancellation.\<close>

definition acquire_resume :: "nat \<Rightarrow> micros \<Rightarrow> micros \<Rightarrow> slot_mgr \<Rightarrow> slot_mgr \<times> resume_outcome" where
  "acquire_resume n now at m =
     (let t = sm_ticket m n in
      if tk_cancelled t then (m, CancelledErr)
      else if tk_awarded t then (grant n now at True m, Acquired)
      else (upd_ticket n (tk_fut_done_update (\<lambda>_. False)) m, StillWaiting))"

text \<open>Both cancellation paths of \<open>acquire\<close>: a slot already awarded is passed on.\<close>

definition acquire_abort :: "nat \<Rightarrow> slot_mgr \<Rightarrow> slot_mgr" where
  "acquire_abort n m =
     (if tk_awarded (sm_ticket m n) then hand_over m
      else let m1 = upd_ticket n (tk_cancelled_update (\<lambda>_. True)) m
           in m1\<lparr>sm_waiters := filter (\<lambda>(p, k). k \<noteq> n) (sm_waiters m1)\<rparr>)"

definition slot_release :: "nat \<Rightarrow> slot_mgr \<Rightarrow> slot_mgr" where
  "slot_release n m =
     (let m1 = m\<lparr>sm_leases := remove1 n (sm_leases m)\<rparr> in
      if sm_in_use m1 > sm_capacity m1 then m1\<lparr>sm_in_use := max 0 (sm_in_use m1 - 1)\<rparr>
      else hand_over m1)"

definition lease_bind_pid :: "nat \<Rightarrow> int option \<Rightarrow> slot_mgr \<Rightarrow> slot_mgr" where
  "lease_bind_pid n pid m =
     m\<lparr>sm_lease := (sm_lease m)(n := (sm_lease m n)\<lparr>ls_pid :=
        (case pid of None \<Rightarrow> None | Some p \<Rightarrow> if p = 0 then None else Some p)\<rparr>)\<rparr>"

definition lease_release :: "nat \<Rightarrow> slot_mgr \<Rightarrow> slot_mgr" where
  "lease_release n m =
     (if ls_released (sm_lease m n) then m
      else slot_release n
        (m\<lparr>sm_lease := (sm_lease m)(n := (sm_lease m n)\<lparr>ls_released := True\<rparr>)\<rparr>))"

text \<open>\<open>os.kill(pid, 0)\<close>: no error, ProcessLookupError or PermissionError.\<close>

datatype kill_probe = ProbeAlive | ProbeGone | ProbeDenied

definition lease_dead :: "(int \<Rightarrow> kill_probe) \<Rightarrow> micros \<Rightarrow> micros \<Rightarrow> lease \<Rightarrow> bool" where
  "lease_dead kill now stale l =
     (case ls_pid l of
        Some pid \<Rightarrow> kill pid = ProbeGone
      | None \<Rightarrow> now - ls_acquired l > stale)"

definition retire_lease :: "nat \<Rightarrow> slot_mgr \<Rightarrow> slot_mgr" where
  "retire_lease n m = hand_over (m\<lparr>sm_leases := remove1 n (sm_leases m)\<rparr>)"

definition force_release_orphaned ::
  "(int \<Rightarrow> kill_probe) \<Rightarrow> micros \<Rightarrow> micros \<Rightarrow> slot_mgr \<Rightarrow> slot_mgr \<times> nat" where
  "force_release_orphaned kill now stale m =
     (let dead_ids = filter (\<lambda>n. lease_dead kill now stale (sm_lease m n)) (sm_leases m)
      in (fold retire_lease dead_ids m, length dead_ids))"

record slot_snapshot =
  sn_capacity :: int
  sn_in_use :: int
  sn_available :: int
  sn_waiting_requests :: nat
  sn_waiting_task_ids :: "string list"
  sn_waiting_tasks :: nat
  sn_oldest_wait :: micros
  sn_rss_total :: int
  sn_rss_max :: int
  sn_total_acquires :: nat

definition slot_snapshot_of :: "(int option \<Rightarrow> int) \<Rightarrow> micros \<Rightarrow> slot_mgr \<Rightarrow> slot_snapshot" where
  "slot_snapshot_of rss now m =
     (let rows = filter (\<lambda>t. \<not> tk_cancelled t) (map (\<lambda>(p, n). sm_ticket m n) (sm_waiters m));
          ids = sort (remdups (filter (\<lambda>s. s \<noteq> []) (map (or_empty \<circ> tk_task) rows)));
          rs = map (\<lambda>n. rss (ls_pid (sm_lease m n))) (sm_leases m)
      in \<lparr>sn_capacity = sm_capacity m, sn_in_use = sm_in_use m,
          sn_available = max 0 (sm_capacity m - sm_in_use m),
          sn_waiting_requests = length rows, sn_waiting_task_ids = ids,
          sn_waiting_tasks = length ids,
          sn_oldest_wait = (case rows of [] \<Rightarrow> 0 | t # _ \<Rightarrow> max 0 (now - tk_requested t)),
          sn_rss_total = sum_list rs,
          sn_rss_max = (case rs of [] \<Rightarrow> 0 | x # xs \<Rightarrow> foldl max x xs),
          sn_total_acquires = sm_total_acquires m\<rparr>)"

lemmas slot_op_defs = hand_over_def slot_release_def lease_release_def acquire_abort_def
  acquire_resume_def acquire_begin_def grant_def record_wait_def upd_ticket_def Let_def

section \<open>The heap is a priority queue\<close>

interpretation slot_heap: priority_queue heappush heappop "\<lambda>q. q" sorted
proof unfold_locales
  fix q q' :: "(int \<times> nat) list" and k :: "int \<times> nat"
  show "sorted q \<Longrightarrow> sorted (heappush k q)"
    by (simp add: heappush_def sorted_insort)
  show "set (heappush k q) = insert k (set q)"
    by (simp add: heappush_def set_insort_key)
  show "(heappop q = None) = (q = [])"
    by (cases q) auto
  show "sorted q \<Longrightarrow> heappop q = Some (k, q') \<Longrightarrow>
    sorted q' \<and> k \<in> set q \<and> (\<forall>j\<in>set q. k \<le> j) \<and> set q = insert k (set q')"
    by (cases q) auto
qed

end
