(* ===== verification/AgentSlotsSafety.thy ===== *)
theory AgentSlotsSafety
  imports AgentSlots "HOL-Library.Multiset"
begin

text \<open>
  The slot manager as a transition system: the manager together with the \<open>acquire\<close>
  calls suspended in \<open>asyncio.wait\<close> and the leases whose holder has not released them.
  \<open>slot_step\<close> has one rule per operation of the API; \<open>slot_fault\<close> adds the two
  situations the code treats specially, a waiter whose event loop was closed and the
  forced release of leases judged orphaned.
\<close>

record slot_sys =
  sy_mgr :: slot_mgr
  sy_blocked :: "nat list"
  sy_holders :: "nat list"

inductive slot_step :: "slot_sys \<Rightarrow> slot_sys \<Rightarrow> bool" where
  step_granted:
    "rq_loop_open rq \<Longrightarrow> acquire_begin rq t0 t1 t2 (sy_mgr s) = (m', Granted n) \<Longrightarrow>
     slot_step s (s\<lparr>sy_mgr := m', sy_holders := n # sy_holders s\<rparr>)"
| step_waiting:
    "rq_loop_open rq \<Longrightarrow> acquire_begin rq t0 t1 t2 (sy_mgr s) = (m', Waiting n) \<Longrightarrow>
     slot_step s (s\<lparr>sy_mgr := m', sy_blocked := n # sy_blocked s\<rparr>)"
| step_resumed:
    "n \<in> set (sy_blocked s) \<Longrightarrow> tk_fut_done (sm_ticket (sy_mgr s) n) \<Longrightarrow>
     acquire_resume n now at (sy_mgr s) = (m', Acquired) \<Longrightarrow>
     slot_step s (s\<lparr>sy_mgr := m', sy_blocked := remove1 n (sy_blocked s),
       sy_holders := n # sy_holders s\<rparr>)"
| step_resume_cancelled:
    "n \<in> set (sy_blocked s) \<Longrightarrow> tk_fut_done (sm_ticket (sy_mgr s) n) \<Longrightarrow>
     acquire_resume n now at (sy_mgr s) = (m', CancelledErr) \<Longrightarrow>
     slot_step s (s\<lparr>sy_mgr := m', sy_blocked := remove1 n (sy_blocked s)\<rparr>)"
| step_spurious:
    "n \<in> set (sy_blocked s) \<Longrightarrow> tk_fut_done (sm_ticket (sy_mgr s) n) \<Longrightarrow>
     acquire_resume n now at (sy_mgr s) = (m', StillWaiting) \<Longrightarrow>
     slot_step s (s\<lparr>sy_mgr := m'\<rparr>)"
| step_abort:
    "n \<in> set (sy_blocked s) \<Longrightarrow>
     slot_step s (s\<lparr>sy_mgr := acquire_abort n (sy_mgr s), sy_blocked := remove1 n (sy_blocked s)\<rparr>)"
| step_bind:
    "n \<in> set (sy_holders s) \<Longrightarrow> slot_step s (s\<lparr>sy_mgr := lease_bind_pid n pid (sy_mgr s)\<rparr>)"
| step_release:
    "n \<in> set (sy_holders s) \<Longrightarrow>
     slot_step s (s\<lparr>sy_mgr := lease_release n (sy_mgr s), sy_holders := remove1 n (sy_holders s)\<rparr>)"
| step_capacity:
    "slot_step s (s\<lparr>sy_mgr := set_capacity c (sy_mgr s)\<rparr>)"

inductive slot_fault :: "slot_sys \<Rightarrow> slot_sys \<Rightarrow> bool" where
  fault_loop_closed:
    "n \<in> set (sy_blocked s) \<Longrightarrow>
     slot_fault s (s\<lparr>sy_mgr := upd_ticket n (tk_loop_open_update (\<lambda>_. False)) (sy_mgr s)\<rparr>)"
| fault_force_release:
    "slot_fault s (s\<lparr>sy_mgr := fst (force_release_orphaned kill now stale (sy_mgr s))\<rparr>)"

definition slot_init :: "slot_sys \<Rightarrow> bool" where
  "slot_init s \<longleftrightarrow> (\<exists>cap. s = \<lparr>sy_mgr = slot_mgr_init cap, sy_blocked = [], sy_holders = []\<rparr>)"

definition slot_any :: "slot_sys \<Rightarrow> slot_sys \<Rightarrow> bool" where
  "slot_any s t \<longleftrightarrow> slot_step s t \<or> slot_fault s t"

section \<open>The invariant\<close>

text \<open>
  \<open>slot_core k\<close> holds in the middle of an operation, when \<open>k\<close> slots are counted in
  \<open>_in_use\<close> that belong neither to a registered lease nor to an awarded waiter.
\<close>

definition live_waiter :: "slot_mgr \<Rightarrow> nat \<Rightarrow> bool" where
  "live_waiter m n \<longleftrightarrow> \<not> tk_cancelled (sm_ticket m n) \<and> \<not> tk_awarded (sm_ticket m n) \<and>
     \<not> tk_fut_done (sm_ticket m n) \<and> tk_loop_open (sm_ticket m n)"

definition waiters_ok :: "slot_mgr \<Rightarrow> nat list \<Rightarrow> bool" where
  "waiters_ok m bs \<longleftrightarrow> sorted (sm_waiters m) \<and> distinct (map snd (sm_waiters m)) \<and>
     (\<forall>(p, n) \<in> set (sm_waiters m). n \<in> set bs \<and> p = tk_priority (sm_ticket m n) \<and> live_waiter m n)"

definition blocked_ok :: "slot_mgr \<Rightarrow> nat list \<Rightarrow> bool" where
  "blocked_ok m bs \<longleftrightarrow> distinct bs \<and>
     (\<forall>n \<in> set bs. n \<le> sm_sequence m \<and> \<not> tk_cancelled (sm_ticket m n) \<and>
        (tk_awarded (sm_ticket m n) \<longleftrightarrow> n \<notin> snd ` set (sm_waiters m)) \<and>
        (tk_fut_done (sm_ticket m n) \<longleftrightarrow> tk_awarded (sm_ticket m n)))"

definition holders_ok :: "slot_mgr \<Rightarrow> nat list \<Rightarrow> nat list \<Rightarrow> bool" where
  "holders_ok m bs hs \<longleftrightarrow> distinct hs \<and> set hs \<inter> set bs = {} \<and> distinct (sm_leases m) \<and>
     set (sm_leases m) = set hs \<and>
     (\<forall>n \<in> set hs. n \<le> sm_sequence m \<and> \<not> ls_released (sm_lease m n))"

definition awarded_count :: "slot_mgr \<Rightarrow> nat list \<Rightarrow> nat" where
  "awarded_count m bs = length (filter (\<lambda>n. tk_awarded (sm_ticket m n)) bs)"

definition slot_core :: "int \<Rightarrow> slot_mgr \<Rightarrow> nat list \<Rightarrow> nat list \<Rightarrow> bool" where
  "slot_core k m bs hs \<longleftrightarrow> waiters_ok m bs \<and> blocked_ok m bs \<and> holders_ok m bs hs \<and>
     sm_in_use m = int (length (sm_leases m)) + int (awarded_count m bs) + k"

definition no_idle :: "slot_mgr \<Rightarrow> bool" where
  "no_idle m \<longleftrightarrow> 1 \<le> sm_capacity m \<and> (sm_waiters m \<noteq> [] \<longrightarrow> sm_capacity m \<le> sm_in_use m)"

definition slot_inv :: "slot_sys \<Rightarrow> bool" where
  "slot_inv s \<longleftrightarrow> slot_core 0 (sy_mgr s) (sy_blocked s) (sy_holders s) \<and> no_idle (sy_mgr s)"

lemmas slot_ok_defs = slot_core_def waiters_ok_def blocked_ok_def holders_ok_def awarded_count_def
  live_waiter_def

section \<open>Awarding\<close>

definition mark_awarded :: "nat \<Rightarrow> slot_mgr \<Rightarrow> slot_mgr" where
  "mark_awarded n m = upd_ticket n (\<lambda>t. t\<lparr>tk_awarded := True, tk_fut_done := True\<rparr>) m"

lemma award_live:
  assumes "waiters_ok m bs"
  shows "award_next_waiter m =
    (case sm_waiters m of
       [] \<Rightarrow> (m, False)
     | (p, n) # ws \<Rightarrow> (mark_awarded n (m\<lparr>sm_waiters := ws\<rparr>), True))"
  using assms
  by (cases "sm_waiters m")
    (auto simp: award_next_waiter_def waiters_ok_def live_waiter_def wake_ticket_def upd_ticket_def
      mark_awarded_def Let_def split: prod.splits)

lemma mark_awarded_simps [simp]:
  "sm_capacity (mark_awarded n m) = sm_capacity m" "sm_in_use (mark_awarded n m) = sm_in_use m"
  "sm_leases (mark_awarded n m) = sm_leases m" "sm_sequence (mark_awarded n m) = sm_sequence m"
  "sm_lease (mark_awarded n m) = sm_lease m" "sm_waiters (mark_awarded n m) = sm_waiters m"
  "sm_ticket (mark_awarded n m) = (sm_ticket m)(n := (sm_ticket m n)\<lparr>tk_awarded := True, tk_fut_done := True\<rparr>)"
  by (simp_all add: mark_awarded_def upd_ticket_def)

lemma hand_over_live:
  assumes "waiters_ok m bs"
  shows "hand_over m =
    (case sm_waiters m of
       [] \<Rightarrow> m\<lparr>sm_in_use := max 0 (sm_in_use m - 1)\<rparr>
     | (p, n) # ws \<Rightarrow> mark_awarded n (m\<lparr>sm_waiters := ws\<rparr>))"
  by (simp add: hand_over_def award_live[OF assms] split: list.split prod.split)

lemma awarded_count_other:
  "sm_ticket m' = (sm_ticket m)(x := t) \<Longrightarrow> x \<notin> set bs \<Longrightarrow> awarded_count m' bs = awarded_count m bs"
  unfolding awarded_count_def by (intro arg_cong[of _ _ length] filter_cong) auto

lemma awarded_count_mark:
  assumes "distinct bs" "n \<in> set bs" "\<not> tk_awarded (sm_ticket m n)"
  shows "awarded_count (mark_awarded n (m\<lparr>sm_waiters := ws\<rparr>)) bs = awarded_count m bs + 1"
proof -
  have "length (filter P bs) = length (filter P (remove1 n bs)) + (if P n then 1 else 0)" for P
    using assms(1,2) by (rule length_filter_remove1)
  moreover have "filter (\<lambda>k. tk_awarded (sm_ticket (mark_awarded n (m\<lparr>sm_waiters := ws\<rparr>)) k)) (remove1 n bs)
      = filter (\<lambda>k. tk_awarded (sm_ticket m k)) (remove1 n bs)"
    using assms(1) by (intro filter_cong) auto
  ultimately show ?thesis using assms(3) by (simp add: awarded_count_def)
qed

lemma award_core:
  assumes core: "slot_core k m bs hs" and w: "sm_waiters m = (p, n) # ws"
  shows "slot_core (k - 1) (mark_awarded n (m\<lparr>sm_waiters := ws\<rparr>)) bs hs"
proof -
  from core w have n: "n \<in> set bs" "live_waiter m n" "n \<notin> snd ` set ws" "distinct bs"
    by (auto simp: slot_ok_defs)
  have "awarded_count (mark_awarded n (m\<lparr>sm_waiters := ws\<rparr>)) bs = awarded_count m bs + 1"
    using n by (intro awarded_count_mark) (auto simp: live_waiter_def)
  moreover have "waiters_ok (mark_awarded n (m\<lparr>sm_waiters := ws\<rparr>)) bs"
  proof -
    have "\<forall>(q, k) \<in> set ws. k \<noteq> n" using n(3) by force
    moreover have "\<forall>(q, k) \<in> set ws. k \<in> set bs \<and> q = tk_priority (sm_ticket m k) \<and> live_waiter m k"
      and "sorted ws" "distinct (map snd ws)"
      using core w by (simp_all add: slot_core_def waiters_ok_def)
    ultimately show ?thesis by (fastforce simp: waiters_ok_def live_waiter_def)
  qed
  moreover have "blocked_ok (mark_awarded n (m\<lparr>sm_waiters := ws\<rparr>)) bs"
    using core w n by (auto simp: slot_ok_defs)
  moreover have "holders_ok (mark_awarded n (m\<lparr>sm_waiters := ws\<rparr>)) bs hs"
    using core by (auto simp: slot_core_def holders_ok_def)
  ultimately show ?thesis using core by (simp add: slot_core_def)
qed

lemma hand_over_core:
  assumes core: "slot_core 1 m bs hs"
  shows "slot_core 0 (hand_over m) bs hs"
proof (cases "sm_waiters m")
  case Nil
  then have "hand_over m = m\<lparr>sm_in_use := max 0 (sm_in_use m - 1)\<rparr>"
    using core hand_over_live[of m bs] by (simp add: slot_core_def)
  then show ?thesis using core by (simp add: slot_ok_defs)
next
  case (Cons w ws)
  then obtain p n where "sm_waiters m = (p, n) # ws" by (cases w) auto
  moreover from this core have "hand_over m = mark_awarded n (m\<lparr>sm_waiters := ws\<rparr>)"
    using hand_over_live[of m bs] by (simp add: slot_core_def)
  ultimately show ?thesis using award_core[OF core] by simp
qed

lemma hand_over_no_idle:
  assumes "waiters_ok m bs" "no_idle m"
  shows "no_idle (hand_over m)"
  using assms by (cases "sm_waiters m") (auto simp: hand_over_live[OF assms(1)] no_idle_def)

section \<open>Preservation, operation by operation\<close>

lemma fill_slots_core:
  "slot_core 0 m bs hs \<Longrightarrow> 1 \<le> sm_capacity m \<Longrightarrow>
    slot_core 0 (fill_slots m) bs hs \<and> no_idle (fill_slots m)"
proof (induction m rule: fill_slots.induct)
  case (1 m)
  from "1.prems" have w: "waiters_ok m bs" by (simp add: slot_core_def)
  show ?case
  proof (cases "sm_in_use m < sm_capacity m \<and> sm_waiters m \<noteq> []")
    case True
    then obtain p n ws where ws: "sm_waiters m = (p, n) # ws" by (cases "sm_waiters m") auto
    let ?m = "mark_awarded n (m\<lparr>sm_waiters := ws\<rparr>)"
    from ws w have aw: "award_next_waiter m = (?m, True)" by (simp add: award_live)
    have "slot_core (-1) ?m bs hs" using award_core[OF "1.prems"(1) ws] by simp
    then have "slot_core 0 (?m\<lparr>sm_in_use := sm_in_use ?m + 1\<rparr>) bs hs"
      by (simp add: slot_ok_defs)
    with "1.IH"[OF _ aw[symmetric]] True "1.prems"(2) aw show ?thesis
      by (simp add: fill_slots.simps[of m])
  next
    case False
    with "1.prems" w show ?thesis
      by (auto simp: fill_slots.simps[of m] award_live no_idle_def)
  qed
qed

lemma normalize_limit_ge1: "1 \<le> normalize_agent_process_limit c"
  by (auto simp: normalize_agent_process_limit_def agent_process_limit_default_def
      agent_process_limit_limit_def split: option.splits)

lemma set_capacity_inv: "slot_core 0 m bs hs \<Longrightarrow> slot_core 0 (set_capacity c m) bs hs \<and> no_idle (set_capacity c m)"
  unfolding set_capacity_def by (rule fill_slots_core) (auto simp: slot_ok_defs normalize_limit_ge1)

lemma acquire_begin_split:
  "acquire_begin rq t0 t1 t2 m = (m', out) \<Longrightarrow>
     (sm_in_use m < sm_capacity m \<and> out = Granted (sm_sequence m + 1)) \<or>
     (sm_capacity m \<le> sm_in_use m \<and> out = Waiting (sm_sequence m + 1))"
  by (auto simp: acquire_begin_def upd_ticket_def Let_def split: if_splits)

lemma core_fresh:
  "slot_core k m bs hs \<Longrightarrow> Suc (sm_sequence m) \<notin> set bs \<and> Suc (sm_sequence m) \<notin> set hs \<and>
     Suc (sm_sequence m) \<notin> snd ` set (sm_waiters m)"
  by (fastforce simp: slot_ok_defs)

lemma granted_core:
  assumes core: "slot_core 0 m bs hs" "no_idle m"
    and acq: "acquire_begin rq t0 t1 t2 m = (m', Granted n)"
  shows "slot_core 0 m' bs (n # hs) \<and> no_idle m'"
proof -
  let ?n = "Suc (sm_sequence m)"
  from acq acquire_begin_split[OF acq] have n: "n = ?n" and lt: "sm_in_use m < sm_capacity m" by auto
  note fresh = core_fresh[OF core(1)]
  from lt core(2) have nil: "sm_waiters m = []" by (auto simp: no_idle_def)
  have tk: "sm_ticket m' = (sm_ticket m)(?n := new_ticket rq t0)"
    and ls: "sm_leases m' = sm_leases m @ [?n]" "sm_waiters m' = []" "sm_in_use m' = sm_in_use m + 1"
      "sm_capacity m' = sm_capacity m" "sm_sequence m' = ?n"
    and lo: "\<not> ls_released (sm_lease m' ?n)" "\<And>k. k \<noteq> ?n \<Longrightarrow> sm_lease m' k = sm_lease m k"
    using acq nil lt by (auto simp: slot_op_defs)
  have cnt: "awarded_count m' bs = awarded_count m bs"
    using awarded_count_other[OF tk] fresh by simp
  have "waiters_ok m' bs" by (simp add: waiters_ok_def ls)
  moreover have "blocked_ok m' bs"
    using core(1) fresh nil by (auto simp: slot_core_def blocked_ok_def tk ls)
  moreover have "holders_ok m' bs (n # hs)"
    using core(1) fresh lo n by (auto simp: slot_core_def holders_ok_def ls)
  moreover have "no_idle m'" using core(2) by (simp add: no_idle_def ls)
  ultimately show ?thesis using core(1) cnt by (simp add: slot_core_def ls n)
qed

lemma waiting_core:
  assumes core: "slot_core 0 m bs hs" "no_idle m" and op: "rq_loop_open rq"
    and acq: "acquire_begin rq t0 t1 t2 m = (m', Waiting n)"
  shows "slot_core 0 m' (n # bs) hs \<and> no_idle m'"
proof -
  let ?n = "Suc (sm_sequence m)"
  from acq acquire_begin_split[OF acq] have n: "n = ?n" and ge: "sm_capacity m \<le> sm_in_use m" by auto
  note fresh = core_fresh[OF core(1)]
  have m': "m' = upd_ticket ?n (\<lambda>_. new_ticket rq t0)
      (m\<lparr>sm_sequence := ?n, sm_waiters := insort (rq_priority rq, ?n) (sm_waiters m)\<rparr>)"
    using acq ge by (auto simp: acquire_begin_def upd_ticket_def Let_def heappush_def)
  have tk: "sm_ticket m' = (sm_ticket m)(?n := new_ticket rq t0)" by (simp add: m' upd_ticket_def)
  have ws: "sm_waiters m' = insort (rq_priority rq, ?n) (sm_waiters m)" by (simp add: m' upd_ticket_def)
  have frame: "sm_leases m' = sm_leases m" "sm_in_use m' = sm_in_use m" "sm_capacity m' = sm_capacity m"
    "sm_sequence m' = ?n" "sm_lease m' = sm_lease m"
    by (simp_all add: m' upd_ticket_def)
  have nt: "live_waiter m' ?n" "tk_priority (sm_ticket m' ?n) = rq_priority rq"
    using op by (simp_all add: tk live_waiter_def new_ticket_def)
  have cnt: "awarded_count m' (?n # bs) = awarded_count m bs"
    using fresh nt by (auto simp: awarded_count_def tk live_waiter_def new_ticket_def
        intro!: arg_cong[of _ _ length] filter_cong)
  have "mset (map snd (sm_waiters m')) = add_mset ?n (mset (map snd (sm_waiters m)))"
    by (simp add: ws)
  then have "distinct (map snd (sm_waiters m'))"
    using core(1) fresh by (metis (no_types, lifting) distinct.simps(2) list.set_map mset.simps(2)
        mset_eq_imp_distinct_iff slot_core_def waiters_ok_def)
  moreover have "\<forall>(p, k) \<in> set (sm_waiters m'). k \<in> set (?n # bs) \<and> p = tk_priority (sm_ticket m' k) \<and> live_waiter m' k"
    using core(1) fresh nt by (fastforce simp: ws set_insort_key tk slot_core_def waiters_ok_def live_waiter_def)
  ultimately have "waiters_ok m' (?n # bs)"
    using core(1) by (simp add: waiters_ok_def slot_core_def ws sorted_insort)
  moreover have "blocked_ok m' (?n # bs)"
    using core(1) fresh nt by (auto simp: slot_core_def blocked_ok_def tk frame ws set_insort_key live_waiter_def)
  moreover have "holders_ok m' (?n # bs) hs"
    using core(1) fresh by (auto simp: slot_core_def holders_ok_def frame)
  moreover have "no_idle m'" using core(2) ge by (simp add: no_idle_def frame)
  ultimately show ?thesis using core(1) cnt by (simp add: slot_core_def frame n)
qed

lemma awarded_count_remove1:
  "distinct bs \<Longrightarrow> n \<in> set bs \<Longrightarrow>
    awarded_count m bs = awarded_count m (remove1 n bs) + (if tk_awarded (sm_ticket m n) then 1 else 0)"
  unfolding awarded_count_def by (rule length_filter_remove1)

lemma core_drop_blocked:
  assumes "slot_core 0 m bs hs" "n \<in> set bs" "tk_awarded (sm_ticket m n)"
  shows "slot_core 1 m (remove1 n bs) hs"
proof -
  from assms have d: "distinct bs" and nw: "n \<notin> snd ` set (sm_waiters m)"
    by (auto simp: slot_core_def blocked_ok_def)
  from nw have "\<forall>(q, k) \<in> set (sm_waiters m). k \<noteq> n" by force
  with assms(1) d have "waiters_ok m (remove1 n bs)"
    by (fastforce simp: slot_core_def waiters_ok_def)
  moreover have "blocked_ok m (remove1 n bs)" "holders_ok m (remove1 n bs) hs"
    using assms(1) d by (auto simp: slot_core_def blocked_ok_def holders_ok_def)
  ultimately show ?thesis
    using assms awarded_count_remove1[OF d assms(2), of m] by (simp add: slot_core_def)
qed

lemma resumed_core:
  assumes core: "slot_core 0 m bs hs" and n: "n \<in> set bs" "tk_awarded (sm_ticket m n)"
  shows "slot_core 0 (grant n now at True m) (remove1 n bs) (n # hs)"
proof -
  let ?m = "grant n now at True m"
  have fr: "sm_ticket ?m = sm_ticket m" "sm_waiters ?m = sm_waiters m" "sm_in_use ?m = sm_in_use m"
    "sm_leases ?m = sm_leases m @ [n]" "sm_sequence ?m = sm_sequence m"
    "\<not> ls_released (sm_lease ?m n)" "\<And>k. k \<noteq> n \<Longrightarrow> sm_lease ?m k = sm_lease m k"
    by (simp_all add: grant_def record_wait_def Let_def)
  have "slot_core 1 m (remove1 n bs) hs" using core n by (rule core_drop_blocked)
  moreover have nh: "n \<notin> set hs" "n \<le> sm_sequence m" "n \<notin> set (remove1 n bs)"
    using core n by (auto simp: slot_core_def holders_ok_def blocked_ok_def)
  moreover have "\<forall>k \<in> set hs. sm_lease ?m k = sm_lease m k" using nh(1) fr(7) by metis
  ultimately show ?thesis
    by (auto simp: slot_core_def waiters_ok_def blocked_ok_def holders_ok_def awarded_count_def
        live_waiter_def fr)
qed

lemma abort_core:
  assumes core: "slot_core 0 m bs hs" "no_idle m" and n: "n \<in> set bs"
  shows "slot_core 0 (acquire_abort n m) (remove1 n bs) hs \<and> no_idle (acquire_abort n m)"
proof (cases "tk_awarded (sm_ticket m n)")
  case True
  then have c1: "slot_core 1 m (remove1 n bs) hs" using core n by (intro core_drop_blocked)
  with hand_over_core[OF c1] hand_over_no_idle[of m "remove1 n bs"] core(2) True show ?thesis
    by (simp add: acquire_abort_def slot_core_def)
next
  case False
  define m' where "m' = acquire_abort n m"
  have tk: "sm_ticket m' = (sm_ticket m)(n := (sm_ticket m n)\<lparr>tk_cancelled := True\<rparr>)"
    and ws: "sm_waiters m' = filter (\<lambda>(p, k). k \<noteq> n) (sm_waiters m)"
    and fr: "sm_leases m' = sm_leases m" "sm_in_use m' = sm_in_use m" "sm_capacity m' = sm_capacity m"
      "sm_sequence m' = sm_sequence m" "sm_lease m' = sm_lease m"
    using False by (simp_all add: m'_def acquire_abort_def upd_ticket_def Let_def)
  from core(1) have d: "distinct bs" by (simp add: slot_core_def blocked_ok_def)
  then have nn: "n \<notin> set (remove1 n bs)" by simp
  have snd_ws: "snd ` set (sm_waiters m') = snd ` set (sm_waiters m) - {n}" by (force simp: ws)
  have "distinct (map snd (sm_waiters m'))" "sorted (sm_waiters m')"
    using core(1) by (auto simp: ws slot_core_def waiters_ok_def intro: distinct_map_filter sorted_wrt_filter)
  moreover have "\<forall>(p, k) \<in> set (sm_waiters m'). k \<in> set (remove1 n bs) \<and>
      p = tk_priority (sm_ticket m' k) \<and> live_waiter m' k"
    using core(1) d by (fastforce simp: ws slot_core_def waiters_ok_def live_waiter_def tk)
  ultimately have "waiters_ok m' (remove1 n bs)" by (simp add: waiters_ok_def)
  moreover have "blocked_ok m' (remove1 n bs)"
    using core(1) d by (auto simp: slot_core_def blocked_ok_def tk fr snd_ws)
  moreover have "holders_ok m' (remove1 n bs) hs"
    using core(1) d by (auto simp: slot_core_def holders_ok_def fr)
  moreover have "awarded_count m' (remove1 n bs) = awarded_count m bs"
    using awarded_count_remove1[OF d n, of m] False awarded_count_other[OF tk nn] by simp
  moreover have "no_idle m'" using core(2) by (auto simp: no_idle_def fr ws)
  ultimately show ?thesis using core(1) by (simp add: slot_core_def fr flip: m'_def)
qed

lemma release_core:
  assumes core: "slot_core 0 m bs hs" "no_idle m" and n: "n \<in> set hs"
  shows "slot_core 0 (lease_release n m) bs (remove1 n hs) \<and> no_idle (lease_release n m)"
proof -
  define m1 where "m1 = m\<lparr>sm_lease := (sm_lease m)(n := (sm_lease m n)\<lparr>ls_released := True\<rparr>),
    sm_leases := remove1 n (sm_leases m)\<rparr>"
  have rel: "lease_release n m = (if sm_in_use m1 > sm_capacity m1
      then m1\<lparr>sm_in_use := max 0 (sm_in_use m1 - 1)\<rparr> else hand_over m1)"
    using core(1) n by (simp add: lease_release_def slot_release_def Let_def m1_def slot_core_def holders_ok_def)
  from core(1) n have dl: "distinct (sm_leases m)" and nl: "n \<in> set (sm_leases m)" and dh: "distinct hs"
    by (auto simp: slot_core_def holders_ok_def)
  from nl have len: "length (sm_leases m) = length (remove1 n (sm_leases m)) + 1"
    using length_pos_if_in_set[OF nl] by (simp add: length_remove1)
  have c1: "slot_core 1 m1 bs (remove1 n hs)"
    using core(1) dl dh len by (auto simp: slot_core_def waiters_ok_def blocked_ok_def holders_ok_def
        awarded_count_def live_waiter_def m1_def)
  have i1: "no_idle m1" using core(2) by (simp add: no_idle_def m1_def)
  show ?thesis
  proof (cases "sm_in_use m1 > sm_capacity m1")
    case True
    then have "slot_core 0 (m1\<lparr>sm_in_use := max 0 (sm_in_use m1 - 1)\<rparr>) bs (remove1 n hs)"
      using c1 i1 by (simp add: slot_ok_defs no_idle_def)
    with True i1 rel show ?thesis by (simp add: no_idle_def)
  next
    case False
    with rel hand_over_core[OF c1] hand_over_no_idle[of m1 bs] c1 i1 show ?thesis
      by (simp add: slot_core_def)
  qed
qed

lemma bind_core: "slot_core 0 m bs hs \<Longrightarrow> slot_core 0 (lease_bind_pid n pid m) bs hs"
  by (auto simp: slot_ok_defs lease_bind_pid_def)

lemma resume_cases:
  assumes "slot_core k m bs hs" "n \<in> set bs" "tk_fut_done (sm_ticket m n)"
  shows "acquire_resume n now at m = (grant n now at True m, Acquired) \<and> tk_awarded (sm_ticket m n)"
  using assms by (simp add: acquire_resume_def slot_core_def blocked_ok_def Let_def)

lemma grant_no_idle: "no_idle (grant n now at w m) = no_idle m"
  by (simp add: no_idle_def grant_def record_wait_def Let_def)

lemma slot_inv_step:
  assumes inv: "slot_inv s" and step: "slot_step s t"
  shows "slot_inv t"
proof -
  from inv have core: "slot_core 0 (sy_mgr s) (sy_blocked s) (sy_holders s)" and idle: "no_idle (sy_mgr s)"
    by (simp_all add: slot_inv_def)
  from step show ?thesis
  proof (cases rule: slot_step.cases)
    case (step_granted rq t0 t1 t2 m' n)
    with granted_core[OF core idle] show ?thesis by (simp add: slot_inv_def)
  next
    case (step_waiting rq t0 t1 t2 m' n)
    with waiting_core[OF core idle] show ?thesis by (simp add: slot_inv_def)
  next
    case (step_resumed n now at m')
    with resume_cases[OF core, of n now at] resumed_core[OF core, of n now at] idle grant_no_idle
    show ?thesis by (auto simp: slot_inv_def)
  next
    case (step_resume_cancelled n now at m')
    with resume_cases[OF core, of n now at] show ?thesis by simp
  next
    case (step_spurious n now at m')
    with resume_cases[OF core, of n now at] show ?thesis by simp
  next
    case (step_abort n)
    with abort_core[OF core idle] show ?thesis by (simp add: slot_inv_def)
  next
    case (step_bind n pid)
    with bind_core[OF core] idle show ?thesis by (simp add: slot_inv_def no_idle_def lease_bind_pid_def)
  next
    case (step_release n)
    with release_core[OF core idle] show ?thesis by (simp add: slot_inv_def)
  next
    case (step_capacity c)
    with set_capacity_inv[OF core] show ?thesis by (simp add: slot_inv_def)
  qed
qed

lemma slot_inv_init: "slot_init s \<Longrightarrow> slot_inv s"
  by (auto simp: slot_init_def slot_mgr_init_def slot_inv_def slot_ok_defs no_idle_def)

interpretation slots: invariant_system slot_init slot_step slot_inv
  by unfold_locales (auto intro: slot_inv_init slot_inv_step)

section \<open>Growth of the number of slots in use\<close>

lemma award_frame:
  "award_next_waiter m = (m', b) \<Longrightarrow> sm_in_use m' = sm_in_use m \<and> sm_capacity m' = sm_capacity m"
  unfolding award_next_waiter_def by (drule award_loop_frame) simp

lemma hand_over_use:
  "0 \<le> sm_in_use m \<Longrightarrow> sm_in_use (hand_over m) \<le> sm_in_use m \<and> sm_capacity (hand_over m) = sm_capacity m"
  by (auto simp: hand_over_def dest: award_frame split: prod.splits)

lemma fill_slots_use:
  "sm_in_use (fill_slots m) \<le> max (sm_in_use m) (sm_capacity m) \<and> sm_capacity (fill_slots m) = sm_capacity m"
proof (induction m rule: fill_slots.induct)
  case (1 m)
  obtain m' b where aw: "award_next_waiter m = (m', b)" by fastforce
  note fr = award_frame[OF aw]
  show ?case
  proof (cases "sm_in_use m < sm_capacity m \<and> b")
    case True
    with "1.IH"[OF _ aw[symmetric]] aw fr show ?thesis by (simp add: fill_slots.simps[of m])
  next
    case False
    with aw fr show ?thesis by (auto simp: fill_slots.simps[of m])
  qed
qed

lemma slot_inv_use: "slot_inv s \<Longrightarrow> 0 \<le> sm_in_use (sy_mgr s) \<and> int (length (sy_holders s)) \<le> sm_in_use (sy_mgr s)"
  by (auto simp: slot_inv_def slot_core_def holders_ok_def dest!: distinct_card[symmetric])

lemma slot_step_use:
  assumes inv: "slot_inv s" and step: "slot_step s t"
  shows "sm_in_use (sy_mgr t) \<le> max (sm_in_use (sy_mgr s)) (sm_capacity (sy_mgr t))"
  using step slot_inv_use[OF inv] hand_over_use[of "sy_mgr s"]
proof (cases rule: slot_step.cases)
  case (step_granted rq t0 t1 t2 m' n)
  then show ?thesis by (auto simp: slot_op_defs split: if_splits)
next
  case (step_waiting rq t0 t1 t2 m' n)
  then show ?thesis by (auto simp: slot_op_defs split: if_splits)
next
  case (step_release n)
  let ?m = "(sy_mgr s)\<lparr>sm_lease := (sm_lease (sy_mgr s))(n := (sm_lease (sy_mgr s) n)\<lparr>ls_released := True\<rparr>),
    sm_leases := remove1 n (sm_leases (sy_mgr s))\<rparr>"
  from step_release slot_inv_use[OF inv] hand_over_use[of ?m] show ?thesis
    by (simp add: lease_release_def slot_release_def Let_def)
next
  case (step_capacity c)
  then show ?thesis
    using fill_slots_use[of "(sy_mgr s)\<lparr>sm_capacity := normalize_agent_process_limit c\<rparr>"]
    by (simp add: set_capacity_def)
qed (auto simp: slot_op_defs lease_bind_pid_def split: if_splits prod.splits dest!: award_frame)

definition slot_step_fixed :: "slot_sys \<Rightarrow> slot_sys \<Rightarrow> bool" where
  "slot_step_fixed s t \<longleftrightarrow> slot_step s t \<and> sm_capacity (sy_mgr t) = sm_capacity (sy_mgr s)"

definition slot_inv_fixed :: "slot_sys \<Rightarrow> bool" where
  "slot_inv_fixed s \<longleftrightarrow> slot_inv s \<and> sm_in_use (sy_mgr s) \<le> sm_capacity (sy_mgr s)"

interpretation slots_fixed: invariant_system slot_init slot_step_fixed slot_inv_fixed
proof unfold_locales
  fix s assume "slot_init s"
  then show "slot_inv_fixed s"
    by (auto simp: slot_inv_fixed_def slot_inv_init) (auto simp: slot_init_def slot_mgr_init_def)
next
  fix s t assume "slot_inv_fixed s" "slot_step_fixed s t"
  then show "slot_inv_fixed t"
    using slot_inv_step[of s t] slot_step_use[of s t]
    by (auto simp: slot_inv_fixed_def slot_step_fixed_def)
qed

section \<open>Properties\<close>

lemma slot_reach_request:
  assumes "reach slot_init R s" "\<And>s t. slot_step s t \<Longrightarrow> R s t" "rq_loop_open rq"
    and "acquire_begin rq t0 t1 t2 (sy_mgr s) = (m', Granted n)"
  shows "reach slot_init R (s\<lparr>sy_mgr := m', sy_holders := n # sy_holders s\<rparr>)"
  using assms by (blast intro: reach_step step_granted)

definition plain_request :: slot_request where
  "plain_request = \<lparr>rq_priority = sem_value DEFAULT, rq_task = None, rq_stage = None, rq_role = None,
     rq_loop_open = True\<rparr>"

definition sys0 :: slot_sys where
  "sys0 = \<lparr>sy_mgr = slot_mgr_init 1, sy_blocked = [], sy_holders = []\<rparr>"

definition sys_held :: "slot_sys" where
  "sys_held = \<lparr>sy_mgr = fst (acquire_begin plain_request 0 0 0 (slot_mgr_init 1)),
     sy_blocked = [], sy_holders = [1]\<rparr>"

lemma sys0_init: "slot_init sys0"
  by (auto simp: slot_init_def sys0_def)

lemmas slot_eval = plain_request_def new_ticket_def no_ticket_def no_lease_def slot_mgr_init_def
  sys0_def heappush_def slot_op_defs wake_ticket_def award_next_waiter_def lease_bind_pid_def
  wait_histogram_buckets_def

lemma sys_held_step: "slot_step sys0 sys_held"
proof -
  have "acquire_begin plain_request 0 0 0 (sy_mgr sys0) = (sy_mgr sys_held, Granted 1)"
    by (simp add: slot_eval sys_held_def)
  from step_granted[OF _ this] show ?thesis by (simp add: sys_held_def sys0_def plain_request_def)
qed

lemma sys_held_reach: "(\<And>s t. slot_step s t \<Longrightarrow> R s t) \<Longrightarrow> reach slot_init R sys_held"
  using sys_held_step by (meson reach_init reach_step sys0_init)

text \<open>
  C26: in every state reached without faults, \<open>_in_use\<close> counts exactly the registered
  leases plus the slots handed to waiters that have not woken up yet, and the
  registered leases are exactly those whose holder has not released them.
\<close>

theorem slots_accounting:
  assumes "reach slot_init slot_step s"
  shows "sm_in_use (sy_mgr s) = int (length (sm_leases (sy_mgr s))) + int (awarded_count (sy_mgr s) (sy_blocked s))
    \<and> distinct (sm_leases (sy_mgr s)) \<and> set (sm_leases (sy_mgr s)) = set (sy_holders s)"
  using slots.reach_inv[OF assms] by (simp add: slot_inv_def slot_core_def holders_ok_def)

theorem slots_accounting_witness:
  "sm_in_use (sy_mgr sys_held) = int (length (sm_leases (sy_mgr sys_held))) +
     int (awarded_count (sy_mgr sys_held) (sy_blocked sys_held))
   \<and> distinct (sm_leases (sy_mgr sys_held)) \<and> set (sm_leases (sy_mgr sys_held)) = set (sy_holders sys_held)"
  by (rule slots_accounting[OF sys_held_reach])

text \<open>
  C2: as long as the capacity is not changed, the number of agent processes holding a
  slot never exceeds it, whatever the interleaving of requests, wake-ups,
  cancellations and releases.
\<close>

theorem slots_never_oversubscribed:
  assumes "reach slot_init slot_step_fixed s"
  shows "int (length (sy_holders s)) \<le> sm_capacity (sy_mgr s)"
  using slots_fixed.reach_inv[OF assms] slot_inv_use[of s] by (auto simp: slot_inv_fixed_def)

theorem slots_never_oversubscribed_witness:
  "int (length (sy_holders sys_held)) \<le> sm_capacity (sy_mgr sys_held) \<and> length (sy_holders sys_held) = 1"
proof -
  have "slot_step_fixed sys0 sys_held"
    using sys_held_step by (simp add: slot_step_fixed_def) (simp add: sys_held_def slot_eval)
  then have "reach slot_init slot_step_fixed sys_held" by (meson reach_init reach_step sys0_init)
  from slots_never_oversubscribed[OF this] show ?thesis by (simp add: sys_held_def)
qed

text \<open>
  a change of capacity at run time is safe: one step never raises \<open>_in_use\<close> above
  the larger of its old value and the capacity now in force, so a lowered capacity is
  reached by attrition and a raised one is filled but not exceeded.
\<close>

theorem slots_grow_within_capacity:
  assumes "reach slot_init slot_step s" "slot_step s t"
  shows "sm_in_use (sy_mgr t) \<le> max (sm_in_use (sy_mgr s)) (sm_capacity (sy_mgr t))"
  using slots.reach_inv[OF assms(1)] assms(2) by (rule slot_step_use)

theorem slots_grow_within_capacity_witness:
  "sm_in_use (sy_mgr sys_held) \<le> max (sm_in_use (sy_mgr sys0)) (sm_capacity (sy_mgr sys_held))"
  by (rule slots_grow_within_capacity[OF reach_init[where init = slot_init, OF sys0_init] sys_held_step])

text \<open>
  C29: no lost wake-up: an \<open>acquire\<close> still waiting without an award has its ticket in
  the heap, every slot is taken, and at least one lease or awarded waiter exists whose
  release will serve the heap.
\<close>

theorem slots_no_lost_wakeup:
  assumes "reach slot_init slot_step s" "n \<in> set (sy_blocked s)"
    and "\<not> tk_awarded (sm_ticket (sy_mgr s) n)"
  shows "(tk_priority (sm_ticket (sy_mgr s) n), n) \<in> set (sm_waiters (sy_mgr s))
    \<and> sm_capacity (sy_mgr s) \<le> sm_in_use (sy_mgr s)
    \<and> 1 \<le> length (sm_leases (sy_mgr s)) + awarded_count (sy_mgr s) (sy_blocked s)"
proof -
  note inv = slots.reach_inv[OF assms(1), unfolded slot_inv_def slot_core_def]
  from inv assms(2,3) obtain p where p: "(p, n) \<in> set (sm_waiters (sy_mgr s))"
    by (auto simp: blocked_ok_def)
  with inv have "p = tk_priority (sm_ticket (sy_mgr s) n)" by (auto simp: waiters_ok_def)
  with p inv show ?thesis by (auto simp: no_idle_def)
qed

definition sys_wait :: slot_sys where
  "sys_wait = \<lparr>sy_mgr = fst (acquire_begin plain_request 5 6 7 (sy_mgr sys_held)),
     sy_blocked = [2], sy_holders = [1]\<rparr>"

lemma sys_wait_step: "slot_step sys_held sys_wait"
proof -
  have "acquire_begin plain_request 5 6 7 (sy_mgr sys_held) = (sy_mgr sys_wait, Waiting 2)"
    by (simp add: slot_eval sys_held_def sys_wait_def)
  from step_waiting[OF _ this] show ?thesis by (simp add: sys_wait_def sys_held_def plain_request_def)
qed

theorem slots_no_lost_wakeup_witness:
  "(990, 2) \<in> set (sm_waiters (sy_mgr sys_wait)) \<and> sm_capacity (sy_mgr sys_wait) \<le> sm_in_use (sy_mgr sys_wait)
    \<and> 1 \<le> length (sm_leases (sy_mgr sys_wait)) + awarded_count (sy_mgr sys_wait) (sy_blocked sys_wait)"
proof -
  have r: "reach slot_init slot_step sys_wait" using sys_held_reach sys_wait_step by (blast intro: reach_step)
  have b: "2 \<in> set (sy_blocked sys_wait)" and a: "\<not> tk_awarded (sm_ticket (sy_mgr sys_wait) 2)"
    and p: "tk_priority (sm_ticket (sy_mgr sys_wait) 2) = 990"
    by (simp_all add: sys_wait_def sys_held_def slot_eval)
  from slots_no_lost_wakeup[OF r b a] p show ?thesis by simp
qed

text \<open>
  a released slot goes to the waiter with the least (priority, arrival number): a
  Judge before the Workers of its stage, first come first served within a priority, and
  the number of slots in use does not change.
\<close>

theorem release_serves_best_waiter:
  assumes r: "reach slot_init slot_step s" and n: "n \<in> set (sy_holders s)"
    and w: "sm_waiters (sy_mgr s) \<noteq> []" and u: "sm_in_use (sy_mgr s) \<le> sm_capacity (sy_mgr s)"
  shows "let m = lease_release n (sy_mgr s); (p, k) = Min (set (sm_waiters (sy_mgr s)))
    in tk_awarded (sm_ticket m k) \<and> k \<in> set (sy_blocked s) \<and> sm_in_use m = sm_in_use (sy_mgr s)
      \<and> set (sm_waiters (sy_mgr s)) = insert (p, k) (set (sm_waiters m))"
proof -
  let ?m = "sy_mgr s"
  from slots.reach_inv[OF r] have core: "slot_core 0 ?m (sy_blocked s) (sy_holders s)"
    by (simp add: slot_inv_def)
  obtain p k ws where ws: "sm_waiters ?m = (p, k) # ws" using w by (cases "sm_waiters ?m") auto
  have "sorted (sm_waiters ?m)" using core by (simp add: slot_core_def waiters_ok_def)
  from slot_heap.pop_least[OF this] ws have mn: "Min (set (sm_waiters ?m)) = (p, k)" by simp
  let ?m1 = "?m\<lparr>sm_lease := (sm_lease ?m)(n := (sm_lease ?m n)\<lparr>ls_released := True\<rparr>),
    sm_leases := remove1 n (sm_leases ?m)\<rparr>"
  have "waiters_ok ?m1 (sy_blocked s)" using core by (simp add: slot_core_def waiters_ok_def live_waiter_def)
  from hand_over_live[OF this] have "lease_release n ?m = mark_awarded k (?m1\<lparr>sm_waiters := ws\<rparr>)"
    using core n u ws by (simp add: lease_release_def slot_release_def Let_def slot_core_def holders_ok_def)
  moreover have "k \<in> set (sy_blocked s)" using core ws by (simp add: slot_core_def waiters_ok_def)
  ultimately show ?thesis using mn ws by simp
qed

theorem release_serves_best_waiter_witness:
  "let m = lease_release 1 (sy_mgr sys_wait); (p, k) = Min (set (sm_waiters (sy_mgr sys_wait)))
   in tk_awarded (sm_ticket m k) \<and> k \<in> set (sy_blocked sys_wait) \<and> sm_in_use m = sm_in_use (sy_mgr sys_wait)
     \<and> set (sm_waiters (sy_mgr sys_wait)) = insert (p, k) (set (sm_waiters m))"
proof -
  have r: "reach slot_init slot_step sys_wait" using sys_held_reach sys_wait_step by (blast intro: reach_step)
  show ?thesis
    by (rule release_serves_best_waiter[OF r]) (simp_all add: sys_wait_def sys_held_def slot_eval)
qed

section \<open>What the two faults do\<close>

lemma any_step: "slot_step s t \<Longrightarrow> slot_any s t"
  by (simp add: slot_any_def)

text \<open>
  \<open>force_release_orphaned\<close> removes a lease whose holder is still alive (no pid was bound
  within an hour) but does not mark it released, so the holder's own \<open>release\<close> gives the
  slot back a second time.
\<close>

definition hour :: micros where
  "hour = 3600000000"

definition orphan_run :: "slot_mgr" where
  "orphan_run =
     fst (acquire_begin plain_request (hour + 4) (hour + 4) (hour + 4)
       (lease_release 1
         (fst (acquire_begin plain_request (hour + 2) (hour + 2) (hour + 2)
           (fst (force_release_orphaned (\<lambda>_. ProbeAlive) (hour + 1) hour (sy_mgr sys_held)))))))"

lemma orphan_run_reach:
  "reach slot_init slot_any \<lparr>sy_mgr = orphan_run, sy_blocked = [], sy_holders = [3, 2]\<rparr>"
proof -
  let ?m1 = "fst (force_release_orphaned (\<lambda>_. ProbeAlive) (hour + 1) hour (sy_mgr sys_held))"
  let ?m2 = "fst (acquire_begin plain_request (hour + 2) (hour + 2) (hour + 2) ?m1)"
  let ?s1 = "sys_held\<lparr>sy_mgr := ?m1\<rparr>"
  let ?s2 = "\<lparr>sy_mgr = ?m2, sy_blocked = [], sy_holders = [2, 1]\<rparr>"
  let ?s3 = "\<lparr>sy_mgr = lease_release 1 ?m2, sy_blocked = [], sy_holders = [2]\<rparr>"
  note ev = slot_eval sys_held_def force_release_orphaned_def lease_dead_def retire_lease_def hour_def
  have op: "rq_loop_open plain_request" by (simp add: plain_request_def)
  have 1: "reach slot_init slot_any ?s1"
    by (rule reach_step[OF sys_held_reach]) (auto simp: slot_any_def intro: fault_force_release)
  have a2: "acquire_begin plain_request (hour + 2) (hour + 2) (hour + 2) (sy_mgr ?s1) = (?m2, Granted 2)"
    by (simp add: ev)
  have "slot_step ?s1 ?s2"
    using step_granted[OF op a2] by (simp add: sys_held_def)
  with 1 have 2: "reach slot_init slot_any ?s2" by (blast intro: reach_step any_step)
  have "slot_step ?s2 ?s3" using step_release[of 1 ?s2] by simp
  with 2 have 3: "reach slot_init slot_any ?s3" by (blast intro: reach_step any_step)
  have a4: "acquire_begin plain_request (hour + 4) (hour + 4) (hour + 4) (sy_mgr ?s3) = (orphan_run, Granted 3)"
    by (simp add: ev orphan_run_def)
  have "slot_step ?s3 \<lparr>sy_mgr = orphan_run, sy_blocked = [], sy_holders = [3, 2]\<rparr>"
    using step_granted[OF op a4] by simp
  with 3 show ?thesis by (blast intro: reach_step any_step)
qed

text \<open>
  with the forced release of orphans the capacity bound fails: from a pool of
  capacity one a run exists that ends with two registered leases held at once, because
  the forcibly retired lease was released a second time by its holder.
\<close>

theorem force_release_oversubscribes:
  "\<exists>s. reach slot_init slot_any s \<and> sm_capacity (sy_mgr s) = 1 \<and> sm_leases (sy_mgr s) = [2, 3]
    \<and> sy_holders s = [3, 2] \<and> sm_in_use (sy_mgr s) = 1"
  by (rule exI[of _ "\<lparr>sy_mgr = orphan_run, sy_blocked = [], sy_holders = [3, 2]\<rparr>"])
    (simp add: orphan_run_reach,
     simp add: orphan_run_def slot_eval sys_held_def force_release_orphaned_def lease_dead_def
       retire_lease_def hour_def)

definition sys_closed :: slot_sys where
  "sys_closed = sys_wait\<lparr>sy_mgr := upd_ticket 2 (tk_loop_open_update (\<lambda>_. False)) (sy_mgr sys_wait)\<rparr>"

definition sys_leaked :: slot_sys where
  "sys_leaked = sys_closed\<lparr>sy_mgr := lease_release 1 (sy_mgr sys_closed), sy_holders := []\<rparr>"

lemma sys_leaked_reach: "reach slot_init slot_any sys_leaked"
proof -
  have w: "reach slot_init slot_any sys_wait"
    using sys_held_reach sys_wait_step by (blast intro: reach_step any_step)
  have "slot_fault sys_wait sys_closed"
    unfolding sys_closed_def by (rule fault_loop_closed) (simp add: sys_wait_def)
  with w have c: "reach slot_init slot_any sys_closed" by (auto simp: slot_any_def intro: reach_step)
  have "slot_step sys_closed sys_leaked"
    using step_release[of 1 sys_closed] by (simp add: sys_leaked_def sys_closed_def sys_wait_def)
  with c show ?thesis by (blast intro: reach_step any_step)
qed

text \<open>
  a slot awarded to a waiter whose event loop is already closed is lost: a run exists
  after which no lease is registered and nobody who could still run holds or awaits a
  slot, yet the pool counts as full and every further \<open>acquire\<close> has to wait.
\<close>

theorem closed_loop_leaks_slot:
  "\<exists>s. reach slot_init slot_any s \<and> sm_leases (sy_mgr s) = [] \<and> sy_holders s = []
    \<and> sm_waiters (sy_mgr s) = [] \<and> sm_in_use (sy_mgr s) = sm_capacity (sy_mgr s)
    \<and> (\<exists>n. sy_blocked s = [n] \<and> \<not> tk_loop_open (sm_ticket (sy_mgr s) n))
    \<and> snd (acquire_begin rq t0 t1 t2 (sy_mgr s)) = Waiting 3"
  by (rule exI[of _ sys_leaked], rule conjI[OF sys_leaked_reach])
    (simp add: sys_leaked_def sys_closed_def sys_wait_def sys_held_def slot_eval)

end
