(* ===== verification/TaskStore.thy ===== *)
theory TaskStore
  imports Prelude
begin

text \<open>
  The dispatch columns of the two tables the scheduler works on (\<open>app/db/models.py\<close>)
  and \<open>app/service/execution_coordinator.py\<close>: claiming a row, renewing its lease and
  clearing its dispatch columns. A table is the list of its rows in id order; a bulk
  \<open>UPDATE ... WHERE\<close> is \<open>upd_where\<close>, and its row count is \<open>hits\<close>. Times are
  seconds; the two clock readings inside one claim (\<open>now\<close> and the base of the lease
  deadline) are taken as one. \<open>lease_protocol\<close> is the contract the workers rely on,
  interpreted for tasks and for debug reports.
\<close>

datatype run_status = StPending | StRunning | StPassed | StFailed | StError | StCancelled

record dispatch_row =
  dr_id :: nat
  dr_key :: string
  dr_status :: run_status
  dr_owner :: "string option"
  dr_celery :: "string option"
  dr_epoch :: int
  dr_heartbeat :: "int option"
  dr_lease :: "int option"
  dr_started :: "int option"
  dr_finished :: "int option"
  dr_error :: "string option"
  dr_created :: int
  dr_deleted :: bool

record task_row = dispatch_row +
  tr_project :: string
  tr_name :: string
  tr_owner_ip :: "string option"
  tr_cancel_requested :: bool

record report_row = dispatch_row +
  rr_task_id :: string
  rr_project :: string
  rr_task_name :: string
  rr_task_status :: run_status
  rr_task_error :: "string option"
  rr_created_by :: string

section \<open>Tables\<close>

definition upd_where :: "('r \<Rightarrow> bool) \<Rightarrow> ('r \<Rightarrow> 'r) \<Rightarrow> 'r list \<Rightarrow> 'r list" where
  "upd_where P f rows = map (\<lambda>r. if P r then f r else r) rows"

definition hits :: "('r \<Rightarrow> bool) \<Rightarrow> 'r list \<Rightarrow> nat" where
  "hits P rows = length (filter P rows)"

definition wf_rows :: "'x dispatch_row_scheme list \<Rightarrow> bool" where
  "wf_rows rows \<longleftrightarrow> distinct (map dr_id rows) \<and> distinct (map dr_key rows)"

lemma upd_where_Nil [simp]: "upd_where P f [] = []"
  by (simp add: upd_where_def)

lemma upd_where_Cons [simp]: "upd_where P f (r # rows) = (if P r then f r else r) # upd_where P f rows"
  by (simp add: upd_where_def)

lemma length_upd_where [simp]: "length (upd_where P f rows) = length rows"
  by (simp add: upd_where_def)

lemma set_upd_where: "set (upd_where P f rows) = (\<lambda>r. if P r then f r else r) ` set rows"
  by (simp add: upd_where_def)

lemma hits_pos: "0 < hits P rows \<longleftrightarrow> (\<exists>r \<in> set rows. P r)"
  by (auto simp: hits_def filter_empty_conv)

lemma upd_where_none: "(\<And>r. r \<in> set rows \<Longrightarrow> \<not> P r) \<Longrightarrow> upd_where P f rows = rows"
  by (induction rows) auto

lemma upd_where_map_key:
  "(\<And>r. g (f r) = g r) \<Longrightarrow> map g (upd_where P f rows) = map g rows"
  by (induction rows) auto

lemma wf_upd_where:
  assumes "\<And>r. dr_id (f r) = dr_id r" "\<And>r. dr_key (f r) = dr_key r"
  shows "wf_rows (upd_where P f rows) \<longleftrightarrow> wf_rows rows"
  by (simp add: wf_rows_def upd_where_map_key assms)

text \<open>Lookup by key; with unique keys it commutes with updates.\<close>

definition row_of :: "'x dispatch_row_scheme list \<Rightarrow> string \<Rightarrow> 'x dispatch_row_scheme option" where
  "row_of rows k = find (\<lambda>r. dr_key r = k) rows"

lemma row_of_Cons [simp]: "row_of (r # rows) k = (if dr_key r = k then Some r else row_of rows k)"
  by (simp add: row_of_def)

lemma row_of_Nil [simp]: "row_of [] k = None"
  by (simp add: row_of_def)

lemma row_of_upd_where:
  "(\<And>r. dr_key (f r) = dr_key r) \<Longrightarrow>
    row_of (upd_where P f rows) k = map_option (\<lambda>r. if P r then f r else r) (row_of rows k)"
  by (induction rows) auto

lemma row_of_None: "row_of rows k = None \<longleftrightarrow> k \<notin> dr_key ` set rows"
  by (induction rows) auto

lemma row_of_Some: "row_of rows k = Some r \<Longrightarrow> r \<in> set rows \<and> dr_key r = k"
  by (induction rows) (auto split: if_splits)

lemma row_of_unique:
  "wf_rows rows \<Longrightarrow> r \<in> set rows \<Longrightarrow> row_of rows (dr_key r) = Some r"
  by (induction rows) (auto simp: wf_rows_def)

lemma find_key:
  "wf_rows rows \<Longrightarrow>
    find (\<lambda>r. dr_key r = k \<and> \<not> dr_deleted r) rows =
      (case row_of rows k of Some r \<Rightarrow> if dr_deleted r then None else Some r | None \<Rightarrow> None)"
proof (induction rows)
  case (Cons r rows)
  have "find (\<lambda>r. dr_key r = k \<and> \<not> dr_deleted r) rows = None" if "dr_key r = k"
    using Cons.prems that by (auto simp: find_None_iff wf_rows_def) (metis image_eqI)
  then show ?case using Cons by (auto simp: wf_rows_def)
qed simp

lemma hits_by_key:
  assumes "wf_rows rows"
  shows "0 < hits (\<lambda>r. dr_key r = k \<and> Q r) rows \<longleftrightarrow> (\<exists>r. row_of rows k = Some r \<and> Q r)"
  using row_of_unique[OF assms] row_of_Some by (fastforce simp: hits_pos)

lemma wf_same_id: "wf_rows rows \<Longrightarrow> r \<in> set rows \<Longrightarrow> r' \<in> set rows \<Longrightarrow> dr_id r = dr_id r' \<longleftrightarrow> r = r'"
  by (auto simp: wf_rows_def distinct_map inj_on_def)

lemma wf_same_key: "wf_rows rows \<Longrightarrow> r \<in> set rows \<Longrightarrow> r' \<in> set rows \<Longrightarrow> dr_key r = dr_key r' \<longleftrightarrow> r = r'"
  by (auto simp: wf_rows_def distinct_map inj_on_def)

section \<open>Tasks\<close>

definition lease_ttl_seconds :: int where
  "lease_ttl_seconds = 90"

definition lease_deadline :: "int \<Rightarrow> int" where
  "lease_deadline now = now + lease_ttl_seconds"

definition lease_expired :: "int \<Rightarrow> int option \<Rightarrow> bool" where
  "lease_expired now l = (case l of None \<Rightarrow> True | Some d \<Rightarrow> d < now)"

definition claim_candidate :: "'x dispatch_row_scheme list \<Rightarrow> string \<Rightarrow> 'x dispatch_row_scheme option" where
  "claim_candidate rows k = find (\<lambda>r. dr_key r = k \<and> \<not> dr_deleted r) rows"

fun claim_expected :: "int \<Rightarrow> run_status \<Rightarrow> int option \<Rightarrow> run_status option" where
  "claim_expected now StPending l = Some StPending"
| "claim_expected now StRunning l = (if lease_expired now l then Some StRunning else None)"
| "claim_expected now _ l = None"

text \<open>
  The conditional update of a claim: it repeats the status read from the candidate in
  its \<open>WHERE\<close>, then sets the status to running in a second statement.
\<close>

definition claim_task_commit ::
  "string option \<Rightarrow> string \<Rightarrow> int \<Rightarrow> 'x task_row_scheme \<Rightarrow> run_status \<Rightarrow> 'x task_row_scheme list \<Rightarrow> ('x task_row_scheme list \<times> int) option" where
  "claim_task_commit ip owner now cand expected rows =
     (let new_epoch = dr_epoch cand + 1;
          hit = (\<lambda>r. dr_id r = dr_id cand \<and> \<not> dr_deleted r \<and> dr_status r = expected);
          set_fields = (\<lambda>r. r\<lparr>dr_owner := Some owner, tr_owner_ip := ip,
             dr_lease := Some (lease_deadline now), dr_heartbeat := Some now, dr_epoch := new_epoch,
             dr_started := Some now, dr_finished := None, dr_error := None, tr_cancel_requested := False,
             dr_status := (if expected = StRunning then StPending else dr_status r)\<rparr>)
      in if hits hit rows = 0 then None
         else Some (upd_where (\<lambda>r. dr_id r = dr_id cand) (dr_status_update (\<lambda>_. StRunning))
                (upd_where hit set_fields rows), new_epoch))"

definition claim_specific_task ::
  "string option \<Rightarrow> 'x task_row_scheme list \<Rightarrow> string \<Rightarrow> string \<Rightarrow> int \<Rightarrow> ('x task_row_scheme list \<times> int) option" where
  "claim_specific_task ip rows k owner now =
     (case claim_candidate rows k of
        None \<Rightarrow> None
      | Some cand \<Rightarrow>
          (case claim_expected now (dr_status cand) (dr_lease cand) of
             None \<Rightarrow> None
           | Some expected \<Rightarrow> claim_task_commit ip owner now cand expected rows))"

definition lease_held_by :: "string \<Rightarrow> int \<Rightarrow> 'x dispatch_row_scheme \<Rightarrow> bool" where
  "lease_held_by owner epoch r \<longleftrightarrow>
     dr_owner r = Some owner \<and> dr_epoch r = epoch \<and> \<not> dr_deleted r \<and> dr_status r = StRunning"

definition renew_lease ::
  "'x task_row_scheme list \<Rightarrow> string \<Rightarrow> string \<Rightarrow> int \<Rightarrow> int \<Rightarrow> 'x task_row_scheme list \<times> bool" where
  "renew_lease rows k owner epoch now =
     (let hit = (\<lambda>r. dr_key r = k \<and> lease_held_by owner epoch r)
      in (upd_where hit (\<lambda>r. r\<lparr>dr_lease := Some (lease_deadline now), dr_heartbeat := Some now\<rparr>) rows,
          0 < hits hit rows))"

definition clear_running_dispatch_fields :: "'x task_row_scheme list \<Rightarrow> string \<Rightarrow> 'x task_row_scheme list" where
  "clear_running_dispatch_fields rows k =
     upd_where (\<lambda>r. dr_key r = k)
       (\<lambda>r. r\<lparr>dr_celery := None, dr_owner := None, tr_owner_ip := None, dr_lease := None, dr_epoch := 0\<rparr>) rows"

section \<open>Debug reports\<close>

definition claim_report_commit ::
  "string \<Rightarrow> int \<Rightarrow> report_row \<Rightarrow> run_status \<Rightarrow> report_row list \<Rightarrow> (report_row list \<times> int) option" where
  "claim_report_commit owner now cand expected rows =
     (let new_epoch = dr_epoch cand + 1;
          hit = (\<lambda>r. dr_id r = dr_id cand \<and> \<not> dr_deleted r \<and> dr_status r = expected);
          set_fields = (\<lambda>r. r\<lparr>dr_owner := Some owner, dr_lease := Some (lease_deadline now),
             dr_heartbeat := Some now, dr_epoch := new_epoch, dr_started := Some now,
             dr_status := (if expected = StRunning then StPending else dr_status r)\<rparr>)
      in if hits hit rows = 0 then None
         else Some (upd_where (\<lambda>r. dr_id r = dr_id cand) (dr_status_update (\<lambda>_. StRunning))
                (upd_where hit set_fields rows), new_epoch))"

definition claim_debug_report ::
  "report_row list \<Rightarrow> string \<Rightarrow> string \<Rightarrow> int \<Rightarrow> (report_row list \<times> int) option" where
  "claim_debug_report rows k owner now =
     (case claim_candidate rows k of
        None \<Rightarrow> None
      | Some cand \<Rightarrow>
          (case claim_expected now (dr_status cand) (dr_lease cand) of
             None \<Rightarrow> None
           | Some expected \<Rightarrow> claim_report_commit owner now cand expected rows))"

definition renew_debug_lease ::
  "report_row list \<Rightarrow> string \<Rightarrow> string \<Rightarrow> int \<Rightarrow> int \<Rightarrow> report_row list \<times> bool" where
  "renew_debug_lease rows k owner epoch now =
     (let hit = (\<lambda>r. dr_key r = k \<and> lease_held_by owner epoch r)
      in (upd_where hit (\<lambda>r. r\<lparr>dr_lease := Some (lease_deadline now), dr_heartbeat := Some now\<rparr>) rows,
          0 < hits hit rows))"

definition clear_debug_dispatch_fields :: "report_row list \<Rightarrow> string \<Rightarrow> report_row list" where
  "clear_debug_dispatch_fields rows k =
     upd_where (\<lambda>r. dr_key r = k)
       (\<lambda>r. r\<lparr>dr_celery := None, dr_owner := None, dr_lease := None, dr_epoch := 0\<rparr>) rows"

section \<open>Claims in terms of the row\<close>

definition claimable :: "int \<Rightarrow> 'x dispatch_row_scheme \<Rightarrow> bool" where
  "claimable now r \<longleftrightarrow> \<not> dr_deleted r \<and>
     (dr_status r = StPending \<or> (dr_status r = StRunning \<and> lease_expired now (dr_lease r)))"

definition claimed_task :: "string option \<Rightarrow> string \<Rightarrow> int \<Rightarrow> 'x task_row_scheme \<Rightarrow> 'x task_row_scheme" where
  "claimed_task ip owner now r = r\<lparr>dr_owner := Some owner, tr_owner_ip := ip,
     dr_lease := Some (lease_deadline now), dr_heartbeat := Some now, dr_epoch := dr_epoch r + 1,
     dr_started := Some now, dr_finished := None, dr_error := None, tr_cancel_requested := False,
     dr_status := StRunning\<rparr>"

definition claimed_report :: "string \<Rightarrow> int \<Rightarrow> report_row \<Rightarrow> report_row" where
  "claimed_report owner now r = r\<lparr>dr_owner := Some owner, dr_lease := Some (lease_deadline now),
     dr_heartbeat := Some now, dr_epoch := dr_epoch r + 1, dr_started := Some now, dr_status := StRunning\<rparr>"

lemma claim_expected_Some:
  "\<not> dr_deleted r \<Longrightarrow> claimable now r \<longleftrightarrow> claim_expected now (dr_status r) (dr_lease r) = Some (dr_status r)"
  by (cases "dr_status r") (auto simp: claimable_def)

lemma claim_expected_None:
  "\<not> dr_deleted r \<Longrightarrow> \<not> claimable now r \<longleftrightarrow> claim_expected now (dr_status r) (dr_lease r) = None"
  by (cases "dr_status r") (auto simp: claimable_def)

lemma claim_task_commit_same:
  assumes wf: "wf_rows rows" and r: "r \<in> set rows" "\<not> dr_deleted r"
  shows "claim_task_commit ip owner now r (dr_status r) rows =
    Some (upd_where (\<lambda>x. dr_key x = dr_key r) (claimed_task ip owner now) rows, dr_epoch r + 1)"
proof -
  have "hits (\<lambda>x. dr_id x = dr_id r \<and> \<not> dr_deleted x \<and> dr_status x = dr_status r) rows \<noteq> 0"
    using r hits_pos by fastforce
  moreover have "dr_id x = dr_id r \<longleftrightarrow> x = r" "dr_key x = dr_key r \<longleftrightarrow> x = r" if "x \<in> set rows" for x
    using wf_same_id[OF wf that r(1)] wf_same_key[OF wf that r(1)] by auto
  ultimately show ?thesis
    using r by (auto simp: claim_task_commit_def Let_def upd_where_def claimed_task_def)
qed

lemma claim_report_commit_same:
  assumes wf: "wf_rows rows" and r: "r \<in> set rows" "\<not> dr_deleted r"
  shows "claim_report_commit owner now r (dr_status r) rows =
    Some (upd_where (\<lambda>x. dr_key x = dr_key r) (claimed_report owner now) rows, dr_epoch r + 1)"
proof -
  have "hits (\<lambda>x. dr_id x = dr_id r \<and> \<not> dr_deleted x \<and> dr_status x = dr_status r) rows \<noteq> 0"
    using r hits_pos by fastforce
  moreover have "dr_id x = dr_id r \<longleftrightarrow> x = r" "dr_key x = dr_key r \<longleftrightarrow> x = r" if "x \<in> set rows" for x
    using wf_same_id[OF wf that r(1)] wf_same_key[OF wf that r(1)] by auto
  ultimately show ?thesis
    using r by (auto simp: claim_report_commit_def Let_def upd_where_def claimed_report_def)
qed

lemma claim_task_row:
  assumes wf: "wf_rows rows"
  shows "claim_specific_task ip rows k owner now =
    (case row_of rows k of
       None \<Rightarrow> None
     | Some r \<Rightarrow>
         if claimable now r
         then Some (upd_where (\<lambda>x. dr_key x = k) (claimed_task ip owner now) rows, dr_epoch r + 1)
         else None)"
proof (cases "row_of rows k")
  case None
  then show ?thesis by (simp add: claim_specific_task_def claim_candidate_def find_key[OF wf])
next
  case (Some r)
  note r = row_of_Some[OF Some]
  show ?thesis
  proof (cases "claimable now r")
    case True
    then have nd: "\<not> dr_deleted r" by (simp add: claimable_def)
    with True Some r claim_expected_Some[OF nd, of now] claim_task_commit_same[OF wf conjunct1[OF r] nd]
    show ?thesis by (simp add: claim_specific_task_def claim_candidate_def find_key[OF wf])
  next
    case False
    with Some claim_expected_None[of r now] show ?thesis
      by (simp add: claim_specific_task_def claim_candidate_def find_key[OF wf])
  qed
qed

lemma claim_report_row:
  assumes wf: "wf_rows rows"
  shows "claim_debug_report rows k owner now =
    (case row_of rows k of
       None \<Rightarrow> None
     | Some r \<Rightarrow>
         if claimable now r
         then Some (upd_where (\<lambda>x. dr_key x = k) (claimed_report owner now) rows, dr_epoch r + 1)
         else None)"
proof (cases "row_of rows k")
  case None
  then show ?thesis by (simp add: claim_debug_report_def claim_candidate_def find_key[OF wf])
next
  case (Some r)
  note r = row_of_Some[OF Some]
  show ?thesis
  proof (cases "claimable now r")
    case True
    then have nd: "\<not> dr_deleted r" by (simp add: claimable_def)
    with True Some r claim_expected_Some[OF nd, of now] claim_report_commit_same[OF wf conjunct1[OF r] nd]
    show ?thesis by (simp add: claim_debug_report_def claim_candidate_def find_key[OF wf])
  next
    case False
    with Some claim_expected_None[of r now] show ?thesis
      by (simp add: claim_debug_report_def claim_candidate_def find_key[OF wf])
  qed
qed

section \<open>The lease protocol\<close>

definition lease_holder :: "'x dispatch_row_scheme list \<Rightarrow> string \<Rightarrow> (string \<times> int) option" where
  "lease_holder rows k =
     (case row_of rows k of
        None \<Rightarrow> None
      | Some r \<Rightarrow> if \<not> dr_deleted r \<and> dr_status r = StRunning
                  then map_option (\<lambda>w. (w, dr_epoch r)) (dr_owner r) else None)"

datatype lease_op =
    LClaim string string int
  | LRenew string string int int

fun lease_run ::
  "('t \<Rightarrow> string \<Rightarrow> string \<Rightarrow> int \<Rightarrow> ('t \<times> int) option) \<Rightarrow>
   ('t \<Rightarrow> string \<Rightarrow> string \<Rightarrow> int \<Rightarrow> int \<Rightarrow> 't \<times> bool) \<Rightarrow> 't \<Rightarrow> lease_op list \<Rightarrow> 't" where
  "lease_run cl rn t [] = t"
| "lease_run cl rn t (LClaim k w now # ops) =
     lease_run cl rn (case cl t k w now of None \<Rightarrow> t | Some (t', _) \<Rightarrow> t') ops"
| "lease_run cl rn t (LRenew k w e now # ops) = lease_run cl rn (fst (rn t k w e now)) ops"

locale lease_protocol =
  fixes claim :: "'t \<Rightarrow> string \<Rightarrow> string \<Rightarrow> int \<Rightarrow> ('t \<times> int) option"
    and renew :: "'t \<Rightarrow> string \<Rightarrow> string \<Rightarrow> int \<Rightarrow> int \<Rightarrow> 't \<times> bool"
    and clear :: "'t \<Rightarrow> string \<Rightarrow> 't"
    and holder :: "'t \<Rightarrow> string \<Rightarrow> (string \<times> int) option"
    and wf :: "'t \<Rightarrow> bool"
  assumes wf_claim: "wf t \<Longrightarrow> claim t k w now = Some (t', e) \<Longrightarrow> wf t'"
    and wf_renew: "wf t \<Longrightarrow> wf (fst (renew t k w e now))"
    and wf_clear: "wf t \<Longrightarrow> wf (clear t k)"
    and holder_claim: "wf t \<Longrightarrow> claim t k w now = Some (t', e) \<Longrightarrow>
      holder t' = (holder t)(k := Some (w, e))"
    and claim_epoch: "wf t \<Longrightarrow> claim t k w now = Some (t', e) \<Longrightarrow> holder t k = Some (w', e') \<Longrightarrow> e = e' + 1"
    and renew_iff: "wf t \<Longrightarrow> snd (renew t k w e now) \<longleftrightarrow> holder t k = Some (w, e)"
    and holder_renew: "wf t \<Longrightarrow> holder (fst (renew t k w e now)) = holder t"
    and holder_clear: "wf t \<Longrightarrow> holder (clear t k) = (holder t)(k := None)"
begin

lemma renew_unique:
  "wf t \<Longrightarrow> snd (renew t k w e now) \<Longrightarrow> snd (renew t k w' e' now') \<Longrightarrow> w = w' \<and> e = e'"
  by (simp add: renew_iff)

lemma claim_then_renew:
  assumes "wf t" "claim t k w now = Some (t', e)"
  shows "snd (renew t' k w e now')"
  using renew_iff[OF wf_claim[OF assms]] holder_claim[OF assms] by simp

lemma wf_run: "wf t \<Longrightarrow> wf (lease_run claim renew t ops)"
proof (induction ops arbitrary: t)
  case (Cons op ops)
  then show ?case by (cases op) (auto simp: wf_renew dest: wf_claim split: option.split)
qed simp

text \<open>Along claims and renewals a row never loses its holder and its epoch never falls.\<close>

lemma run_epoch_mono:
  "wf t \<Longrightarrow> holder t k = Some (w, e) \<Longrightarrow>
    \<exists>w' e'. holder (lease_run claim renew t ops) k = Some (w', e') \<and> e \<le> e' \<and> (e = e' \<longrightarrow> w = w')"
proof (induction ops arbitrary: t w e)
  case (Cons op ops)
  show ?case
  proof (cases op)
    case (LClaim j v now)
    show ?thesis
    proof (cases "claim t j v now")
      case None
      with LClaim Cons show ?thesis by simp
    next
      case (Some p)
      then obtain t' f where p: "claim t j v now = Some (t', f)" by (cases p) auto
      have wf': "wf t'" using Cons.prems(1) p by (rule wf_claim)
      have h': "holder t' = (holder t)(j := Some (v, f))" using Cons.prems(1) p by (rule holder_claim)
      show ?thesis
      proof (cases "j = k")
        case True
        with claim_epoch[OF Cons.prems(1) p] Cons.prems(2) have "f = e + 1" by simp
        with True h' Cons.IH[OF wf', of v f] p LClaim show ?thesis by fastforce
      next
        case False
        with h' Cons.IH[OF wf', of w e] Cons.prems(2) p LClaim show ?thesis by simp
      qed
    qed
  next
    case (LRenew j v f now)
    with Cons.IH[OF wf_renew[OF Cons.prems(1)]] Cons.prems show ?thesis by (simp add: holder_renew)
  qed
qed auto

text \<open>A run that has been superseded never renews again.\<close>

lemma superseded_never_renews:
  assumes "wf t" "holder t k = Some (w, e)" "claim t k w' now = Some (t', e')"
  shows "\<not> snd (renew (lease_run claim renew t' ops) k w e now')"
proof -
  from assms have e': "e' = e + 1" and wf': "wf t'" and h: "holder t' k = Some (w', e')"
    using claim_epoch wf_claim holder_claim by (blast, blast, fastforce)
  from run_epoch_mono[OF wf' h, of ops] e' wf_run[OF wf'] show ?thesis
    by (auto simp: renew_iff)
qed

end

lemma holder_upd_where:
  "(\<And>r. dr_key (f r) = dr_key r) \<Longrightarrow>
    lease_holder (upd_where P f rows) k =
      (case row_of rows k of
         None \<Rightarrow> None
       | Some r \<Rightarrow> (let r' = (if P r then f r else r) in
           if \<not> dr_deleted r' \<and> dr_status r' = StRunning
           then map_option (\<lambda>w. (w, dr_epoch r')) (dr_owner r') else None))"
  by (simp add: lease_holder_def row_of_upd_where Let_def split: option.split)

definition holds_of :: "'x dispatch_row_scheme \<Rightarrow> (string \<times> int) option" where
  "holds_of r = (if \<not> dr_deleted r \<and> dr_status r = StRunning
     then map_option (\<lambda>w. (w, dr_epoch r)) (dr_owner r) else None)"

lemma lease_holder_holds: "lease_holder rows k = Option.bind (row_of rows k) holds_of"
  by (simp add: lease_holder_def holds_of_def split: option.split)

lemma holder_upd_key:
  assumes "\<And>r. dr_key (f r) = dr_key r" "row_of rows k = Some r"
  shows "lease_holder (upd_where (\<lambda>x. dr_key x = k) f rows) = (lease_holder rows)(k := holds_of (f r))"
proof
  fix j
  show "lease_holder (upd_where (\<lambda>x. dr_key x = k) f rows) j = ((lease_holder rows)(k := holds_of (f r))) j"
    using assms(2) row_of_Some[of rows j]
    by (cases "row_of rows j") (auto simp: lease_holder_holds row_of_upd_where assms(1))
qed

lemma holder_frame:
  assumes "\<And>r. dr_key (f r) = dr_key r" "\<And>r. holds_of (f r) = holds_of r"
  shows "lease_holder (upd_where P f rows) = lease_holder rows"
proof
  fix k
  show "lease_holder (upd_where P f rows) k = lease_holder rows k"
    by (cases "row_of rows k") (simp_all add: lease_holder_holds row_of_upd_where assms)
qed

lemma holder_release:
  assumes "\<And>r. dr_key (f r) = dr_key r" "\<And>r. dr_owner (f r) = None"
  shows "lease_holder (upd_where (\<lambda>r. dr_key r = k) f rows) = (lease_holder rows)(k := None)"
proof (cases "row_of rows k")
  case None
  then have "upd_where (\<lambda>r. dr_key r = k) f rows = rows"
    by (intro upd_where_none) (auto simp: row_of_None)
  with None show ?thesis by (auto simp: lease_holder_holds fun_eq_iff)
next
  case (Some r)
  with holder_upd_key[OF assms(1) Some] assms(2) show ?thesis by (simp add: holds_of_def)
qed

lemmas lease_row_simps = holder_upd_where lease_holder_def claimable_def claimed_task_def
  claimed_report_def renew_lease_def renew_debug_lease_def clear_running_dispatch_fields_def
  clear_debug_dispatch_fields_def lease_held_by_def wf_upd_where hits_by_key Let_def

interpretation task_lease: lease_protocol "claim_specific_task ip" renew_lease
  clear_running_dispatch_fields lease_holder wf_rows for ip
proof unfold_locales
  fix t t' :: "'x task_row_scheme list" and k w w' :: string and now e e' :: int
  assume wf: "wf_rows t"
  show "claim_specific_task ip t k w now = Some (t', e) \<Longrightarrow> wf_rows t'"
    using wf by (auto simp: claim_task_row claimed_task_def wf_upd_where split: option.splits if_splits)
  show "wf_rows (fst (renew_lease t k w e now))" "wf_rows (clear_running_dispatch_fields t k)"
    using wf by (simp_all add: renew_lease_def clear_running_dispatch_fields_def Let_def wf_upd_where)
  show "claim_specific_task ip t k w now = Some (t', e) \<Longrightarrow> lease_holder t' = (lease_holder t)(k := Some (w, e))"
    using wf holder_upd_key[of "claimed_task ip w now" t k]
    by (auto simp: claim_task_row claimed_task_def holds_of_def claimable_def split: option.splits if_splits)
  show "claim_specific_task ip t k w now = Some (t', e) \<Longrightarrow> lease_holder t k = Some (w', e') \<Longrightarrow> e = e' + 1"
    using wf by (auto simp: claim_task_row lease_holder_def split: option.splits if_splits)
  show "snd (renew_lease t k w e now) \<longleftrightarrow> lease_holder t k = Some (w, e)"
    using wf by (auto simp: lease_row_simps split: option.splits)
  show "lease_holder (fst (renew_lease t k w e now)) = lease_holder t"
    by (auto simp: renew_lease_def renew_debug_lease_def Let_def holds_of_def intro!: holder_frame)
  show "lease_holder (clear_running_dispatch_fields t k) = (lease_holder t)(k := None)"
    by (auto simp: clear_running_dispatch_fields_def clear_debug_dispatch_fields_def intro!: holder_release)
qed

interpretation report_lease: lease_protocol claim_debug_report renew_debug_lease
  clear_debug_dispatch_fields lease_holder wf_rows
proof unfold_locales
  fix t t' :: "report_row list" and k w w' :: string and now e e' :: int
  assume wf: "wf_rows t"
  show "claim_debug_report t k w now = Some (t', e) \<Longrightarrow> wf_rows t'"
    using wf by (auto simp: claim_report_row claimed_report_def wf_upd_where split: option.splits if_splits)
  show "wf_rows (fst (renew_debug_lease t k w e now))" "wf_rows (clear_debug_dispatch_fields t k)"
    using wf by (simp_all add: renew_debug_lease_def clear_debug_dispatch_fields_def Let_def wf_upd_where)
  show "claim_debug_report t k w now = Some (t', e) \<Longrightarrow> lease_holder t' = (lease_holder t)(k := Some (w, e))"
    using wf holder_upd_key[of "claimed_report w now" t k]
    by (auto simp: claim_report_row claimed_report_def holds_of_def claimable_def split: option.splits if_splits)
  show "claim_debug_report t k w now = Some (t', e) \<Longrightarrow> lease_holder t k = Some (w', e') \<Longrightarrow> e = e' + 1"
    using wf by (auto simp: claim_report_row lease_holder_def split: option.splits if_splits)
  show "snd (renew_debug_lease t k w e now) \<longleftrightarrow> lease_holder t k = Some (w, e)"
    using wf by (auto simp: lease_row_simps split: option.splits)
  show "lease_holder (fst (renew_debug_lease t k w e now)) = lease_holder t"
    by (auto simp: renew_lease_def renew_debug_lease_def Let_def holds_of_def intro!: holder_frame)
  show "lease_holder (clear_debug_dispatch_fields t k) = (lease_holder t)(k := None)"
    by (auto simp: clear_running_dispatch_fields_def clear_debug_dispatch_fields_def intro!: holder_release)
qed

end
