(* ===== verification/Dispatcher.thy ===== *)
theory Dispatcher
  imports TaskStore
begin

text \<open>
  \<open>app/dispatcher.py\<close>, the pump between the database (the truth) and Celery's queue,
  and \<open>app/celery_tasks.py\<close>, the worker side of a message. Celery is a parameter:
  \<open>publish_result\<close> is what \<open>delay\<close> followed by the commit did, \<open>inspect_reply\<close> what
  \<open>inspect.active()\<close> answered. The engine (\<open>app.task_runner.run_task\<close>) is the
  parameter \<open>body\<close> of \<open>run_ea_task\<close>: the table it leaves behind and its exception.
\<close>

section \<open>The dispatcher\<close>

definition pump_batch :: nat where
  "pump_batch = 20"

definition stale_heartbeat_seconds :: int where
  "stale_heartbeat_seconds = 600"

definition live_status :: "run_status \<Rightarrow> 'x dispatch_row_scheme \<Rightarrow> bool" where
  "live_status st r \<longleftrightarrow> dr_status r = st \<and> \<not> dr_deleted r"

definition eligible :: "'x dispatch_row_scheme \<Rightarrow> bool" where
  "eligible r \<longleftrightarrow> live_status StPending r \<and> dr_celery r = None"

definition queued :: "'x dispatch_row_scheme \<Rightarrow> bool" where
  "queued r \<longleftrightarrow> live_status StPending r \<and> dr_celery r \<noteq> None"

definition reset_task :: "'x task_row_scheme \<Rightarrow> 'x task_row_scheme" where
  "reset_task r = r\<lparr>dr_status := StPending, dr_celery := None, dr_owner := None, tr_owner_ip := None,
     dr_lease := None, dr_epoch := 0\<rparr>"

definition reset_report :: "report_row \<Rightarrow> report_row" where
  "reset_report r = r\<lparr>dr_status := StPending, dr_celery := None, dr_owner := None,
     dr_lease := None, dr_epoch := 0\<rparr>"

definition startup_reset_tasks :: "'x task_row_scheme list \<Rightarrow> 'x task_row_scheme list" where
  "startup_reset_tasks rows =
     upd_where queued (\<lambda>r. r\<lparr>dr_celery := None, dr_owner := None, dr_lease := None, dr_epoch := 0\<rparr>)
       (upd_where (live_status StRunning) reset_task rows)"

definition startup_reset_reports :: "report_row list \<Rightarrow> report_row list" where
  "startup_reset_reports rows = upd_where (live_status StRunning) reset_report rows"

text \<open>\<open>delay\<close> then \<open>commit\<close>: both done, the broker refused, or only the commit failed.\<close>

datatype publish_result = Published string | PublishFailed | CommitFailed string

definition set_celery :: "nat \<Rightarrow> string \<Rightarrow> 'x dispatch_row_scheme list \<Rightarrow> 'x dispatch_row_scheme list" where
  "set_celery i c rows = upd_where (\<lambda>r. dr_id r = i) (dr_celery_update (\<lambda>_. Some c)) rows"

fun publish_loop ::
  "(string \<Rightarrow> publish_result) \<Rightarrow> 'x dispatch_row_scheme list \<Rightarrow> 'x dispatch_row_scheme list \<Rightarrow>
     'x dispatch_row_scheme list \<times> nat \<times> (string \<times> string) list" where
  "publish_loop pub [] rows = (rows, 0, [])"
| "publish_loop pub (r # rs) rows =
     (case pub (dr_key r) of
        Published c \<Rightarrow>
          (case publish_loop pub rs (set_celery (dr_id r) c rows) of
             (rows', n, msgs) \<Rightarrow> (rows', n + 1, (dr_key r, c) # msgs))
      | PublishFailed \<Rightarrow> (rows, 0, [])
      | CommitFailed c \<Rightarrow> (rows, 0, [(dr_key r, c)]))"

definition pump_candidates :: "'x dispatch_row_scheme list \<Rightarrow> 'x dispatch_row_scheme list" where
  "pump_candidates rows = take pump_batch (sort_key dr_created (filter eligible rows))"

definition pump_once ::
  "(string \<Rightarrow> publish_result) \<Rightarrow> 'x task_row_scheme list \<Rightarrow> 'x task_row_scheme list \<times> nat \<times> (string \<times> string) list" where
  "pump_once pub rows = publish_loop pub (pump_candidates rows) rows"

definition debug_pump_once ::
  "(string \<Rightarrow> publish_result) \<Rightarrow> report_row list \<Rightarrow> report_row list \<times> nat \<times> (string \<times> string) list" where
  "debug_pump_once pub rows = publish_loop pub (pump_candidates rows) rows"

text \<open>\<open>inspect.active()\<close>: \<open>None\<close> is an exception, a task entry without id is \<open>None\<close>.\<close>

type_synonym inspect_reply = "(string \<times> string option list) list option"

definition active_ids :: "inspect_reply \<Rightarrow> string list" where
  "active_ids reply =
     (case reply of
        None \<Rightarrow> []
      | Some pods \<Rightarrow> concat (map (\<lambda>(pod, ts). filter (\<lambda>c. c \<noteq> []) (List.map_filter id ts)) pods))"

definition in_active :: "string list \<Rightarrow> 'x dispatch_row_scheme \<Rightarrow> bool" where
  "in_active active r = (case dr_celery r of None \<Rightarrow> False | Some c \<Rightarrow> c \<in> set active)"

definition heartbeat_stale :: "int \<Rightarrow> 'x dispatch_row_scheme \<Rightarrow> bool" where
  "heartbeat_stale now r =
     (case dr_heartbeat r of None \<Rightarrow> True | Some h \<Rightarrow> now - h > stale_heartbeat_seconds)"

definition stale_row :: "string list \<Rightarrow> int \<Rightarrow> 'x dispatch_row_scheme \<Rightarrow> bool" where
  "stale_row active now r \<longleftrightarrow>
     live_status StRunning r \<and> \<not> (in_active active r \<and> \<not> heartbeat_stale now r)"

definition revoked_ids :: "('x dispatch_row_scheme \<Rightarrow> bool) \<Rightarrow> 'x dispatch_row_scheme list \<Rightarrow> string list" where
  "revoked_ids P rows =
     concat (map (\<lambda>r. case dr_celery r of Some (c # cs) \<Rightarrow> [c # cs] | _ \<Rightarrow> []) (filter P rows))"

definition recover_pending_stale_cid :: "string list \<Rightarrow> 'x task_row_scheme list \<Rightarrow> 'x task_row_scheme list \<times> nat" where
  "recover_pending_stale_cid active rows =
     (let hit = (\<lambda>r. queued r \<and> \<not> in_active active r)
      in (upd_where hit (\<lambda>r. r\<lparr>dr_celery := None, dr_owner := None, tr_owner_ip := None,
            dr_lease := None, dr_epoch := 0\<rparr>) rows, hits hit rows))"

text \<open>The table after one pass, the Celery ids revoked with SIGKILL, the number of rows reset.\<close>

definition stale_once :: "inspect_reply \<Rightarrow> int \<Rightarrow> 'x task_row_scheme list \<Rightarrow> 'x task_row_scheme list \<times> string list \<times> nat" where
  "stale_once reply now rows =
     (let active = active_ids reply;
          hit = stale_row active now;
          rows1 = upd_where hit reset_task rows
      in case recover_pending_stale_cid active rows1 of
           (rows2, cleared) \<Rightarrow> (rows2, revoked_ids hit rows, hits hit rows + cleared))"

definition debug_stale_once ::
  "inspect_reply \<Rightarrow> int \<Rightarrow> report_row list \<Rightarrow> report_row list \<times> string list \<times> nat" where
  "debug_stale_once reply now rows =
     (let active = active_ids reply;
          hit = stale_row active now;
          rows1 = upd_where hit reset_report rows;
          hit2 = (\<lambda>r. queued r \<and> \<not> in_active active r)
      in (upd_where hit2 (\<lambda>r. r\<lparr>dr_celery := None, dr_owner := None, dr_lease := None, dr_epoch := 0\<rparr>) rows1,
          revoked_ids hit rows, hits hit rows + hits hit2 rows1))"

section \<open>The worker side of a message\<close>

definition terminal :: "run_status \<Rightarrow> bool" where
  "terminal st \<longleftrightarrow> st \<in> {StPassed, StFailed, StError, StCancelled}"

text \<open>The two characters are the UTF-8 bytes of the word the message starts with.\<close>

definition abnormal_prefix :: string where
  "abnormal_prefix = [CHR 0xE5, CHR 0xBC, CHR 0x82, CHR 0xE5, CHR 0xB8, CHR 0xB8] @ '': ''"

definition ensure_terminal_error :: "string \<Rightarrow> string \<Rightarrow> int \<Rightarrow> 'x task_row_scheme list \<Rightarrow> 'x task_row_scheme list" where
  "ensure_terminal_error k err now rows =
     upd_where (\<lambda>r. dr_key r = k \<and> \<not> terminal (dr_status r))
       (\<lambda>r. r\<lparr>dr_status := StError, dr_error := Some (''celery task '' @ abnormal_prefix @ utf_take 400 err),
          dr_finished := Some now\<rparr>) rows"

definition ensure_debug_terminal_error :: "string \<Rightarrow> string \<Rightarrow> int \<Rightarrow> report_row list \<Rightarrow> report_row list" where
  "ensure_debug_terminal_error k err now rows =
     upd_where (\<lambda>r. dr_key r = k \<and> dr_status r \<notin> {StPassed, StFailed, StError})
       (\<lambda>r. r\<lparr>dr_status := StError, dr_error := Some (''debug celery '' @ abnormal_prefix @ utf_take 400 err),
          dr_finished := Some now\<rparr>) rows"

definition new_report :: "nat \<Rightarrow> string \<Rightarrow> int \<Rightarrow> 'x task_row_scheme \<Rightarrow> report_row" where
  "new_report i rid now t =
     \<lparr>dr_id = i, dr_key = rid, dr_status = StPending, dr_owner = None, dr_celery = None, dr_epoch = 0,
      dr_heartbeat = None, dr_lease = None, dr_started = None, dr_finished = None, dr_error = None,
      dr_created = now, dr_deleted = False, rr_task_id = dr_key t, rr_project = tr_project t,
      rr_task_name = tr_name t, rr_task_status = dr_status t, rr_task_error = dr_error t,
      rr_created_by = ''ea_celery''\<rparr>"

definition has_report :: "string \<Rightarrow> report_row list \<Rightarrow> bool" where
  "has_report k reports \<longleftrightarrow> (\<exists>r \<in> set reports. rr_task_id r = k \<and> \<not> dr_deleted r)"

text \<open>\<open>i\<close> and \<open>rid\<close> are the auto-increment id and the fresh \<open>dr_<uuid>\<close> key.\<close>

definition maybe_trigger_debug ::
  "nat \<Rightarrow> string \<Rightarrow> int \<Rightarrow> 'x task_row_scheme list \<Rightarrow> string \<Rightarrow> report_row list \<Rightarrow> report_row list" where
  "maybe_trigger_debug i rid now rows k reports =
     (case row_of rows k of
        None \<Rightarrow> reports
      | Some t \<Rightarrow>
          if dr_status t \<notin> {StFailed, StError} then reports
          else if has_report k reports then reports
          else reports @ [new_report i rid now t])"

datatype run_result = RunSkipped | RunDone | RunErrored string

definition run_ea_task ::
  "string option \<Rightarrow> string \<Rightarrow> int \<Rightarrow> int \<Rightarrow> ('x task_row_scheme list \<Rightarrow> 'x task_row_scheme list \<times> string option) \<Rightarrow>
   nat \<Rightarrow> string \<Rightarrow> string \<Rightarrow> 'x task_row_scheme list \<Rightarrow> report_row list \<Rightarrow>
   'x task_row_scheme list \<times> report_row list \<times> run_result" where
  "run_ea_task ip worker now now2 body i rid k rows reports =
     (case claim_specific_task ip rows k worker now of
        None \<Rightarrow> (rows, reports, RunSkipped)
      | Some (rows1, epoch) \<Rightarrow>
          (case body rows1 of
             (rows2, exc) \<Rightarrow>
               (let rows3 = (case exc of None \<Rightarrow> rows2 | Some e \<Rightarrow> ensure_terminal_error k e now2 rows2);
                    rows4 = clear_running_dispatch_fields rows3 k
                in (rows4, maybe_trigger_debug i rid now2 rows4 k reports,
                    (case exc of None \<Rightarrow> RunDone | Some e \<Rightarrow> RunErrored e)))))"

definition run_ea_debug ::
  "string \<Rightarrow> int \<Rightarrow> int \<Rightarrow> (report_row list \<Rightarrow> report_row list \<times> string option) \<Rightarrow>
   string \<Rightarrow> report_row list \<Rightarrow> report_row list \<times> run_result" where
  "run_ea_debug worker now now2 body k rows =
     (case claim_debug_report rows k worker now of
        None \<Rightarrow> (rows, RunSkipped)
      | Some (rows1, epoch) \<Rightarrow>
          (case body rows1 of
             (rows2, exc) \<Rightarrow>
               (let rows3 = (case exc of None \<Rightarrow> rows2 | Some e \<Rightarrow> ensure_debug_terminal_error k e now2 rows2)
                in (clear_debug_dispatch_fields rows3 k,
                    (case exc of None \<Rightarrow> RunDone | Some e \<Rightarrow> RunErrored e)))))"

text \<open>One tick of the lease heartbeat thread: \<open>False\<close> is the process group killing itself.\<close>

definition heartbeat_tick :: "string \<Rightarrow> string \<Rightarrow> int \<Rightarrow> int \<Rightarrow> 'x task_row_scheme list \<Rightarrow> 'x task_row_scheme list \<times> bool" where
  "heartbeat_tick k worker epoch now rows = renew_lease rows k worker epoch now"

text \<open>The registry of process groups behind \<open>task_revoked\<close>.\<close>

definition on_revoked :: "string \<Rightarrow> (string \<rightharpoonup> int) \<Rightarrow> (string \<rightharpoonup> int) \<times> int option" where
  "on_revoked celery_id pgids = (if celery_id = [] then (pgids, None) else (pgids(celery_id := None), pgids celery_id))"

lemmas disp_defs = live_status_def eligible_def queued_def reset_task_def reset_report_def
  stale_row_def in_active_def heartbeat_stale_def

section \<open>Lemmas on the pump\<close>

lemma set_celery_keys [simp]:
  "map dr_id (set_celery i c rows) = map dr_id rows" "map dr_key (set_celery i c rows) = map dr_key rows"
  by (simp_all add: set_celery_def upd_where_map_key)

lemma publish_loop_msgs:
  "publish_loop pub rs rows = (rows', n, msgs) \<Longrightarrow>
    (\<exists>ms. map dr_key rs = map fst msgs @ ms) \<and> n \<le> length msgs \<and> length msgs \<le> n + 1
    \<and> map dr_id rows' = map dr_id rows"
proof (induction rs arbitrary: rows rows' n msgs)
  case (Cons r rs)
  show ?case
  proof (cases "pub (dr_key r)")
    case (Published c)
    obtain r1 n1 m1 where loop: "publish_loop pub rs (set_celery (dr_id r) c rows) = (r1, n1, m1)"
      by (cases "publish_loop pub rs (set_celery (dr_id r) c rows)")
    from Cons.IH[OF loop] Cons.prems loop Published show ?thesis by auto
  qed (use Cons.prems in auto)
qed simp

text \<open>With a working broker the loop marks exactly the candidates as queued.\<close>

lemma publish_loop_all:
  "\<forall>r \<in> set rs. \<forall>x \<in> set rows. dr_id x = dr_id r \<longrightarrow> dr_key x = dr_key r \<Longrightarrow>
    publish_loop (\<lambda>k. Published (cid k)) rs rows =
      (upd_where (\<lambda>x. dr_id x \<in> dr_id ` set rs) (\<lambda>x. x\<lparr>dr_celery := Some (cid (dr_key x))\<rparr>) rows,
       length rs, map (\<lambda>r. (dr_key r, cid (dr_key r))) rs)"
proof (induction rs arbitrary: rows)
  case Nil
  then show ?case by (simp add: upd_where_def)
next
  case (Cons r rs)
  let ?rows = "set_celery (dr_id r) (cid (dr_key r)) rows"
  have "\<forall>q \<in> set rs. \<forall>x \<in> set ?rows. dr_id x = dr_id q \<longrightarrow> dr_key x = dr_key q"
    using Cons.prems by (auto simp: set_celery_def set_upd_where)
  note IH = Cons.IH[OF this]
  have "upd_where (\<lambda>x. dr_id x \<in> dr_id ` set rs) (\<lambda>x. x\<lparr>dr_celery := Some (cid (dr_key x))\<rparr>) ?rows =
    upd_where (\<lambda>x. dr_id x \<in> dr_id ` set (r # rs)) (\<lambda>x. x\<lparr>dr_celery := Some (cid (dr_key x))\<rparr>) rows"
    unfolding set_celery_def upd_where_def map_map using Cons.prems by (intro map_cong) auto
  with IH show ?case by simp
qed

lemma pump_candidates_eligible: "r \<in> set (pump_candidates rows) \<Longrightarrow> r \<in> set rows \<and> eligible r"
  by (auto simp: pump_candidates_def dest: in_set_takeD)

lemma pump_candidates_distinct:
  "wf_rows rows \<Longrightarrow> distinct (map dr_key (pump_candidates rows))"
  unfolding pump_candidates_def wf_rows_def
  by (auto simp: take_map[symmetric] distinct_map intro!: distinct_take inj_on_subset[of dr_key "set rows"])

lemma pump_candidates_oldest:
  assumes "r \<in> set rows" "eligible r" "r \<notin> set (pump_candidates rows)" "x \<in> set (pump_candidates rows)"
  shows "dr_created x \<le> dr_created r"
proof -
  let ?s = "sort_key dr_created (filter eligible rows)"
  have "set ?s = set (take pump_batch ?s) \<union> set (drop pump_batch ?s)"
    by (metis append_take_drop_id set_append)
  with assms(1-3) have "r \<in> set (drop pump_batch ?s)" by (auto simp: pump_candidates_def)
  moreover have "sorted (map dr_created (take pump_batch ?s @ drop pump_batch ?s))" by simp
  ultimately show ?thesis using assms(4)
    by (simp only: map_append sorted_append pump_candidates_def) auto
qed

end
