(* ===== verification/DispatcherSafety.thy ===== *)
theory DispatcherSafety
  imports Dispatcher "HOL-Library.Multiset"
begin

text \<open>
  Properties of the task life cycle over the database: leases and fencing, the races of
  two workers, what the pump publishes, what the stale scan resets, and that a task gets
  at most one live debug report. The concrete rows at the start serve the witnesses.
\<close>

definition row0 :: task_row where
  "row0 = \<lparr>dr_id = 1, dr_key = ''t1'', dr_status = StPending, dr_owner = None, dr_celery = None,
     dr_epoch = 0, dr_heartbeat = None, dr_lease = None, dr_started = None, dr_finished = None,
     dr_error = None, dr_created = 5, dr_deleted = False, tr_project = ''p'', tr_name = ''n'',
     tr_owner_ip = None, tr_cancel_requested = False\<rparr>"

lemma wf_row0 [simp]: "wf_rows [row0]" "wf_rows [row0\<lparr>dr_celery := c\<rparr>]"
  by (simp_all add: wf_rows_def)

lemmas row_eval = row0_def claim_specific_task_def claim_candidate_def claim_task_commit_def
  lease_deadline_def lease_ttl_seconds_def hits_def Let_def

section \<open>Leases\<close>

text \<open>
  C1: a successful claim gives the worker the lease, and until the row is reset or
  cleared no sequence of claims and renewals by any workers lets a run that has been
  superseded renew again: the epoch is a fencing token.
\<close>

theorem lease_fencing:
  assumes "wf_rows rows" and c1: "claim_specific_task ip rows k w1 now1 = Some (rows1, e1)"
    and c2: "claim_specific_task ip (lease_run (claim_specific_task ip) renew_lease rows1 ops1) k w2 now2 = Some (rows2, e2)"
  shows "\<not> snd (renew_lease (lease_run (claim_specific_task ip) renew_lease rows2 ops2) k w1 e1 now3)"
proof -
  let ?run = "lease_run (claim_specific_task ip) renew_lease"
  have wf1: "wf_rows rows1" using assms(1) c1 by (rule task_lease.wf_claim)
  have "lease_holder rows1 k = Some (w1, e1)" using task_lease.holder_claim[OF assms(1) c1] by simp
  from task_lease.run_epoch_mono[OF wf1 this, where ops = ops1] obtain w e where
    h: "lease_holder (?run rows1 ops1) k = Some (w, e)" and le: "e1 \<le> e" by blast
  have wfr: "wf_rows (?run rows1 ops1)" using wf1 by (rule task_lease.wf_run)
  have wf2: "wf_rows rows2" using wfr c2 by (rule task_lease.wf_claim)
  have "e2 = e + 1" using wfr c2 h by (rule task_lease.claim_epoch)
  moreover have "lease_holder rows2 k = Some (w2, e2)" using task_lease.holder_claim[OF wfr c2] by simp
  from task_lease.run_epoch_mono[OF wf2 this, where ops = ops2] obtain w' e' where
    "lease_holder (?run rows2 ops2) k = Some (w', e')" "e2 \<le> e'" by blast
  ultimately show ?thesis
    using le task_lease.renew_iff[OF task_lease.wf_run[OF wf2]] by auto
qed

theorem lease_fencing_witness:
  "\<exists>rows1 rows2. claim_specific_task None [row0] ''t1'' ''A'' 100 = Some (rows1, 1)
     \<and> claim_specific_task None rows1 ''t1'' ''B'' 191 = Some (rows2, 2)
     \<and> \<not> snd (renew_lease rows2 ''t1'' ''A'' 1 192)"
proof -
  let ?r1 = "fst (the (claim_specific_task None [row0] ''t1'' ''A'' 100))"
  let ?r2 = "fst (the (claim_specific_task None ?r1 ''t1'' ''B'' 191))"
  have 1: "claim_specific_task None [row0] ''t1'' ''A'' 100 = Some (?r1, 1)"
    by (simp add: row_eval)
  have 2: "claim_specific_task None (lease_run (claim_specific_task None) renew_lease ?r1 []) ''t1'' ''B'' 191 = Some (?r2, 2)"
    by (simp add: row_eval lease_expired_def)
  from lease_fencing[OF wf_row0(1) 1 2, of "[]" 192] 1 2 show ?thesis by auto
qed

lemma commit_running:
  "claim_task_commit ip w now c st rows = Some (rows1, e) \<Longrightarrow> r \<in> set rows1 \<Longrightarrow> dr_id r = dr_id c \<Longrightarrow>
    dr_status r = StRunning"
  by (auto simp: claim_task_commit_def Let_def set_upd_where split: if_splits)

text \<open>
  C27: two workers that both read a task while it was pending cannot both win it: once
  one of them has committed its conditional update, the other one's update matches no
  row, so a pending task starts at most one run.
\<close>

theorem pending_claim_exclusive:
  assumes "claim_task_commit ip1 w1 now1 c StPending rows = Some (rows1, e1)"
  shows "claim_task_commit ip2 w2 now2 c StPending rows1 = None"
proof -
  have "hits (\<lambda>r. dr_id r = dr_id c \<and> \<not> dr_deleted r \<and> dr_status r = StPending) rows1 = 0"
    using commit_running[OF assms] by (fastforce simp: hits_def filter_empty_conv)
  then show ?thesis by (simp add: claim_task_commit_def)
qed

theorem pending_claim_exclusive_witness:
  "\<exists>rows1. claim_task_commit None ''A'' 100 row0 StPending [row0] = Some (rows1, 1)
     \<and> claim_task_commit None ''B'' 100 row0 StPending rows1 = None"
proof -
  let ?r1 = "fst (the (claim_task_commit None ''A'' 100 row0 StPending [row0]))"
  have 1: "claim_task_commit None ''A'' 100 row0 StPending [row0] = Some (?r1, 1)" by (simp add: row_eval)
  from pending_claim_exclusive[OF 1] 1 show ?thesis by blast
qed

text \<open>
  the same race on a running task whose lease has expired is lost: both workers
  commit, both are told the same epoch, and the row records only the second, because the
  conditional update re-checks the status (still running) but not the lease.
\<close>

theorem expired_claim_race:
  assumes "wf_rows rows" "c \<in> set rows" "\<not> dr_deleted c" "dr_status c = StRunning"
    and "lease_expired now (dr_lease c)"
  shows "claim_expected now (dr_status c) (dr_lease c) = Some StRunning
    \<and> (\<exists>rows1 rows2. claim_task_commit ip1 w1 now c StRunning rows = Some (rows1, dr_epoch c + 1)
        \<and> claim_task_commit ip2 w2 now c StRunning rows1 = Some (rows2, dr_epoch c + 1)
        \<and> lease_holder rows2 (dr_key c) = Some (w2, dr_epoch c + 1))"
proof -
  from claim_task_commit_same[OF assms(1-3), of ip1 w1 now] assms(4)
  have 1: "claim_task_commit ip1 w1 now c StRunning rows =
      Some (upd_where (\<lambda>x. dr_key x = dr_key c) (claimed_task ip1 w1 now) rows, dr_epoch c + 1)" by simp
  let ?rows1 = "upd_where (\<lambda>x. dr_key x = dr_key c) (claimed_task ip1 w1 now) rows"
  have in1: "claimed_task ip1 w1 now c \<in> set ?rows1" using assms(2) by (force simp: set_upd_where)
  have "hits (\<lambda>r. dr_id r = dr_id c \<and> \<not> dr_deleted r \<and> dr_status r = StRunning) ?rows1 \<noteq> 0"
    using bexI[OF _ in1] assms(3) by (simp add: hits_def filter_empty_conv claimed_task_def)
  then obtain rows2 where 2: "claim_task_commit ip2 w2 now c StRunning ?rows1 = Some (rows2, dr_epoch c + 1)"
    by (simp add: claim_task_commit_def Let_def)
  have "row_of rows2 (dr_key c) = Some r2 \<Longrightarrow> holds_of r2 = Some (w2, dr_epoch c + 1)" for r2
    using 2 row_of_unique[OF assms(1,2)] assms(3)
    by (auto simp: claim_task_commit_def Let_def row_of_upd_where claimed_task_def holds_of_def split: if_splits)
  moreover have "row_of rows2 (dr_key c) \<noteq> None"
    using 2 row_of_unique[OF assms(1,2)]
    by (auto simp: claim_task_commit_def Let_def row_of_upd_where claimed_task_def split: if_splits)
  ultimately have "lease_holder rows2 (dr_key c) = Some (w2, dr_epoch c + 1)"
    by (auto simp: lease_holder_holds)
  with 1 2 assms(4,5) show ?thesis by auto
qed

definition row_orphan :: task_row where
  "row_orphan = row0\<lparr>dr_status := StRunning, dr_owner := Some ''dead'', dr_epoch := 1,
     dr_lease := Some 90, dr_heartbeat := Some 0\<rparr>"

theorem expired_claim_race_witness:
  "\<exists>rows1 rows2. claim_task_commit None ''A'' 100 row_orphan StRunning [row_orphan] = Some (rows1, 2)
      \<and> claim_task_commit None ''B'' 100 row_orphan StRunning rows1 = Some (rows2, 2)
      \<and> lease_holder rows2 ''t1'' = Some (''B'', 2)"
proof -
  have "wf_rows [row_orphan]" "row_orphan \<in> set [row_orphan]" "\<not> dr_deleted row_orphan"
    "dr_status row_orphan = StRunning" "lease_expired 100 (dr_lease row_orphan)"
    by (simp_all add: wf_rows_def row_orphan_def row0_def lease_expired_def)
  from conjunct2[OF expired_claim_race[OF this, of None "''A''" None "''B''"]]
  show ?thesis by (simp add: row_orphan_def row0_def)
qed

lemma reset_row_of:
  "row_of rows k = Some r \<Longrightarrow> row_of (upd_where P reset_task rows) k = Some (if P r then reset_task r else r)"
  by (simp add: row_of_upd_where reset_task_def)

text \<open>
  the dispatcher's reset sets the epoch back to zero, which undoes the fencing of a claim:
  when the same pod claims the task again after a stale reset, the credentials of the
  earlier run, which may still be alive, renew the new run's lease.
\<close>
theorem reset_breaks_fencing:
  assumes wf: "wf_rows rows" and r: "row_of rows k = Some r" "\<not> dr_deleted r" "stale_row active now r"
  shows "\<exists>rows1. claim_specific_task ip (upd_where (stale_row active now) reset_task rows) k w now = Some (rows1, 1)
    \<and> snd (renew_lease rows1 k w 1 now')"
proof -
  let ?rows = "upd_where (stale_row active now) reset_task rows"
  have wf': "wf_rows ?rows" using wf by (simp add: wf_upd_where reset_task_def)
  have "row_of ?rows k = Some (reset_task r)" using reset_row_of[OF r(1)] r(3) by simp
  then obtain rows1 where c: "claim_specific_task ip ?rows k w now = Some (rows1, 1)"
    using r(2) by (simp add: claim_task_row[OF wf'] claimable_def reset_task_def)
  with task_lease.claim_then_renew[OF wf' c] show ?thesis by blast
qed

definition row_running :: task_row where
  "row_running = row0\<lparr>dr_status := StRunning, dr_owner := Some ''A'', dr_epoch := 1, dr_celery := Some ''c1'',
     dr_lease := Some 190, dr_heartbeat := Some 100\<rparr>"

theorem reset_breaks_fencing_witness:
  "lease_holder [row_running] ''t1'' = Some (''A'', 1)
   \<and> (\<exists>rows1. claim_specific_task None (upd_where (stale_row [] 101) reset_task [row_running]) ''t1'' ''A'' 101 = Some (rows1, 1)
        \<and> snd (renew_lease rows1 ''t1'' ''A'' 1 102))"
proof -
  have "wf_rows [row_running]" "row_of [row_running] ''t1'' = Some row_running" "\<not> dr_deleted row_running"
    "stale_row [] 101 row_running"
    by (simp_all add: wf_rows_def row_running_def row0_def disp_defs)
  from reset_breaks_fencing[OF this] show ?thesis
    by (simp add: lease_holder_def row_running_def row0_def)
qed

text \<open>
  the clean-up at the end of \<open>run_ea_task\<close> clears the dispatch columns by task id
  alone. When the task has meanwhile been taken over, that takes the lease away from the
  new owner, whose next heartbeat then fails and kills it.
\<close>

theorem late_cleanup_kills_new_owner:
  assumes "wf_rows rows" "lease_holder rows k = Some (w, e)"
  shows "snd (heartbeat_tick k w e now rows)
    \<and> \<not> snd (heartbeat_tick k w e now (clear_running_dispatch_fields rows k))"
  using task_lease.renew_iff[OF assms(1)] task_lease.renew_iff[OF task_lease.wf_clear[OF assms(1)]]
    task_lease.holder_clear[OF assms(1)] assms(2)
  by (simp add: heartbeat_tick_def)

theorem late_cleanup_kills_new_owner_witness:
  "snd (heartbeat_tick ''t1'' ''A'' 1 120 [row_running])
    \<and> \<not> snd (heartbeat_tick ''t1'' ''A'' 1 120 (clear_running_dispatch_fields [row_running] ''t1''))"
proof -
  have "wf_rows [row_running]" "lease_holder [row_running] ''t1'' = Some (''A'', 1)"
    by (simp_all add: wf_rows_def lease_holder_def row_running_def row0_def)
  then show ?thesis by (rule late_cleanup_kills_new_owner)
qed

section \<open>Start-up reset, pump and stale scan\<close>

text \<open>
  after the start-up reset no live task is running and every live pending task is
  eligible for the pump again; tasks that are deleted or in a final state are untouched.
\<close>

theorem startup_reset_complete:
  "let rows' = startup_reset_tasks rows in
     (\<forall>r' \<in> set rows'. \<not> live_status StRunning r' \<and> (live_status StPending r' \<longleftrightarrow> eligible r'))
     \<and> map dr_key rows' = map dr_key rows
     \<and> filter (\<lambda>r. dr_deleted r \<or> terminal (dr_status r)) rows' =
       filter (\<lambda>r. dr_deleted r \<or> terminal (dr_status r)) rows"
proof -
  have "filter (\<lambda>r. dr_deleted r \<or> terminal (dr_status r)) (startup_reset_tasks rows) =
       filter (\<lambda>r. dr_deleted r \<or> terminal (dr_status r)) rows"
    by (induction rows) (auto simp: startup_reset_tasks_def disp_defs terminal_def)
  moreover have "map dr_key (startup_reset_tasks rows) = map dr_key rows"
    by (simp add: startup_reset_tasks_def upd_where_map_key reset_task_def)
  moreover have "\<forall>r' \<in> set (startup_reset_tasks rows). \<not> live_status StRunning r'
      \<and> (live_status StPending r' \<longleftrightarrow> eligible r')"
    by (auto simp: startup_reset_tasks_def set_upd_where disp_defs)
  ultimately show ?thesis by (simp add: Let_def)
qed

theorem startup_reset_complete_witness:
  "let rows' = startup_reset_tasks [row_running] in
     (\<forall>r' \<in> set rows'. \<not> live_status StRunning r' \<and> (live_status StPending r' \<longleftrightarrow> eligible r'))
     \<and> map dr_key rows' = map dr_key [row_running]
     \<and> filter (\<lambda>r. dr_deleted r \<or> terminal (dr_status r)) rows' =
       filter (\<lambda>r. dr_deleted r \<or> terminal (dr_status r)) [row_running]"
  by (rule startup_reset_complete)

text \<open>
  one pass of the pump publishes at most 20 messages, each for a different, eligible
  task, and any eligible task it passes over was created no earlier than each one it
  selected; whatever the broker does, at most one message is not recorded in the table.
\<close>

theorem pump_selects_oldest_once:
  assumes wf: "wf_rows rows" and p: "pump_once pub rows = (rows', n, msgs)"
  shows "length msgs \<le> 20 \<and> distinct (map fst msgs)
    \<and> (\<forall>k \<in> fst ` set msgs. \<exists>r. row_of rows k = Some r \<and> eligible r)
    \<and> n \<le> length msgs \<and> length msgs \<le> n + 1
    \<and> (\<forall>x \<in> set (pump_candidates rows). \<forall>r \<in> set rows.
         eligible r \<and> r \<notin> set (pump_candidates rows) \<longrightarrow> dr_created x \<le> dr_created r)"
proof -
  from p have "publish_loop pub (pump_candidates rows) rows = (rows', n, msgs)" by (simp add: pump_once_def)
  from publish_loop_msgs[OF this] obtain ms where
    ms: "map dr_key (pump_candidates rows) = map fst msgs @ ms" and n: "n \<le> length msgs" "length msgs \<le> n + 1"
    by blast
  have "length msgs \<le> length (pump_candidates rows)"
    using arg_cong[OF ms, of length] by simp
  then have len: "length msgs \<le> 20" by (simp add: pump_candidates_def pump_batch_def)
  from pump_candidates_distinct[OF wf] ms have d: "distinct (map fst msgs)" by simp
  have "\<exists>r. row_of rows k = Some r \<and> eligible r" if "k \<in> fst ` set msgs" for k
  proof -
    from that ms have "k \<in> dr_key ` set (pump_candidates rows)" by (metis Un_iff list.set_map set_append)
    then obtain r where "r \<in> set (pump_candidates rows)" "dr_key r = k" by blast
    with pump_candidates_eligible row_of_unique[OF wf] show ?thesis by blast
  qed
  with len d n pump_candidates_oldest show ?thesis by blast
qed

theorem pump_selects_oldest_once_witness:
  "\<exists>rows'. pump_once (\<lambda>k. Published ''c9'') [row0] = (rows', 1, [(''t1'', ''c9'')])
     \<and> (\<forall>k \<in> fst ` set [(''t1'', ''c9'' :: string)]. \<exists>r. row_of [row0] k = Some r \<and> eligible r)"
proof -
  let ?r = "fst (pump_once (\<lambda>k. Published ''c9'') [row0])"
  have 1: "pump_once (\<lambda>k. Published ''c9'') [row0] = (?r, 1, [(''t1'', ''c9'')])"
    by (simp add: pump_once_def pump_candidates_def pump_batch_def disp_defs row0_def)
  from pump_selects_oldest_once[OF wf_row0(1) 1] 1 show ?thesis by blast
qed

lemma filter_not_take:
  assumes "distinct xs"
  shows "filter (\<lambda>x. x \<notin> set (take n xs)) xs = drop n xs"
proof -
  have dis: "set (take n xs) \<inter> set (drop n xs) = {}"
    using assms by (metis append_take_drop_id distinct_append)
  let ?Q = "\<lambda>x. x \<notin> set (take n xs)"
  have "filter ?Q xs = filter ?Q (take n xs) @ filter ?Q (drop n xs)"
    by (metis append_take_drop_id filter_append)
  moreover have "filter ?Q (take n xs) = []" by (simp add: filter_empty_conv)
  moreover have "filter ?Q (drop n xs) = drop n xs" using dis by (intro filter_True) auto
  ultimately show ?thesis by simp
qed

lemma eligible_mark:
  "(\<And>x. x \<in> set rows \<Longrightarrow> P x \<longleftrightarrow> x \<in> C) \<Longrightarrow> (\<And>x. dr_celery (f x) \<noteq> None) \<Longrightarrow>
    filter eligible (upd_where P f rows) = filter (\<lambda>x. x \<notin> C) (filter eligible rows)"
  by (induction rows) (auto simp: eligible_def)

lemma pump_eligible_count:
  assumes wf: "wf_rows rows"
  shows "length (filter eligible (fst (pump_once (\<lambda>k. Published (cid k)) rows))) =
    length (filter eligible rows) - pump_batch
    \<and> wf_rows (fst (pump_once (\<lambda>k. Published (cid k)) rows))"
proof -
  let ?c = "pump_candidates rows"
  let ?f = "\<lambda>x. x\<lparr>dr_celery := Some (cid (dr_key x))\<rparr>"
  let ?rows = "upd_where (\<lambda>x. dr_id x \<in> dr_id ` set ?c) ?f rows"
  let ?s = "sort_key dr_created (filter eligible rows)"
  have sub: "set ?c \<subseteq> set rows" using pump_candidates_eligible by blast
  have ids: "dr_id x \<in> dr_id ` set ?c \<longleftrightarrow> x \<in> set ?c" if "x \<in> set rows" for x
    using wf_same_id[OF wf that] sub by blast
  have "\<forall>r \<in> set ?c. \<forall>x \<in> set rows. dr_id x = dr_id r \<longrightarrow> dr_key x = dr_key r"
    using wf_same_id[OF wf] sub by blast
  from publish_loop_all[OF this, of cid] have pump: "fst (pump_once (\<lambda>k. Published (cid k)) rows) = ?rows"
    by (simp add: pump_once_def)
  have d: "distinct ?s" using wf by (simp add: wf_rows_def distinct_map)
  have "filter eligible ?rows = filter (\<lambda>x. x \<notin> set ?c) (filter eligible rows)"
    using ids by (intro eligible_mark) auto
  moreover have "mset (filter (\<lambda>x. x \<notin> set ?c) (filter eligible rows)) =
      mset (filter (\<lambda>x. x \<notin> set ?c) ?s)"
    by (simp only: mset_filter mset_sort)
  moreover have "filter (\<lambda>x. x \<notin> set ?c) ?s = drop pump_batch ?s"
    unfolding pump_candidates_def using d by (rule filter_not_take)
  ultimately have "length (filter eligible ?rows) = length (drop pump_batch ?s)"
    by (metis size_mset)
  moreover have "wf_rows ?rows" using wf by (simp add: wf_upd_where)
  ultimately show ?thesis by (simp add: pump)
qed

text \<open>
  with a working broker the backlog drains: each pass takes 20 tasks off it, so
  after \<open>k\<close> passes nothing is left to publish when at most \<open>20 * k\<close> tasks were
  eligible.
\<close>

theorem pump_drains_backlog:
  assumes "wf_rows rows" "length (filter eligible rows) \<le> 20 * k"
  shows "filter eligible (((\<lambda>t. fst (pump_once (\<lambda>j. Published (cid j)) t)) ^^ k) rows) = []"
  using assms
proof (induction k arbitrary: rows)
  case (Suc k)
  from pump_eligible_count[OF Suc.prems(1), of cid] Suc.prems(2)
  have "length (filter eligible (fst (pump_once (\<lambda>j. Published (cid j)) rows))) \<le> 20 * k"
    by (simp add: pump_batch_def)
  with Suc.IH pump_eligible_count[OF Suc.prems(1), of cid] show ?case
    by (simp add: funpow_Suc_right del: funpow.simps)
qed simp

theorem pump_drains_backlog_witness:
  "filter eligible [row0] = [row0]
   \<and> filter eligible (((\<lambda>t. fst (pump_once (\<lambda>j. Published (''c'' @ j)) t)) ^^ 1) [row0]) = []"
proof -
  have "length (filter eligible [row0]) \<le> 20 * 1" by (simp add: disp_defs row0_def)
  from pump_drains_backlog[OF wf_row0(1) this, of "\<lambda>j. ''c'' @ j"] show ?thesis
    by (simp add: disp_defs row0_def)
qed

text \<open>
  the stale scan leaves a running task alone exactly when some worker reports its
  message as active and its heartbeat is at most 600 seconds old; every other live
  running task goes back to pending without owner, lease and epoch.
\<close>

theorem stale_scan_exact:
  assumes "wf_rows rows" and r: "row_of rows k = Some r" "live_status StRunning r"
    and s: "stale_once reply now rows = (rows', revoked, n)"
  shows "row_of rows' k = Some (if in_active (active_ids reply) r \<and> \<not> heartbeat_stale now r then r
    else reset_task r)"
  using r s
  by (auto simp: stale_once_def recover_pending_stale_cid_def Let_def row_of_upd_where reset_task_def
      stale_row_def live_status_def queued_def)

theorem stale_scan_exact_witness:
  "row_of (fst (stale_once (Some [(''pod'', [Some ''c1''])]) 200 [row_running])) ''t1'' = Some row_running
   \<and> row_of (fst (stale_once (Some [(''pod'', [Some ''c1''])]) 701 [row_running])) ''t1'' = Some (reset_task row_running)"
proof -
  have wf: "wf_rows [row_running]" and r: "row_of [row_running] ''t1'' = Some row_running"
    and l: "live_status StRunning row_running"
    by (simp_all add: wf_rows_def row_running_def row0_def live_status_def)
  let ?i = "Some [(''pod'', [Some ''c1''])] :: inspect_reply"
  obtain a b c where 1: "stale_once ?i 200 [row_running] = (a, b, c)" by (metis prod_cases3)
  obtain d e f where 2: "stale_once ?i 701 [row_running] = (d, e, f)" by (metis prod_cases3)
  have "in_active (active_ids ?i) row_running" "\<not> heartbeat_stale 200 row_running" "heartbeat_stale 701 row_running"
    by (simp_all add: in_active_def active_ids_def heartbeat_stale_def stale_heartbeat_seconds_def
        row_running_def row0_def List.map_filter_def)
  with stale_scan_exact[OF wf r l 1] stale_scan_exact[OF wf r l 2] 1 2 show ?thesis by simp
qed

text \<open>
  when \<open>inspect.active()\<close> fails the round is not skipped: the empty answer makes the
  scan reset every live running task and revoke its message with SIGKILL, however fresh
  its heartbeat and lease are.
\<close>

theorem inspect_failure_resets_all:
  assumes "r \<in> set rows" "live_status StRunning r" "dr_celery r = Some c" "c \<noteq> []"
    and "stale_once None now rows = (rows', revoked, n)"
  shows "c \<in> set revoked \<and> (\<forall>r' \<in> set rows'. \<not> live_status StRunning r')"
proof -
  have st: "stale_row [] now x \<longleftrightarrow> live_status StRunning x" for x :: "'a task_row_scheme"
    by (auto simp: stale_row_def in_active_def split: option.splits)
  from assms(5) have rev: "revoked = revoked_ids (stale_row [] now) rows"
    and rows': "rows' = fst (recover_pending_stale_cid [] (upd_where (stale_row [] now) reset_task rows))"
    by (auto simp: stale_once_def active_ids_def Let_def split: prod.splits)
  have "c \<in> set revoked"
  proof -
    obtain d ds where "c = d # ds" using assms(4) by (cases c) auto
    moreover have "r \<in> set (filter (stale_row [] now) rows)" using assms(1,2) st by simp
    ultimately show ?thesis
      unfolding rev revoked_ids_def set_concat set_map using assms(3)
      by (intro UN_I[of "case dr_celery r of Some (c # cs) \<Rightarrow> [c # cs] | _ \<Rightarrow> []"] imageI) simp_all
  qed
  moreover have "\<forall>r' \<in> set (upd_where (stale_row [] now) reset_task rows). \<not> live_status StRunning r'"
    using st by (auto simp: set_upd_where reset_task_def live_status_def)
  then have "\<forall>r' \<in> set rows'. \<not> live_status StRunning r'"
    by (auto simp: rows' recover_pending_stale_cid_def Let_def set_upd_where[of _ _ "upd_where _ _ _"]
        live_status_def queued_def)
  ultimately show ?thesis by blast
qed

theorem inspect_failure_resets_all_witness:
  "\<not> heartbeat_stale 101 row_running \<and> ''c1'' \<in> set (fst (snd (stale_once None 101 [row_running])))
   \<and> (\<forall>r' \<in> set (fst (stale_once None 101 [row_running])). \<not> live_status StRunning r')"
proof -
  obtain a b c where s: "stale_once None 101 [row_running] = (a, b, c)" by (metis prod_cases3)
  have "row_running \<in> set [row_running]" "live_status StRunning row_running"
    "dr_celery row_running = Some ''c1''" "''c1'' \<noteq> ([] :: string)" "\<not> heartbeat_stale 101 row_running"
    by (simp_all add: live_status_def heartbeat_stale_def stale_heartbeat_seconds_def row_running_def row0_def)
  with inspect_failure_resets_all[OF this(1-4) s] s show ?thesis by simp
qed

text \<open>
  a task whose message is still in the broker's queue, so that no worker reports it
  as active yet, is made eligible again by the stale scan; the next pump may publish a
  second message for it.
\<close>

theorem queued_message_is_forgotten:
  assumes "row_of rows k = Some r" "queued r" "\<not> in_active (active_ids reply) r"
    and "stale_once reply now rows = (rows', revoked, n)"
  shows "\<exists>r'. row_of rows' k = Some r' \<and> eligible r'"
  using assms
  by (auto simp: stale_once_def recover_pending_stale_cid_def Let_def row_of_upd_where reset_task_def
      stale_row_def live_status_def queued_def eligible_def)

theorem queued_message_is_forgotten_witness:
  "(let (rows1, n1, msgs1) = pump_once (\<lambda>k. Published ''c1'') [row0];
        (rows2, revoked, n2) = stale_once (Some [(''pod'', [])]) 9 rows1;
        (rows3, n3, msgs3) = pump_once (\<lambda>k. Published ''c2'') rows2
    in msgs1 = [(''t1'', ''c1'')] \<and> msgs3 = [(''t1'', ''c2'')])
   \<and> (\<exists>r'. row_of (fst (stale_once (Some [(''pod'', [])]) 9 [row0\<lparr>dr_celery := Some ''c1''\<rparr>])) ''t1'' = Some r' \<and> eligible r')"
proof -
  let ?q = "row0\<lparr>dr_celery := Some ''c1''\<rparr>"
  obtain a b c where s: "stale_once (Some [(''pod'', [])]) 9 [?q] = (a, b, c)" by (metis prod_cases3)
  have "row_of [?q] ''t1'' = Some ?q" "queued ?q" "\<not> in_active (active_ids (Some [(''pod'', [])])) ?q"
    by (simp_all add: row0_def disp_defs active_ids_def List.map_filter_def)
  from queued_message_is_forgotten[OF this s] s have 1:
    "\<exists>r'. row_of (fst (stale_once (Some [(''pod'', [])]) 9 [?q])) ''t1'' = Some r' \<and> eligible r'" by simp
  have "let (rows1, n1, msgs1) = pump_once (\<lambda>k. Published ''c1'') [row0];
        (rows2, revoked, n2) = stale_once (Some [(''pod'', [])]) 9 rows1;
        (rows3, n3, msgs3) = pump_once (\<lambda>k. Published ''c2'') rows2
    in msgs1 = [(''t1'', ''c1'')] \<and> msgs3 = [(''t1'', ''c2'')]"
    by (simp add: pump_once_def pump_candidates_def pump_batch_def disp_defs row0_def set_celery_def
        stale_once_def recover_pending_stale_cid_def active_ids_def List.map_filter_def Let_def)
  with 1 show ?thesis by blast
qed

section \<open>Runs and debug reports\<close>

definition one_report_each :: "report_row list \<Rightarrow> bool" where
  "one_report_each reports \<longleftrightarrow> distinct (map rr_task_id (filter (\<lambda>r. \<not> dr_deleted r) reports))"

lemma trigger_unique:
  "one_report_each reports \<Longrightarrow> one_report_each (maybe_trigger_debug i rid now rows k reports)"
  by (auto simp: maybe_trigger_debug_def one_report_each_def has_report_def new_report_def
      dest: row_of_Some split: option.splits)

lemma upd_where_in:
  assumes "r \<in> set (upd_where P f rows)"
  obtains r0 where "r0 \<in> set rows" "P r0" "r = f r0" | "r \<in> set rows" "\<not> P r"
  using assms unfolding set_upd_where by (auto split: if_splits)

lemma cleared_row:
  assumes "r \<in> set (clear_running_dispatch_fields rows k)" "dr_key r = k"
  shows "\<exists>r0. r0 \<in> set rows \<and> dr_key r0 = k \<and> dr_status r0 = dr_status r \<and> dr_owner r = None
     \<and> dr_celery r = None \<and> dr_lease r = None"
  using assms(1) unfolding clear_running_dispatch_fields_def
proof (cases rule: upd_where_in)
  case (1 r0)
  then show ?thesis by (intro exI[of _ r0]) simp
next
  case 2
  with assms(2) show ?thesis by simp
qed

lemma ensured_row:
  assumes "r \<in> set (ensure_terminal_error k e now rows)" "dr_key r = k"
  shows "terminal (dr_status r)"
  using assms(1) unfolding ensure_terminal_error_def
proof (cases rule: upd_where_in)
  case (1 r0)
  then show ?thesis by (simp add: terminal_def)
next
  case 2
  with assms(2) show ?thesis by simp
qed

text \<open>
  whatever the engine does to the task table, a message ends with the dispatch
  columns of the task cleared, a crash of the engine never leaves a live non-final
  status behind, and a task never gets a second live debug report.
\<close>

theorem run_ea_task_cleans_up:
  assumes "claim_specific_task ip rows k worker now = Some (rows1, epoch)"
    and body: "body rows1 = (rows2, exc)"
    and run: "run_ea_task ip worker now now2 body i rid k rows reports = (rows', reports', res)"
    and "one_report_each reports"
  shows "(\<forall>r \<in> set rows'. dr_key r = k \<longrightarrow> dr_owner r = None \<and> dr_celery r = None \<and> dr_lease r = None
           \<and> (exc \<noteq> None \<longrightarrow> terminal (dr_status r)))
    \<and> res = (case exc of None \<Rightarrow> RunDone | Some e \<Rightarrow> RunErrored e) \<and> one_report_each reports'"
proof -
  define R where "R = clear_running_dispatch_fields
        (case exc of None \<Rightarrow> rows2 | Some e \<Rightarrow> ensure_terminal_error k e now2 rows2) k"
  have "run_ea_task ip worker now now2 body i rid k rows reports =
      (R, maybe_trigger_debug i rid now2 R k reports,
       (case exc of None \<Rightarrow> RunDone | Some e \<Rightarrow> RunErrored e))"
    using assms(1) body by (simp add: run_ea_task_def Let_def R_def)
  with run have eqs: "rows' = R" "reports' = maybe_trigger_debug i rid now2 R k reports"
    "res = (case exc of None \<Rightarrow> RunDone | Some e \<Rightarrow> RunErrored e)"
    by (metis prod.inject)+
  have "dr_owner r = None \<and> dr_celery r = None \<and> dr_lease r = None \<and> (exc \<noteq> None \<longrightarrow> terminal (dr_status r))"
    if in_r: "r \<in> set rows'" and key_r: "dr_key r = k" for r
  proof -
    from cleared_row[OF in_r[unfolded eqs(1) R_def] key_r] obtain r0 where
      r0: "r0 \<in> set (case exc of None \<Rightarrow> rows2 | Some e \<Rightarrow> ensure_terminal_error k e now2 rows2)"
      "dr_key r0 = k" "dr_status r0 = dr_status r" "dr_owner r = None" "dr_celery r = None" "dr_lease r = None"
      by blast
    moreover from r0(1,2) have "exc \<noteq> None \<longrightarrow> terminal (dr_status r0)"
      by (cases exc) (auto intro: ensured_row)
    ultimately show ?thesis by simp
  qed
  with eqs(2,3) trigger_unique[OF assms(4)] show ?thesis by blast
qed

theorem run_ea_task_cleans_up_witness:
  "\<exists>rows' reports'. run_ea_task None ''A'' 100 101 (\<lambda>t. (t, Some ''boom'')) 1 ''dr_1'' ''t1'' [row0] [] =
      (rows', reports', RunErrored ''boom'')
    \<and> map dr_status rows' = [StError] \<and> map rr_task_id reports' = [''t1''] \<and> one_report_each reports'"
proof -
  let ?c = "claim_specific_task None [row0] ''t1'' ''A'' 100"
  let ?r = "run_ea_task None ''A'' 100 101 (\<lambda>t. (t, Some ''boom'')) 1 ''dr_1'' ''t1'' [row0] []"
  have c: "?c = Some (fst (the ?c), 1)" by (simp add: row_eval)
  have r: "?r = (fst ?r, fst (snd ?r), snd (snd ?r))" by simp
  have "one_report_each []" by (simp add: one_report_each_def)
  from run_ea_task_cleans_up[OF c refl r this] have
    "snd (snd ?r) = RunErrored ''boom''" "one_report_each (fst (snd ?r))" by auto
  moreover have "map dr_status (fst ?r) = [StError] \<and> map rr_task_id (fst (snd ?r)) = [''t1'']"
    by (simp add: run_ea_task_def row_eval ensure_terminal_error_def terminal_def
        clear_running_dispatch_fields_def maybe_trigger_debug_def has_report_def new_report_def)
  ultimately show ?thesis by (metis prod.collapse)
qed

end
