(* ===== verification/StageQueue.thy ===== *)
theory StageQueue
  imports Prelude
begin

text \<open>
  The staged thread pipeline (\<open>app/pipeline/stage_queue.py\<close>). A stage is a
  \<open>queue.Queue\<close> with its unfinished-task counter and a fixed number of worker
  threads; \<open>run\<close> is the main thread. Each thread advances by atomic steps: the
  check of the cancel flag, one queue operation, one call of the processor, one
  update under the lock. The interleaving is arbitrary. The processor is code of
  the engines and a parameter: \<open>proc i batch\<close> is \<open>None\<close> when it raises, else the
  items for the next stage. A time-out (\<open>queue.Empty\<close> after a second, the two second
  batch deadline) is a free choice of the scheduler.
\<close>

section \<open>State\<close>

text \<open>
  Where a worker thread is in \<open>_worker\<close>: at the loop condition, inside \<open>get\<close>, filling a
  batch, calling the processor, putting results, before the \<open>finally\<close> block, returned.
  The flag of the busy states is \<open>_should_exit\<close>.
\<close>

datatype 'a wst =
    AtTop
  | Getting
  | Collecting "'a list"
  | Processing "'a list" bool
  | Emitting "'a list" "'a list" bool
  | Finishing "'a list" bool
  | Exited

text \<open>\<open>None\<close> in a queue is the sentinel; \<open>st_got\<close> and \<open>st_failed\<close> are ghosts: items ever put, items whose processor raised.\<close>

record 'a stage =
  st_items :: "'a option list"
  st_unfinished :: nat
  st_done :: nat
  st_batch :: nat
  st_threads :: "'a wst list"
  st_got :: nat
  st_failed :: nat

datatype main_pc = MWait nat | MSend nat nat | MFin

record 'a sq_state =
  sq_stages :: "'a stage list"
  sq_main :: main_pc
  sq_total :: nat
  sq_cancel :: bool
  sq_stop :: bool

definition new_stage :: "nat \<Rightarrow> nat \<Rightarrow> 'a stage" where
  "new_stage workers batch = \<lparr>st_items = [], st_unfinished = 0, st_done = 0, st_batch = max 1 batch,
     st_threads = replicate (max 1 workers) AtTop, st_got = 0, st_failed = 0\<rparr>"

definition sq_cancelled :: "'a sq_state \<Rightarrow> bool" where
  "sq_cancelled s \<longleftrightarrow> sq_stop s \<or> sq_cancel s"

definition q_put :: "'a option \<Rightarrow> 'a stage \<Rightarrow> 'a stage" where
  "q_put x st = st\<lparr>st_items := st_items st @ [x], st_unfinished := st_unfinished st + 1,
     st_got := (if x = None then st_got st else st_got st + 1)\<rparr>"

definition put_at :: "nat \<Rightarrow> 'a option \<Rightarrow> 'a stage list \<Rightarrow> 'a stage list" where
  "put_at i x sts = (if i < length sts then sts[i := q_put x (sts ! i)] else sts)"

section \<open>Worker threads\<close>

text \<open>One step of a thread: the stage, the thread and the item put into the next queue.\<close>

fun local_step :: "('a list \<Rightarrow> 'a list option) \<Rightarrow> bool \<Rightarrow> bool \<Rightarrow> bool \<Rightarrow> 'a stage \<Rightarrow> 'a wst \<Rightarrow>
    ('a stage \<times> 'a wst \<times> 'a option) option" where
  "local_step proc has_next cancelled timeout st AtTop =
     Some (st, if cancelled then Exited else Getting, None)"
| "local_step proc has_next cancelled timeout st Getting =
     (case st_items st of
        [] \<Rightarrow> Some (st, AtTop, None)
      | None # q \<Rightarrow> Some (st\<lparr>st_items := q, st_unfinished := st_unfinished st - 1\<rparr>, Exited, None)
      | Some x # q \<Rightarrow> Some (st\<lparr>st_items := q\<rparr>,
          if 1 < st_batch st then Collecting [x] else Processing [x] False, None))"
| "local_step proc has_next cancelled timeout st (Collecting b) =
     (if length b < st_batch st \<and> \<not> timeout
      then (case st_items st of
              [] \<Rightarrow> Some (st, Collecting b, None)
            | None # q \<Rightarrow> Some (st\<lparr>st_items := q, st_unfinished := st_unfinished st - 1\<rparr>, Processing b True, None)
            | Some x # q \<Rightarrow> Some (st\<lparr>st_items := q\<rparr>, Collecting (b @ [x]), None))
      else Some (st, Processing b False, None))"
| "local_step proc has_next cancelled timeout st (Processing b e) =
     (case proc b of
        None \<Rightarrow> Some (st\<lparr>st_failed := st_failed st + length b\<rparr>, Finishing b e, None)
      | Some rs \<Rightarrow> Some (st, Emitting (if has_next then rs else []) b e, None))"
| "local_step proc has_next cancelled timeout st (Emitting [] b e) =
     Some (st\<lparr>st_done := st_done st + length b\<rparr>, Finishing b e, None)"
| "local_step proc has_next cancelled timeout st (Emitting (r # rs) b e) =
     Some (st, Emitting rs b e, Some r)"
| "local_step proc has_next cancelled timeout st (Finishing b e) =
     Some (st\<lparr>st_unfinished := st_unfinished st - length b\<rparr>, if e then Exited else AtTop, None)"
| "local_step proc has_next cancelled timeout st Exited = None"

definition worker_step :: "(nat \<Rightarrow> 'a list \<Rightarrow> 'a list option) \<Rightarrow> nat \<Rightarrow> nat \<Rightarrow> bool \<Rightarrow> 'a sq_state \<Rightarrow> 'a sq_state option" where
  "worker_step proc i j timeout s =
     (if i < length (sq_stages s) \<and> j < length (st_threads (sq_stages s ! i))
      then (let st = sq_stages s ! i in
            case local_step (proc i) (i + 1 < length (sq_stages s)) (sq_cancelled s) timeout st (st_threads st ! j) of
              None \<Rightarrow> None
            | Some (st', t', out) \<Rightarrow>
                (let sts = (sq_stages s)[i := st'\<lparr>st_threads := (st_threads st')[j := t']\<rparr>]
                 in Some (s\<lparr>sq_stages := (case out of None \<Rightarrow> sts | Some r \<Rightarrow> put_at (i + 1) (Some r) sts)\<rparr>)))
      else None)"

section \<open>The main thread\<close>

definition wait_over :: "nat \<Rightarrow> 'a sq_state \<Rightarrow> bool" where
  "wait_over m s = (if m = 0 then sq_total s \<le> st_done (sq_stages s ! 0) else st_unfinished (sq_stages s ! m) = 0)"

fun main_step :: "'a sq_state \<Rightarrow> 'a sq_state option" where
  "main_step s =
     (case sq_main s of
        MWait m \<Rightarrow>
          (if wait_over m s
           then (if m + 1 < length (sq_stages s)
                 then Some (s\<lparr>sq_main := MSend m (length (st_threads (sq_stages s ! (m + 1))))\<rparr>)
                 else Some (s\<lparr>sq_main := MFin, sq_stop := True\<rparr>))
           else None)
      | MSend m 0 \<Rightarrow> Some (s\<lparr>sq_main := MWait (m + 1)\<rparr>)
      | MSend m (Suc k) \<Rightarrow> Some (s\<lparr>sq_stages := put_at (m + 1) None (sq_stages s), sq_main := MSend m k\<rparr>)
      | MFin \<Rightarrow> None)"

declare main_step.simps [simp del]

definition sq_start :: "'a stage list \<Rightarrow> 'a list \<Rightarrow> 'a sq_state" where
  "sq_start sts items = \<lparr>sq_stages = foldl (\<lambda>ss x. put_at 0 (Some x) ss) sts items, sq_main = MWait 0,
     sq_total = length items, sq_cancel = False, sq_stop = False\<rparr>"

inductive sq_step :: "(nat \<Rightarrow> 'a list \<Rightarrow> 'a list option) \<Rightarrow> 'a sq_state \<Rightarrow> 'a sq_state \<Rightarrow> bool" for proc where
  sq_worker: "worker_step proc i j timeout s = Some s' \<Longrightarrow> sq_step proc s s'"
| sq_main: "main_step s = Some s' \<Longrightarrow> sq_step proc s s'"
| sq_cancel: "sq_step proc s (s\<lparr>sq_cancel := True\<rparr>)"

inductive_cases sq_stepE: "sq_step proc s s'"

definition sq_init :: "(nat \<times> nat) list \<Rightarrow> 'a list \<Rightarrow> 'a sq_state \<Rightarrow> bool" where
  "sq_init conf items s \<longleftrightarrow> conf \<noteq> [] \<and> s = sq_start (map (\<lambda>(w, b). new_stage w b) conf) items"

text \<open>The batch numbers and the counters of \<open>stats\<close>.\<close>

definition next_batch_idx :: "string \<Rightarrow> (string \<Rightarrow> nat) \<Rightarrow> (string \<Rightarrow> nat) \<times> nat" where
  "next_batch_idx name counters = (counters(name := counters name + 1), counters name)"

definition sq_stats :: "'a sq_state \<Rightarrow> nat list" where
  "sq_stats s = map st_done (sq_stages s)"

section \<open>Accounting\<close>

fun held :: "'a wst \<Rightarrow> 'a list" where
  "held (Collecting b) = b"
| "held (Processing b e) = b"
| "held (Emitting rs b e) = b"
| "held (Finishing b e) = b"
| "held _ = []"

fun pend :: "'a wst \<Rightarrow> 'a list" where
  "pend (Finishing b e) = []"
| "pend t = held t"

fun gone :: "'a wst \<Rightarrow> bool" where
  "gone (Processing b e) = e"
| "gone (Emitting rs b e) = e"
| "gone (Finishing b e) = e"
| "gone Exited = True"
| "gone _ = False"

fun wst_ok :: "'a wst \<Rightarrow> bool" where
  "wst_ok AtTop = True"
| "wst_ok Getting = True"
| "wst_ok Exited = True"
| "wst_ok t = (held t \<noteq> [])"

definition in_hand :: "('a wst \<Rightarrow> 'a list) \<Rightarrow> 'a wst list \<Rightarrow> nat" where
  "in_hand f ts = sum_list (map (length \<circ> f) ts)"

fun somes :: "'a option list \<Rightarrow> nat" where
  "somes [] = 0"
| "somes (None # q) = somes q"
| "somes (Some x # q) = Suc (somes q)"

fun nones :: "'a option list \<Rightarrow> nat" where
  "nones [] = 0"
| "nones (None # q) = Suc (nones q)"
| "nones (Some x # q) = nones q"

lemma somes_append [simp]: "somes (p @ q) = somes p + somes q"
  by (induction p rule: somes.induct) auto

lemma nones_append [simp]: "nones (p @ q) = nones p + nones q"
  by (induction p rule: nones.induct) auto

lemma somes_nones: "length q = somes q + nones q"
  by (induction q rule: somes.induct) auto

definition stage_ok :: "'a stage \<Rightarrow> bool" where
  "stage_ok st \<longleftrightarrow> st_unfinished st = length (st_items st) + in_hand held (st_threads st)
     \<and> st_got st = st_done st + st_failed st + somes (st_items st) + in_hand pend (st_threads st)
     \<and> (\<forall>t \<in> set (st_threads st). wst_ok t)"

definition quiet :: "'a stage \<Rightarrow> bool" where
  "quiet st \<longleftrightarrow> somes (st_items st) = 0 \<and> in_hand pend (st_threads st) = 0"

lemma in_hand_upd:
  "j < length ts \<Longrightarrow> in_hand f (ts[j := t]) + length (f (ts ! j)) = in_hand f ts + length (f t)"
  unfolding in_hand_def
  by (induction ts arbitrary: j) (auto simp: nth_Cons split: nat.splits)

lemma in_hand_nth: "j < length ts \<Longrightarrow> length (f (ts ! j)) \<le> in_hand f ts"
  unfolding in_hand_def by (induction ts arbitrary: j) (auto simp: nth_Cons trans_le_add2 split: nat.splits)

lemma local_step_threads: "local_step proc n c tm st t = Some (st', t', out) \<Longrightarrow> st_threads st' = st_threads st"
  by (cases t) (auto split: list.splits option.splits if_splits elim: local_step.elims)

lemma local_step_wst: "local_step proc n c tm st t = Some (st', t', out) \<Longrightarrow> wst_ok t \<Longrightarrow> wst_ok t'"
  by (cases t) (auto split: list.splits option.splits if_splits elim: local_step.elims)

lemma local_step_counts:
  assumes "local_step proc n c tm st t = Some (st', t', out)"
    and "length (held t) \<le> st_unfinished st" "st_items st \<noteq> [] \<longrightarrow> length (held t) < st_unfinished st"
  shows "int (st_unfinished st') - int (length (st_items st')) - int (length (held t'))
       = int (st_unfinished st) - int (length (st_items st)) - int (length (held t))"
    and "st_done st' + st_failed st' + somes (st_items st') + length (pend t')
       = st_done st + st_failed st + somes (st_items st) + length (pend t)"
    and "st_got st' = st_got st"
  using assms by (cases t; auto split: list.splits option.splits if_splits elim!: local_step.elims)+

lemma local_step_ok:
  assumes step: "local_step proc n c tm st (st_threads st ! j) = Some (st', t', out)"
    and j: "j < length (st_threads st)" and ok: "stage_ok st"
  shows "stage_ok (st'\<lparr>st_threads := (st_threads st')[j := t']\<rparr>)"
proof -
  let ?t = "st_threads st ! j"
  note u = in_hand_upd[OF j, of held t'] in_hand_upd[OF j, of pend t'] in_hand_nth[OF j, of held] in_hand_nth[OF j, of pend]
  note thr = local_step_threads[OF step]
  have "wst_ok t'" using local_step_wst[OF step] ok j by (simp add: stage_ok_def)
  then have wok: "\<forall>x \<in> set ((st_threads st)[j := t']). wst_ok x"
    using ok set_update_subset_insert[of "st_threads st" j t'] by (auto simp: stage_ok_def)
  have h: "length (held ?t) \<le> st_unfinished st" "st_items st \<noteq> [] \<longrightarrow> length (held ?t) < st_unfinished st"
    using ok u(3) by (cases "st_items st"; simp add: stage_ok_def)+
  show ?thesis
    using local_step_counts[OF step h] u ok wok by (simp add: stage_ok_def thr)
qed

section \<open>The invariant of the pipeline\<close>

lemma stage_ok_put [simp]: "stage_ok (q_put x st) = stage_ok st"
  by (cases x) (auto simp: stage_ok_def q_put_def)

lemma q_put_simps [simp]:
  "st_threads (q_put x st) = st_threads st" "st_items (q_put x st) = st_items st @ [x]"
  "st_got (q_put None st) = st_got st" "st_got (q_put (Some y) st) = Suc (st_got st)"
  "st_done (q_put x st) = st_done st" "st_failed (q_put x st) = st_failed st"
  "st_unfinished (q_put x st) = Suc (st_unfinished st)"
  by (simp_all add: q_put_def)

lemma put_at_len [simp]: "length (put_at i x sts) = length sts"
  by (simp add: put_at_def)

lemma put_at_nth: "k < length sts \<Longrightarrow> put_at i x sts ! k = (if k = i then q_put x (sts ! k) else sts ! k)"
  by (simp add: put_at_def nth_list_update)

lemma worker_stepE:
  assumes "worker_step proc i j tm s = Some s'"
  obtains st' t' out where "i < length (sq_stages s)" "j < length (st_threads (sq_stages s ! i))"
    "local_step (proc i) (i + 1 < length (sq_stages s)) (sq_cancelled s) tm (sq_stages s ! i)
       (st_threads (sq_stages s ! i) ! j) = Some (st', t', out)"
    "length (sq_stages s') = length (sq_stages s)"
    "\<And>k. k < length (sq_stages s) \<Longrightarrow> sq_stages s' ! k =
       (if k = i then st'\<lparr>st_threads := (st_threads st')[j := t']\<rparr>
        else if k = i + 1 \<and> out \<noteq> None then q_put out (sq_stages s ! k) else sq_stages s ! k)"
    "sq_main s' = sq_main s" "sq_total s' = sq_total s" "sq_cancel s' = sq_cancel s" "sq_stop s' = sq_stop s"
proof -
  from assms obtain st' t' out where *: "i < length (sq_stages s)" "j < length (st_threads (sq_stages s ! i))"
    "local_step (proc i) (i + 1 < length (sq_stages s)) (sq_cancelled s) tm (sq_stages s ! i)
       (st_threads (sq_stages s ! i) ! j) = Some (st', t', out)"
    and s': "s' = s\<lparr>sq_stages := (case out of None \<Rightarrow> (sq_stages s)[i := st'\<lparr>st_threads := (st_threads st')[j := t']\<rparr>]
       | Some r \<Rightarrow> put_at (i + 1) (Some r) ((sq_stages s)[i := st'\<lparr>st_threads := (st_threads st')[j := t']\<rparr>]))\<rparr>"
    unfolding worker_step_def by (auto simp: Let_def split: if_splits option.splits)
  show ?thesis
    by (rule that[OF *]) (auto simp: s' put_at_nth nth_list_update split: option.splits)
qed

definition front :: "'a sq_state \<Rightarrow> nat" where
  "front s = (case sq_main s of MWait m \<Rightarrow> m | MSend m k \<Rightarrow> m + 1 | MFin \<Rightarrow> length (sq_stages s))"

definition sq_inv :: "'a sq_state \<Rightarrow> bool" where
  "sq_inv s \<longleftrightarrow> 0 < length (sq_stages s)
     \<and> (\<forall>i < length (sq_stages s). stage_ok (sq_stages s ! i) \<and> st_threads (sq_stages s ! i) \<noteq> [])
     \<and> st_got (sq_stages s ! 0) = sq_total s
     \<and> (case sq_main s of MWait m \<Rightarrow> m < length (sq_stages s) | MSend m k \<Rightarrow> m + 1 < length (sq_stages s) | MFin \<Rightarrow> True)
     \<and> (sq_stop s \<longleftrightarrow> sq_main s = MFin)
     \<and> (\<forall>i < front s. quiet (sq_stages s ! i))"

lemma pend_le_held: "in_hand pend ts \<le> in_hand held ts"
proof -
  have "length (pend t) \<le> length (held t)" for t :: "'a wst" by (cases t) auto
  then show ?thesis unfolding in_hand_def by (induction ts) (auto intro: add_mono)
qed

lemma in_hand_0: "in_hand f ts = 0 \<longleftrightarrow> (\<forall>t \<in> set ts. f t = [])"
  unfolding in_hand_def by (induction ts) auto

lemma wait_over_quiet:
  assumes "sq_inv s" "wait_over m s" "m < length (sq_stages s)"
  shows "quiet (sq_stages s ! m)"
  using assms pend_le_held[of "st_threads (sq_stages s ! m)"]
  by (cases "m = 0") (auto simp: sq_inv_def stage_ok_def wait_over_def quiet_def)

lemma local_step_quiet:
  assumes step: "local_step proc n c tm st (st_threads st ! j) = Some (st', t', out)"
    and j: "j < length (st_threads st)" and "stage_ok st" "quiet st"
  shows "out = None" "quiet (st'\<lparr>st_threads := (st_threads st')[j := t']\<rparr>)"
proof -
  have p: "pend (st_threads st ! j) = []" "wst_ok (st_threads st ! j)"
    using assms(2-4) by (auto simp: quiet_def in_hand_0 stage_ok_def)
  have "out = None \<and> pend t' = [] \<and> somes (st_items st') = 0"
    using step p assms(4) by (cases "st_threads st ! j")
      (auto simp: quiet_def split: list.splits option.splits if_splits)
  then show "out = None" "quiet (st'\<lparr>st_threads := (st_threads st')[j := t']\<rparr>)"
    using assms(4) in_hand_upd[OF j, of pend t'] p by (auto simp: quiet_def local_step_threads[OF step])
qed

lemma quiet_put_None [simp]: "quiet (q_put None st) = quiet st"
  by (simp add: quiet_def)

lemma sq_inv_worker:
  assumes inv: "sq_inv s" and "worker_step proc i j tm s = Some s'"
  shows "sq_inv s'"
  using assms(2)
proof (cases rule: worker_stepE)
  case (1 st' t' out)
  let ?st = "sq_stages s ! i"
  have ok: "stage_ok ?st" "st_threads ?st \<noteq> []" using inv 1(1) by (auto simp: sq_inv_def)
  have new: "stage_ok (st'\<lparr>st_threads := (st_threads st')[j := t']\<rparr>)"
    by (rule local_step_ok[OF 1(3,2) ok(1)])
  have thr: "st_threads st' = st_threads ?st" by (rule local_step_threads[OF 1(3)])
  have got: "st_got st' = st_got ?st"
    using 1(3) by (cases "st_threads ?st ! j") (auto split: list.splits option.splits if_splits elim: local_step.elims)
  have q: "quiet (sq_stages s' ! k)" if "k < front s" for k
  proof -
    from that inv have k: "k < length (sq_stages s)" "quiet (sq_stages s ! k)"
      by (auto simp: sq_inv_def front_def split: main_pc.splits)
    have "out = None" if "k = i + 1"
    proof -
      from that \<open>k < front s\<close> inv have "quiet ?st" by (auto simp: sq_inv_def)
      then show ?thesis by (rule local_step_quiet(1)[OF 1(3,2) ok(1)])
    qed
    moreover have "quiet (st'\<lparr>st_threads := (st_threads st')[j := t']\<rparr>)" if "k = i"
      using k(2) that by (intro local_step_quiet(2)[OF 1(3,2) ok(1)]) simp
    ultimately show ?thesis using k by (cases out) (auto simp: 1(5))
  qed
  show ?thesis
    unfolding sq_inv_def 1(4,6,7,9)
  proof (intro conjI allI impI)
    fix k assume k: "k < length (sq_stages s)"
    show "stage_ok (sq_stages s' ! k)" "st_threads (sq_stages s' ! k) \<noteq> []"
      using inv new ok thr k by (auto simp: 1(5) sq_inv_def)
  next
    show "st_got (sq_stages s' ! 0) = sq_total s"
      using inv 1(1) got by (auto simp: 1(5) sq_inv_def)
  next
    fix k assume "k < front s'"
    then have "k < front s" unfolding front_def 1(4,6) .
    then show "quiet (sq_stages s' ! k)" by (rule q)
  qed (use inv in \<open>auto simp: sq_inv_def\<close>)
qed

lemma sq_inv_main:
  assumes inv: "sq_inv s" and step: "main_step s = Some s'"
  shows "sq_inv s'"
proof (cases "sq_main s")
  case (MWait m)
  with step have w: "wait_over m s" by (auto simp: main_step.simps split: if_splits)
  have m: "m < length (sq_stages s)" using inv MWait by (simp add: sq_inv_def)
  have "\<forall>i < Suc m. quiet (sq_stages s ! i)"
    using inv MWait wait_over_quiet[OF inv w m] by (auto simp: sq_inv_def front_def less_Suc_eq)
  with inv MWait w m step show ?thesis
    by (cases "m + 1 < length (sq_stages s)") (auto simp: main_step.simps sq_inv_def front_def)
next
  case (MSend m k)
  show ?thesis
  proof (cases k)
    case 0
    with inv MSend step show ?thesis by (auto simp: main_step.simps sq_inv_def front_def)
  next
    case (Suc k')
    with step MSend have s': "s' = s\<lparr>sq_stages := put_at (m + 1) None (sq_stages s), sq_main := MSend m k'\<rparr>"
      by (simp add: main_step.simps)
    from inv MSend show ?thesis unfolding s'
      by (auto simp: sq_inv_def front_def put_at_nth)
  qed
next
  case MFin
  with step show ?thesis by (simp add: main_step.simps)
qed

lemma foldl_put_0:
  "length (foldl (\<lambda>ss x. put_at 0 (Some x) ss) (st # sts) items) = length (st # sts) \<and>
   (\<forall>k < length (st # sts). foldl (\<lambda>ss x. put_at 0 (Some x) ss) (st # sts) items ! k =
     (if k = 0 then foldl (\<lambda>a x. q_put (Some x) a) st items else (st # sts) ! k))"
  by (induction items arbitrary: st) (auto simp: put_at_def)

lemma foldl_q_put:
  "st_items (foldl (\<lambda>a x. q_put (Some x) a) st items) = st_items st @ map Some items"
  "st_got (foldl (\<lambda>a x. q_put (Some x) a) st items) = st_got st + length items"
  "st_threads (foldl (\<lambda>a x. q_put (Some x) a) st items) = st_threads st"
  "st_done (foldl (\<lambda>a x. q_put (Some x) a) st items) = st_done st"
  "st_failed (foldl (\<lambda>a x. q_put (Some x) a) st items) = st_failed st"
  "stage_ok (foldl (\<lambda>a x. q_put (Some x) a) st items) = stage_ok st"
  by (induction items arbitrary: st) auto

lemma in_hand_replicate [simp]: "f t = [] \<Longrightarrow> in_hand f (replicate n t) = 0"
  by (auto simp: in_hand_0)

lemma new_stage_simps [simp]:
  "stage_ok (new_stage w b)" "st_items (new_stage w b) = []" "st_got (new_stage w b) = 0"
  "st_threads (new_stage w b) = replicate (max 1 w) AtTop" "st_done (new_stage w b) = 0" "st_failed (new_stage w b) = 0"
  by (auto simp: new_stage_def stage_ok_def)

lemma sq_init_nth:
  assumes "sq_init conf items s"
  shows "0 < length (sq_stages s)" "sq_main s = MWait 0" "sq_total s = length items" "\<not> sq_cancel s" "\<not> sq_stop s"
    and "\<And>k. k < length (sq_stages s) \<Longrightarrow> \<exists>w b. sq_stages s ! k =
      (if k = 0 then foldl (\<lambda>a x. q_put (Some x) a) (new_stage w b) items else new_stage w b)"
proof -
  from assms obtain w b conf' where c: "conf = (w, b) # conf'"
    by (cases conf) (auto simp: sq_init_def)
  have s: "s = sq_start (new_stage w b # map (\<lambda>(w, b). new_stage w b) conf') items"
    using assms c by (simp add: sq_init_def)
  note f = foldl_put_0[of "new_stage w b" "map (\<lambda>(w, b). new_stage w b) conf'" items]
  show "0 < length (sq_stages s)" "sq_main s = MWait 0" "sq_total s = length items" "\<not> sq_cancel s" "\<not> sq_stop s"
    using f by (auto simp: s sq_start_def)
  fix k assume "k < length (sq_stages s)"
  with f show "\<exists>w b. sq_stages s ! k =
      (if k = 0 then foldl (\<lambda>a x. q_put (Some x) a) (new_stage w b) items else new_stage w b)"
    by (auto simp: s sq_start_def nth_Cons' split: prod.splits)
qed

lemma sq_inv_init:
  assumes "sq_init conf items s"
  shows "sq_inv s"
proof -
  note i = sq_init_nth[OF assms]
  have "stage_ok (sq_stages s ! k) \<and> st_threads (sq_stages s ! k) \<noteq> []" if "k < length (sq_stages s)" for k
  proof -
    from i(6)[OF that] obtain w b where "sq_stages s ! k =
      (if k = 0 then foldl (\<lambda>a x. q_put (Some x) a) (new_stage w b) items else new_stage w b)" by blast
    then show ?thesis by (cases "k = 0") (simp_all add: foldl_q_put)
  qed
  moreover have "st_got (sq_stages s ! 0) = sq_total s"
    using i(6)[OF i(1)] i(3) by (auto simp: foldl_q_put)
  ultimately show ?thesis using i(1-5) by (auto simp: sq_inv_def front_def)
qed

lemma sq_inv_step: "sq_inv s \<Longrightarrow> sq_step proc s s' \<Longrightarrow> sq_inv s'"
proof (erule sq_stepE)
  assume "sq_inv s" "s' = s\<lparr>sq_cancel := True\<rparr>"
  then show "sq_inv s'" by (simp add: sq_inv_def front_def split: main_pc.splits)
qed (auto intro: sq_inv_worker sq_inv_main)

section \<open>The sentinels\<close>

fun ordered :: "'a option list \<Rightarrow> bool" where
  "ordered [] = True"
| "ordered (None # q) = (somes q = 0)"
| "ordered (Some x # q) = ordered q"

definition goners :: "'a wst list \<Rightarrow> nat" where
  "goners ts = length (filter gone ts)"

definition sent :: "'a sq_state \<Rightarrow> nat \<Rightarrow> nat" where
  "sent s i = (let w = length (st_threads (sq_stages s ! i)) in
     case sq_main s of
       MWait m \<Rightarrow> if 0 < i \<and> i \<le> m then w else 0
     | MSend m k \<Rightarrow> if 0 < i \<and> i \<le> m then w else if i = m + 1 then w - k else 0
     | MFin \<Rightarrow> 0)"

definition stage_sent :: "nat \<Rightarrow> 'a stage \<Rightarrow> bool" where
  "stage_sent k st \<longleftrightarrow> nones (st_items st) + goners (st_threads st) = k \<and> ordered (st_items st)
     \<and> (0 < goners (st_threads st) \<longrightarrow> somes (st_items st) = 0)"

definition sent_inv :: "'a sq_state \<Rightarrow> bool" where
  "sent_inv s \<longleftrightarrow> (sq_cancel s \<or> sq_main s = MFin \<or>
     (\<forall>i < length (sq_stages s). stage_sent (sent s i) (sq_stages s ! i)) \<and>
     (\<forall>m k. sq_main s = MSend m k \<longrightarrow> k \<le> length (st_threads (sq_stages s ! (m + 1)))))"

lemma goners_upd:
  "j < length ts \<Longrightarrow> goners (ts[j := t]) + (if gone (ts ! j) then 1 else 0) = goners ts + (if gone t then 1 else 0)"
proof (induction ts arbitrary: j)
  case (Cons a ts)
  then show ?case using Cons.IH[of "j - 1"] by (cases j) (auto simp: goners_def split: if_splits)
qed simp

lemma ordered_put_None: "ordered q \<Longrightarrow> ordered (q @ [None])"
  by (induction q rule: ordered.induct) auto

lemma ordered_put_Some: "nones q = 0 \<Longrightarrow> ordered (q @ [Some x])"
  by (induction q rule: ordered.induct) auto

lemma ordered_no_somes: "somes q = 0 \<Longrightarrow> ordered q"
  by (induction q rule: ordered.induct) auto

lemma local_step_sent_aux:
  assumes "local_step proc n False tm st t = Some (st', t', out)" "ordered (st_items st)"
  shows "nones (st_items st') + (if gone t' then 1 else 0) = nones (st_items st) + (if gone t then 1 else 0)"
    and "ordered (st_items st')" and "somes (st_items st') \<le> somes (st_items st)"
    and "gone t' \<Longrightarrow> \<not> gone t \<Longrightarrow> somes (st_items st') = 0"
  using assms by (cases t; auto split: list.splits option.splits if_splits elim!: local_step.elims intro: ordered_no_somes)+

lemma local_step_sent:
  assumes step: "local_step proc n False tm st (st_threads st ! j) = Some (st', t', out)"
    and j: "j < length (st_threads st)" and sent: "stage_sent k st"
  shows "stage_sent k (st'\<lparr>st_threads := (st_threads st')[j := t']\<rparr>)"
proof -
  let ?t = "st_threads st ! j"
  have pos: "0 < goners (st_threads st)" if "gone ?t"
    using j that by (auto simp: goners_def filter_empty_conv intro: nth_mem)
  note aux = local_step_sent_aux[OF step] goners_upd[OF j, of t'] 
  show ?thesis
    using aux sent pos by (auto simp: stage_sent_def local_step_threads[OF step] split: if_splits)
qed

lemma sent_upstream_quiet:
  assumes "sq_inv s" "sent s (i + 1) > 0" "i + 1 < length (sq_stages s)"
  shows "quiet (sq_stages s ! i)"
proof -
  have "i < front s" using assms(2) by (auto simp: sent_def front_def Let_def split: main_pc.splits if_splits)
  with assms(1) show ?thesis by (simp add: sq_inv_def)
qed

lemma stage_sent_0_put: "stage_sent 0 st \<Longrightarrow> stage_sent 0 (q_put (Some x) st)"
  by (auto simp: stage_sent_def intro: ordered_put_Some)

lemma sent_inv_worker:
  assumes inv: "sq_inv s" "sent_inv s" and "worker_step proc i j tm s = Some s'"
  shows "sent_inv s'"
  using assms(3)
proof (cases rule: worker_stepE)
  case (1 st' t' out)
  show ?thesis
  proof (cases "sq_cancel s \<or> sq_main s = MFin")
    case True
    with 1(6,8) show ?thesis by (auto simp: sent_inv_def)
  next
    case False
    with inv have c: "\<not> sq_cancelled s" by (simp add: sq_cancelled_def sq_inv_def)
    from False inv(2) have ss: "stage_sent (sent s k) (sq_stages s ! k)" if "k < length (sq_stages s)" for k
      using that by (simp add: sent_inv_def)
    have len: "length (st_threads (sq_stages s' ! k)) = length (st_threads (sq_stages s ! k))"
      if "k < length (sq_stages s)" for k
      using that local_step_threads[OF 1(3)] by (cases out) (simp_all add: 1(5))
    have new: "stage_sent (sent s i) (st'\<lparr>st_threads := (st_threads st')[j := t']\<rparr>)"
      using 1(3) c by (intro local_step_sent[OF _ 1(2) ss[OF 1(1)]]) simp
    have "stage_sent (sent s k) (sq_stages s' ! k)" if k: "k < length (sq_stages s)" for k
    proof (cases "k = i + 1 \<and> out \<noteq> None")
      case True
      have "\<not> quiet (sq_stages s ! i)"
        using local_step_quiet(1)[OF 1(3,2)] inv(1) 1(1) True by (auto simp: sq_inv_def)
      with sent_upstream_quiet[OF inv(1), of i] True k have "sent s k = 0" by auto
      with True ss[OF k] 1(5)[OF k] show ?thesis by (auto intro: stage_sent_0_put)
    next
      case False
      then show ?thesis using new ss[OF k] by (cases out) (auto simp: 1(5) k)
    qed
    moreover have "sent s' k = sent s k" if "k < length (sq_stages s)" for k
      using len[OF that] by (simp add: sent_def 1(6))
    moreover have "k \<le> length (st_threads (sq_stages s' ! (m + 1)))" if "sq_main s' = MSend m k" for m k
    proof -
      from that 1(6) have mk: "sq_main s = MSend m k" by simp
      with inv(1) have "m + 1 < length (sq_stages s)" by (simp add: sq_inv_def)
      from len[OF this] mk False inv(2) show ?thesis by (auto simp: sent_inv_def)
    qed
    ultimately show ?thesis by (simp add: sent_inv_def 1(4))
  qed
qed

lemma sent_inv_main:
  assumes inv: "sq_inv s" "sent_inv s" and step: "main_step s = Some s'"
  shows "sent_inv s'"
proof (cases "sq_cancel s \<or> sq_main s = MFin \<or> sq_main s' = MFin")
  case True
  with step show ?thesis by (auto simp: main_step.simps sent_inv_def split: main_pc.splits if_splits nat.splits)
next
  case False
  with inv(2) have ss: "\<And>k. k < length (sq_stages s) \<Longrightarrow> stage_sent (sent s k) (sq_stages s ! k)"
    and mk: "\<And>m k. sq_main s = MSend m k \<Longrightarrow> k \<le> length (st_threads (sq_stages s ! (m + 1)))"
    by (auto simp: sent_inv_def)
  show ?thesis
  proof (cases "sq_main s")
    case (MWait m)
    with step False have s': "s' = s\<lparr>sq_main := MSend m (length (st_threads (sq_stages s ! (m + 1))))\<rparr>"
      by (auto simp: main_step.simps split: if_splits)
    have "sent s' k = sent s k" for k by (auto simp: sent_def MWait s' Let_def)
    with ss show ?thesis unfolding sent_inv_def by (simp add: s')
  next
    case (MSend m k)
    show ?thesis
    proof (cases k)
      case 0
      with MSend step have s': "s' = s\<lparr>sq_main := MWait (m + 1)\<rparr>" by (simp add: main_step.simps)
      have "sent s' i = sent s i" for i by (auto simp: sent_def MSend s' 0 Let_def)
      with ss show ?thesis unfolding sent_inv_def by (simp add: s')
    next
      case (Suc k')
      with step MSend have s': "s' = s\<lparr>sq_stages := put_at (m + 1) None (sq_stages s), sq_main := MSend m k'\<rparr>"
        by (simp add: main_step.simps)
      have m: "m + 1 < length (sq_stages s)" using inv(1) MSend by (simp add: sq_inv_def)
      have kw: "Suc k' \<le> length (st_threads (sq_stages s ! (m + 1)))" using mk[OF MSend] Suc by simp
      have "sent s' i = (if i = m + 1 then Suc (sent s i) else sent s i)" if "i < length (sq_stages s)" for i
        using that kw by (auto simp: sent_def MSend s' Suc put_at_nth Let_def)
      then have "stage_sent (sent s' i) (sq_stages s' ! i)" if "i < length (sq_stages s)" for i
        using ss[OF that] that by (auto simp: s' put_at_nth stage_sent_def intro: ordered_put_None)
      with kw m show ?thesis unfolding sent_inv_def by (simp add: s' put_at_nth)
    qed
  next
    case MFin
    with False show ?thesis by simp
  qed
qed

lemma sent_inv_init: "sq_init conf items s \<Longrightarrow> sent_inv s"
proof -
  assume i: "sq_init conf items s"
  have n: "nones (map Some items) = 0 \<and> ordered (map Some items)" by (induction items) auto
  have "stage_sent (sent s k) (sq_stages s ! k)" if k: "k < length (sq_stages s)" for k
  proof -
    from sq_init_nth(6)[OF i k] obtain w b where "sq_stages s ! k =
      (if k = 0 then foldl (\<lambda>a x. q_put (Some x) a) (new_stage w b) items else new_stage w b)" by blast
    with n show ?thesis using sq_init_nth(2)[OF i]
      by (cases "k = 0") (auto simp: foldl_q_put stage_sent_def goners_def sent_def)
  qed
  then show ?thesis using sq_init_nth(2)[OF i] by (simp add: sent_inv_def)
qed

interpretation stage_queue: invariant_system "sq_init conf items" "sq_step proc" "\<lambda>s. sq_inv s \<and> sent_inv s"
proof
  fix s :: "'a sq_state" and t
  assume "sq_inv s \<and> sent_inv s" "sq_step proc s t"
  then show "sq_inv t \<and> sent_inv t"
    using sq_inv_step[of s proc t] sent_inv_worker[of s proc _ _ _ t] sent_inv_main[of s t]
    by (auto elim!: sq_stepE simp: sent_inv_def)
qed (auto intro: sq_inv_init sent_inv_init)

section \<open>What run promises\<close>

lemma worker_step_stage0:
  assumes "worker_step proc i j tm s = Some s'"
  shows "st_done (sq_stages s ! 0) \<le> st_done (sq_stages s' ! 0)" "st_failed (sq_stages s ! 0) \<le> st_failed (sq_stages s' ! 0)"
    "\<forall>t \<in> set (st_threads (sq_stages s ! 0)). t = Exited \<Longrightarrow> sq_stages s' ! 0 = sq_stages s ! 0"
proof -
  show "st_done (sq_stages s ! 0) \<le> st_done (sq_stages s' ! 0)" "st_failed (sq_stages s ! 0) \<le> st_failed (sq_stages s' ! 0)"
    using assms
  proof (atomize(full), cases rule: worker_stepE)
    case (1 st' t' out)
    have "st_done (sq_stages s ! i) \<le> st_done st' \<and> st_failed (sq_stages s ! i) \<le> st_failed st'"
      using 1(3) by (cases "st_threads (sq_stages s ! i) ! j")
        (auto split: list.splits option.splits if_splits elim: local_step.elims)
    moreover have "0 < length (sq_stages s)" using 1(1) by linarith
    ultimately show "st_done (sq_stages s ! 0) \<le> st_done (sq_stages s' ! 0)
        \<and> st_failed (sq_stages s ! 0) \<le> st_failed (sq_stages s' ! 0)"
      using 1(5)[of 0] by (cases "i = 0") auto
  qed
  assume ex: "\<forall>t \<in> set (st_threads (sq_stages s ! 0)). t = Exited"
  from assms show "sq_stages s' ! 0 = sq_stages s ! 0"
  proof (cases rule: worker_stepE)
    case (1 st' t' out)
    have "i \<noteq> 0"
    proof
      assume "i = 0"
      with ex 1(2) have "st_threads (sq_stages s ! i) ! j = Exited" by auto
      with 1(3) show False by simp
    qed
    moreover have "0 < length (sq_stages s)" using 1(1) by linarith
    ultimately show ?thesis using 1(5)[of 0] by simp
  qed
qed

lemma main_step_stage0:
  assumes "main_step s = Some s'"
  shows "sq_stages s' ! 0 = sq_stages s ! 0" "sq_total s' = sq_total s"
    "sq_main s' = MWait 0 \<longleftrightarrow> False" "sq_main s = MWait 0 \<Longrightarrow> sq_total s \<le> st_done (sq_stages s ! 0)"
  using assms by (auto simp: main_step.simps put_at_def wait_over_def split: main_pc.splits if_splits nat.splits)

lemma step_stage0:
  assumes "sq_step proc s s'"
  shows "st_done (sq_stages s ! 0) \<le> st_done (sq_stages s' ! 0)" "st_failed (sq_stages s ! 0) \<le> st_failed (sq_stages s' ! 0)"
    "sq_total s' = sq_total s" "sq_main s = MWait 0 \<Longrightarrow> sq_main s' \<noteq> MWait 0 \<Longrightarrow> sq_total s \<le> st_done (sq_stages s ! 0)"
proof -
  have w: "sq_total s' = sq_total s \<and> sq_main s' = sq_main s" if "worker_step proc i j tm s = Some s'" for i j tm
    using that by (cases rule: worker_stepE) auto
  show "st_done (sq_stages s ! 0) \<le> st_done (sq_stages s' ! 0)" "st_failed (sq_stages s ! 0) \<le> st_failed (sq_stages s' ! 0)"
    "sq_total s' = sq_total s"
    using assms worker_step_stage0(1,2)[of proc _ _ _ s s'] main_step_stage0[of s s'] w
    by (auto elim!: sq_stepE)
  assume m: "sq_main s = MWait 0" "sq_main s' \<noteq> MWait 0"
  from assms show "sq_total s \<le> st_done (sq_stages s ! 0)"
  proof cases
    case (sq_worker i j tm)
    with w[OF sq_worker] m show ?thesis by simp
  next
    case sq_main
    with main_step_stage0(4)[OF sq_main] m show ?thesis by simp
  next
    case sq_cancel
    with m show ?thesis by simp
  qed
qed

lemma reach_total: "reach (sq_init conf items) (sq_step proc) s \<Longrightarrow> sq_total s = length items"
  by (induction rule: reach.induct) (auto simp: sq_init_nth(3) step_stage0(3))

lemma reach_passed:
  "reach (sq_init conf items) (sq_step proc) s \<Longrightarrow> sq_main s \<noteq> MWait 0 \<Longrightarrow> sq_total s \<le> st_done (sq_stages s ! 0)"
proof (induction rule: reach.induct)
  case (reach_init s)
  then show ?case using sq_init_nth(2) by blast
next
  case (reach_step s t)
  then show ?case using step_stage0[of proc s t] by (cases "sq_main s = MWait 0") auto
qed

lemma reach_trans:
  "(sq_step proc)\<^sup>*\<^sup>* s t \<Longrightarrow> reach (sq_init conf items) (sq_step proc) s \<Longrightarrow> reach (sq_init conf items) (sq_step proc) t"
  by (induction rule: rtranclp_induct) (auto intro: reach.intros)

lemma failed_stage0_waits:
  assumes "reach (sq_init conf items) (sq_step proc) s" "0 < st_failed (sq_stages s ! 0)"
  shows "sq_main s = MWait 0"
proof (rule ccontr)
  assume "sq_main s \<noteq> MWait 0"
  from reach_passed[OF assms(1) this] stage_queue.reach_inv[OF assms(1)] assms(2) show False
    by (auto simp: sq_inv_def stage_ok_def)
qed

text \<open>A schedule of steps, for concrete runs.\<close>

fun sq_exec :: "(nat \<Rightarrow> 'a list \<Rightarrow> 'a list option) \<Rightarrow> (nat \<times> nat \<times> bool) option list \<Rightarrow> 'a sq_state \<Rightarrow> 'a sq_state option" where
  "sq_exec proc [] s = Some s"
| "sq_exec proc (None # sch) s = Option.bind (main_step s) (sq_exec proc sch)"
| "sq_exec proc (Some (i, j, tm) # sch) s = Option.bind (worker_step proc i j tm s) (sq_exec proc sch)"

lemma sq_exec_reach:
  "sq_exec proc sch s = Some t \<Longrightarrow> reach (sq_init conf items) (sq_step proc) s \<Longrightarrow>
    reach (sq_init conf items) (sq_step proc) t"
  by (induction proc sch s rule: sq_exec.induct) (auto simp: bind_eq_Some_conv intro: reach.intros sq_step.intros)

lemma sq_exec_steps: "sq_exec proc sch s = Some t \<Longrightarrow> (sq_step proc)\<^sup>*\<^sup>* s t"
proof (induction proc sch s rule: sq_exec.induct)
  case (2 proc sch s)
  then show ?case by (auto simp: bind_eq_Some_conv intro: sq_step.sq_main converse_rtranclp_into_rtranclp)
next
  case (3 proc i j tm sch s)
  then show ?case by (auto simp: bind_eq_Some_conv intro: sq_step.sq_worker converse_rtranclp_into_rtranclp)
qed simp

section \<open>Properties\<close>


definition demo_run :: "(nat \<times> nat \<times> bool) option list" where
  "demo_run = replicate 7 (Some (0, 0, False)) @ replicate 3 None @ replicate 7 (Some (1, 0, False)) @ [None]"

lemma demo_exec:
  "\<exists>s. sq_exec (\<lambda>i b. Some (map Suc b)) demo_run (sq_start (map (\<lambda>(w, b). new_stage w b) [(1, 1), (1, 1)]) [7]) = Some s
     \<and> sq_main s = MFin"
  by (simp add: demo_run_def numeral_eq_Suc sq_start_def new_stage_def put_at_def q_put_def worker_step_def main_step.simps
      wait_over_def sq_cancelled_def)


text \<open>
  a worker of a stage leaves only when no item is left for it: while the run is neither
  cancelled nor over, a worker that has seen its sentinel finds its queue without items and the
  stage before it at rest.
\<close>

theorem worker_leaves_after_last_item:
  assumes r: "reach (sq_init conf items) (sq_step proc) s" and c: "\<not> sq_cancel s" "sq_main s \<noteq> MFin"
    and i: "i < length (sq_stages s)" and t: "t \<in> set (st_threads (sq_stages s ! i))" "gone t"
  shows "0 < i \<and> somes (st_items (sq_stages s ! i)) = 0 \<and> quiet (sq_stages s ! (i - 1))"
proof -
  have inv: "sq_inv s" "sent_inv s" using stage_queue.reach_inv[OF r] by auto
  with c i have ss: "stage_sent (sent s i) (sq_stages s ! i)" by (simp add: sent_inv_def)
  have pos: "0 < goners (st_threads (sq_stages s ! i))"
    using t by (auto simp: goners_def filter_empty_conv)
  with ss have "0 < sent s i" "somes (st_items (sq_stages s ! i)) = 0" by (auto simp: stage_sent_def)
  moreover from this(1) have "0 < i" by (auto simp: sent_def Let_def split: main_pc.splits if_splits)
  moreover from calculation have "quiet (sq_stages s ! (i - 1))"
    using sent_upstream_quiet[OF inv(1), of "i - 1"] i by simp
  ultimately show ?thesis by simp
qed

lemma demo_exec_mid:
  "\<exists>s. sq_exec (\<lambda>i b. Some (map Suc b)) (take 17 demo_run) (sq_start (map (\<lambda>(w, b). new_stage w b) [(1, 1), (1, 1)]) [7]) = Some s
     \<and> sq_main s = MWait 1 \<and> \<not> sq_cancel s \<and> length (sq_stages s) = 2 \<and> Exited \<in> set (st_threads (sq_stages s ! 1))"
  by (simp add: demo_run_def numeral_eq_Suc sq_start_def new_stage_def put_at_def q_put_def worker_step_def main_step.simps
      wait_over_def sq_cancelled_def)

theorem worker_leaves_after_last_item_witness:
  "\<exists>s. reach (sq_init [(1, 1), (1, 1)] [7]) (sq_step (\<lambda>i b. Some (map Suc b))) s \<and> sq_main s = MWait 1
     \<and> Exited \<in> set (st_threads (sq_stages s ! 1)) \<and> quiet (sq_stages s ! 0)"
proof -
  from demo_exec_mid obtain s where s: "sq_exec (\<lambda>i b. Some (map Suc b)) (take 17 demo_run)
      (sq_start (map (\<lambda>(w, b). new_stage w b) [(1, 1), (1, 1)]) [7]) = Some s" "sq_main s = MWait 1"
    "\<not> sq_cancel s" "length (sq_stages s) = 2" "Exited \<in> set (st_threads (sq_stages s ! 1))" by blast
  from s(1) have r: "reach (sq_init [(1, 1), (1, 1)] [7]) (sq_step (\<lambda>i b. Some (map Suc b))) s"
    by (rule sq_exec_reach) (auto intro: reach.reach_init simp: sq_init_def)
  from worker_leaves_after_last_item[OF r s(3) _ _ s(5)] s(2,4,5) r show ?thesis by auto
qed

definition can_work :: "'a stage \<Rightarrow> 'a wst \<Rightarrow> bool" where
  "can_work st t \<longleftrightarrow> held t \<noteq> [] \<or> (t \<in> {AtTop, Getting} \<and> st_items st \<noteq> [])"

lemma idle_or_held: "wst_ok t \<Longrightarrow> \<not> gone t \<Longrightarrow> held t \<noteq> [] \<or> t \<in> {AtTop, Getting}"
  by (cases t) auto

lemma stage_can_work:
  assumes ok: "stage_ok st" and "st_threads st \<noteq> []" and w: "0 < st_unfinished st"
    and g: "goners (st_threads st) = length (st_threads st) \<Longrightarrow> st_items st = []"
  shows "\<exists>t \<in> set (st_threads st). can_work st t"
proof (cases "in_hand held (st_threads st) = 0")
  case True
  with ok w have items: "st_items st \<noteq> []" by (auto simp: stage_ok_def)
  with g have "goners (st_threads st) \<noteq> length (st_threads st)" by blast
  then obtain t where "t \<in> set (st_threads st)" "\<not> gone t"
    unfolding goners_def by (metis filter_id_conv)
  with idle_or_held[of t] ok items show ?thesis by (auto simp: stage_ok_def can_work_def)
next
  case False
  then show ?thesis by (auto simp: in_hand_0 can_work_def)
qed

lemma waiting_stage_can_work:
  assumes inv: "sq_inv s" "sent_inv s" and c: "\<not> sq_cancel s" "sq_main s \<noteq> MFin"
    and f: "st_failed (sq_stages s ! 0) = 0" and None: "main_step s = None"
  obtains m where "sq_main s = MWait m" "m < length (sq_stages s)" "\<not> wait_over m s"
    "\<exists>t \<in> set (st_threads (sq_stages s ! m)). can_work (sq_stages s ! m) t"
proof -
  from None c obtain m where m: "sq_main s = MWait m" "\<not> wait_over m s"
    by (auto simp: main_step.simps split: main_pc.splits nat.splits if_splits)
  let ?st = "sq_stages s ! m"
  from m(1) inv have ml: "m < length (sq_stages s)" and ok: "stage_ok ?st" "st_threads ?st \<noteq> []"
    by (auto simp: sq_inv_def)
  have unf: "0 < st_unfinished ?st"
  proof (cases "m = 0")
    case True
    with m(2) have "st_done ?st < st_got ?st" using inv(1) by (simp add: wait_over_def sq_inv_def)
    with ok(1) f True have "0 < somes (st_items ?st) + in_hand pend (st_threads ?st)" by (simp add: stage_ok_def)
    with ok(1) pend_le_held[of "st_threads ?st"] somes_nones[of "st_items ?st"] show ?thesis by (auto simp: stage_ok_def)
  next
    case False
    with m(2) show ?thesis by (simp add: wait_over_def)
  qed
  have ss: "stage_sent (sent s m) ?st" using inv(2) c ml by (simp add: sent_inv_def)
  have "\<exists>t \<in> set (st_threads ?st). can_work ?st t"
  proof (rule stage_can_work[OF ok unf])
    assume g: "goners (st_threads ?st) = length (st_threads ?st)"
    have "sent s m \<le> length (st_threads ?st)" by (simp add: sent_def m(1) Let_def)
    with ss g ok(2) have "nones (st_items ?st) = 0" "somes (st_items ?st) = 0" by (auto simp: stage_sent_def)
    with somes_nones[of "st_items ?st"] show "st_items ?st = []" by simp
  qed
  with m ml show ?thesis using that by blast
qed

text \<open>
  C24: a run without a cancel and without an exception in the first stage is never stuck:
  until \<open>run\<close> returns, the main thread can go on, or a worker holds items it has to
  finish, or a worker that has not left can take an item or a sentinel.
\<close>
theorem run_never_stuck:
  assumes r: "reach (sq_init conf items) (sq_step proc) s" and c: "\<not> sq_cancel s" "sq_main s \<noteq> MFin"
    and f: "st_failed (sq_stages s ! 0) = 0"
  shows "main_step s \<noteq> None \<or> (\<exists>st \<in> set (sq_stages s). \<exists>t \<in> set (st_threads st). can_work st t)"
proof (cases "main_step s")
  case None
  then show ?thesis
    using waiting_stage_can_work [of s] stage_queue.reach_inv [OF r] c f nth_mem by metis
qed simp

theorem run_never_stuck_witness:
  "let s = sq_start (map (\<lambda>(w, b). new_stage w b) [(1, 1), (1, 1)]) [7 :: nat] in
   main_step s = None \<and> (\<exists>st \<in> set (sq_stages s). \<exists>t \<in> set (st_threads st). can_work st t)"
proof -
  let ?s = "sq_start (map (\<lambda>(w, b). new_stage w b) [(1, 1), (1, 1)]) [7 :: nat]"
  have i: "sq_init [(1, 1), (1, 1)] [7 :: nat] ?s" by (simp add: sq_init_def)
  have n: "main_step ?s = None"
    by (simp add: sq_start_def main_step.simps wait_over_def put_at_def q_put_def new_stage_def)
  have r: "reach (sq_init [(1, 1), (1, 1)] [7]) (sq_step (\<lambda>i b. None)) ?s" using i by (rule reach.reach_init)
  have f: "st_failed (sq_stages ?s ! 0) = 0" by (simp add: sq_start_def put_at_def q_put_def new_stage_def)
  from run_never_stuck[OF r _ _ f] sq_init_nth(2,4)[OF i] n
  show ?thesis unfolding Let_def by (auto simp del: split_paired_Ex)
qed

text \<open>
  one exception of the first stage's processor and \<open>run\<close> never returns: the counter the
  main thread waits for can no longer reach the number of items.
\<close>

theorem first_stage_exception_stalls:
  assumes "reach (sq_init conf items) (sq_step proc) s" "0 < st_failed (sq_stages s ! 0)" "(sq_step proc)\<^sup>*\<^sup>* s t"
  shows "sq_main t = MWait 0"
proof -
  from assms(3) have "st_failed (sq_stages s ! 0) \<le> st_failed (sq_stages t ! 0)"
    by (induction rule: rtranclp_induct) (auto intro: order_trans step_stage0(2))
  with failed_stage0_waits[OF reach_trans[OF assms(3,1)]] assms(2) show ?thesis by simp
qed

theorem first_stage_exception_stalls_witness:
  "\<exists>s t. reach (sq_init [(1, 1), (1, 1)] [7 :: nat]) (sq_step (\<lambda>i b. None)) s \<and> st_failed (sq_stages s ! 0) = 1
     \<and> (sq_step (\<lambda>i b. None))\<^sup>*\<^sup>* s t \<and> st_threads (sq_stages t ! 0) = [AtTop] \<and> st_items (sq_stages t ! 0) = [] \<and> sq_main t = MWait 0"
proof -
  let ?s0 = "sq_start (map (\<lambda>(w, b). new_stage w b) [(1, 1), (1, 1)]) [7 :: nat]"
  have "\<exists>s. sq_exec (\<lambda>i b. None) (replicate 3 (Some (0, 0, False))) ?s0 = Some s \<and> st_failed (sq_stages s ! 0) = 1
    \<and> (\<exists>t. sq_exec (\<lambda>i b. None) [Some (0, 0, False)] s = Some t
           \<and> st_threads (sq_stages t ! 0) = [AtTop] \<and> st_items (sq_stages t ! 0) = [])"
    by (simp add: numeral_eq_Suc sq_start_def new_stage_def put_at_def q_put_def worker_step_def sq_cancelled_def)
  then obtain s t where s: "sq_exec (\<lambda>i b. None) (replicate 3 (Some (0, 0, False))) ?s0 = Some s" "st_failed (sq_stages s ! 0) = 1"
    and t: "sq_exec (\<lambda>i b. None) [Some (0, 0, False)] s = Some t" "st_threads (sq_stages t ! 0) = [AtTop]"
      "st_items (sq_stages t ! 0) = []" by blast
  from s(1) have r: "reach (sq_init [(1, 1), (1, 1)] [7 :: nat]) (sq_step (\<lambda>i b. None)) s"
    by (rule sq_exec_reach) (auto intro: reach.reach_init simp: sq_init_def)
  have "sq_main t = MWait 0"
    by (rule first_stage_exception_stalls[OF r _ sq_exec_steps[OF t(1)]]) (simp add: s(2))
  with r s(2) t(2,3) sq_exec_steps[OF t(1)] show ?thesis by blast
qed

text \<open>
  a cancel that makes the workers of the first stage leave before all items are done
  leaves \<open>run\<close> waiting for ever.
\<close>

theorem cancelled_run_never_returns:
  assumes "\<forall>t \<in> set (st_threads (sq_stages s ! 0)). t = Exited" "st_done (sq_stages s ! 0) < sq_total s"
    "sq_main s = MWait 0" "(sq_step proc)\<^sup>*\<^sup>* s u"
  shows "sq_main u = MWait 0"
proof -
  from assms(4) have "sq_main u = MWait 0 \<and> sq_stages u ! 0 = sq_stages s ! 0 \<and> sq_total u = sq_total s"
  proof (induction rule: rtranclp_induct)
    case base
    with assms(3) show ?case by simp
  next
    case (step u v)
    have "sq_main v = MWait 0" using step_stage0(4)[OF step(2)] step(3) assms(2) by fastforce
    have ex: "\<forall>t \<in> set (st_threads (sq_stages u ! 0)). t = Exited" using step(3) assms(1) by simp
    from step(2) have "sq_stages v ! 0 = sq_stages u ! 0"
      by cases (simp_all add: worker_step_stage0(3)[OF _ ex] main_step_stage0(1))
    with \<open>sq_main v = MWait 0\<close> show ?case using step(3) step_stage0(3)[OF step(2)] by simp
  qed
  then show ?thesis by simp
qed

theorem cancelled_run_never_returns_witness:
  "\<exists>s. reach (sq_init [(1, 1), (1, 1)] [7 :: nat]) (sq_step (\<lambda>i b. Some b)) s
     \<and> (\<forall>u. (sq_step (\<lambda>i b. Some b))\<^sup>*\<^sup>* s u \<longrightarrow> sq_main u = MWait 0)"
proof -
  let ?c = "sq_start (map (\<lambda>(w, b). new_stage w b) [(1, 1), (1, 1)]) [7 :: nat]\<lparr>sq_cancel := True\<rparr>"
  have "reach (sq_init [(1, 1), (1, 1)] [7 :: nat]) (sq_step (\<lambda>i b. Some b))
      (sq_start (map (\<lambda>(w, b). new_stage w b) [(1, 1), (1, 1)]) [7])"
    by (rule reach.reach_init) (simp add: sq_init_def)
  then have c: "reach (sq_init [(1, 1), (1, 1)] [7 :: nat]) (sq_step (\<lambda>i b. Some b)) ?c"
    by (rule reach.reach_step) (rule sq_step.sq_cancel)
  have "\<exists>s. worker_step (\<lambda>i b. Some b) 0 0 False ?c = Some s \<and> sq_main s = MWait 0 \<and> sq_total s = 1
      \<and> st_done (sq_stages s ! 0) = 0 \<and> (\<forall>t \<in> set (st_threads (sq_stages s ! 0)). t = Exited)"
    by (simp add: sq_start_def new_stage_def put_at_def q_put_def worker_step_def sq_cancelled_def)
  then obtain s where s: "worker_step (\<lambda>i b. Some b) 0 0 False ?c = Some s" "sq_main s = MWait 0" "sq_total s = 1"
    "st_done (sq_stages s ! 0) = 0" "\<forall>t \<in> set (st_threads (sq_stages s ! 0)). t = Exited" by blast
  from c sq_step.sq_worker[OF s(1)] have "reach (sq_init [(1, 1), (1, 1)] [7 :: nat]) (sq_step (\<lambda>i b. Some b)) s"
    by (rule reach.reach_step)
  moreover have "sq_main u = MWait 0" if "(sq_step (\<lambda>i b. Some b))\<^sup>*\<^sup>* s u" for u
    using s(3,4) by (intro cancelled_run_never_returns[OF s(5) _ s(2) that]) simp
  ultimately show ?thesis by blast
qed

end
