(* ===== verification/PyVal.thy ===== *)
theory PyVal
  imports Prelude Complex_Main
begin

text \<open>
  The values the program reads from and writes to JSON, and the built-in operations on
  them the source uses: truth value, \<open>get\<close>, \<open>or\<close>, \<open>str\<close>, \<open>int\<close>, \<open>float\<close>, \<open>in\<close>,
  \<open>split\<close>. Strings are UTF-8 byte sequences. A float carries its exact value and the
  text \<open>str\<close> prints; \<open>nan\<close> and the infinities do not occur in JSON. Dictionaries keep
  insertion order, so they are association lists with distinct keys.
\<close>

section \<open>Values\<close>

datatype pyval =
    PNone
  | PBool bool
  | PInt int
  | PFlt rat string
  | PStr string
  | PList "pyval list"
  | PDict "(string \<times> pyval) list"

type_synonym dict = "(string \<times> pyval) list"

fun truthy :: "pyval \<Rightarrow> bool" where
  "truthy PNone = False"
| "truthy (PBool b) = b"
| "truthy (PInt i) = (i \<noteq> 0)"
| "truthy (PFlt q t) = (q \<noteq> 0)"
| "truthy (PStr s) = (s \<noteq> [])"
| "truthy (PList xs) = (xs \<noteq> [])"
| "truthy (PDict d) = (d \<noteq> [])"

definition py_or :: "pyval \<Rightarrow> pyval \<Rightarrow> pyval" where
  "py_or a b = (if truthy a then a else b)"

definition get_or :: "(string \<times> pyval) list \<Rightarrow> string \<Rightarrow> pyval \<Rightarrow> pyval" where
  "get_or d k v = (case map_of d k of None \<Rightarrow> v | Some x \<Rightarrow> x)"

abbreviation get :: "(string \<times> pyval) list \<Rightarrow> string \<Rightarrow> pyval" where
  "get d k \<equiv> get_or d k PNone"

text \<open>Looking up a literal key: with these rules alone the simplifier only compares keys.\<close>

lemma get_or_Cons: "get_or ((k, x) # d) j v = (if j = k then x else get_or d j v)"
  by (simp add: get_or_def)

lemma map_of_Cons: "map_of ((k, x) # d) j = (if j = k then Some x else map_of d j)"
  by simp

lemmas lookup_simps = get_or_Cons map_of_Cons list.inject list.distinct char.inject if_True if_False simp_thms

text \<open>\<open>d[k] = v\<close> and \<open>d.pop(k, None)\<close>.\<close>

fun dset :: "string \<Rightarrow> 'v \<Rightarrow> (string \<times> 'v) list \<Rightarrow> (string \<times> 'v) list" where
  "dset k v [] = [(k, v)]"
| "dset k v ((j, w) # d) = (if j = k then (j, v) # d else (j, w) # dset k v d)"

definition dpop :: "string \<Rightarrow> (string \<times> 'v) list \<Rightarrow> (string \<times> 'v) list" where
  "dpop k d = filter (\<lambda>e. fst e \<noteq> k) d"

lemma map_of_dset [simp]: "map_of (dset k v d) = (map_of d)(k \<mapsto> v)"
  by (induction d) (auto simp: fun_eq_iff)

lemma map_of_dpop [simp]: "map_of (dpop k d) j = (if j = k then None else map_of d j)"
  by (induction d) (auto simp: dpop_def)

lemma keys_dset: "fst ` set (dset k v d) = insert k (fst ` set d)"
proof (induction d)
  case (Cons e d)
  then show ?case by (cases e) (simp add: insert_commute)
qed simp

lemma dset_ne [simp]: "dset k v d \<noteq> []"
proof (cases d)
  case (Cons e d')
  then show ?thesis by (cases e) simp
qed simp

lemma distinct_dset: "distinct (map fst d) \<Longrightarrow> distinct (map fst (dset k v d))"
proof (induction d)
  case (Cons e d)
  then show ?case using keys_dset[of k v d] by (cases e) auto
qed simp

lemma distinct_dpop: "distinct (map fst d) \<Longrightarrow> distinct (map fst (dpop k d))"
  by (induction d) (auto simp: dpop_def)

lemma get_or_dset [simp]: "get_or (dset k v d) j x = (if j = k then v else get_or d j x)"
  by (simp add: get_or_def)

lemma get_or_dpop [simp]: "get_or (dpop k d) j x = (if j = k then x else get_or d j x)"
  by (simp add: get_or_def)

section \<open>Numbers as text\<close>

fun nat_str :: "nat \<Rightarrow> string" where
  "nat_str n = (if n < 10 then [char_of (48 + n)] else nat_str (n div 10) @ [char_of (48 + n mod 10)])"

declare nat_str.simps [simp del]

definition int_str :: "int \<Rightarrow> string" where
  "int_str i = (if i < 0 then CHR 0x2D # nat_str (nat (- i)) else nat_str (nat i))"

definition is_digit :: "char \<Rightarrow> bool" where
  "is_digit c \<longleftrightarrow> 48 \<le> (of_char c :: nat) \<and> (of_char c :: nat) \<le> 57"

definition digit_val :: "char \<Rightarrow> nat" where
  "digit_val c = of_char c - 48"

definition digits_val :: "string \<Rightarrow> nat" where
  "digits_val s = foldl (\<lambda>n c. 10 * n + digit_val c) 0 s"

text \<open>Digits with single underscores between them, as \<open>int()\<close> accepts.\<close>

fun digits_ok :: "string \<Rightarrow> bool" where
  "digits_ok [] = False"
| "digits_ok [c] = is_digit c"
| "digits_ok (c # d # s) = (is_digit c \<and> (if d = CHR 0x5F then digits_ok s else digits_ok (d # s)))"

definition int_text :: "string \<Rightarrow> int option" where
  "int_text s =
     (let t = py_strip s;
          (sg, ds) = (case t of [] \<Rightarrow> (1, []) | c # r \<Rightarrow>
             if c = CHR 0x2D then (-1, r) else if c = CHR 0x2B then (1, r) else (1, t))
      in if digits_ok ds then Some (sg * int (digits_val (filter is_digit ds))) else None)"

fun py_int :: "pyval \<Rightarrow> int option" where
  "py_int (PInt i) = Some i"
| "py_int (PBool b) = Some (if b then 1 else 0)"
| "py_int (PFlt q t) = Some (if q < 0 then - floor (- q) else floor q)"
| "py_int (PStr s) = int_text s"
| "py_int _ = None"

text \<open>\<open>float()\<close> of a decimal: sign, digits, fraction, exponent.\<close>

definition float_text :: "string \<Rightarrow> rat option" where
  "float_text s =
     (let t = py_strip s;
          (sg, u) = (case t of [] \<Rightarrow> (1, []) | c # r \<Rightarrow>
             if c = CHR 0x2D then (-1, r) else if c = CHR 0x2B then (1, r) else (1, t));
          mant = takeWhile (\<lambda>c. c \<notin> {CHR 0x65, CHR 0x45}) u;
          ex = drop (length mant) u;
          ip = takeWhile (\<lambda>c. c \<noteq> CHR 0x2E) mant;
          fp = drop (length ip + 1) mant;
          e = (if ex = [] then Some 0 else int_text (tl ex))
      in (if list_all is_digit (ip @ fp) \<and> ip @ fp \<noteq> []
          then map_option (\<lambda>k. sg * (of_nat (digits_val (ip @ fp)) / 10 ^ length fp)
                 * (if k < 0 then 1 / 10 ^ nat (- k) else 10 ^ nat k)) e
          else None))"

fun py_float :: "pyval \<Rightarrow> rat option" where
  "py_float (PInt i) = Some (of_int i)"
| "py_float (PBool b) = Some (if b then 1 else 0)"
| "py_float (PFlt q t) = Some q"
| "py_float (PStr s) = float_text s"
| "py_float _ = None"

text \<open>A number in an addition; adding anything else raises.\<close>

fun py_num :: "pyval \<Rightarrow> rat option" where
  "py_num (PInt i) = Some (of_int i)"
| "py_num (PBool b) = Some (if b then 1 else 0)"
| "py_num (PFlt q t) = Some q"
| "py_num _ = None"

text \<open>\<open>round(q, 2)\<close> and \<open>round(q)\<close>: to the nearest, ties to the even neighbour.\<close>

definition round_even :: "rat \<Rightarrow> int" where
  "round_even q =
     (let f = floor q; d = q - of_int f
      in if d < 1/2 then f else if 1/2 < d then f + 1 else if even f then f else f + 1)"

definition hundredths_str :: "int \<Rightarrow> string" where
  "hundredths_str h =
     (let a = nat (abs h); ip = nat_str (a div 100); d1 = a mod 100 div 10; d2 = a mod 10
      in (if h < 0 then [CHR 0x2D] else []) @ ip @ ''.'' @ nat_str d1 @ (if d2 = 0 then [] else nat_str d2))"

definition flt_hundredths :: "int \<Rightarrow> pyval" where
  "flt_hundredths h = PFlt (of_int h / 100) (hundredths_str h)"

text \<open>\<open>round(q, 4)\<close>: the digits after the point without trailing zeros, at least one.\<close>

definition round4_str :: "int \<Rightarrow> string" where
  "round4_str h =
     (let a = nat (abs h);
          ds = map (\<lambda>k. char_of (48 + a div k mod 10)) [1000, 100, 10, 1];
          frac = rev (dropWhile (\<lambda>c. c = CHR ''0'') (rev ds))
      in (if h < 0 then [CHR 0x2D] else []) @ nat_str (a div 10000) @ ''.'' @ (if frac = [] then ''0'' else frac))"

definition flt_round4 :: "rat \<Rightarrow> pyval" where
  "flt_round4 q = (let h = round_even (q * 10000) in PFlt (of_int h / 10000) (round4_str h))"

lemma round_even_of_int [simp]: "round_even (of_int i) = i"
  by (simp add: round_even_def)

lemma round_even_bounds: "of_int (round_even q) - 1/2 \<le> q" "q \<le> of_int (round_even q) + 1/2"
proof -
  obtain f where f: "f = \<lfloor>q\<rfloor>" by blast
  have "of_int f \<le> q" "q < of_int f + 1" unfolding f by linarith+
  then show "of_int (round_even q) - 1/2 \<le> q" "q \<le> of_int (round_even q) + 1/2"
    unfolding round_even_def Let_def f[symmetric] by (simp split: if_split; linarith)+
qed

lemma round_even_mono: "p \<le> q \<Longrightarrow> round_even p \<le> round_even q"
proof -
  assume "p \<le> q"
  then have f: "\<lfloor>p\<rfloor> \<le> \<lfloor>q\<rfloor>" by (rule floor_mono)
  show ?thesis
  proof (cases "\<lfloor>p\<rfloor> = \<lfloor>q\<rfloor>")
    case True
    with \<open>p \<le> q\<close> show ?thesis by (auto simp: round_even_def Let_def)
  next
    case False
    with f have "\<lfloor>p\<rfloor> + 1 \<le> \<lfloor>q\<rfloor>" by simp
    then show ?thesis by (auto simp: round_even_def Let_def)
  qed
qed

lemma round_even_ratio:
  assumes "0 < d"
  shows "round_even (of_int n / of_int d) =
    (if 2 * (n mod d) < d then n div d else if d < 2 * (n mod d) then n div d + 1
     else if even (n div d) then n div d else n div d + 1)"
proof -
  have f: "\<lfloor>(of_int n :: rat) / of_int d\<rfloor> = n div d" by (rule floor_divide_of_int_eq)
  have "(of_int n :: rat) = of_int d * of_int (n div d) + of_int (n mod d)"
    by (metis mult_div_mod_eq of_int_add of_int_mult)
  with assms have r: "(of_int n :: rat) / of_int d - of_int (n div d) = of_int (n mod d) / of_int d"
    by (simp add: field_simps)
  have cmp: "(of_int x / of_int d < (1 / 2 :: rat)) = (2 * x < d) \<and> ((1 / 2 :: rat) < of_int x / of_int d) = (d < 2 * x)" for x
  proof -
    have d: "(0 :: rat) < of_int d" using assms by simp
    have cmp: "(of_int x / of_int d < (1 / 2 :: rat)) = (of_int (2 * x) < (of_int d :: rat))"
      "((1 / 2 :: rat) < of_int x / of_int d) = ((of_int d :: rat) < of_int (2 * x))"
      using d by (auto simp: pos_divide_less_eq pos_less_divide_eq)
    then show ?thesis by (simp only: of_int_less_iff)
  qed
  show ?thesis unfolding round_even_def Let_def f r cmp[THEN conjunct1] cmp[THEN conjunct2] ..
qed

lemma round_even_numeral:
  "round_even (numeral n / numeral d) =
    (let q = numeral n div numeral d; r = numeral n mod numeral d :: int
     in if 2 * r < numeral d then q else if numeral d < 2 * r then q + 1 else if even q then q else q + 1)"
  using round_even_ratio[of "numeral d" "numeral n"] by simp

section \<open>str\<close>

definition hex_digit :: "nat \<Rightarrow> char" where
  "hex_digit n = char_of (if n < 10 then 48 + n else 87 + n)"

definition repr_char :: "char \<Rightarrow> char \<Rightarrow> string" where
  "repr_char q c =
     (if c = q \<or> c = CHR 0x5C then [CHR 0x5C, c]
      else if c = CHR 0x0A then [CHR 0x5C, CHR ''n'']
      else if c = CHR 0x0D then [CHR 0x5C, CHR ''r'']
      else if c = CHR 0x09 then [CHR 0x5C, CHR ''t'']
      else if of_char c < (32 :: nat) \<or> c = CHR 0x7F
      then [CHR 0x5C, CHR ''x'', hex_digit (of_char c div 16), hex_digit (of_char c mod 16)]
      else [c])"

definition repr_str :: "string \<Rightarrow> string" where
  "repr_str s =
     (let q = (if CHR 0x27 \<in> set s \<and> CHR 0x22 \<notin> set s then CHR 0x22 else CHR 0x27)
      in q # concat (map (repr_char q) s) @ [q])"

fun join_with :: "string \<Rightarrow> string list \<Rightarrow> string" where
  "join_with sep [] = []"
| "join_with sep [x] = x"
| "join_with sep (x # xs) = x @ sep @ join_with sep xs"

fun py_repr :: "pyval \<Rightarrow> string" where
  "py_repr PNone = ''None''"
| "py_repr (PBool b) = (if b then ''True'' else ''False'')"
| "py_repr (PInt i) = int_str i"
| "py_repr (PFlt q t) = t"
| "py_repr (PStr s) = repr_str s"
| "py_repr (PList xs) = ''['' @ join_with '', '' (map py_repr xs) @ '']''"
| "py_repr (PDict d) = CHR 0x7B # join_with '', '' (map (\<lambda>(k, v). repr_str k @ '': '' @ py_repr v) d) @ [CHR 0x7D]"

definition py_str :: "pyval \<Rightarrow> string" where
  "py_str v = (case v of PStr s \<Rightarrow> s | _ \<Rightarrow> py_repr v)"

text \<open>\<open>str(v or "").strip()\<close>, the idiom the program reads every text field with.\<close>

definition text_of :: "pyval \<Rightarrow> string" where
  "text_of v = py_strip (py_str (py_or v (PStr [])))"

lemma text_of_simps [simp]: "text_of PNone = []" "text_of (PStr s) = py_strip s"
  by (auto simp: text_of_def py_or_def py_str_def py_strip_def)

lemma text_of_idem [simp]: "py_strip (text_of v) = text_of v"
  by (simp add: text_of_def)

section \<open>Searching strings\<close>

fun is_prefix :: "string \<Rightarrow> string \<Rightarrow> bool" where
  "is_prefix [] s = True"
| "is_prefix (c # p) [] = False"
| "is_prefix (c # p) (d # s) = (c = d \<and> is_prefix p s)"

fun has_sub :: "string \<Rightarrow> string \<Rightarrow> bool" where
  "has_sub p [] = (p = [])"
| "has_sub p (c # s) = (is_prefix p (c # s) \<or> has_sub p s)"

fun split_on :: "char \<Rightarrow> string \<Rightarrow> string list" where
  "split_on c [] = [[]]"
| "split_on c (d # s) = (if d = c then [] # split_on c s
     else (case split_on c s of [] \<Rightarrow> [[d]] | t # ts \<Rightarrow> (d # t) # ts))"

lemma is_prefix_iff: "is_prefix p s \<longleftrightarrow> (\<exists>t. s = p @ t)"
  by (induction p s rule: is_prefix.induct) auto

lemma has_sub_iff: "has_sub p s \<longleftrightarrow> (\<exists>a b. s = a @ p @ b)"
proof (induction s)
  case (Cons c s)
  note IH = Cons
  show ?case
  proof
    assume "has_sub p (c # s)"
    then show "\<exists>a b. c # s = a @ p @ b"
    proof (cases "is_prefix p (c # s)")
      case True
      then show ?thesis unfolding is_prefix_iff by (metis append_Nil)
    next
      case False
      with \<open>has_sub p (c # s)\<close> Cons show ?thesis by (metis append_Cons has_sub.simps(2))
    qed
  next
    assume "\<exists>a b. c # s = a @ p @ b"
    then obtain a b where ab: "c # s = a @ p @ b" by blast
    show "has_sub p (c # s)"
    proof (cases a)
      case Nil
      with ab have "is_prefix p (c # s)" unfolding is_prefix_iff by auto
      then show ?thesis by simp
    next
      case (Cons d a')
      with ab have "s = a' @ p @ b" by simp
      with IH show ?thesis by auto
    qed
  qed
qed simp

lemma split_on_ne [simp]: "split_on c s \<noteq> []"
  by (cases s) (auto split: list.splits)

lemma join_split: "join_with [c] (split_on c s) = s"
proof (induction s)
  case (Cons d s)
  obtain t ts where "split_on c s = t # ts" by (meson split_on_ne neq_Nil_conv)
  with Cons show ?case by (cases ts) auto
qed simp

end
