(* ===== verification/PipelineState.thy ===== *)
theory PipelineState
  imports PyVal
begin

text \<open>
  The persistent state of a run (\<open>app/pipeline/state.py\<close>): one record per function, file
  and pipeline, its dictionary form for \<open>pipeline_state.json\<close>, the migration of older
  files, and the registration of files and functions. The dataclasses do not check
  their annotations, so a field that is not converted to \<open>NodeState\<close> holds any value.
  \<open>json.dumps\<close> and \<open>json.loads\<close> are library code: a file is the value they exchange.
\<close>

section \<open>States\<close>

datatype node_state = Pending | Running | Passed | Failed

fun node_str :: "node_state \<Rightarrow> string" where
  "node_str Pending = ''pending''"
| "node_str Running = ''running''"
| "node_str Passed = ''passed''"
| "node_str Failed = ''failed''"

abbreviation node_val :: "node_state \<Rightarrow> pyval" where
  "node_val n \<equiv> PStr (node_str n)"

text \<open>\<open>NodeState(v)\<close>, which raises for anything but the four texts.\<close>

definition node_of :: "pyval \<Rightarrow> node_state option" where
  "node_of v = (if v = PStr ''pending'' then Some Pending else if v = PStr ''running'' then Some Running
     else if v = PStr ''passed'' then Some Passed else if v = PStr ''failed'' then Some Failed else None)"

lemma node_of_val [simp]: "node_of (node_val n) = Some n"
  by (cases n) (simp_all add: node_of_def)

record function_state =
  fs_func_hash :: pyval
  fs_name :: pyval
  fs_start_line :: pyval
  fs_end_line :: pyval
  fs_signature :: pyval
  fs_r2_w_state :: node_state
  fs_r2_w_attempts :: pyval
  fs_r2_j_state :: node_state
  fs_r2_j_attempts :: pyval
  fs_r2_j_feedback :: pyval
  fs_r2_j_feedback_path :: pyval
  fs_r2_source_incomplete :: pyval
  fs_api_filter_state :: pyval
  fs_api_filter_attempts :: pyval
  fs_api_filter_decision :: pyval
  fs_api_filter_skip_reason :: pyval
  fs_api_filter_last_error :: pyval
  fs_api_filter_timed_out :: pyval
  fs_api_filter_duration_ms :: pyval
  fs_fast_mode_state :: pyval
  fs_fast_mode_result :: pyval
  fs_fast_mode_batch :: pyval
  fs_r3_w_state :: node_state
  fs_r3_w_attempts :: pyval
  fs_r3_w_feedback :: pyval
  fs_has_external_input :: pyval
  fs_r3_j_state :: node_state
  fs_r3_j_attempts :: pyval
  fs_r3_j_feedback_path :: pyval
  fs_r3_j_feedback_summary :: pyval
  fs_entry_role :: pyval
  fs_r4_decision :: pyval
  fs_r4_note :: pyval
  fs_r4_reason :: pyval
  fs_r4_state :: node_state
  fs_r4_attempts :: pyval
  fs_r4_j_state :: node_state
  fs_r4_j_attempts :: pyval
  fs_r4_j_feedback :: pyval
  fs_r5_state :: node_state
  fs_r5_attempts :: pyval
  fs_r5_path :: pyval
  fs_updated_at :: pyval

definition new_function :: "micros \<Rightarrow> string \<Rightarrow> string \<Rightarrow> string \<Rightarrow> int \<Rightarrow> int \<Rightarrow> function_state" where
  "new_function now fh name sig start stop = \<lparr>fs_func_hash = PStr fh, fs_name = PStr name, fs_start_line = PInt start, fs_end_line = PInt stop,
     fs_signature = PStr sig, fs_r2_w_state = Pending, fs_r2_w_attempts = PInt 0, fs_r2_j_state = Pending,
     fs_r2_j_attempts = PInt 0, fs_r2_j_feedback = PStr [], fs_r2_j_feedback_path = PStr [],
     fs_r2_source_incomplete = PBool False, fs_api_filter_state = PStr ''pending'',
     fs_api_filter_attempts = PInt 0, fs_api_filter_decision = PStr [], fs_api_filter_skip_reason = PStr [],
     fs_api_filter_last_error = PStr [], fs_api_filter_timed_out = PBool False, fs_api_filter_duration_ms = PInt 0,
     fs_fast_mode_state = PStr ''pending'', fs_fast_mode_result = PStr [], fs_fast_mode_batch = PInt 0,
     fs_r3_w_state = Pending, fs_r3_w_attempts = PInt 0, fs_r3_w_feedback = PStr [], fs_has_external_input = PNone,
     fs_r3_j_state = Pending, fs_r3_j_attempts = PInt 0, fs_r3_j_feedback_path = PStr [],
     fs_r3_j_feedback_summary = PStr [], fs_entry_role = PStr [], fs_r4_decision = PStr [], fs_r4_note = PStr [],
     fs_r4_reason = PStr [], fs_r4_state = Pending, fs_r4_attempts = PInt 0, fs_r4_j_state = Pending,
     fs_r4_j_attempts = PInt 0, fs_r4_j_feedback = PStr [], fs_r5_state = Pending, fs_r5_attempts = PInt 0,
     fs_r5_path = PStr [], fs_updated_at = PInt now\<rparr>"

record file_state =
  fl_file_hash :: pyval
  fl_original_path :: pyval
  fl_r1_w_state :: node_state
  fl_r1_j_state :: node_state
  fl_r1_attempts :: pyval
  fl_r1_feedback :: pyval
  fl_functions :: "(string \<times> function_state) list"
  fl_updated_at :: pyval

record pipeline_state =
  ps_task_id :: pyval
  ps_cc_state :: node_state
  ps_cc_attempts :: pyval
  ps_r6_state :: node_state
  ps_r6_attempts :: pyval
  ps_r6_feedback :: pyval
  ps_files :: "(string \<times> file_state) list"
  ps_updated_at :: pyval

definition new_file :: "micros \<Rightarrow> string \<Rightarrow> string \<Rightarrow> file_state" where
  "new_file now fh path = \<lparr>fl_file_hash = PStr fh, fl_original_path = PStr path, fl_r1_w_state = Pending,
     fl_r1_j_state = Pending, fl_r1_attempts = PInt 0, fl_r1_feedback = PStr [], fl_functions = [],
     fl_updated_at = PInt now\<rparr>"

definition new_pipeline :: "micros \<Rightarrow> string \<Rightarrow> pipeline_state" where
  "new_pipeline now tid = \<lparr>ps_task_id = PStr tid, ps_cc_state = Pending, ps_cc_attempts = PInt 0,
     ps_r6_state = Pending, ps_r6_attempts = PInt 0, ps_r6_feedback = PStr [], ps_files = [],
     ps_updated_at = PInt now\<rparr>"

section \<open>Queries\<close>

definition r1_passed :: "file_state \<Rightarrow> bool" where
  "r1_passed f \<longleftrightarrow> fl_r1_j_state f = Passed"

definition all_r2_j_passed :: "file_state \<Rightarrow> bool" where
  "all_r2_j_passed f \<longleftrightarrow> fl_functions f \<noteq> [] \<and> (\<forall>(h, s) \<in> set (fl_functions f). fs_r2_j_state s = Passed)"

definition all_r3_w_done :: "file_state \<Rightarrow> bool" where
  "all_r3_w_done f \<longleftrightarrow> fl_functions f \<noteq> [] \<and>
     (\<forall>(h, s) \<in> set (fl_functions f). fs_r3_w_state s = Passed \<or> fs_has_external_input s = PBool False)"

definition functions_with_external_input :: "file_state \<Rightarrow> function_state list" where
  "functions_with_external_input f =
     filter (\<lambda>s. fs_has_external_input s = PBool True) (map snd (fl_functions f))"

definition all_r1_passed :: "pipeline_state \<Rightarrow> bool" where
  "all_r1_passed p \<longleftrightarrow> ps_files p \<noteq> [] \<and> (\<forall>(h, f) \<in> set (ps_files p). fl_r1_j_state f = Passed)"

section \<open>To dictionaries\<close>

definition function_to_dict :: "function_state \<Rightarrow> (string \<times> pyval) list" where
  "function_to_dict fs =
    [(''func_hash'', fs_func_hash fs), (''name'', fs_name fs), (''start_line'', fs_start_line fs),
     (''end_line'', fs_end_line fs), (''signature'', fs_signature fs),
     (''r2_w_state'', node_val (fs_r2_w_state fs)), (''r2_w_attempts'', fs_r2_w_attempts fs),
     (''r2_j_state'', node_val (fs_r2_j_state fs)), (''r2_j_attempts'', fs_r2_j_attempts fs),
     (''r2_j_feedback'', fs_r2_j_feedback fs), (''r2_j_feedback_path'', fs_r2_j_feedback_path fs),
     (''r2_source_incomplete'', fs_r2_source_incomplete fs), (''api_filter_state'', fs_api_filter_state fs),
     (''api_filter_attempts'', fs_api_filter_attempts fs), (''api_filter_decision'', fs_api_filter_decision fs),
     (''api_filter_skip_reason'', fs_api_filter_skip_reason fs),
     (''api_filter_last_error'', fs_api_filter_last_error fs),
     (''api_filter_timed_out'', fs_api_filter_timed_out fs),
     (''api_filter_duration_ms'', fs_api_filter_duration_ms fs), (''fast_mode_state'', fs_fast_mode_state fs),
     (''fast_mode_result'', fs_fast_mode_result fs), (''fast_mode_batch'', fs_fast_mode_batch fs),
     (''r3_w_state'', node_val (fs_r3_w_state fs)), (''r3_w_attempts'', fs_r3_w_attempts fs),
     (''r3_w_feedback'', fs_r3_w_feedback fs), (''has_external_input'', fs_has_external_input fs),
     (''r3_j_state'', node_val (fs_r3_j_state fs)), (''r3_j_attempts'', fs_r3_j_attempts fs),
     (''r3_j_feedback_path'', fs_r3_j_feedback_path fs), (''r3_j_feedback_summary'', fs_r3_j_feedback_summary fs),
     (''entry_role'', fs_entry_role fs), (''r4_decision'', fs_r4_decision fs), (''r4_note'', fs_r4_note fs),
     (''r4_reason'', fs_r4_reason fs), (''r4_state'', node_val (fs_r4_state fs)),
     (''r4_attempts'', fs_r4_attempts fs), (''r4_j_state'', node_val (fs_r4_j_state fs)),
     (''r4_j_attempts'', fs_r4_j_attempts fs), (''r4_j_feedback'', fs_r4_j_feedback fs),
     (''r5_state'', node_val (fs_r5_state fs)), (''r5_attempts'', fs_r5_attempts fs), (''r5_path'', fs_r5_path fs),
     (''updated_at'', fs_updated_at fs)]"

definition file_to_dict :: "file_state \<Rightarrow> (string \<times> pyval) list" where
  "file_to_dict f =
    [(''file_hash'', fl_file_hash f), (''original_path'', fl_original_path f),
     (''r1_w_state'', node_val (fl_r1_w_state f)), (''r1_j_state'', node_val (fl_r1_j_state f)),
     (''r1_attempts'', fl_r1_attempts f), (''r1_feedback'', fl_r1_feedback f), (''updated_at'', fl_updated_at f),
     (''functions'', PDict (map (\<lambda>(h, s). (h, PDict (function_to_dict s))) (fl_functions f)))]"

definition pipeline_to_dict :: "pipeline_state \<Rightarrow> (string \<times> pyval) list" where
  "pipeline_to_dict p =
    [(''task_id'', ps_task_id p), (''cc_state'', node_val (ps_cc_state p)), (''cc_attempts'', ps_cc_attempts p),
     (''r6_state'', node_val (ps_r6_state p)), (''r6_attempts'', ps_r6_attempts p),
     (''r6_feedback'', ps_r6_feedback p), (''updated_at'', ps_updated_at p),
     (''files'', PDict (map (\<lambda>(h, f). (h, PDict (file_to_dict f))) (ps_files p)))]"

section \<open>From dictionaries, old ones included\<close>

definition has :: "string \<Rightarrow> (string \<times> pyval) list \<Rightarrow> bool" where
  "has k d \<longleftrightarrow> map_of d k \<noteq> None"

abbreviation pending :: pyval where
  "pending \<equiv> PStr ''pending''"

abbreviation upd_if :: "bool \<Rightarrow> (string \<times> pyval) list \<Rightarrow> (string \<times> pyval) list \<Rightarrow> (string \<times> pyval) list" where
  "upd_if c kvs d \<equiv> (if c then foldl (\<lambda>d (k, v). dset k v d) d kvs else d)"

text \<open>
  The blocks of \<open>FunctionState.from_dict\<close> in their order. Each right-hand side reads the
  dictionary before its block, except where the source reads a key the block has set:
  the last four assignments of the third block read only \<open>r1b_*\<close> and \<open>r1_j_state\<close>.
\<close>

definition migrate_r1b :: "(string \<times> pyval) list \<Rightarrow> (string \<times> pyval) list" where
  "migrate_r1b d0 =
     (let d1 = upd_if (has ''r1b_j_state'' d0 \<and> \<not> has ''r2_j_state'' d0)
          [(''r2_j_state'', get_or d0 ''r1b_j_state'' pending), (''r2_j_attempts'', get_or d0 ''r1b_j_attempts'' (PInt 0)),
           (''r2_j_feedback'', get_or d0 ''r1b_j_feedback'' (PStr [])),
           (''r2_j_feedback_path'', get_or d0 ''r1b_j_feedback_path'' (PStr []))] d0;
          d2 = upd_if (has ''r1b_w_state'' d1 \<and> \<not> has ''r2_w_state'' d1)
          [(''r2_w_state'', get_or d1 ''r1b_w_state'' pending), (''r2_w_attempts'', get_or d1 ''r1b_w_attempts'' (PInt 0))] d1
      in upd_if (has ''r1_j_state'' d2 \<and> \<not> has ''r2_j_state'' d2)
          [(''r2_j_state'', get_or d2 ''r1_j_state'' pending), (''r2_j_attempts'', get_or d2 ''r1_j_attempts'' (PInt 0))] d2)"

definition migrate_r2 :: "(string \<times> pyval) list \<Rightarrow> (string \<times> pyval) list" where
  "migrate_r2 d =
     upd_if (has ''r2_w_state'' d \<and> \<not> has ''r3_w_state'' d \<and> (has ''r1b_j_state'' d \<or> has ''r1_j_state'' d))
       [(''r3_w_state'', get_or d ''r2_w_state'' pending), (''r3_w_attempts'', get_or d ''r2_w_attempts'' (PInt 0)),
        (''r3_w_feedback'', get_or d ''r2_w_feedback'' (PStr [])), (''has_external_input'', get d ''has_external_input''),
        (''r3_j_state'', get_or d ''r2_j_state'' pending), (''r3_j_attempts'', get_or d ''r2_j_attempts'' (PInt 0)),
        (''r2_j_state'', get_or d ''r1b_j_state'' (get_or d ''r1_j_state'' pending)),
        (''r2_j_attempts'', get_or d ''r1b_j_attempts'' (PInt 0)),
        (''r2_w_state'', get_or d ''r1b_w_state'' pending), (''r2_w_attempts'', get_or d ''r1b_w_attempts'' (PInt 0))] d"

definition migrate_function :: "(string \<times> pyval) list \<Rightarrow> (string \<times> pyval) list" where
  "migrate_function d0 =
     (let d1 = migrate_r2 (migrate_r1b d0);
          d2 = upd_if (has ''r3_decision'' d1 \<and> \<not> has ''r4_decision'' d1)
            [(''r4_decision'', get_or d1 ''r3_decision'' (PStr [])), (''r4_note'', get_or d1 ''r3_cross_file_note'' (PStr []))] d1
      in upd_if (has ''report_state'' d2 \<and> \<not> has ''r5_state'' d2)
            [(''r5_state'', get_or d2 ''report_state'' pending), (''r5_attempts'', get_or d2 ''report_attempts'' (PInt 0)),
             (''r5_path'', get_or d2 ''report_path'' (PStr []))] d2)"

definition node_at :: "(string \<times> pyval) list \<Rightarrow> string \<Rightarrow> node_state option" where
  "node_at d k = node_of (get_or d k pending)"

definition function_nodes :: "string list" where
  "function_nodes = [''r2_w_state'', ''r2_j_state'', ''r3_w_state'', ''r3_j_state'', ''r4_state'', ''r4_j_state'', ''r5_state'']"

definition function_from_dict :: "micros \<Rightarrow> pyval \<Rightarrow> function_state option" where
  "function_from_dict now v =
     (case v of PDict data \<Rightarrow>
        (let d = migrate_function data in
         case those (map (node_at d) function_nodes) of
           Some [w2, j2, w3, j3, s4, j4, s5] \<Rightarrow>
             (case (map_of d ''func_hash'', map_of d ''name'', map_of d ''start_line'') of
                (Some fh, Some nm, Some sl) \<Rightarrow>
                  Some \<lparr>fs_func_hash = fh, fs_name = nm, fs_start_line = sl, fs_end_line = get_or d ''end_line'' (PInt 0),
                    fs_signature = get_or d ''signature'' (PStr []), fs_r2_w_state = w2,
                    fs_r2_w_attempts = get_or d ''r2_w_attempts'' (PInt 0), fs_r2_j_state = j2,
                    fs_r2_j_attempts = get_or d ''r2_j_attempts'' (PInt 0),
                    fs_r2_j_feedback = get_or d ''r2_j_feedback'' (PStr []),
                    fs_r2_j_feedback_path = get_or d ''r2_j_feedback_path'' (PStr []),
                    fs_r2_source_incomplete = get_or d ''r2_source_incomplete'' (PBool False),
                    fs_api_filter_state = get_or d ''api_filter_state'' (PStr ''pending''),
                    fs_api_filter_attempts = get_or d ''api_filter_attempts'' (PInt 0),
                    fs_api_filter_decision = get_or d ''api_filter_decision'' (PStr []),
                    fs_api_filter_skip_reason = get_or d ''api_filter_skip_reason'' (PStr []),
                    fs_api_filter_last_error = get_or d ''api_filter_last_error'' (PStr []),
                    fs_api_filter_timed_out = get_or d ''api_filter_timed_out'' (PBool False),
                    fs_api_filter_duration_ms = get_or d ''api_filter_duration_ms'' (PInt 0),
                    fs_fast_mode_state = get_or d ''fast_mode_state'' (PStr ''pending''),
                    fs_fast_mode_result = get_or d ''fast_mode_result'' (PStr []),
                    fs_fast_mode_batch = get_or d ''fast_mode_batch'' (PInt 0), fs_r3_w_state = w3,
                    fs_r3_w_attempts = get_or d ''r3_w_attempts'' (PInt 0),
                    fs_r3_w_feedback = get_or d ''r3_w_feedback'' (PStr []),
                    fs_has_external_input = get_or d ''has_external_input'' (PNone), fs_r3_j_state = j3,
                    fs_r3_j_attempts = get_or d ''r3_j_attempts'' (PInt 0),
                    fs_r3_j_feedback_path = get_or d ''r3_j_feedback_path'' (PStr []),
                    fs_r3_j_feedback_summary = get_or d ''r3_j_feedback_summary'' (PStr []),
                    fs_entry_role = get_or d ''entry_role'' (PStr []), fs_r4_decision = get_or d ''r4_decision'' (PStr []),
                    fs_r4_note = get_or d ''r4_note'' (PStr []), fs_r4_reason = get_or d ''r4_reason'' (PStr []),
                    fs_r4_state = s4, fs_r4_attempts = get_or d ''r4_attempts'' (PInt 0), fs_r4_j_state = j4,
                    fs_r4_j_attempts = get_or d ''r4_j_attempts'' (PInt 0),
                    fs_r4_j_feedback = get_or d ''r4_j_feedback'' (PStr []), fs_r5_state = s5,
                    fs_r5_attempts = get_or d ''r5_attempts'' (PInt 0), fs_r5_path = get_or d ''r5_path'' (PStr []),
                    fs_updated_at = get_or d ''updated_at'' (PInt now)\<rparr>
              | _ \<Rightarrow> None)
         | _ \<Rightarrow> None)
      | _ \<Rightarrow> None)"

text \<open>The dictionary comprehension over a mapping of sub-states: one bad entry fails the whole load.\<close>

definition each_value :: "(pyval \<Rightarrow> 'a option) \<Rightarrow> pyval \<Rightarrow> (string \<times> 'a) list option" where
  "each_value f v = (case v of PDict d \<Rightarrow> those (map (\<lambda>(k, x). map_option (Pair k) (f x)) d) | _ \<Rightarrow> None)"

definition migrate_file :: "(string \<times> pyval) list \<Rightarrow> (string \<times> pyval) list" where
  "migrate_file d =
     (if has ''r1_w_state_legacy'' d \<and> \<not> has ''r1_w_state'' d
      then upd_if True [(''r1_w_state'', get_or d ''r1_w_state_legacy'' pending), (''r1_j_state'', get_or d ''r1a_j_state'' pending),
        (''r1_attempts'', get_or d ''r1a_attempts'' (PInt 0)), (''r1_feedback'', get_or d ''r1_feedback'' (PStr []))] d
      else upd_if (has ''r1_w_state'' d \<and> \<not> has ''r1_j_state'' d) [(''r1_j_state'', get_or d ''r1_w_state'' pending)] d)"

definition file_from_dict :: "micros \<Rightarrow> pyval \<Rightarrow> file_state option" where
  "file_from_dict now v =
     (case v of PDict data \<Rightarrow>
        (let funcs = get_or data ''functions'' (PDict []); d = migrate_file (dpop ''functions'' data) in
         case (node_at d ''r1_w_state'', node_at d ''r1_j_state'', map_of d ''file_hash'', map_of d ''original_path'',
               each_value (function_from_dict now) funcs) of
           (Some w, Some j, Some fh, Some path, Some fs) \<Rightarrow>
             Some \<lparr>fl_file_hash = fh, fl_original_path = path, fl_r1_w_state = w, fl_r1_j_state = j,
               fl_r1_attempts = get_or d ''r1_attempts'' (PInt 0), fl_r1_feedback = get_or d ''r1_feedback'' (PStr []),
               fl_functions = fs, fl_updated_at = get_or d ''updated_at'' (PInt now)\<rparr>
         | _ \<Rightarrow> None)
      | _ \<Rightarrow> None)"

definition migrate_pipeline :: "(string \<times> pyval) list \<Rightarrow> (string \<times> pyval) list" where
  "migrate_pipeline d =
     (if has ''r4_final_j_state'' d \<and> \<not> has ''r6_state'' d
      then upd_if True [(''r6_state'', get_or d ''r4_final_j_state'' pending), (''r6_attempts'', get_or d ''r4_final_j_attempts'' (PInt 0)),
        (''r6_feedback'', get_or d ''r4_final_j_feedback'' (PStr []))] d
      else if has ''report_final_state'' d \<and> \<not> has ''r6_state'' d
      then upd_if True [(''r6_state'', get_or d ''report_final_state'' pending), (''r6_attempts'', get_or d ''report_final_attempts'' (PInt 0))] d
      else upd_if (has ''r4_state'' d \<and> \<not> has ''r6_state'' d)
        [(''r6_state'', get_or d ''r4_state'' pending), (''r6_attempts'', get_or d ''r4_attempts'' (PInt 0))] d)"

definition pipeline_from_dict :: "micros \<Rightarrow> pyval \<Rightarrow> pipeline_state option" where
  "pipeline_from_dict now v =
     (case v of PDict data \<Rightarrow>
        (let files = get_or data ''files'' (PDict []); d = migrate_pipeline (dpop ''files'' data) in
         case (node_at d ''cc_state'', node_at d ''r6_state'', map_of d ''task_id'',
               each_value (file_from_dict now) files) of
           (Some cc, Some r6, Some tid, Some fs) \<Rightarrow>
             Some \<lparr>ps_task_id = tid, ps_cc_state = cc, ps_cc_attempts = get_or d ''cc_attempts'' (PInt 0),
               ps_r6_state = r6, ps_r6_attempts = get_or d ''r6_attempts'' (PInt 0),
               ps_r6_feedback = get_or d ''r6_feedback'' (PStr []), ps_files = fs,
               ps_updated_at = get_or d ''updated_at'' (PInt now)\<rparr>
         | _ \<Rightarrow> None)
      | _ \<Rightarrow> None)"

section \<open>The state file\<close>

text \<open>What \<open>path.exists()\<close> and \<open>json.loads\<close> find; a save that raises leaves the old file.\<close>

datatype state_file = NoFile | NotJson | Json pyval

definition save_state :: "bool \<Rightarrow> pipeline_state \<Rightarrow> state_file \<Rightarrow> state_file" where
  "save_state wrote p old = (if wrote then Json (PDict (pipeline_to_dict p)) else old)"

definition load_or_create :: "micros \<Rightarrow> state_file \<Rightarrow> string \<Rightarrow> pipeline_state" where
  "load_or_create now src tid =
     (case src of Json v \<Rightarrow>
        (case pipeline_from_dict now v of
           Some p \<Rightarrow> if ps_task_id p = PStr tid then p else new_pipeline now tid
         | None \<Rightarrow> new_pipeline now tid)
      | _ \<Rightarrow> new_pipeline now tid)"

section \<open>Registration\<close>

fun register_files :: "micros \<Rightarrow> (string \<times> string) list \<Rightarrow> pipeline_state \<Rightarrow> pipeline_state" where
  "register_files now [] p = p"
| "register_files now ((fh, path) # rest) p =
     register_files now rest (if map_of (ps_files p) fh = None
       then p\<lparr>ps_files := dset fh (new_file now fh path) (ps_files p)\<rparr> else p)"

fun add_functions :: "micros \<Rightarrow> (string \<times> string \<times> string \<times> int \<times> int) list \<Rightarrow>
    (string \<times> function_state) list \<Rightarrow> (string \<times> function_state) list" where
  "add_functions now [] fs = fs"
| "add_functions now ((fh, name, sig, start, stop) # rest) fs =
     add_functions now rest (if map_of fs fh = None then dset fh (new_function now fh name sig start stop) fs else fs)"

definition register_functions ::
  "micros \<Rightarrow> string \<Rightarrow> (string \<times> string \<times> string \<times> int \<times> int) list \<Rightarrow> pipeline_state \<Rightarrow> pipeline_state" where
  "register_functions now fh funcs p =
     (case map_of (ps_files p) fh of
        None \<Rightarrow> p
      | Some f \<Rightarrow> p\<lparr>ps_files := dset fh (f\<lparr>fl_functions := add_functions now funcs (fl_functions f)\<rparr>) (ps_files p)\<rparr>)"


section \<open>Reading back what was written\<close>

lemma each_value_map:
  assumes "\<And>x. f (PDict (enc x)) = Some x"
  shows "each_value f (PDict (map (\<lambda>(h, x). (h, PDict (enc x))) xs)) = Some xs"
proof -
  have "those (map (\<lambda>(k, x). map_option (Pair k) (f x)) (map (\<lambda>(h, x). (h, PDict (enc x))) xs)) = Some xs"
    by (induction xs) (auto simp: assms)
  then show ?thesis by (simp add: each_value_def)
qed

lemma migrate_function_written: "migrate_function (function_to_dict fs) = function_to_dict fs"
proof -
  have new: "has ''r2_j_state'' (function_to_dict fs)" "has ''r2_w_state'' (function_to_dict fs)"
    "has ''r3_w_state'' (function_to_dict fs)" "has ''r4_decision'' (function_to_dict fs)"
    "has ''r5_state'' (function_to_dict fs)"
    by (simp_all add: has_def function_to_dict_def)
  then show ?thesis
    by (simp add: migrate_function_def migrate_r1b_def migrate_r2_def Let_def)
qed

lemma function_dec_enc: "function_from_dict now (PDict (function_to_dict fs)) = Some fs"
proof -
  have nodes: "those (map (node_at (function_to_dict fs)) function_nodes) =
    Some [fs_r2_w_state fs, fs_r2_j_state fs, fs_r3_w_state fs, fs_r3_j_state fs, fs_r4_state fs, fs_r4_j_state fs, fs_r5_state fs]"
    by (simp only: function_nodes_def node_at_def list.map lookup_simps function_to_dict_def node_of_val) simp
  have req: "map_of (function_to_dict fs) ''func_hash'' = Some (fs_func_hash fs)" "map_of (function_to_dict fs) ''name'' = Some (fs_name fs)"
    "map_of (function_to_dict fs) ''start_line'' = Some (fs_start_line fs)" by (simp_all only: lookup_simps function_to_dict_def)
  show ?thesis
    unfolding function_from_dict_def
    by (simp only: pyval.case Let_def migrate_function_written nodes req option.case list.case prod.case)
      (simp only: lookup_simps function_to_dict_def option.inject, simp)
qed

lemma each_functions: "each_value (function_from_dict now) (PDict (map (\<lambda>(h, s). (h, PDict (function_to_dict s))) xs)) = Some xs"
  by (rule each_value_map) (rule function_dec_enc)

lemma file_dec_enc: "file_from_dict now (PDict (file_to_dict f)) = Some f"
proof -
  have fs: "get_or (file_to_dict f) ''functions'' (PDict []) =
      PDict (map (\<lambda>(h, s). (h, PDict (function_to_dict s))) (fl_functions f))"
    by (simp add: file_to_dict_def get_or_def)
  have d: "migrate_file (dpop ''functions'' (file_to_dict f)) = dpop ''functions'' (file_to_dict f)"
    by (simp add: migrate_file_def has_def file_to_dict_def)
  show ?thesis
    by (simp add: file_from_dict_def fs d each_functions Let_def)
      (simp add: node_at_def get_or_def file_to_dict_def each_functions)
qed

lemma each_files: "each_value (file_from_dict now) (PDict (map (\<lambda>(h, f). (h, PDict (file_to_dict f))) xs)) = Some xs"
  by (rule each_value_map) (rule file_dec_enc)

lemma pipeline_dec_enc: "pipeline_from_dict now (PDict (pipeline_to_dict p)) = Some p"
proof -
  have fs: "get_or (pipeline_to_dict p) ''files'' (PDict []) =
      PDict (map (\<lambda>(h, f). (h, PDict (file_to_dict f))) (ps_files p))"
    by (simp add: pipeline_to_dict_def get_or_def)
  have d: "migrate_pipeline (dpop ''files'' (pipeline_to_dict p)) = dpop ''files'' (pipeline_to_dict p)"
    by (simp add: migrate_pipeline_def has_def pipeline_to_dict_def)
  show ?thesis
    by (simp add: pipeline_from_dict_def fs d each_files Let_def)
      (simp add: node_at_def get_or_def pipeline_to_dict_def each_files)
qed

interpretation function_codec: codec "\<lambda>fs. PDict (function_to_dict fs)" "function_from_dict now" "\<lambda>_. True"
  by unfold_locales (rule function_dec_enc)

interpretation file_codec: codec "\<lambda>f. PDict (file_to_dict f)" "file_from_dict now" "\<lambda>_. True"
  by unfold_locales (rule file_dec_enc)

interpretation state_codec: codec "\<lambda>p. PDict (pipeline_to_dict p)" "pipeline_from_dict now" "\<lambda>_. True"
  by unfold_locales (rule pipeline_dec_enc)

section \<open>Registration\<close>

lemma add_functions_lookup:
  "map_of (add_functions now funcs fs) h = (case map_of fs h of Some s \<Rightarrow> Some s
     | None \<Rightarrow> map_option (\<lambda>(n, sg, a, b). new_function now h n sg a b) (map_of funcs h))"
proof (induction now funcs fs rule: add_functions.induct)
  case (2 now fh name sig start stop rest fs)
  then show ?case by (cases "map_of fs fh") (auto split: option.splits)
qed (auto split: option.splits)

lemma add_functions_distinct: "distinct (map fst fs) \<Longrightarrow> distinct (map fst (add_functions now funcs fs))"
  by (induction now funcs fs rule: add_functions.induct) (auto simp: distinct_dset)

lemma add_functions_idle: "(\<And>h. h \<in> fst ` set funcs \<Longrightarrow> map_of fs h \<noteq> None) \<Longrightarrow> add_functions now funcs fs = fs"
proof (induction now funcs fs rule: add_functions.induct)
  case (2 now fh name sig start stop rest fs)
  have "\<exists>s. map_of fs fh = Some s" using "2.prems"[of fh] by auto
  moreover have "add_functions now rest fs = fs" if "map_of fs fh \<noteq> None" using 2 that by auto
  ultimately show ?case by auto
qed simp

lemma map_of_mem_fst: "h \<in> fst ` set xs \<Longrightarrow> map_of xs h \<noteq> None"
  by (metis map_of_eq_None_iff)

lemma register_files_keeps:
  "map_of (ps_files (register_files now fhs p)) h = (case map_of (ps_files p) h of Some f \<Rightarrow> Some f
     | None \<Rightarrow> map_option (new_file now h) (map_of fhs h))"
proof (induction now fhs p rule: register_files.induct)
  case (2 now fh path rest p)
  then show ?case by (cases "map_of (ps_files p) fh") (auto split: option.splits)
qed (auto split: option.splits)

section \<open>Properties\<close>

text \<open>
  C4: a run resumed from the file it saved continues in exactly the state it saved, whatever
  the values in it; and loading is total: whatever the file holds (nothing, no JSON, a
  foreign or a broken state) the result is a state of the requested task.
\<close>

theorem save_then_resume:
  "load_or_create now (save_state True p old) tid = (if ps_task_id p = PStr tid then p else new_pipeline now tid)
   \<and> load_or_create now (save_state False p old) tid = load_or_create now old tid
   \<and> ps_task_id (load_or_create now src tid) = PStr tid"
proof -
  have "ps_task_id (load_or_create now src tid) = PStr tid"
    by (auto simp: load_or_create_def new_pipeline_def split: state_file.splits option.splits)
  then show ?thesis
    by (simp add: load_or_create_def save_state_def state_codec.dec_enc)
qed

text \<open>
  registering the functions of a file again, as a resumed run does, never loses the
  progress of a function: known functions keep their state, new ones start pending, other
  files are untouched, and a second registration of the same list changes nothing.
\<close>

theorem registration_keeps_progress:
  assumes "map_of (ps_files p) fh = Some f"
  shows "map_of (ps_files (register_functions now fh funcs p)) fh =
      Some (f\<lparr>fl_functions := add_functions now funcs (fl_functions f)\<rparr>)
    \<and> (\<forall>h. map_of (add_functions now funcs (fl_functions f)) h = (case map_of (fl_functions f) h of Some s \<Rightarrow> Some s
          | None \<Rightarrow> map_option (\<lambda>(n, sg, a, b). new_function now h n sg a b) (map_of funcs h)))
    \<and> (\<forall>g. g \<noteq> fh \<longrightarrow> map_of (ps_files (register_functions now fh funcs p)) g = map_of (ps_files p) g)
    \<and> register_functions later fh funcs (register_functions now fh funcs p) = register_functions now fh funcs p"
proof -
  let ?fs = "add_functions now funcs (fl_functions f)"
  have again: "add_functions later funcs ?fs = ?fs"
  proof (rule add_functions_idle)
    fix h assume "h \<in> fst ` set funcs"
    then have "map_of funcs h \<noteq> None" by (rule map_of_mem_fst)
    then show "map_of ?fs h \<noteq> None" by (auto simp: add_functions_lookup split: option.splits)
  qed
  have twice: "dset fh a (dset fh a d) = dset fh a d" for a :: file_state and d
    by (induction d) auto
  show ?thesis
    using assms again by (simp add: register_functions_def add_functions_lookup twice)
qed

theorem registration_keeps_progress_witness:
  "let p = register_files 1 [(''f1'', ''/src/a.c'')] (new_pipeline 1 ''t'');
       q = register_functions 2 ''f1'' [(''h1'', ''main'', ''int main()'', 1, 9)] p
   in map_of (ps_files p) ''f1'' = Some (new_file 1 ''f1'' ''/src/a.c'')
      \<and> register_functions 3 ''f1'' [(''h1'', ''main'', ''int main()'', 1, 9)] q = q"
proof -
  let ?p = "register_files 1 [(''f1'', ''/src/a.c'')] (new_pipeline 1 ''t'')"
  have f: "map_of (ps_files ?p) ''f1'' = Some (new_file 1 ''f1'' ''/src/a.c'')"
    by (simp add: new_pipeline_def)
  from registration_keeps_progress[OF f, of 2 "[(''h1'', ''main'', ''int main()'', 1, 9)]" 3] f
  show ?thesis by (simp add: Let_def)
qed

definition v4_function :: "(string \<times> pyval) list \<Rightarrow> bool" where
  "v4_function d \<longleftrightarrow> has ''r1b_w_state'' d \<and> has ''r1b_j_state'' d \<and> has ''r2_w_state'' d \<and> has ''r2_j_state'' d
     \<and> \<not> has ''r3_w_state'' d"

lemma has_dset [simp]: "has k (dset j v d) \<longleftrightarrow> k = j \<or> has k d"
  by (simp add: has_def)

lemma migrate_function_get:
  assumes "k \<notin> {''r4_decision'', ''r4_note'', ''r5_state'', ''r5_attempts'', ''r5_path''}"
  shows "get_or (migrate_function d) k v = get_or (migrate_r2 (migrate_r1b d)) k v"
  using assms by (simp add: migrate_function_def Let_def)

lemma migrate_r2_moves:
  assumes "has ''r2_w_state'' d" "\<not> has ''r3_w_state'' d" "has ''r1b_j_state'' d \<or> has ''r1_j_state'' d"
  shows "get_or (migrate_r2 d) ''r2_w_state'' v = get_or d ''r1b_w_state'' pending"
    "get_or (migrate_r2 d) ''r2_j_state'' v = get_or d ''r1b_j_state'' (get_or d ''r1_j_state'' pending)"
    "get_or (migrate_r2 d) ''r3_w_state'' v = get_or d ''r2_w_state'' pending"
    "get_or (migrate_r2 d) ''r3_j_state'' v = get_or d ''r2_j_state'' pending"
  using assms by (simp_all add: migrate_r2_def)

lemma get_or_has: "has k d \<Longrightarrow> get_or d k v = get_or d k w"
  by (auto simp: has_def get_or_def)

lemma migrate_v4:
  assumes "v4_function d"
  shows "get_or (migrate_function d) ''r2_w_state'' pending = get_or d ''r1b_w_state'' pending"
    "get_or (migrate_function d) ''r2_j_state'' pending = get_or d ''r1b_j_state'' pending"
    "get_or (migrate_function d) ''r3_w_state'' pending = get_or d ''r2_w_state'' pending"
    "get_or (migrate_function d) ''r3_j_state'' pending = get_or d ''r2_j_state'' pending"
proof -
  have b: "migrate_r1b d = d" using assms by (simp add: migrate_r1b_def v4_function_def)
  have "has ''r2_w_state'' d" "\<not> has ''r3_w_state'' d" "has ''r1b_j_state'' d" using assms by (auto simp: v4_function_def)
  with migrate_r2_moves[OF this(1,2)] show
    "get_or (migrate_function d) ''r2_w_state'' pending = get_or d ''r1b_w_state'' pending"
    "get_or (migrate_function d) ''r2_j_state'' pending = get_or d ''r1b_j_state'' pending"
    "get_or (migrate_function d) ''r3_w_state'' pending = get_or d ''r2_w_state'' pending"
    "get_or (migrate_function d) ''r3_j_state'' pending = get_or d ''r2_j_state'' pending"
    using get_or_has[of "''r1b_j_state''" d] by (simp_all add: migrate_function_get b)
qed

text \<open>
  a state file of the fourth version is migrated without loss: its line-accuracy states
  (\<open>r1b_*\<close>) become the \<open>r2_*\<close> fields and its entry-analysis states (\<open>r2_*\<close>) the \<open>r3_*\<close> fields.
\<close>
theorem v4_states_migrated:
  assumes "v4_function d" "function_from_dict now (PDict d) = Some fs"
  shows "Some (fs_r2_w_state fs) = node_of (get_or d ''r1b_w_state'' pending)
    \<and> Some (fs_r2_j_state fs) = node_of (get_or d ''r1b_j_state'' pending)
    \<and> Some (fs_r3_w_state fs) = node_of (get_or d ''r2_w_state'' pending)
    \<and> Some (fs_r3_j_state fs) = node_of (get_or d ''r2_j_state'' pending)"
  using assms(2) migrate_v4[OF assms(1)]
  by (auto simp: function_from_dict_def function_nodes_def node_at_def Let_def split: option.splits list.splits)

definition v4_demo :: "(string \<times> pyval) list" where
  "v4_demo = [(''func_hash'', PStr ''h''), (''name'', PStr ''f''), (''start_line'', PInt 3), (''r1b_w_state'', PStr ''passed''),
     (''r1b_j_state'', PStr ''passed''), (''r2_w_state'', PStr ''running''), (''r2_j_state'', PStr ''failed'')]"

lemma function_loads:
  assumes "migrate_function d = d'" "those (map (node_at d') function_nodes) = Some [a, b, c, e, f, g, h]"
    "has ''func_hash'' d'" "has ''name'' d'" "has ''start_line'' d'"
  shows "\<exists>fs. function_from_dict now (PDict d) = Some fs \<and> fs_r3_w_state fs = c"
  using assms by (auto simp: function_from_dict_def has_def)

lemma v4_demo_loads: "\<exists>fs. function_from_dict 0 (PDict v4_demo) = Some fs"
proof -
  let ?e = "[(''func_hash'', PStr ''h''), (''name'', PStr ''f''), (''start_line'', PInt 3), (''r1b_w_state'', PStr ''passed''),
     (''r1b_j_state'', PStr ''passed''), (''r2_w_state'', PStr ''passed''), (''r2_j_state'', PStr ''passed''),
     (''r3_w_state'', PStr ''running''), (''r3_w_attempts'', PInt 0), (''r3_w_feedback'', PStr []),
     (''has_external_input'', PNone), (''r3_j_state'', PStr ''failed''), (''r3_j_attempts'', PInt 0),
     (''r2_j_attempts'', PInt 0), (''r2_w_attempts'', PInt 0)]"
  have b: "migrate_r1b v4_demo = v4_demo" by (simp add: migrate_r1b_def v4_demo_def has_def)
  have r: "migrate_r2 v4_demo = ?e" by (simp add: migrate_r2_def v4_demo_def has_def get_or_def)
  have m: "migrate_function v4_demo = ?e" unfolding migrate_function_def b r by (simp add: has_def)
  have n: "those (map (node_at ?e) function_nodes) = Some [Passed, Passed, Running, Failed, Pending, Pending, Pending]"
    by (simp add: function_nodes_def node_at_def get_or_def node_of_def)
  from function_loads[OF m n] show ?thesis by (auto simp: has_def)
qed

theorem v4_states_migrated_witness:
  "\<exists>fs. function_from_dict 0 (PDict v4_demo) = Some fs \<and> fs_r2_w_state fs = Passed \<and> fs_r2_j_state fs = Passed
        \<and> fs_r3_w_state fs = Running \<and> fs_r3_j_state fs = Failed"
proof -
  have v: "v4_function v4_demo" by (simp add: v4_function_def has_def v4_demo_def)
  from v4_demo_loads obtain fs where fs: "function_from_dict 0 (PDict v4_demo) = Some fs" by blast
  from v4_states_migrated[OF v fs] fs show ?thesis by (simp add: get_or_def node_of_def v4_demo_def)
qed

text \<open>
  a file of the third version, or one whose entry analysis had not reached its judge
  (no \<open>r2_j_state\<close>), is migrated wrongly: the verdict of the line-accuracy judge becomes the verdict
  of the entry-analysis judge, which never ran.
\<close>

theorem migration_inherits_judge:
  assumes "has ''r1_j_state'' d" "\<not> has ''r1b_j_state'' d" "\<not> has ''r1b_w_state'' d" "has ''r2_w_state'' d"
    "\<not> has ''r2_j_state'' d" "\<not> has ''r3_w_state'' d" "function_from_dict now (PDict d) = Some fs"
  shows "Some (fs_r3_j_state fs) = node_of (get_or d ''r1_j_state'' pending)"
proof -
  have "get_or (migrate_function d) ''r3_j_state'' pending = get_or d ''r1_j_state'' pending"
  proof -
    have b: "migrate_r1b d = dset ''r2_j_attempts'' (get_or d ''r1_j_attempts'' (PInt 0))
        (dset ''r2_j_state'' (get_or d ''r1_j_state'' pending) d)"
      using assms(1-5) by (simp add: migrate_r1b_def)
    have "has ''r2_w_state'' (migrate_r1b d)" "\<not> has ''r3_w_state'' (migrate_r1b d)" "has ''r1_j_state'' (migrate_r1b d)"
      using assms(1,4,6) by (simp_all add: b)
    with migrate_r2_moves(4)[OF this(1,2)] show ?thesis by (simp add: migrate_function_get b)
  qed
  with assms(7) show ?thesis
    by (auto simp: function_from_dict_def function_nodes_def node_at_def Let_def split: option.splits list.splits)
qed

definition v3_demo :: "(string \<times> pyval) list" where
  "v3_demo = [(''func_hash'', PStr ''h''), (''name'', PStr ''f''), (''start_line'', PInt 3), (''r1_j_state'', PStr ''passed''),
     (''r2_w_state'', PStr ''running'')]"

lemma v3_demo_loads: "\<exists>fs. function_from_dict 0 (PDict v3_demo) = Some fs \<and> fs_r3_w_state fs = Running"
proof -
  let ?c = "v3_demo @ [(''r2_j_state'', PStr ''passed''), (''r2_j_attempts'', PInt 0)]"
  let ?e = "[(''func_hash'', PStr ''h''), (''name'', PStr ''f''), (''start_line'', PInt 3), (''r1_j_state'', PStr ''passed''),
     (''r2_w_state'', PStr ''pending''), (''r2_j_state'', PStr ''passed''), (''r2_j_attempts'', PInt 0),
     (''r3_w_state'', PStr ''running''), (''r3_w_attempts'', PInt 0), (''r3_w_feedback'', PStr []),
     (''has_external_input'', PNone), (''r3_j_state'', PStr ''passed''), (''r3_j_attempts'', PInt 0),
     (''r2_w_attempts'', PInt 0)]"
  have b: "migrate_r1b v3_demo = ?c" by (simp add: migrate_r1b_def v3_demo_def has_def get_or_def)
  have r: "migrate_r2 ?c = ?e" by (simp add: migrate_r2_def v3_demo_def has_def get_or_def)
  have m: "migrate_function v3_demo = ?e" unfolding migrate_function_def b r by (simp add: has_def)
  have n: "those (map (node_at ?e) function_nodes) = Some [Pending, Passed, Running, Passed, Pending, Pending, Pending]"
    by (simp add: function_nodes_def node_at_def get_or_def node_of_def)
  from function_loads[OF m n] show ?thesis by (auto simp: has_def)
qed

theorem migration_inherits_judge_witness:
  "\<exists>fs. function_from_dict 0 (PDict v3_demo) = Some fs \<and> fs_r3_w_state fs = Running \<and> fs_r3_j_state fs = Passed"
proof -
  from v3_demo_loads obtain fs where fs: "function_from_dict 0 (PDict v3_demo) = Some fs" "fs_r3_w_state fs = Running" by blast
  have "Some (fs_r3_j_state fs) = node_of (get_or v3_demo ''r1_j_state'' pending)"
    by (rule migration_inherits_judge[OF _ _ _ _ _ _ fs(1)]) (simp_all add: has_def v3_demo_def)
  with fs show ?thesis by (simp add: get_or_def node_of_def v3_demo_def)
qed

end

