(* ===== verification/Confidence.thy ===== *)
theory Confidence
  imports PyVal
begin

text \<open>
  The confidence of an entry (\<open>app/pipeline/confidence.py\<close>): the weighted sum over the analysis of a
  function, its state and its role in the call chain, and the bar, stars and label a
  report shows for it. A score is an integer number of hundredths: every weight is one, and
  \<open>round(score, 2)\<close> removes the float error of adding them. \<open>None\<close> as a result is an exception of
  \<open>int\<close> or \<open>len\<close>. \<open>analysis\<close>, \<open>func_state_dict\<close> and \<open>callchain_role\<close> are dictionaries, empty
  add_if \<open>None\<close> is passed. Letters outside ASCII are not folded by \<open>re.IGNORECASE\<close> here.
\<close>

section \<open>Weights\<close>

definition base_score :: int where "base_score = 35"

datatype signal = W_tag_A | W_entry_source_lines | W_r3_j_passed | W_boundary | W_callback | W_ipc_handler
  | W_dispatch_tgt | W_taint_details_complete | W_no_module_callers | W_only_by_dispatcher | W_many_internal_callers
  | W_msg_handler_name | W_received_log_evidence | W_low_evidence

fun weight :: "signal \<Rightarrow> int" where
  "weight W_tag_A = 20"
| "weight W_entry_source_lines = 8"
| "weight W_r3_j_passed = 15"
| "weight W_boundary = 15"
| "weight W_callback = 12"
| "weight W_ipc_handler = 10"
| "weight W_dispatch_tgt = 10"
| "weight W_taint_details_complete = 5"
| "weight W_no_module_callers = 15"
| "weight W_only_by_dispatcher = 5"
| "weight W_many_internal_callers = -10"
| "weight W_msg_handler_name = 5"
| "weight W_received_log_evidence = 8"
| "weight W_low_evidence = -5"

definition add_if :: "bool \<Rightarrow> signal \<Rightarrow> int" where
  "add_if c w = (if c then weight w else 0)"

section \<open>Signals\<close>


definition conf_tag :: "dict \<Rightarrow> string" where
  "conf_tag a = py_upper (py_strip (py_str (py_or (get a ''tag'') (PStr ''P''))))"

definition has_source_lines :: "dict \<Rightarrow> bool" where
  "has_source_lines a = (case get a ''entry_source_lines'' of PList xs \<Rightarrow> xs \<noteq> [] | _ \<Rightarrow> False)"

definition judge_passed :: "dict \<Rightarrow> bool" where
  "judge_passed fs \<longleftrightarrow> fs \<noteq> [] \<and> py_lower (py_str (py_or (get fs ''r3_j_state'') (PStr []))) = ''passed''"

definition conf_role :: "dict \<Rightarrow> dict \<Rightarrow> string" where
  "conf_role a fs =
     (let r = py_lower (text_of (get a ''entry_role''))
      in if r = [] \<and> fs \<noteq> [] then py_lower (text_of (get fs ''entry_role'')) else r)"

definition role_bonus :: "string \<Rightarrow> int" where
  "role_bonus r =
     (if r = ''boundary'' then weight W_boundary
      else if r = ''callback'' then weight W_callback
      else if r = ''ipc_handler'' then weight W_ipc_handler
      else if r = ''dispatch_target'' then weight W_dispatch_tgt else 0)"

fun py_len :: "pyval \<Rightarrow> nat option" where
  "py_len (PStr s) = Some (length s)"
| "py_len (PList xs) = Some (length xs)"
| "py_len (PDict d) = Some (length d)"
| "py_len _ = None"

fun described :: "pyval \<Rightarrow> bool" where
  "described (PDict d) = (text_of (get d ''description'') \<noteq> [])"
| "described _ = False"

definition taint_details_complete :: "dict \<Rightarrow> bool option" where
  "taint_details_complete a =
     (case get a ''taint_details'' of
        PList ds \<Rightarrow> map_option (\<lambda>n. length ds = n \<and> 0 < length ds \<and> list_all described ds)
                      (py_len (py_or (get a ''taints'') (PList [])))
      | _ \<Rightarrow> Some False)"

text \<open>The pattern of message handlers: a verb, a letter, and later on the same line a message noun.\<close>

definition is_letter :: "char \<Rightarrow> bool" where
  "is_letter c \<longleftrightarrow> (let n = of_char (lower_char c) :: nat in 97 \<le> n \<and> n \<le> 122)"

definition msg_verbs :: "string list" where
  "msg_verbs = [''proc'', ''handle'', ''process'', ''onmsg'']"

definition msg_nouns :: "string list" where
  "msg_nouns = [''msg'', ''request'', ''req'', ''event'']"

definition verb_at :: "string \<Rightarrow> string \<Rightarrow> bool" where
  "verb_at t p \<longleftrightarrow> is_prefix p t \<and> (case drop (length p) t of [] \<Rightarrow> False
     | c # r \<Rightarrow> is_letter c \<and> list_ex (\<lambda>w. has_sub w (takeWhile (\<lambda>x. x \<noteq> CHR 0x0A) r)) msg_nouns)"

fun msg_search :: "string \<Rightarrow> bool" where
  "msg_search [] = False"
| "msg_search (c # s) = (list_ex (verb_at (c # s)) msg_verbs \<or> msg_search s)"

definition msg_handler_name :: "dict \<Rightarrow> bool" where
  "msg_handler_name fs \<longleftrightarrow>
     (let n = (if fs = [] then [] else py_str (py_or (get fs ''name'') (PStr []))) in n \<noteq> [] \<and> msg_search (py_lower n))"

definition receive_words :: "string list" where
  "receive_words = [''received'', ''recv'', ''recvd'', [CHR 0xE6, CHR 0x8E, CHR 0xA5, CHR 0xE6, CHR 0x94, CHR 0xB6]]"

definition received_log_evidence :: "dict \<Rightarrow> bool" where
  "received_log_evidence a \<longleftrightarrow>
     list_ex (\<lambda>w. has_sub w (py_lower (py_str (py_or (get a ''entry_reason'') (PStr []))))) receive_words"

definition low_evidence :: "dict \<Rightarrow> dict \<Rightarrow> bool" where
  "low_evidence a fs \<longleftrightarrow> \<not> truthy (get a ''entry_source_lines'') \<and> conf_tag a = ''P''
     \<and> \<not> msg_handler_name fs \<and> \<not> received_log_evidence a"

text \<open>The call-chain part; an empty role dictionary contributes nothing.\<close>

definition callchain_bonus :: "dict \<Rightarrow> int option" where
  "callchain_bonus role =
     (if role = [] then Some 0
      else case (py_int (py_or (get role ''callers_count'') (PInt 0)),
                 py_int (py_or (get role ''callers_outside_module'') (PInt 0))) of
        (Some callers, Some ext) \<Rightarrow>
          (let only = truthy (get role ''is_only_called_by_dispatcher'')
           in Some (add_if (callers = 0 \<or> 0 < ext) W_no_module_callers + add_if only W_only_by_dispatcher
                 + add_if (3 < callers - ext \<and> \<not> only) W_many_internal_callers))
      | _ \<Rightarrow> None)"

definition compute_confidence :: "dict \<Rightarrow> dict \<Rightarrow> dict \<Rightarrow> int option" where
  "compute_confidence a fs role =
     (if a = [] \<or> \<not> truthy (get a ''has_external_input'') then Some 0
      else case (taint_details_complete a, callchain_bonus role) of
        (Some td, Some chain) \<Rightarrow>
          (let score = base_score + add_if (conf_tag a = ''A'') W_tag_A + add_if (has_source_lines a) W_entry_source_lines
                 + add_if (judge_passed fs) W_r3_j_passed + role_bonus (conf_role a fs)
                 + add_if td W_taint_details_complete + add_if (msg_handler_name fs) W_msg_handler_name
                 + add_if (received_log_evidence a) W_received_log_evidence + add_if (low_evidence a fs) W_low_evidence
                 + chain
           in Some (min 100 (max 0 score)))
      | _ \<Rightarrow> None)"

section \<open>Display\<close>

definition block_full :: string where "block_full = [CHR 0xE2, CHR 0x96, CHR 0x88]"
definition block_light :: string where "block_light = [CHR 0xE2, CHR 0x96, CHR 0x91]"
definition star_full :: string where "star_full = [CHR 0xE2, CHR 0x98, CHR 0x85]"
definition star_light :: string where "star_light = [CHR 0xE2, CHR 0x98, CHR 0x86]"

text \<open>\<open>round(score * width)\<close>, half to even.\<close>

definition scaled :: "int \<Rightarrow> int \<Rightarrow> int" where
  "scaled h width = max 0 (min width (round_even (of_int (h * width) / 100)))"

definition meter :: "string \<Rightarrow> string \<Rightarrow> int \<Rightarrow> int \<Rightarrow> string" where
  "meter on off n width = concat (replicate (nat n) on) @ concat (replicate (nat (width - n)) off)"

definition confidence_to_bar :: "int \<Rightarrow> int \<Rightarrow> string" where
  "confidence_to_bar h width = meter block_full block_light (scaled h width) width"

definition confidence_to_stars :: "int \<Rightarrow> string" where
  "confidence_to_stars h = meter star_full star_light (scaled h 5) 5"

datatype conf_level = VeryLow | Low | Middle | High | VeryHigh

definition conf_level_of :: "int \<Rightarrow> conf_level" where
  "conf_level_of h = (if 90 \<le> h then VeryHigh else if 75 \<le> h then High else if 55 \<le> h then Middle
     else if 35 \<le> h then Low else VeryLow)"

fun level_text :: "conf_level \<Rightarrow> string" where
  "level_text VeryHigh = [CHR 0xE6, CHR 0x9E, CHR 0x81, CHR 0xE9, CHR 0xAB, CHR 0x98]"
| "level_text High = [CHR 0xE9, CHR 0xAB, CHR 0x98]"
| "level_text Middle = [CHR 0xE4, CHR 0xB8, CHR 0xAD]"
| "level_text Low = [CHR 0xE4, CHR 0xBD, CHR 0x8E]"
| "level_text VeryLow = [CHR 0xE6, CHR 0x9E, CHR 0x81, CHR 0xE4, CHR 0xBD, CHR 0x8E]"

definition confidence_label :: "int \<Rightarrow> string" where
  "confidence_label h = level_text (conf_level_of h)"

text \<open>\<open>f"{score:.2f}"\<close> for a score that is not negative.\<close>

definition two_decimals :: "int \<Rightarrow> string" where
  "two_decimals h = nat_str (nat h div 100) @ ''.'' @ nat_str (nat h mod 100 div 10) @ nat_str (nat h mod 10)"

definition confidence_summary :: "int \<Rightarrow> string" where
  "confidence_summary h = two_decimals h @ '' '' @ confidence_to_bar h 15 @ '' '' @ confidence_label h"

section \<open>Lemmas\<close>

lemma add_if_bounds: "min 0 (weight w) \<le> add_if c w" "add_if c w \<le> max 0 (weight w)"
  by (auto simp: add_if_def)

text \<open>The part of the score that neither the judge nor the call chain decides.\<close>

definition evidence_score :: "dict \<Rightarrow> dict \<Rightarrow> bool \<Rightarrow> int" where
  "evidence_score a fs td = base_score + add_if (conf_tag a = ''A'') W_tag_A + add_if (has_source_lines a) W_entry_source_lines
     + role_bonus (conf_role a fs) + add_if td W_taint_details_complete + add_if (msg_handler_name fs) W_msg_handler_name
     + add_if (received_log_evidence a) W_received_log_evidence + add_if (low_evidence a fs) W_low_evidence"

lemma role_bonus_bounds: "0 \<le> role_bonus r" "role_bonus r \<le> 15"
  by (auto simp: role_bonus_def)

lemma evidence_score_ge: "30 \<le> evidence_score a fs td"
  using role_bonus_bounds(1)[of "conf_role a fs"] add_if_bounds(1)[of W_tag_A] add_if_bounds(1)[of W_entry_source_lines]
    add_if_bounds(1)[of W_taint_details_complete] add_if_bounds(1)[of W_msg_handler_name]
    add_if_bounds(1)[of W_received_log_evidence] add_if_bounds(1)[of W_low_evidence]
  by (simp add: evidence_score_def base_score_def) (smt (verit, best))

lemma confidence_cases:
  assumes "a \<noteq> []" "truthy (get a ''has_external_input'')"
  shows "compute_confidence a fs role = (case (taint_details_complete a, callchain_bonus role) of
      (Some td, Some chain) \<Rightarrow> Some (min 100 (max 0 (evidence_score a fs td + add_if (judge_passed fs) W_r3_j_passed + chain)))
    | _ \<Rightarrow> None)"
  using assms by (simp add: compute_confidence_def evidence_score_def Let_def algebra_simps split: option.split)

lemma callchain_bonus_ge: "callchain_bonus role = Some x \<Longrightarrow> -10 \<le> x"
  by (auto simp: callchain_bonus_def add_if_def Let_def split: if_splits option.splits)

lemma scaled_bounds: "0 \<le> w \<Longrightarrow> 0 \<le> scaled h w \<and> scaled h w \<le> w"
  by (auto simp: scaled_def)

lemma scaled_mono: "0 \<le> w \<Longrightarrow> h \<le> k \<Longrightarrow> scaled h w \<le> scaled k w"
  unfolding scaled_def
  by (intro max.mono min.mono order_refl round_even_mono divide_right_mono)
    (auto simp: mult_right_mono simp flip: of_int_mult)

fun level_rank :: "conf_level \<Rightarrow> nat" where
  "level_rank VeryLow = 0"
| "level_rank Low = 1"
| "level_rank Middle = 2"
| "level_rank High = 3"
| "level_rank VeryHigh = 4"

lemma level_mono: "h \<le> k \<Longrightarrow> level_rank (conf_level_of h) \<le> level_rank (conf_level_of k)"
  by (auto simp: conf_level_of_def)

lemma judge_passed_dset: "judge_passed (dset ''r3_j_state'' (PStr ''passed'') fs)"
proof -
  show ?thesis by (simp add: judge_passed_def py_or_def py_str_def py_lower_def lower_char_def)
qed

lemma dset_signals:
  "conf_role a (dset ''r3_j_state'' v fs) = conf_role a fs" "msg_handler_name (dset ''r3_j_state'' v fs) = msg_handler_name fs"
proof -
  show "conf_role a (dset ''r3_j_state'' v fs) = conf_role a fs"
    by (cases "fs = []") (simp_all add: conf_role_def Let_def get_or_def py_lower_def)
  show "msg_handler_name (dset ''r3_j_state'' v fs) = msg_handler_name fs"
    by (cases "fs = []") (simp_all add: msg_handler_name_def Let_def get_or_def py_or_def py_str_def)
qed

section \<open>Properties\<close>

text \<open>
  C35: a score is always between 0 and 1; a function without external input scores exactly 0, and
  one with external input never less than 0.20, the base with every penalty.
\<close>

theorem confidence_bounds:
  assumes "compute_confidence a fs role = Some h"
  shows "0 \<le> h \<and> h \<le> 100 \<and> (if a \<noteq> [] \<and> truthy (get a ''has_external_input'') then 20 \<le> h else h = 0)"
proof (cases "a \<noteq> [] \<and> truthy (get a ''has_external_input'')")
  case True
  note cc = confidence_cases[of a fs role] True
  from assms cc obtain td chain where c: "callchain_bonus role = Some chain"
    "h = min 100 (max 0 (evidence_score a fs td + add_if (judge_passed fs) W_r3_j_passed + chain))"
    by (auto split: option.splits)
  have "-10 \<le> chain" "0 \<le> add_if (judge_passed fs) W_r3_j_passed"
    using callchain_bonus_ge[OF c(1)] by (auto simp: add_if_def)
  with True c(2) evidence_score_ge[of a fs td] show ?thesis by simp
next
  case False
  with assms show ?thesis by (auto simp: compute_confidence_def)
qed

theorem confidence_bounds_witness:
  "compute_confidence [(''has_external_input'', PBool True)] [] [(''callers_count'', PInt 4)] = Some 20 \<and> (20 :: int) \<le> 100"
proof -
  have c: "compute_confidence [(''has_external_input'', PBool True)] [] [(''callers_count'', PInt 4)] = Some 20"
    by (simp add: compute_confidence_def get_or_def taint_details_complete_def callchain_bonus_def py_or_def add_if_def
        conf_tag_def py_str_def py_strip_def py_upper_def upper_char_def is_space_def has_source_lines_def judge_passed_def
        conf_role_def py_lower_def role_bonus_def msg_handler_name_def received_log_evidence_def receive_words_def
        low_evidence_def base_score_def Let_def)
  from confidence_bounds[OF c] c show ?thesis by simp
qed

text \<open>
  the verdict of the judge never lowers a score, and raises it by at most 0.15; nothing
  else in the score depends on it.
\<close>

theorem judge_raises_confidence:
  assumes "compute_confidence a fs role = Some h"
  shows "\<exists>k. compute_confidence a (dset ''r3_j_state'' (PStr ''passed'') fs) role = Some k \<and> h \<le> k \<and> k \<le> h + 15
    \<and> (judge_passed fs \<longrightarrow> k = h)"
proof -
  let ?fs = "dset ''r3_j_state'' (PStr ''passed'') fs"
  have le: "evidence_score a ?fs td = evidence_score a fs td" for td
    by (simp add: evidence_score_def low_evidence_def dset_signals)
  show ?thesis
  proof (cases "a \<noteq> [] \<and> truthy (get a ''has_external_input'')")
    case True
    with assms confidence_cases[of a fs role] obtain td chain where c: "taint_details_complete a = Some td"
      "callchain_bonus role = Some chain"
      "h = min 100 (max 0 (evidence_score a fs td + add_if (judge_passed fs) W_r3_j_passed + chain))"
      by (auto split: option.splits)
    from True have "compute_confidence a ?fs role = Some (min 100 (max 0 (evidence_score a fs td + 15 + chain)))"
      by (simp add: confidence_cases c le judge_passed_dset add_if_def)
    with c(3) show ?thesis by (auto simp: add_if_def)
  next
    case False
    with assms show ?thesis by (auto simp: compute_confidence_def)
  qed
qed

theorem judge_raises_confidence_witness:
  "compute_confidence [(''has_external_input'', PBool True)] [] [] = Some 30
   \<and> compute_confidence [(''has_external_input'', PBool True)] [(''r3_j_state'', PStr ''passed'')] [] = Some 45"
proof -
  have c: "compute_confidence [(''has_external_input'', PBool True)] fs [] = Some (30 + add_if (judge_passed fs) W_r3_j_passed)"
    if "fs = [] \<or> fs = [(''r3_j_state'', PStr ''passed'')]" for fs
    using that
    by (auto simp: compute_confidence_def get_or_def taint_details_complete_def callchain_bonus_def py_or_def add_if_def
        conf_tag_def py_str_def py_strip_def py_upper_def upper_char_def is_space_def has_source_lines_def
        conf_role_def py_lower_def role_bonus_def msg_handler_name_def received_log_evidence_def receive_words_def
        low_evidence_def base_score_def Let_def)
  have n: "\<not> judge_passed []" by (simp add: judge_passed_def)
  have h: "compute_confidence [(''has_external_input'', PBool True)] [] [] = Some 30" using c[of "[]"] n by (simp add: add_if_def)
  from judge_raises_confidence[OF h] c[of "[(''r3_j_state'', PStr ''passed'')]"] h judge_passed_dset[of "[]"]
  show ?thesis by (simp add: add_if_def)
qed

lemma length_meter:
  "length on = 3 \<Longrightarrow> length off = 3 \<Longrightarrow> 0 \<le> n \<Longrightarrow> n \<le> w \<Longrightarrow> int (length (meter on off n w)) = 3 * w"
  by (simp add: meter_def length_concat sum_list_replicate)

text \<open>
  what a report shows never contradicts the score: a higher score never has a shorter bar,
  fewer stars or a lower label, and the bar and the stars always have their full width.
\<close>
theorem display_monotone:
  assumes "0 \<le> w" "h \<le> k"
  shows "scaled h w \<le> scaled k w \<and> scaled h 5 \<le> scaled k 5
    \<and> level_rank (conf_level_of h) \<le> level_rank (conf_level_of k)
    \<and> int (length (confidence_to_bar h w)) = 3 * w \<and> length (confidence_to_stars h) = 15"
proof -
  have "int (length (confidence_to_bar h w)) = 3 * w"
    unfolding confidence_to_bar_def using scaled_bounds[OF assms(1), of h]
    by (intro length_meter) (simp_all add: block_full_def block_light_def)
  moreover have "int (length (confidence_to_stars h)) = 3 * 5"
    unfolding confidence_to_stars_def using scaled_bounds[of 5 h]
    by (intro length_meter) (simp_all add: star_full_def star_light_def)
  ultimately show ?thesis using scaled_mono[OF assms] scaled_mono[of 5 h k] level_mono[OF assms(2)] assms(2) by simp
qed

theorem display_monotone_witness:
  "scaled 30 15 \<le> scaled 95 15 \<and> scaled 30 15 = 4 \<and> length (confidence_to_stars 30) = 15"
proof -
  have "scaled 30 15 = 4" by (simp add: scaled_def round_even_numeral)
  with display_monotone[of 15 30 95] show ?thesis by simp
qed

text \<open>
  the examples in the documentation of the two meters are wrong: a score of 0.95 fills 14 of the
  15 blocks and not all of them, 0.50 is two stars and not three, 0.25 one star and not two;
  the ties of \<open>round\<close> go to the even neighbour.
\<close>

theorem documented_examples_differ:
  "scaled 95 15 = 14 \<and> scaled 50 5 = 2 \<and> scaled 25 5 = 1 \<and> scaled 70 15 = 10 \<and> scaled 90 15 = 14
   \<and> confidence_to_stars 50 = meter star_full star_light 2 5"
  by (simp add: scaled_def round_even_numeral confidence_to_stars_def)

text \<open>
  a function the call-chain database does not know is scored as if nobody called it: the
  error dictionary of \<open>get_callchain_role\<close> counts as a role without callers and adds 0.15.
\<close>

theorem unknown_node_is_rewarded:
  assumes "compute_confidence a fs [] = Some h" "a \<noteq> []" "truthy (get a ''has_external_input'')"
  shows "compute_confidence a fs [(''func_hash'', PStr f), (''error'', PStr ''not found'')] = Some (min 100 (h + 15))"
proof -
  have r: "callchain_bonus [(''func_hash'', PStr f), (''error'', PStr ''not found'')] = Some 15"
    by (simp add: callchain_bonus_def get_or_def py_or_def add_if_def)
  have e: "callchain_bonus [] = Some 0" by (simp add: callchain_bonus_def)
  from assms obtain td where td: "taint_details_complete a = Some td"
    "h = min 100 (max 0 (evidence_score a fs td + add_if (judge_passed fs) W_r3_j_passed))"
    by (auto simp: confidence_cases e split: option.splits)
  have "0 \<le> add_if (judge_passed fs) W_r3_j_passed" by (simp add: add_if_def)
  with assms(2,3) td evidence_score_ge[of a fs td] show ?thesis by (simp add: confidence_cases r)
qed

theorem unknown_node_is_rewarded_witness:
  "compute_confidence [(''has_external_input'', PBool True)] [] [(''func_hash'', PStr ''h''), (''error'', PStr ''not found'')] = Some 45"
proof -
  have "compute_confidence [(''has_external_input'', PBool True)] [] [] = Some 30"
    by (simp add: compute_confidence_def get_or_def taint_details_complete_def callchain_bonus_def py_or_def add_if_def
        conf_tag_def py_str_def py_strip_def py_upper_def upper_char_def is_space_def has_source_lines_def judge_passed_def
        conf_role_def py_lower_def role_bonus_def msg_handler_name_def received_log_evidence_def receive_words_def
        low_evidence_def base_score_def Let_def)
  from unknown_node_is_rewarded[OF this, of "''h''"] show ?thesis by (simp add: get_or_def)
qed

end
