(* ===== verification/FunctionsList.thy ===== *)
theory FunctionsList
  imports PyVal
begin

text \<open>
  The list of entries the analysis hands on (\<open>app/functions_list.py\<close>): its generation from the merged
  entry list (JSON, or a Markdown table in old runs), the validator, and the automatic repair of what
  the agents wrote. The texts of error messages and log lines are constructors here. A
  result \<open>None\<close> is a \<open>TypeError\<close> the code does not catch. \<open>json.loads\<close> is library code: the parser is
  an argument of the functions that call it.
\<close>


section \<open>Defaults\<close>

definition valid_entry_roles :: "string list" where
  "valid_entry_roles = [''boundary'', ''dispatch_target'', ''callback'', ''ipc_handler'']"

definition definition_kinds :: "string list" where
  "definition_kinds = [''definition'', ''declaration'', ''unknown'']"

definition this_function :: string where
  "this_function = [CHR 0xE8, CHR 0xAF, CHR 0xA5, CHR 0xE5, CHR 0x87, CHR 0xBD, CHR 0xE6, CHR 0x95, CHR 0xB0]"

definition fn_or_default :: "string \<Rightarrow> string" where
  "fn_or_default name = (let n = py_strip name in if n = [] then this_function else n)"

definition default_function_description :: "string \<Rightarrow> string" where
  "default_function_description name = fn_or_default name @
     [CHR 0x20, CHR 0xE6, CHR 0x98, CHR 0xAF, CHR 0xE5, CHR 0xBD, CHR 0x93, CHR 0xE5, CHR 0x89, CHR 0x8D, CHR 0xE8, CHR 0xAF, CHR 0x86, CHR 0xE5, CHR 0x88, CHR 0xAB, CHR 0xE5, CHR 0x88, CHR 0xB0, CHR 0xE7, CHR 0x9A, CHR 0x84, CHR 0xE5, CHR 0xA4, CHR 0x96, CHR 0xE9, CHR 0x83, CHR 0xA8, CHR 0xE5, CHR 0x85, CHR 0xA5, CHR 0xE5, CHR 0x8F, CHR 0xA3, CHR 0xE5, CHR 0x87, CHR 0xBD, CHR 0xE6, CHR 0x95, CHR 0xB0, CHR 0xEF, CHR 0xBC, CHR 0x8C, CHR 0xE5, CHR 0x85, CHR 0xB7, CHR 0xE4, CHR 0xBD, CHR 0x93, CHR 0xE8, CHR 0x81, CHR 0x8C, CHR 0xE8, CHR 0xB4, CHR 0xA3, CHR 0xE9, CHR 0x9C, CHR 0x80, CHR 0xE7, CHR 0xBB, CHR 0x93, CHR 0xE5, CHR 0x90, CHR 0x88, CHR 0xE6, CHR 0xBA, CHR 0x90, CHR 0xE7, CHR 0xA0, CHR 0x81, CHR 0xE8, CHR 0xBF, CHR 0x9B, CHR 0xE4, CHR 0xB8, CHR 0x80, CHR 0xE6, CHR 0xAD, CHR 0xA5, CHR 0xE7, CHR 0xA1, CHR 0xAE, CHR 0xE8, CHR 0xAE, CHR 0xA4, CHR 0xE3, CHR 0x80, CHR 0x82]"

definition default_entry_reason :: "string \<Rightarrow> string \<Rightarrow> string" where
  "default_entry_reason tag name = fn_or_default name @
     (if tag = ''A''
      then [CHR 0x20, CHR 0xE8, CHR 0xA2, CHR 0xAB, CHR 0xE5, CHR 0x88, CHR 0xA4, CHR 0xE5, CHR 0xAE, CHR 0x9A, CHR 0xE4, CHR 0xB8, CHR 0xBA, CHR 0xE4, CHR 0xB8, CHR 0xBB, CHR 0xE5, CHR 0x8A, CHR 0xA8, CHR 0xE6, CHR 0x8B, CHR 0x89, CHR 0xE5, CHR 0x8F, CHR 0x96, CHR 0xE5, CHR 0x9E, CHR 0x8B, CHR 0xE5, CHR 0x85, CHR 0xA5, CHR 0xE5, CHR 0x8F, CHR 0xA3, CHR 0xEF, CHR 0xBC, CHR 0x8C, CHR 0xE5, CHR 0x87, CHR 0xBD, CHR 0xE6, CHR 0x95, CHR 0xB0, CHR 0xE5, CHR 0x86, CHR 0x85, CHR 0xE9, CHR 0x83, CHR 0xA8, CHR 0xE5, CHR 0xAD, CHR 0x98, CHR 0xE5, CHR 0x9C, CHR 0xA8, CHR 0xE5, CHR 0xA4, CHR 0x96, CHR 0xE9, CHR 0x83, CHR 0xA8, CHR 0xE8, CHR 0xBE, CHR 0x93, CHR 0xE5, CHR 0x85, CHR 0xA5, CHR 0xE8, CHR 0xAF, CHR 0xBB, CHR 0xE5, CHR 0x8F, CHR 0x96, CHR 0xE6, CHR 0x88, CHR 0x96, CHR 0xE6, CHR 0x8E, CHR 0xA5, CHR 0xE6, CHR 0x94, CHR 0xB6, CHR 0xE8, CHR 0xA1, CHR 0x8C, CHR 0xE4, CHR 0xB8, CHR 0xBA, CHR 0xE3, CHR 0x80, CHR 0x82]
      else [CHR 0x20, CHR 0xE8, CHR 0xA2, CHR 0xAB, CHR 0xE5, CHR 0x88, CHR 0xA4, CHR 0xE5, CHR 0xAE, CHR 0x9A, CHR 0xE4, CHR 0xB8, CHR 0xBA, CHR 0xE8, CHR 0xA2, CHR 0xAB, CHR 0xE5, CHR 0x8A, CHR 0xA8, CHR 0xE5, CHR 0x9B, CHR 0x9E, CHR 0xE8, CHR 0xB0, CHR 0x83, CHR 0xE5, CHR 0x9E, CHR 0x8B, CHR 0xE5, CHR 0x85, CHR 0xA5, CHR 0xE5, CHR 0x8F, CHR 0xA3, CHR 0xEF, CHR 0xBC, CHR 0x8C, CHR 0xE5, CHR 0x8F, CHR 0x82, CHR 0xE6, CHR 0x95, CHR 0xB0, CHR 0xE4, CHR 0xB8, CHR 0xAD, CHR 0xE6, CHR 0x90, CHR 0xBA, CHR 0xE5, CHR 0xB8, CHR 0xA6, CHR 0xE6, CHR 0x9D, CHR 0xA5, CHR 0xE8, CHR 0x87, CHR 0xAA, CHR 0xE5, CHR 0xA4, CHR 0x96, CHR 0xE9, CHR 0x83, CHR 0xA8, CHR 0xE7, CHR 0x9A, CHR 0x84, CHR 0xE5, CHR 0x8F, CHR 0xAF, CHR 0xE6, CHR 0x8E, CHR 0xA7, CHR 0xE8, CHR 0xBE, CHR 0x93, CHR 0xE5, CHR 0x85, CHR 0xA5, CHR 0xE3, CHR 0x80, CHR 0x82])"

definition default_taint_description :: "string \<Rightarrow> string" where
  "default_taint_description taint =
     [CHR 0xE5, CHR 0x8F, CHR 0x82, CHR 0xE6, CHR 0x95, CHR 0xB0, CHR 0x20, CHR 0x60] @ taint @
     [CHR 0x60, CHR 0x20, CHR 0xE8, CHR 0xA2, CHR 0xAB, CHR 0xE8, CHR 0xAF, CHR 0x86, CHR 0xE5, CHR 0x88, CHR 0xAB, CHR 0xE4, CHR 0xB8, CHR 0xBA, CHR 0xE5, CHR 0xA4, CHR 0x96, CHR 0xE9, CHR 0x83, CHR 0xA8, CHR 0xE5, CHR 0x8F, CHR 0xAF, CHR 0xE6, CHR 0x8E, CHR 0xA7, CHR 0xE6, CHR 0xB1, CHR 0xA1, CHR 0xE7, CHR 0x82, CHR 0xB9, CHR 0xEF, CHR 0xBC, CHR 0x8C, CHR 0xE9, CHR 0x9C, CHR 0x80, CHR 0xE8, CHR 0xA6, CHR 0x81, CHR 0xE5, CHR 0x9C, CHR 0xA8, CHR 0xE4, CHR 0xB8, CHR 0x8B, CHR 0xE6, CHR 0xB8, CHR 0xB8, CHR 0xE7, CHR 0xBB, CHR 0xA7, CHR 0xE7, CHR 0xBB, CHR 0xAD, CHR 0xE8, CHR 0xBF, CHR 0xBD, CHR 0xE8, CHR 0xB8, CHR 0xAA, CHR 0xE5, CHR 0x85, CHR 0xB6, CHR 0xE4, CHR 0xBC, CHR 0xA0, CHR 0xE6, CHR 0x92, CHR 0xAD, CHR 0xE4, CHR 0xB8, CHR 0x8E, CHR 0xE4, CHR 0xBD, CHR 0xBF, CHR 0xE7, CHR 0x94, CHR 0xA8, CHR 0xE3, CHR 0x80, CHR 0x82]"

definition derive_description_source :: "pyval \<Rightarrow> string" where
  "derive_description_source v = (if text_of v \<noteq> [] then ''agent'' else ''default'')"

section \<open>Taint details\<close>

definition or_text :: "string \<Rightarrow> string \<Rightarrow> string" where
  "or_text a b = (if a = [] then b else a)"

definition opt_field :: "string \<Rightarrow> string \<Rightarrow> dict" where
  "opt_field k v = (if v = [] then [] else [(k, PStr v)])"

definition detail_entry :: "string \<Rightarrow> string \<Rightarrow> string \<Rightarrow> string \<Rightarrow> dict" where
  "detail_entry name desc source kind =
     [(''name'', PStr name), (''description'', PStr desc)] @ opt_field ''description_source'' source @ opt_field ''source_kind'' kind"

definition agent_if :: "string \<Rightarrow> string" where
  "agent_if desc = (if desc = [] then [] else ''agent'')"

fun detail_of_pair :: "string \<times> pyval \<Rightarrow> (string \<times> dict) option" where
  "detail_of_pair (raw_name, raw_desc) =
     (let name = py_strip raw_name in
      if name = [] then None
      else Some (name, case raw_desc of
          PDict d \<Rightarrow> (let desc = text_of (get d ''description'')
                      in detail_entry name desc (or_text (text_of (get d ''description_source'')) (agent_if desc))
                           (text_of (get d ''source_kind'')))
        | v \<Rightarrow> (let desc = text_of v in detail_entry name desc (agent_if desc) [])))"

definition detail_name :: "dict \<Rightarrow> string" where
  "detail_name d = text_of (py_or (py_or (get d ''name'') (get d ''taint'')) (get d ''param''))"

definition detail_text :: "dict \<Rightarrow> string" where
  "detail_text d = text_of (py_or (get d ''description'') (get d ''summary''))"

fun detail_of_item :: "pyval \<Rightarrow> (string \<times> dict) option" where
  "detail_of_item (PDict d) =
     (let name = detail_name d; desc = detail_text d in
      if name = [] then None
      else Some (name, detail_entry name desc (or_text (text_of (get d ''description_source'')) (agent_if desc))
                   (text_of (get d ''source_kind''))))"
| "detail_of_item _ = None"

fun put_all :: "(string \<times> 'v) option list \<Rightarrow> (string \<times> 'v) list \<Rightarrow> (string \<times> 'v) list" where
  "put_all [] m = m"
| "put_all (None # xs) m = put_all xs m"
| "put_all (Some (k, v) # xs) m = put_all xs (dset k v m)"

definition detail_map :: "pyval \<Rightarrow> (string \<times> dict) list" where
  "detail_map details = (case details of
      PDict d \<Rightarrow> put_all (map detail_of_pair d) []
    | PList xs \<Rightarrow> put_all (map detail_of_item xs) []
    | _ \<Rightarrow> [])"

definition normalize_one :: "(string \<times> dict) list \<Rightarrow> string \<Rightarrow> dict" where
  "normalize_one m taint =
     (let i0 = dset ''name'' (PStr taint) (case map_of m taint of None \<Rightarrow> [] | Some d \<Rightarrow> d);
          i1 = (if text_of (get i0 ''description'') = []
                then dset ''description'' (PStr (default_taint_description taint)) i0 else i0);
          i2 = (if text_of (get i1 ''description_source'') = []
                then dset ''description_source'' (PStr ''default'') i1 else i1);
          kind = text_of (get i2 ''source_kind'')
      in if kind = [] then dpop ''source_kind'' i2 else dset ''source_kind'' (PStr kind) i2)"

definition normalize_taint_details :: "string list \<Rightarrow> pyval \<Rightarrow> dict list" where
  "normalize_taint_details taints details = map (normalize_one (detail_map details)) taints"

section \<open>The syntax of a taint\<close>

definition ident_start :: "char \<Rightarrow> bool" where
  "ident_start c \<longleftrightarrow> (let n = of_char (lower_char c) :: nat in 97 \<le> n \<and> n \<le> 122) \<or> c = CHR 0x5F"

definition ident_char :: "char \<Rightarrow> bool" where
  "ident_char c \<longleftrightarrow> ident_start c \<or> is_digit c"

text \<open>The end of the pattern: an optional pair of parentheses, and \<open>$\<close>, which also matches before a final newline.\<close>

definition taint_end :: "string \<Rightarrow> bool" where
  "taint_end s \<longleftrightarrow> s \<in> {[], [CHR 0x0A], ''()'', ''()'' @ [CHR 0x0A]}"

fun strip_sep :: "string \<Rightarrow> string option" where
  "strip_sep (a # s) =
     (if a = CHR ''.'' \<or> a = CHR ''@'' then Some s
      else (case s of [] \<Rightarrow> None
        | b # r \<Rightarrow> if (a = CHR ''-'' \<and> b = CHR 0x3E) \<or> (a = CHR 0x3A \<and> b = CHR 0x3A) then Some r else None))"
| "strip_sep [] = None"

lemma strip_sep_length: "strip_sep s = Some r \<Longrightarrow> length r < length s"
  by (cases s) (auto split: list.splits if_splits)

function taint_tail :: "string \<Rightarrow> bool" where
  "taint_tail s = (taint_end s \<or> (case strip_sep s of
       Some (c # r) \<Rightarrow> ident_start c \<and> taint_tail (dropWhile ident_char r)
     | _ \<Rightarrow> False))"
  by pat_completeness auto
termination
proof (relation "measure length")
  fix s :: string and x2 and c and r
  assume a: "strip_sep s = Some x2" "x2 = c # r"
  have "length (dropWhile ident_char r) \<le> length r" by (rule length_dropWhile_le)
  also have "\<dots> < length s" using strip_sep_length[OF a(1)] a(2) by simp
  finally show "(dropWhile ident_char r, s) \<in> measure length" by simp
qed simp

declare taint_tail.simps [simp del]

fun taint_re :: "string \<Rightarrow> bool" where
  "taint_re [] = False"
| "taint_re (c # s) = ((ident_start c \<or> c = CHR ''@'') \<and> taint_tail (dropWhile ident_char s))"

section \<open>Validation\<close>

datatype defect = BadTag | BadFile | BadLine | BadFunction | BadTaints | BlankTaint | IllegalTaint | BadRole
  | ConfidenceRange | BadConfidence | NoDescription | BadKind | NoReason | DetailCount | DetailNames
  | DetailNotObject nat | DetailNoText nat

datatype list_defect = NotArray | EmptyArray | NotObject nat | HasError nat | Item nat defect

fun is_text :: "pyval \<Rightarrow> bool" where
  "is_text (PStr s) = (py_strip s \<noteq> [])"
| "is_text _ = False"

fun is_int :: "pyval \<Rightarrow> bool" where
  "is_int (PInt i) = True"
| "is_int _ = False"

text \<open>Iterating over a value: the keys of a dictionary, the characters of a string.\<close>

fun py_iter :: "pyval \<Rightarrow> pyval list option" where
  "py_iter (PList xs) = Some xs"
| "py_iter (PDict d) = Some (map (\<lambda>(k, v). PStr k) d)"
| "py_iter (PStr s) = Some (map (\<lambda>c. PStr [c]) s)"
| "py_iter _ = None"

definition chk :: "bool \<Rightarrow> defect \<Rightarrow> defect list" where
  "chk ok e = (if ok then [] else [e])"

fun taint_ok :: "pyval \<Rightarrow> bool" where
  "taint_ok (PStr s) = taint_re s"
| "taint_ok _ = False"

definition taints_defects :: "dict \<Rightarrow> defect list" where
  "taints_defects d =
     (case get d ''taints'' of
        PList ts \<Rightarrow>
          (if ts = [] then chk (text_of (get d ''tag'') = ''A'') BadTaints
           else if \<not> list_all is_text ts then [BlankTaint]
           else chk (list_all taint_ok ts) IllegalTaint)
      | _ \<Rightarrow> [BadTaints])"

definition role_defects :: "dict \<Rightarrow> defect list" where
  "role_defects d = (let r = get d ''entry_role'' in chk (r = PNone \<or> py_str r \<in> set valid_entry_roles) BadRole)"

definition confidence_defects :: "dict \<Rightarrow> defect list" where
  "confidence_defects d =
     (let c = get d ''entry_confidence'' in
      if c = PNone then []
      else (case py_float c of None \<Rightarrow> [BadConfidence] | Some v \<Rightarrow> chk (0 \<le> v \<and> v \<le> 1) ConfidenceRange))"

definition detail_text_defects :: "pyval list \<Rightarrow> defect list" where
  "detail_text_defects ds = concat (map (\<lambda>(j, x). case x of
      PDict e \<Rightarrow> chk (text_of (get e ''description'') \<noteq> []) (DetailNoText j)
    | _ \<Rightarrow> [DetailNotObject j]) (enumerate 0 ds))"

definition detail_names :: "pyval list \<Rightarrow> string list" where
  "detail_names ds = concat (map (\<lambda>x. case x of PDict e \<Rightarrow> [text_of (get e ''name'')] | _ \<Rightarrow> []) ds)"

definition details_defects :: "dict \<Rightarrow> defect list option" where
  "details_defects d =
     (case get d ''taint_details'' of
        PList ds \<Rightarrow> map_option (\<lambda>ts.
            if length ds \<noteq> length ts then [DetailCount]
            else chk (detail_names ds = map (\<lambda>t. py_strip (py_str t)) ts) DetailNames @ detail_text_defects ds)
          (py_iter (py_or (get d ''taints'') (PList [])))
      | _ \<Rightarrow> Some [DetailCount])"

definition item_defects :: "dict \<Rightarrow> defect list option" where
  "item_defects d = map_option (\<lambda>det.
       chk (get d ''tag'' \<in> {PStr ''P'', PStr ''A''}) BadTag
     @ chk (is_text (get_or d ''file'' (PStr []))) BadFile
     @ chk (is_int (get d ''line'')) BadLine
     @ chk (is_text (get_or d ''function'' (PStr []))) BadFunction
     @ taints_defects d @ role_defects d @ confidence_defects d
     @ chk (is_text (get d ''function_description'')) NoDescription
     @ (let k = text_of (get d ''definition_kind'') in chk (k = [] \<or> k \<in> set definition_kinds) BadKind)
     @ chk (is_text (get d ''entry_reason'')) NoReason @ det) (details_defects d)"

fun validate_entry :: "nat \<times> pyval \<Rightarrow> list_defect list option" where
  "validate_entry (i, PDict d) =
     (if map_of d ''_error'' \<noteq> None then Some [HasError i] else map_option (map (Item i)) (item_defects d))"
| "validate_entry (i, _) = Some [NotObject i]"

definition validate_functions_list :: "pyval \<Rightarrow> list_defect list option" where
  "validate_functions_list v =
     (case v of PList items \<Rightarrow>
        (if items = [] then Some [EmptyArray]
         else map_option concat (those (map validate_entry (enumerate 0 items))))
      | _ \<Rightarrow> Some [NotArray])"

section \<open>Repair\<close>

datatype fix_event = SkipNonDict | SkipError | FixTag string | FixLine | SkipNoTaints | DropTaints nat
  | RescueTaints "string list" | SkipAllTaints | FixRole | DropConfidence

definition infer_tag :: "pyval list \<Rightarrow> string" where
  "infer_tag ts = (if list_ex (\<lambda>t. case t of PStr s \<Rightarrow> CHR ''@'' \<in> set s | _ \<Rightarrow> False) ts then ''A'' else ''P'')"

definition fix_tag :: "dict \<Rightarrow> (fix_event list \<times> dict) option" where
  "fix_tag d =
     (if get d ''tag'' \<in> {PStr ''P'', PStr ''A''} then Some ([], d)
      else map_option (\<lambda>ts. ([FixTag (infer_tag ts)], dset ''tag'' (PStr (infer_tag ts)) d))
             (py_iter (py_or (get d ''taints'') (PList []))))"

definition fix_line :: "dict \<Rightarrow> fix_event list \<times> dict" where
  "fix_line d = (if is_int (get d ''line'') then ([], d) else ([FixLine], dset ''line'' (PInt 0) d))"

fun good_taint :: "pyval \<Rightarrow> bool" where
  "good_taint (PStr s) = (py_strip s \<noteq> [] \<and> taint_re (py_strip s))"
| "good_taint _ = False"

text \<open>The identifier an illegal taint starts with, once each.\<close>

fun rescue :: "pyval list \<Rightarrow> string list \<Rightarrow> string list" where
  "rescue [] acc = acc"
| "rescue (PStr s # ts) acc =
     (case py_strip s of
        [] \<Rightarrow> rescue ts acc
      | c # r \<Rightarrow> (if ident_start c
                then (let cand = c # takeWhile ident_char r in rescue ts (if cand \<in> set acc then acc else acc @ [cand]))
                else rescue ts acc))"
| "rescue (_ # ts) acc = rescue ts acc"

text \<open>
  The filter of the taints. Whatever the branches put under the key, the code then
  stores the filtered list, the rescued identifiers included.
\<close>

definition fix_taints :: "dict \<Rightarrow> (fix_event list \<times> (pyval list \<times> dict) option)" where
  "fix_taints d =
     (case get d ''taints'' of
        PList ts \<Rightarrow>
          (let good = filter good_taint ts;
               bad = filter (\<lambda>t. t \<notin> set good) ts;
               ev = (if bad = [] then [] else [DropTaints (length bad)])
           in if good = [] \<and> text_of (get d ''tag'') = ''A'' then (ev, Some (good, dset ''taints'' (PList good) (dset ''taints'' (PList []) d)))
              else if good = []
              then (let r = rescue ts []
                    in if r = [] then (ev @ [SkipAllTaints], None)
                       else (ev @ [RescueTaints r],
                             Some (good, dset ''taints'' (PList good) (dset ''taints'' (PList (map PStr r)) d))))
              else (ev, Some (good, dset ''taints'' (PList good) d)))
      | _ \<Rightarrow> ([SkipNoTaints], None))"

definition fix_role :: "dict \<Rightarrow> fix_event list \<times> dict" where
  "fix_role d =
     (let r = text_of (get d ''entry_role'') in
      if r = [] then ([], d)
      else if r \<notin> set valid_entry_roles then ([FixRole], dset ''entry_role'' (PStr ''boundary'') d)
      else ([], dset ''entry_role'' (PStr r) d))"

definition clamp01 :: "rat \<Rightarrow> rat" where
  "clamp01 v = max 0 (min 1 v)"

definition fix_confidence :: "dict \<Rightarrow> fix_event list \<times> dict" where
  "fix_confidence d =
     (let c = get d ''entry_confidence'' in
      if c = PNone then ([], d)
      else (case py_float c of
              None \<Rightarrow> ([DropConfidence], dpop ''entry_confidence'' d)
            | Some v \<Rightarrow> ([], dset ''entry_confidence'' (flt_hundredths (round_even (100 * clamp01 v))) d)))"

definition fix_texts :: "dict \<Rightarrow> dict" where
  "fix_texts d0 =
     (let desc = text_of (get d0 ''function_description'');
          reason = text_of (get d0 ''entry_reason'');
          kind0 = py_lower (text_of (get d0 ''definition_kind''));
          kind = (if kind0 \<in> set definition_kinds then kind0
                  else if truthy (get_or d0 ''is_definition_found'' (PBool True)) then ''definition'' else ''unknown'');
          d1 = dset ''definition_kind'' (PStr kind) d0;
          d2 = dset ''is_definition_found'' (PBool (truthy (get_or d1 ''is_definition_found'' (PBool (kind = ''definition''))))) d1;
          fn = py_str (py_or (get d2 ''function'') (PStr []));
          d3 = dset ''function_description'' (PStr (or_text desc (default_function_description fn))) d2;
          d4 = dset ''function_description_source'' (PStr (if desc = [] then ''default'' else ''agent'')) d3;
          d5 = dset ''entry_reason'' (PStr (or_text reason (default_entry_reason (py_str (py_or (get d4 ''tag'') (PStr []))) fn))) d4
      in dset ''entry_reason_source'' (PStr (if reason = [] then ''default'' else ''agent'')) d5)"

definition raw_details :: "dict \<Rightarrow> pyval" where
  "raw_details d = py_or (py_or (get d ''taint_details'') (get d ''taint_descriptions'')) (PList [])"

definition raw_text_map :: "pyval list \<Rightarrow> (string \<times> string) list" where
  "raw_text_map xs = put_all (map (\<lambda>x. case x of
      PDict e \<Rightarrow> if detail_name e = [] then None else Some (detail_name e, detail_text e)
    | _ \<Rightarrow> None) xs) []"

definition mark_source :: "(string \<times> string) list \<Rightarrow> dict \<Rightarrow> dict" where
  "mark_source m e =
     (let t = (case map_of m (text_of (get e ''name'')) of None \<Rightarrow> [] | Some s \<Rightarrow> s)
      in dset ''description_source'' (PStr (if t = [] then ''default'' else ''agent'')) e)"

fun str_of :: "pyval \<Rightarrow> string" where
  "str_of (PStr s) = s"
| "str_of _ = []"

definition fix_details :: "pyval list \<Rightarrow> dict \<Rightarrow> dict option" where
  "fix_details good d =
     map_option (\<lambda>raws. dset ''taint_details''
         (PList (map (\<lambda>e. PDict (mark_source (raw_text_map raws) e)) (normalize_taint_details (map str_of good) (raw_details d)))) d)
       (py_iter (raw_details d))"

definition fix_item :: "dict \<Rightarrow> (fix_event list \<times> dict option) option" where
  "fix_item d0 =
     (case fix_tag d0 of
        None \<Rightarrow> None
      | Some (ev1, d1) \<Rightarrow>
          (let (ev2, d2) = fix_line d1 in
           case fix_taints d2 of
             (ev3, None) \<Rightarrow> Some (ev1 @ ev2 @ ev3, None)
           | (ev3, Some (good, d3)) \<Rightarrow>
               (let (ev4, d4) = fix_role d3; (ev5, d5) = fix_confidence d4; d6 = fix_texts d5
                in map_option (\<lambda>d7. (ev1 @ ev2 @ ev3 @ ev4 @ ev5, Some d7)) (fix_details good d6))))"

fun fix_entry :: "pyval \<Rightarrow> (fix_event list \<times> dict option) option" where
  "fix_entry (PDict d) = (if map_of d ''_error'' \<noteq> None then Some ([SkipError], None) else fix_item d)"
| "fix_entry _ = Some ([SkipNonDict], None)"

definition kept :: "(fix_event list \<times> dict option) list \<Rightarrow> dict list" where
  "kept rs = concat (map (\<lambda>(ev, r). case r of None \<Rightarrow> [] | Some d \<Rightarrow> [d]) rs)"

definition events :: "(fix_event list \<times> dict option) list \<Rightarrow> (nat \<times> fix_event) list" where
  "events rs = concat (map (\<lambda>(i, ev, r). map (Pair i) ev) (enumerate 0 rs))"

definition auto_fix_functions_list :: "pyval \<Rightarrow> (dict list \<times> (nat \<times> fix_event) list) option" where
  "auto_fix_functions_list v =
     (case v of PList items \<Rightarrow> map_option (\<lambda>rs. (kept rs, events rs)) (those (map fix_entry items))
      | _ \<Rightarrow> Some ([], [(0, SkipNonDict)]))"

section \<open>Generation\<close>

definition int_like :: "pyval \<Rightarrow> bool" where
  "int_like v = (case v of PInt i \<Rightarrow> True | PBool b \<Rightarrow> True | _ \<Rightarrow> False)"

definition kind_of_item :: "dict \<Rightarrow> string" where
  "kind_of_item d =
     (let k = py_lower (text_of (get d ''definition_kind'')) in
      if k \<in> set definition_kinds then k
      else (case get d ''body_lines'' of
              PInt n \<Rightarrow> if 0 < n then ''definition'' else ''declaration''
            | PBool b \<Rightarrow> if b then ''definition'' else ''declaration''
            | _ \<Rightarrow> if truthy (get_or d ''is_definition_found'' (PBool True)) then ''definition'' else ''unknown''))"

definition source_line_ok :: "pyval \<Rightarrow> bool" where
  "source_line_ok s = (case s of PDict e \<Rightarrow> truthy (get e ''line'') | _ \<Rightarrow> False)"

definition external_entry :: string where "external_entry = [CHR 0xE5, CHR 0xA4, CHR 0x96, CHR 0xE9, CHR 0x83, CHR 0xA8, CHR 0xE5, CHR 0x85, CHR 0xA5, CHR 0xE5, CHR 0x8F, CHR 0xA3]"
definition handling_entry :: string where "handling_entry = [CHR 0xE5, CHR 0xA4, CHR 0x84, CHR 0xE7, CHR 0x90, CHR 0x86, CHR 0xE5, CHR 0x85, CHR 0xA5, CHR 0xE5, CHR 0x8F, CHR 0xA3]"

definition generate_item :: "dict \<Rightarrow> dict option" where
  "generate_item d =
     (case (py_iter (py_or (get d ''taints'') (PList [])), py_iter (py_or (get d ''entry_source_lines'') (PList []))) of
        (Some ts, Some sl) \<Rightarrow>
          (let raw_tag = get_or d ''tag'' (PStr []);
               tag = (if raw_tag \<in> {PStr ''P'', PStr ''A''} then raw_tag else PStr (infer_tag ts));
               line = get_or d ''line'' (PInt 0);
               line0 = (if int_like line then line else PInt 0);
               kind = kind_of_item d;
               role = text_of (get d ''entry_role'');
               cat = text_of (get d ''entry_category'');
               names = filter (\<lambda>s. s \<noteq> []) (map (\<lambda>t. py_strip (py_str t)) ts);
               flat = [(''tag'', tag), (''file'', get_or d ''file'' (PStr [])), (''line'', line0),
                 (''function'', get_or d ''function'' (PStr [])), (''taints'', py_or (get d ''taints'') (PList [])),
                 (''entry_source_lines'', PList (filter source_line_ok sl)),
                 (''function_description'', PStr (text_of (get d ''function_description''))),
                 (''function_description_source'', PStr (derive_description_source (get d ''function_description''))),
                 (''entry_reason'', PStr (text_of (get d ''entry_reason''))),
                 (''entry_reason_source'', PStr (derive_description_source (get d ''entry_reason''))),
                 (''taint_details'', PList (map PDict (normalize_taint_details names (raw_details d)))),
                 (''definition_file'', py_or (get d ''definition_file'') (get_or d ''file'' (PStr []))),
                 (''definition_line'', if int_like (get d ''definition_line'') then get d ''definition_line'' else line0),
                 (''definition_kind'', PStr kind),
                 (''is_definition_found'', PBool (truthy (get_or d ''is_definition_found'' (PBool (kind = ''definition''))))),
                 (''signature_params'', case get d ''signature_params'' of PList p \<Rightarrow> PList p | _ \<Rightarrow> PList [])]
           in Some (flat @ opt_field ''entry_role'' role
                @ (if cat \<in> {external_entry, handling_entry} then [(''entry_category'', PStr cat)] else [])
                @ (case get d ''entry_confidence'' of PNone \<Rightarrow> []
                   | c \<Rightarrow> (case py_float c of None \<Rightarrow> []
                          | Some v \<Rightarrow> [(''entry_confidence'', flt_hundredths (round_even (100 * v)))]))))
      | _ \<Rightarrow> None)"

definition generate_items :: "pyval list \<Rightarrow> dict list option" where
  "generate_items items =
     those (map generate_item (concat (map (\<lambda>x. case x of PDict d \<Rightarrow> [d] | _ \<Rightarrow> []) items)))"

subsection \<open>Markdown tables\<close>

text \<open>Removal of characters (\<open>re.sub("[...]", "", s)\<close>), each given by its bytes.\<close>

fun drop_pre :: "string list \<Rightarrow> string \<Rightarrow> nat" where
  "drop_pre [] s = 0"
| "drop_pre (p # ps) s = (if p \<noteq> [] \<and> is_prefix p s then length p else drop_pre ps s)"

function strip_chars :: "string list \<Rightarrow> string \<Rightarrow> string" where
  "strip_chars ps [] = []"
| "strip_chars ps (c # s) =
     (let n = drop_pre ps (c # s) in if n = 0 then c # strip_chars ps s else strip_chars ps (drop n (c # s)))"
  by pat_completeness auto
termination
  by (relation "measure (\<lambda>(ps, s). length s)") (auto simp: Let_def)

definition ticks :: "string list" where
  "ticks = [''`'', ''*'']"

definition header_marks :: "string list" where
  "header_marks = [''`'', ''*'', ''_'', [CHR 0xE3, CHR 0x80, CHR 0x90], [CHR 0xE3, CHR 0x80, CHR 0x91]]"

datatype column = CFunction | CType | CTaints | CFile | CFileLine | CLine

definition classify :: "string \<Rightarrow> column option" where
  "classify name =
     (let n = py_strip (py_lower name) in
      if n \<in> {[CHR 0xE5, CHR 0x85, CHR 0xA5, CHR 0xE5, CHR 0x8F, CHR 0xA3, CHR 0xE5, CHR 0x87, CHR 0xBD, CHR 0xE6, CHR 0x95, CHR 0xB0], ''function'', ''entry function'', ''func'', [CHR 0xE5, CHR 0x87, CHR 0xBD, CHR 0xE6, CHR 0x95, CHR 0xB0], [CHR 0xE5, CHR 0x87, CHR 0xBD, CHR 0xE6, CHR 0x95, CHR 0xB0, CHR 0xE5, CHR 0x90, CHR 0x8D]} then Some CFunction
      else if n \<in> {[CHR 0xE5, CHR 0x85, CHR 0xA5, CHR 0xE5, CHR 0x8F, CHR 0xA3, CHR 0xE7, CHR 0xB1, CHR 0xBB, CHR 0xE5, CHR 0x9E, CHR 0x8B], ''type'', ''tag'', [CHR 0xE7, CHR 0xB1, CHR 0xBB, CHR 0xE5, CHR 0x9E, CHR 0x8B]} then Some CType
      else if n \<in> {[CHR 0xE6, CHR 0xB1, CHR 0xA1, CHR 0xE7, CHR 0x82, CHR 0xB9, CHR 0xE5, CHR 0x8F, CHR 0x98, CHR 0xE9, CHR 0x87, CHR 0x8F], ''taints'', ''taint variables'', [CHR 0xE6, CHR 0xB1, CHR 0xA1, CHR 0xE7, CHR 0x82, CHR 0xB9, CHR 0xE5, CHR 0x8F, CHR 0x82, CHR 0xE6, CHR 0x95, CHR 0xB0], [CHR 0xE6, CHR 0xB1, CHR 0xA1, CHR 0xE7, CHR 0x82, CHR 0xB9]} then Some CTaints
      else if n \<in> {[CHR 0xE6, CHR 0xBA, CHR 0x90, CHR 0xE6, CHR 0x96, CHR 0x87, CHR 0xE4, CHR 0xBB, CHR 0xB6], ''file'', ''source file'', [CHR 0xE6, CHR 0x96, CHR 0x87, CHR 0xE4, CHR 0xBB, CHR 0xB6], [CHR 0xE6, CHR 0x96, CHR 0x87, CHR 0xE4, CHR 0xBB, CHR 0xB6, CHR 0xE5, CHR 0x90, CHR 0x8D]} then Some CFile
      else if n \<in> {[CHR 0xE6, CHR 0x96, CHR 0x87, CHR 0xE4, CHR 0xBB, CHR 0xB6, CHR 0xE4, CHR 0xBD, CHR 0x8D, CHR 0xE7, CHR 0xBD, CHR 0xAE]} then Some CFileLine
      else if n \<in> {[CHR 0xE8, CHR 0xA1, CHR 0x8C, CHR 0xE5, CHR 0x8F, CHR 0xB7], ''line'', ''line no'', [CHR 0xE8, CHR 0xA1, CHR 0x8C]} then Some CLine
      else None)"

definition table_cells :: "string \<Rightarrow> string list" where
  "table_cells stripped = map py_strip (butlast (tl (split_on CHR 0x7C stripped)))"

definition separator_cell :: "string \<Rightarrow> bool" where
  "separator_cell c \<longleftrightarrow> (let t = filter (\<lambda>x. x \<noteq> CHR 0x20) c in t \<noteq> [] \<and> set t \<subseteq> {CHR ''-'', CHR 0x3A})"

definition header_columns :: "string list \<Rightarrow> (nat \<times> column) list" where
  "header_columns clean = concat (map (\<lambda>(i, h). case classify h of None \<Rightarrow> [] | Some c \<Rightarrow> [(i, c)]) (enumerate 0 clean))"

definition cell_of :: "(nat \<times> column) list \<Rightarrow> string list \<Rightarrow> column \<Rightarrow> string" where
  "cell_of cols cells c = (case filter (\<lambda>(i, f). f = c \<and> i < length cells) cols of [] \<Rightarrow> [] | (i, f) # r \<Rightarrow> cells ! i)"

text \<open>\<open>^(.+?)(?::(\d+))?$\<close>: the part before a final colon and number.\<close>

definition file_part :: "string \<Rightarrow> string" where
  "file_part s =
     (let ds = takeWhile is_digit (rev s); rest = drop (length ds) (rev s)
      in if ds \<noteq> [] \<and> rest \<noteq> [] \<and> hd rest = CHR 0x3A \<and> tl rest \<noteq> [] then rev (tl rest) else s)"

fun colon_number :: "string \<Rightarrow> string option" where
  "colon_number [] = None"
| "colon_number (c # s) =
     (if c = CHR 0x3A \<and> takeWhile is_digit s \<noteq> [] then Some (takeWhile is_digit s) else colon_number s)"

text \<open>\<open>re.findall\<close> of the texts between backticks.\<close>

function tick_tokens :: "string \<Rightarrow> string list" where
  "tick_tokens [] = []"
| "tick_tokens (c # s) =
     (if c \<noteq> CHR 0x60 then tick_tokens s
      else (let run = takeWhile (\<lambda>x. x \<noteq> CHR 0x60) s; rest = drop (length run) s
            in if run = [] \<or> rest = [] then tick_tokens s else run # tick_tokens (tl rest)))"
  by pat_completeness auto
termination
  by (relation "measure length") (auto simp: Let_def)

definition full_comma :: string where "full_comma = [CHR 0xEF, CHR 0xBC, CHR 0x8C]"
definition list_comma :: string where "list_comma = [CHR 0xE3, CHR 0x80, CHR 0x81]"

fun words_by :: "(char \<Rightarrow> bool) \<Rightarrow> string \<Rightarrow> string \<Rightarrow> string list" where
  "words_by P acc [] = (if acc = [] then [] else [acc])"
| "words_by P acc (c # s) = (if P c then (if acc = [] then words_by P [] s else acc # words_by P [] s) else words_by P (acc @ [c]) s)"

fun replace_pre :: "string list \<Rightarrow> char \<Rightarrow> nat \<Rightarrow> string \<Rightarrow> string" where
  "replace_pre ps r 0 s = s"
| "replace_pre ps r (Suc k) [] = []"
| "replace_pre ps r (Suc k) (c # s) =
     (let n = drop_pre ps (c # s) in if n = 0 then c # replace_pre ps r k s else r # replace_pre ps r k (drop n (c # s)))"

definition split_taints :: "string \<Rightarrow> string list" where
  "split_taints s = words_by (\<lambda>c. is_space c \<or> c = CHR 0x2C) [] (replace_pre [full_comma, list_comma] CHR 0x20 (length s) s)"

definition cell_taints :: "string \<Rightarrow> string list" where
  "cell_taints cell =
     (let bt = tick_tokens cell in
      if bt \<noteq> [] then filter (\<lambda>t. t \<noteq> []) (map py_strip bt)
      else split_taints (py_strip (strip_chars ticks cell)))"

definition row_item :: "(nat \<times> column) list \<Rightarrow> string list \<Rightarrow> dict option" where
  "row_item cols cells =
     (let func_raw = py_strip (strip_chars ticks (cell_of cols cells CFunction)) in
      if func_raw = [] then None
      else (let fl = py_strip (strip_chars ticks (cell_of cols cells CFileLine));
                file = (if fl \<noteq> [] then py_strip (file_part fl) else py_strip (strip_chars ticks (cell_of cols cells CFile)));
                line = (if CLine \<in> snd ` set cols
                        then (case int_text (filter (\<lambda>c. \<not> is_space c) (strip_chars ticks (cell_of cols cells CLine))) of
                                None \<Rightarrow> 0 | Some i \<Rightarrow> i)
                        else if fl \<noteq> [] then (case colon_number fl of None \<Rightarrow> 0 | Some ds \<Rightarrow> int (digits_val ds)) else 0);
                taints = cell_taints (cell_of cols cells CTaints);
                type_raw = py_strip (py_lower (strip_chars ticks (cell_of cols cells CType)));
                tag = (if has_sub [CHR 0xE4, CHR 0xB8, CHR 0xBB, CHR 0xE5, CHR 0x8A, CHR 0xA8] type_raw \<or> has_sub ''active'' type_raw then ''A'' else ''P'')
            in Some [(''tag'', PStr tag), (''file'', PStr file), (''line'', PInt line), (''function'', PStr func_raw),
                 (''taints'', PList (map PStr taints)),
                 (''function_description'', PStr (default_function_description func_raw)),
                 (''function_description_source'', PStr ''default''),
                 (''entry_reason'', PStr (default_entry_reason tag func_raw)), (''entry_reason_source'', PStr ''default''),
                 (''taint_details'', PList (map PDict (normalize_taint_details taints (PList []))))]))"

text \<open>One line of the text, with the columns of the table it is in.\<close>

definition markdown_line :: "(nat \<times> column) list \<Rightarrow> string \<Rightarrow> (nat \<times> column) list \<times> dict list" where
  "markdown_line cols line =
     (let stripped = py_strip line in
      if \<not> is_prefix [CHR 0x7C] stripped then ([], [])
      else (let cells = table_cells stripped in
            if cells = [] then (cols, [])
            else if list_all separator_cell (filter (\<lambda>c. c \<noteq> []) cells) then (cols, [])
            else (let clean = map (\<lambda>c. py_strip (py_lower (strip_chars header_marks c))) cells in
                  if list_ex (\<lambda>h. classify h \<noteq> None) clean then (header_columns clean, [])
                  else if cols = [] then (cols, [])
                  else (cols, case row_item cols cells of None \<Rightarrow> [] | Some d \<Rightarrow> [d]))))"

fun markdown_lines :: "(nat \<times> column) list \<Rightarrow> string list \<Rightarrow> dict list" where
  "markdown_lines cols [] = []"
| "markdown_lines cols (l # ls) = (let (cols', items) = markdown_line cols l in items @ markdown_lines cols' ls)"

definition parse_markdown_fallback :: "string \<Rightarrow> dict list" where
  "parse_markdown_fallback content = markdown_lines [] (split_on CHR 0x0A content)"

subsection \<open>The file\<close>

text \<open>
  The last branch calls \<open>json.loads\<close> for its error only: when the text is a JSON number or string
  the function returns \<open>None\<close>, and writing that raises.
\<close>

datatype gen_error = JsonError | NotAList | Uncaught

definition generate_functions_list :: "(string \<Rightarrow> pyval option) \<Rightarrow> string \<Rightarrow> gen_error + dict list" where
  "generate_functions_list loads text =
     (let stripped = dropWhile is_space text in
      if is_prefix ''['' stripped \<or> is_prefix [CHR 0x7B] stripped
      then (case loads text of
              None \<Rightarrow> Inl JsonError
            | Some (PList items) \<Rightarrow> (case generate_items items of None \<Rightarrow> Inl Uncaught | Some ds \<Rightarrow> Inr ds)
            | Some v \<Rightarrow> Inl NotAList)
      else if CHR 0x7C \<in> set text then Inr (parse_markdown_fallback text)
      else (case loads text of None \<Rightarrow> Inl JsonError | Some v \<Rightarrow> Inl Uncaught))"

datatype list_file = Items "dict list" | ErrorFile gen_error string

text \<open>The count the function returns and the file it writes; an uncaught exception writes nothing.\<close>

definition write_functions_list :: "(string \<Rightarrow> pyval option) \<Rightarrow> string \<Rightarrow> (int \<times> list_file) option" where
  "write_functions_list loads text =
     (case generate_functions_list loads text of
        Inl Uncaught \<Rightarrow> None
      | Inl e \<Rightarrow> Some (-1, ErrorFile e (utf_take 500 text))
      | Inr ds \<Rightarrow> Some (int (length ds), Items ds))"

end
