(* ===== verification/FunctionsListSafety.thy ===== *)
theory FunctionsListSafety
  imports FunctionsList
begin

text \<open>
  What the repair of a functions list guarantees and where it stops short of the validator, the
  language of the taint pattern, and the shape of generated lists.
\<close>

section \<open>Blank texts\<close>

lemma py_strip_Nil_iff: "py_strip s = [] \<longleftrightarrow> (\<forall>c \<in> set s. is_space c)"
proof
  assume "py_strip s = []"
  then have a: "\<forall>c \<in> set (dropWhile is_space s). is_space c" by (simp add: py_strip_def)
  have "dropWhile is_space s = []"
  proof (cases "dropWhile is_space s")
    case (Cons c r)
    then have "\<not> is_space c" by (metis hd_dropWhile list.distinct(1) list.sel(1))
    with a Cons show ?thesis by simp
  qed
  then show "\<forall>c \<in> set s. is_space c" by simp
next
  assume "\<forall>c \<in> set s. is_space c"
  then show "py_strip s = []" by (auto simp: py_strip_def dest: set_dropWhileD)
qed

lemma strip_visible: "c \<in> set s \<Longrightarrow> \<not> is_space c \<Longrightarrow> py_strip s \<noteq> []"
  by (auto simp: py_strip_Nil_iff)

lemma default_texts_visible:
  "py_strip (default_function_description f) \<noteq> []" "py_strip (default_entry_reason t f) \<noteq> []"
  "py_strip (default_taint_description n) \<noteq> []"
proof -
  have v: "\<not> is_space CHR 0xE5" "\<not> is_space CHR 0xE8" by (simp_all add: is_space_def)
  show "py_strip (default_function_description f) \<noteq> []"
    by (rule strip_visible[OF _ v(1)]) (simp add: default_function_description_def)
  show "py_strip (default_entry_reason t f) \<noteq> []"
    by (rule strip_visible[OF _ v(1)]) (simp add: default_entry_reason_def)
  show "py_strip (default_taint_description n) \<noteq> []"
    by (rule strip_visible[OF _ v(1)]) (simp add: default_taint_description_def)
qed

section \<open>The language of a taint\<close>

definition segment :: "string \<Rightarrow> bool" where
  "segment g \<longleftrightarrow> (\<exists>sep c w. g = sep @ c # w \<and> sep \<in> {''->'', ''::'', ''.'', ''@''} \<and> ident_start c \<and> list_all ident_char w)"

definition taint_language :: "string \<Rightarrow> bool" where
  "taint_language s \<longleftrightarrow> (\<exists>c w segs e. s = c # w @ concat segs @ e \<and> (ident_start c \<or> c = CHR ''@'')
     \<and> list_all ident_char w \<and> list_all segment segs \<and> taint_end e)"

lemma not_ident: "\<not> ident_char (CHR ''-'')" "\<not> ident_char CHR 0x3A" "\<not> ident_char (CHR ''.'')" "\<not> ident_char (CHR ''@'')"
  "\<not> ident_char (CHR ''('')" "\<not> ident_char CHR 0x0A"
  by (simp_all add: ident_char_def ident_start_def lower_char_def is_digit_def)

lemma rest_head:
  assumes "list_all segment segs" "taint_end e"
  shows "concat segs @ e = [] \<or> \<not> ident_char (hd (concat segs @ e))"
proof (cases segs)
  case Nil
  with assms(2) not_ident show ?thesis by (auto simp: taint_end_def)
next
  case (Cons g gs)
  with assms(1) have "segment g" by simp
  then show ?thesis unfolding segment_def Cons using not_ident by auto
qed

lemma dropWhile_word:
  assumes "list_all P w" "rest = [] \<or> \<not> P (hd rest)"
  shows "dropWhile P (w @ rest) = rest"
proof -
  have "\<forall>x \<in> set w. P x" using assms(1) by (simp add: list_all_iff)
  then have "dropWhile P (w @ rest) = dropWhile P rest" by (simp add: dropWhile_append)
  with assms(2) show ?thesis by (cases rest) auto
qed

lemma strip_sep_segment:
  "strip_sep (sep @ r) = Some r" if "sep \<in> {''->'', ''::'', ''.'', ''@''}"
  using that by auto

lemma strip_sep_Some: "strip_sep s = Some r \<Longrightarrow> \<exists>sep \<in> {''->'', ''::'', ''.'', ''@''}. s = sep @ r"
  by (cases s) (auto split: list.splits if_splits)

lemma taint_tail_complete:
  "list_all segment segs \<Longrightarrow> taint_end e \<Longrightarrow> taint_tail (concat segs @ e)"
proof (induction segs)
  case Nil
  then show ?case by (simp add: taint_tail.simps)
next
  case (Cons g gs)
  then obtain sep c w where g: "g = sep @ c # w" "sep \<in> {''->'', ''::'', ''.'', ''@''}" "ident_start c" "list_all ident_char w"
    by (auto simp: segment_def)
  let ?rest = "concat gs @ e"
  have "dropWhile ident_char (w @ ?rest) = ?rest"
    using Cons.prems by (intro dropWhile_word[OF g(4)] rest_head) auto
  with Cons.IH Cons.prems have "taint_tail (dropWhile ident_char (w @ ?rest))" by simp
  moreover have "strip_sep (concat (g # gs) @ e) = Some (c # w @ ?rest)"
    using strip_sep_segment[OF g(2)] by (simp add: g(1))
  ultimately show ?case using g(3) by (subst taint_tail.simps) simp
qed

lemma taint_tail_sound: "taint_tail s \<Longrightarrow> \<exists>segs e. s = concat segs @ e \<and> list_all segment segs \<and> taint_end e"
proof (induction s rule: taint_tail.induct)
  case (1 s)
  show ?case
  proof (cases "taint_end s")
    case True
    then show ?thesis by (intro exI[of _ "[]"] exI[of _ s]) simp
  next
    case False
    with "1.prems" obtain c r where s: "strip_sep s = Some (c # r)" "ident_start c" "taint_tail (dropWhile ident_char r)"
      by (subst (asm) taint_tail.simps) (auto split: option.splits list.splits)
    from "1.IH"[OF s(1) refl s(3)] obtain segs e where
      rest: "dropWhile ident_char r = concat segs @ e" "list_all segment segs" "taint_end e" by blast
    from strip_sep_Some[OF s(1)] obtain sep where sep: "sep \<in> {''->'', ''::'', ''.'', ''@''}" "s = sep @ c # r" by blast
    let ?g = "sep @ c # takeWhile ident_char r"
    have "segment ?g" using sep(1) s(2) unfolding segment_def
      by (intro exI conjI) (auto simp: list_all_iff dest: set_takeWhileD)
    moreover have "s = concat (?g # segs) @ e" using sep(2) rest(1) by (simp flip: rest(1))
    ultimately show ?thesis using rest(2,3) by (intro exI[of _ "?g # segs"] exI[of _ e]) simp
  qed
qed


section \<open>Taint details\<close>

lemma get_pstr [simp]: "get_or (dset k v d) k w = v"
  by simp

lemma normalize_one_fields:
  "text_of (get (normalize_one m t) ''description'') \<noteq> []" "get (normalize_one m t) ''name'' = PStr t"
proof -
  have d: "py_strip (default_taint_description t) \<noteq> []" by (rule default_texts_visible)
  then show "text_of (get (normalize_one m t) ''description'') \<noteq> []"
    by (simp add: normalize_one_def Let_def)
  show "get (normalize_one m t) ''name'' = PStr t"
    by (simp add: normalize_one_def Let_def)
qed

lemma mark_source_fields:
  "get (mark_source m e) ''name'' = get e ''name''" "get (mark_source m e) ''description'' = get e ''description''"
  by (simp_all add: mark_source_def Let_def)

lemma detail_names_dicts: "detail_names (map (\<lambda>e. PDict (f e)) es) = map (\<lambda>e. text_of (get (f e) ''name'')) es"
  by (induction es) (auto simp: detail_names_def)

lemma detail_text_defects_dicts:
  "(\<And>e. e \<in> set es \<Longrightarrow> text_of (get (f e) ''description'') \<noteq> []) \<Longrightarrow>
    detail_text_defects (map (\<lambda>e. PDict (f e)) es) = []"
  unfolding detail_text_defects_def
  by (auto simp: in_set_enumerate_eq chk_def)

section \<open>A repaired item\<close>

lemma fix_details_ok:
  assumes "fix_details good d = Some d'" "get d ''taints'' = PList good" "list_all good_taint good"
  shows "details_defects d' = Some [] \<and> (\<forall>k v. k \<noteq> ''taint_details'' \<longrightarrow> get_or d' k v = get_or d k v)"
proof -
  from assms(1) obtain raws where d': "d' = dset ''taint_details''
      (PList (map (\<lambda>e. PDict (mark_source (raw_text_map raws) e)) (normalize_taint_details (map str_of good) (raw_details d)))) d"
    by (auto simp: fix_details_def)
  let ?es = "normalize_taint_details (map str_of good) (raw_details d)"
  have str: "\<forall>t \<in> set good. \<exists>s. t = PStr s"
  proof
    fix t assume "t \<in> set good"
    with assms(3) have "good_taint t" by (simp add: list_all_iff)
    then show "\<exists>s. t = PStr s" by (cases t) auto
  qed
  have ts: "get d' ''taints'' = PList good" using assms(2) by (simp add: d')
  have "py_or (PList good) (PList []) = PList good" by (simp add: py_or_def)
  then have it: "py_iter (py_or (get d' ''taints'') (PList [])) = Some good" by (simp add: ts)
  have len: "length ?es = length good" by (simp add: normalize_taint_details_def)
  have names: "detail_names (map (\<lambda>e. PDict (mark_source (raw_text_map raws) e)) ?es) = map (\<lambda>t. py_strip (py_str t)) good"
    using str unfolding detail_names_dicts
    by (auto simp: normalize_taint_details_def mark_source_fields normalize_one_fields py_str_def)
  have texts: "detail_text_defects (map (\<lambda>e. PDict (mark_source (raw_text_map raws) e)) ?es) = []"
    by (rule detail_text_defects_dicts) (auto simp: mark_source_fields normalize_taint_details_def normalize_one_fields)
  have "details_defects d' = Some []"
    unfolding details_defects_def using it len names texts by (simp add: d' chk_def)
  then show ?thesis by (simp add: d')
qed

lemma fix_texts_fields:
  "is_text (get (fix_texts d) ''function_description'')" "is_text (get (fix_texts d) ''entry_reason'')"
  "text_of (get (fix_texts d) ''definition_kind'') \<in> set definition_kinds"
  "k \<notin> {''function_description'', ''function_description_source'', ''entry_reason'', ''entry_reason_source'', ''definition_kind'',
     ''is_definition_found''} \<Longrightarrow> get_or (fix_texts d) k v = get_or d k v"
proof -
  have strip: "py_strip k = k" if "k \<in> set definition_kinds" for k
    using that by (auto simp: definition_kinds_def py_strip_def is_space_def)
  show "is_text (get (fix_texts d) ''function_description'')" "is_text (get (fix_texts d) ''entry_reason'')"
    using default_texts_visible by (auto simp: fix_texts_def Let_def or_text_def)
  have k: "\<exists>k \<in> set definition_kinds. get (fix_texts d) ''definition_kind'' = PStr k"
    by (auto simp: fix_texts_def Let_def definition_kinds_def)
  then show "text_of (get (fix_texts d) ''definition_kind'') \<in> set definition_kinds" using strip by auto
  show "k \<notin> {''function_description'', ''function_description_source'', ''entry_reason'', ''entry_reason_source'', ''definition_kind'',
     ''is_definition_found''} \<Longrightarrow> get_or (fix_texts d) k v = get_or d k v"
    by (simp add: fix_texts_def Let_def)
qed

lemma fix_confidence_ok: "confidence_defects (snd (fix_confidence d)) = []"
proof -
  have "0 \<le> (of_int (round_even (100 * clamp01 v)) :: rat) / 100 \<and> (of_int (round_even (100 * clamp01 v)) :: rat) / 100 \<le> 1" for v
  proof -
    have "0 \<le> 100 * clamp01 v" "100 * clamp01 v \<le> 100" by (auto simp: clamp01_def)
    from round_even_mono[OF this(1)] round_even_mono[OF this(2)] round_even_of_int[of 0] round_even_of_int[of 100]
    have "0 \<le> round_even (100 * clamp01 v)" "round_even (100 * clamp01 v) \<le> 100" by simp_all
    then show ?thesis by simp
  qed
  note b = this
  show ?thesis
  proof (cases "get d ''entry_confidence'' = PNone")
    case True
    then show ?thesis by (simp add: confidence_defects_def fix_confidence_def)
  next
    case False
    then show ?thesis
    proof (cases "py_float (get d ''entry_confidence'')")
      case None
      with False show ?thesis by (simp add: confidence_defects_def fix_confidence_def Let_def)
    next
      case (Some v)
      with False b[of v] show ?thesis
        by (simp add: confidence_defects_def fix_confidence_def flt_hundredths_def chk_def Let_def)
    qed
  qed
qed

lemma fix_confidence_other: "k \<noteq> ''entry_confidence'' \<Longrightarrow> get_or (snd (fix_confidence d)) k v = get_or d k v"
  by (auto simp: fix_confidence_def Let_def split: option.splits)

lemma fix_role_other: "k \<noteq> ''entry_role'' \<Longrightarrow> get_or (snd (fix_role d)) k v = get_or d k v"
  by (auto simp: fix_role_def Let_def)

lemma fix_taints_ok:
  assumes "fix_taints d = (ev, Some (good, d'))"
  shows "get d' ''taints'' = PList good" "list_all good_taint good"
    "k \<noteq> ''taints'' \<Longrightarrow> get_or d' k v = get_or d k v"
  using assms by (auto simp: fix_taints_def Let_def list_all_iff filter_empty_conv split: pyval.splits if_splits)

lemma fix_tag_ok:
  assumes "fix_tag d = Some (ev, d')"
  shows "get d' ''tag'' \<in> {PStr ''P'', PStr ''A''}" "k \<noteq> ''tag'' \<Longrightarrow> get_or d' k v = get_or d k v"
  using assms by (auto simp: fix_tag_def infer_tag_def split: if_splits)

lemma fix_line_ok: "is_int (get (snd (fix_line d)) ''line'')" "k \<noteq> ''line'' \<Longrightarrow> get_or (snd (fix_line d)) k v = get_or d k v"
  by (auto simp: fix_line_def)

text \<open>The stages of the repair of an item that is kept.\<close>

lemma fix_item_stages:
  assumes "fix_item d = Some (ev, Some d7)"
  obtains ev1 d1 ev3 good d3 where "fix_tag d = Some (ev1, d1)" "fix_taints (snd (fix_line d1)) = (ev3, Some (good, d3))"
    "fix_details good (fix_texts (snd (fix_confidence (snd (fix_role d3))))) = Some d7"
    "ev = ev1 @ fst (fix_line d1) @ ev3 @ fst (fix_role d3) @ fst (fix_confidence (snd (fix_role d3)))"
proof -
  from assms obtain ev1 d1 where t: "fix_tag d = Some (ev1, d1)" by (auto simp: fix_item_def split: option.splits)
  obtain ev3 r where f: "fix_taints (snd (fix_line d1)) = (ev3, r)" by fastforce
  show thesis
  proof (cases r)
    case None
    with assms t f show ?thesis by (simp add: fix_item_def Let_def case_prod_beta)
  next
    case (Some gd)
    obtain good d3 where gd: "gd = (good, d3)" by fastforce
    from assms t f Some gd show ?thesis
      by (intro that[OF t, of ev3 good d3]) (auto simp: fix_item_def Let_def case_prod_beta)
  qed
qed

text \<open>What the repair leaves to the validator, besides the name of the file and of the function.\<close>

definition residual :: "dict \<Rightarrow> defect set" where
  "residual d = {BadFile, BadFunction}
     \<union> (if get d ''taints'' = PList [] then {BadTaints} else {IllegalTaint}) \<union> {BadRole}"

lemma fixed_item_defects:
  assumes "fix_item d = Some (ev, Some d7)"
  shows "\<exists>es. item_defects d7 = Some es \<and> set es \<subseteq> residual d7"
proof -
  from assms obtain ev1 d1 ev3 good d3 where st: "fix_tag d = Some (ev1, d1)" "fix_taints (snd (fix_line d1)) = (ev3, Some (good, d3))"
    "fix_details good (fix_texts (snd (fix_confidence (snd (fix_role d3))))) = Some d7" by (rule fix_item_stages)
  let ?d5 = "snd (fix_confidence (snd (fix_role d3)))"
  note t = fix_taints_ok[OF st(2)]
  have taints6: "get (fix_texts ?d5) ''taints'' = PList good"
    using t(1) by (simp add: fix_texts_fields(4) fix_confidence_other fix_role_other)
  note fd = fix_details_ok[OF st(3) taints6 t(2)]
  from fd have det: "details_defects d7 = Some []"
    and other: "\<And>k v. k \<noteq> ''taint_details'' \<Longrightarrow> get_or d7 k v = get_or (fix_texts ?d5) k v" by auto
  have g7: "get d7 ''taints'' = PList good" using taints6 by (simp add: other)
  have tag: "get d7 ''tag'' \<in> {PStr ''P'', PStr ''A''}"
    using fix_tag_ok(1)[OF st(1)] by (simp add: other fix_texts_fields(4) fix_confidence_other fix_role_other t(3) fix_line_ok(2))
  have line: "is_int (get d7 ''line'')"
    using fix_line_ok(1)[of d1] by (simp add: other fix_texts_fields(4) fix_confidence_other fix_role_other t(3))
  have conf: "confidence_defects d7 = []"
    using fix_confidence_ok[of "snd (fix_role d3)"] by (simp add: confidence_defects_def other fix_texts_fields(4))
  have txts: "is_text (get d7 ''function_description'')" "is_text (get d7 ''entry_reason'')"
    "text_of (get d7 ''definition_kind'') \<in> set definition_kinds"
    by (simp_all add: other fix_texts_fields)
  have "list_all is_text good" using t(2) by (auto simp: list_all_iff elim!: good_taint.elims)
  then have "set (taints_defects d7) \<subseteq> (if good = [] then {BadTaints} else {IllegalTaint})"
    by (auto simp: taints_defects_def g7 chk_def)
  moreover have "set (role_defects d7) \<subseteq> {BadRole}" by (auto simp: role_defects_def chk_def Let_def)
  ultimately have "set (taints_defects d7) \<union> set (role_defects d7) \<subseteq> residual d7" by (auto simp: residual_def g7)
  with tag line conf txts det show ?thesis
    by (auto simp: item_defects_def chk_def residual_def Let_def)
qed

text \<open>
  C28: every item that leaves the repair passes the validator except for a missing file or function name,
  a blank role, a list of taints that was emptied, or a taint with surrounding space:
  tag, line, confidence, description, reason, definition kind and the taint details, which match the taints
  one to one and in order, are always valid.
\<close>

theorem repaired_items_validate:
  assumes "auto_fix_functions_list v = Some (ds, evs)" "d \<in> set ds"
  shows "\<exists>es. item_defects d = Some es \<and> set es \<subseteq> residual d"
proof -
  from assms obtain items rs where v: "v = PList items" "those (map fix_entry items) = Some rs" "ds = kept rs"
    by (auto simp: auto_fix_functions_list_def split: pyval.splits)
  from assms(2) v(3) obtain ev where r: "(ev, Some d) \<in> set rs"
    by (auto simp: kept_def split: option.splits)
  have "\<exists>x \<in> set items. fix_entry x = Some (ev, Some d)"
    using v(2) r
  proof (induction items arbitrary: rs)
    case (Cons x xs)
    then show ?case by (fastforce split: option.splits)
  qed simp
  then obtain x where "fix_entry x = Some (ev, Some d)" by blast
  then obtain d0 where "fix_item d0 = Some (ev, Some d)" by (cases x) (auto split: if_splits)
  then show ?thesis by (rule fixed_item_defects)
qed

text \<open>
  an entry whose taints are all illegal but start with identifiers is reported as rescued, yet the
  rescued names are overwritten: it keeps an empty list of taints, and the validator rejects it.
\<close>

theorem rescued_taints_are_lost:
  assumes "fix_item d = Some (ev, Some d7)" "RescueTaints r \<in> set ev"
  shows "get d7 ''taints'' = PList [] \<and> r \<noteq> [] \<and> (\<exists>es. item_defects d7 = Some es \<and> BadTaints \<in> set es)"
proof -
  from assms(1) obtain ev1 d1 ev3 good d3 where st: "fix_tag d = Some (ev1, d1)" "fix_taints (snd (fix_line d1)) = (ev3, Some (good, d3))"
    "fix_details good (fix_texts (snd (fix_confidence (snd (fix_role d3))))) = Some d7"
    "ev = ev1 @ fst (fix_line d1) @ ev3 @ fst (fix_role d3) @ fst (fix_confidence (snd (fix_role d3)))" by (rule fix_item_stages)
  let ?d2 = "snd (fix_line d1)" and ?d5 = "snd (fix_confidence (snd (fix_role d3)))"
  have "RescueTaints r \<in> set ev3"
    using assms(2) st(1,4)
    by (auto simp: fix_tag_def fix_line_def fix_role_def fix_confidence_def Let_def split: if_splits option.splits)
  with st(2) have good: "good = []" "r \<noteq> []" "text_of (get ?d2 ''tag'') \<noteq> ''A''"
    by (auto simp: fix_taints_def Let_def split: pyval.splits if_splits)
  note t = fix_taints_ok[OF st(2)]
  have taints6: "get (fix_texts ?d5) ''taints'' = PList good"
    using t(1) by (simp add: fix_texts_fields(4) fix_confidence_other fix_role_other)
  note fd = fix_details_ok[OF st(3) taints6 t(2)]
  have g7: "get d7 ''taints'' = PList []" using fd taints6 good(1) by simp
  have "get d7 ''tag'' = get ?d2 ''tag''"
    using fd by (simp add: fix_texts_fields(4) fix_confidence_other fix_role_other t(3))
  with good(3) have "BadTaints \<in> set (taints_defects d7)" by (simp add: taints_defects_def g7 chk_def)
  with fixed_item_defects[OF assms(1)] g7 good(2) show ?thesis by (auto simp: item_defects_def)
qed

lemma raw_details_texts: "raw_details (fix_texts d) = raw_details d"
  by (simp add: raw_details_def fix_texts_fields(4))

text \<open>An entry with an illegal taint that starts with a name.\<close>

definition rescue_item :: dict where
  "rescue_item = [(''tag'', PStr ''P''), (''file'', PStr ''a.c''), (''line'', PInt 1), (''function'', PStr ''f''),
     (''taints'', PList [PStr ''mbuf (data)''])]"

lemma rescue_item_fixed:
  "\<exists>d7. fix_item rescue_item = Some ([DropTaints 1, RescueTaints [''mbuf'']], Some d7) \<and> get d7 ''taints'' = PList []"
proof -
  have tag: "fix_tag rescue_item = Some ([], rescue_item)" by (simp add: fix_tag_def rescue_item_def get_or_def)
  have line: "fix_line rescue_item = ([], rescue_item)" by (simp add: fix_line_def rescue_item_def get_or_def)
  have strip: "py_strip ''mbuf (data)'' = ''mbuf (data)''" by (simp add: py_strip_def is_space_def)
  have bad: "\<not> taint_re ''mbuf (data)''"
    by (simp add: taint_tail.simps taint_end_def ident_char_def ident_start_def lower_char_def is_digit_def)
  with strip have gt: "\<not> good_taint (PStr ''mbuf (data)'')" by (simp del: taint_re.simps)
  have res: "rescue [PStr ''mbuf (data)''] [] = [''mbuf'']"
    by (simp add: strip ident_char_def ident_start_def lower_char_def is_digit_def)
  let ?d3 = "dset ''taints'' (PList []) (dset ''taints'' (PList [PStr ''mbuf'']) rescue_item)"
  have ts: "get rescue_item ''taints'' = PList [PStr ''mbuf (data)'']" "text_of (get rescue_item ''tag'') = ''P''"
    by (simp_all add: rescue_item_def get_or_def py_strip_def is_space_def)
  have taints: "fix_taints rescue_item = ([DropTaints 1, RescueTaints [''mbuf'']], Some ([], ?d3))"
    using gt res by (simp add: fix_taints_def ts del: good_taint.simps rescue.simps)
  have role: "fix_role ?d3 = ([], ?d3)" and conf: "fix_confidence ?d3 = ([], ?d3)" and raw: "raw_details ?d3 = PList []"
    by (simp_all add: fix_role_def fix_confidence_def raw_details_def rescue_item_def get_or_def py_or_def)
  have "fix_details [] (fix_texts ?d3) \<noteq> None" by (simp add: fix_details_def raw_details_texts raw)
  then obtain d7 where "fix_details [] (fix_texts ?d3) = Some d7" by blast
  moreover from fix_details_ok[OF this] have "get d7 ''taints'' = PList []" by (simp add: fix_texts_fields(4))
  ultimately show ?thesis by (simp add: fix_item_def tag line taints role conf)
qed

theorem rescued_taints_are_lost_witness:
  "\<exists>d7 es. fix_item rescue_item = Some ([DropTaints 1, RescueTaints [''mbuf'']], Some d7) \<and> get d7 ''taints'' = PList []
     \<and> item_defects d7 = Some es \<and> BadTaints \<in> set es"
proof -
  from rescue_item_fixed obtain d7 where f: "fix_item rescue_item = Some ([DropTaints 1, RescueTaints [''mbuf'']], Some d7)" by blast
  from rescued_taints_are_lost[OF f, of "[''mbuf'']"] f show ?thesis by auto
qed

theorem repaired_items_validate_witness:
  "\<exists>d es. auto_fix_functions_list (PList [PDict rescue_item]) = Some ([d], [(0, DropTaints 1), (0, RescueTaints [''mbuf''])])
     \<and> item_defects d = Some es \<and> set es \<subseteq> {BadFile, BadFunction, BadTaints, BadRole}"
proof -
  from rescue_item_fixed obtain d7 where f: "fix_item rescue_item = Some ([DropTaints 1, RescueTaints [''mbuf'']], Some d7)" "get d7 ''taints'' = PList []" by blast
  have ne: "map_of rescue_item ''_error'' = None" by (simp add: rescue_item_def)
  have a: "auto_fix_functions_list (PList [PDict rescue_item]) = Some ([d7], [(0, DropTaints 1), (0, RescueTaints [''mbuf''])])"
    by (simp add: auto_fix_functions_list_def ne f(1) kept_def events_def)
  from repaired_items_validate[OF a] have "\<exists>es. item_defects d7 = Some es \<and> set es \<subseteq> residual d7" by simp
  moreover have "get d7 ''taints'' = PList []" by (rule f(2))
  ultimately show ?thesis using a by (auto simp: residual_def)
qed

section \<open>Generated lists\<close>

definition objects :: "pyval list \<Rightarrow> dict list" where
  "objects items = concat (map (\<lambda>x. case x of PDict d \<Rightarrow> [d] | _ \<Rightarrow> []) items)"

definition well_formed_entry :: "dict \<Rightarrow> bool" where
  "well_formed_entry f \<longleftrightarrow> get f ''tag'' \<in> {PStr ''P'', PStr ''A''} \<and> int_like (get f ''line'')
     \<and> (\<exists>k \<in> set definition_kinds. get f ''definition_kind'' = PStr k)
     \<and> (\<exists>s. get f ''function_description'' = PStr s \<and> py_strip s = s) \<and> (\<exists>s. get f ''entry_reason'' = PStr s \<and> py_strip s = s)"

lemma kind_of_item_in: "kind_of_item d \<in> set definition_kinds"
  by (auto simp: kind_of_item_def definition_kinds_def Let_def split: pyval.splits)

lemma generate_item_ok:
  assumes "generate_item d = Some f"
  shows "well_formed_entry f \<and> get f ''function'' = get_or d ''function'' (PStr []) \<and> get f ''file'' = get_or d ''file'' (PStr [])"
proof -
  from assms obtain ts sl rest where f: "f = [(''tag'', if get_or d ''tag'' (PStr []) \<in> {PStr ''P'', PStr ''A''} then get_or d ''tag'' (PStr []) else PStr (infer_tag ts)),
      (''file'', get_or d ''file'' (PStr [])),
      (''line'', if int_like (get_or d ''line'' (PInt 0)) then get_or d ''line'' (PInt 0) else PInt 0),
      (''function'', get_or d ''function'' (PStr [])), (''taints'', py_or (get d ''taints'') (PList [])),
      (''entry_source_lines'', PList (filter source_line_ok sl)),
      (''function_description'', PStr (text_of (get d ''function_description''))),
      (''function_description_source'', PStr (derive_description_source (get d ''function_description''))),
      (''entry_reason'', PStr (text_of (get d ''entry_reason''))),
      (''entry_reason_source'', PStr (derive_description_source (get d ''entry_reason''))),
      (''taint_details'', PList (map PDict (normalize_taint_details (filter (\<lambda>s. s \<noteq> []) (map (\<lambda>t. py_strip (py_str t)) ts)) (raw_details d)))),
      (''definition_file'', py_or (get d ''definition_file'') (get_or d ''file'' (PStr []))),
      (''definition_line'', if int_like (get d ''definition_line'') then get d ''definition_line''
          else if int_like (get_or d ''line'' (PInt 0)) then get_or d ''line'' (PInt 0) else PInt 0),
      (''definition_kind'', PStr (kind_of_item d))] @ rest"
    unfolding generate_item_def Let_def by (auto split: option.splits)
  show ?thesis
    using kind_of_item_in[of d] unfolding f well_formed_entry_def
    by (auto simp: get_or_def infer_tag_def int_like_def)
qed

lemma those_map_nth:
  "those (map g xs) = Some ys \<Longrightarrow> length ys = length xs \<and> (\<forall>i < length xs. g (xs ! i) = Some (ys ! i))"
proof (induction xs arbitrary: ys)
  case (Cons x xs)
  then obtain y zs where "g x = Some y" "those (map g xs) = Some zs" "ys = y # zs" by (auto split: option.splits)
  with Cons.IH show ?case by (auto simp: nth_Cons split: nat.splits)
qed simp

text \<open>
  generation keeps every entry of the merged list, in order, and puts every one into the
  fixed format: a tag that is \<open>P\<close> or \<open>A\<close>, an integer line, a definition kind, trimmed description and reason,
  and details for exactly its non-blank taints; entries that are not objects are dropped.
\<close>
theorem generation_keeps_every_entry:
  assumes "generate_items items = Some fs"
  shows "length fs = length (objects items) \<and> (\<forall>i < length fs. well_formed_entry (fs ! i)
    \<and> get (fs ! i) ''function'' = get_or (objects items ! i) ''function'' (PStr [])
    \<and> get (fs ! i) ''file'' = get_or (objects items ! i) ''file'' (PStr []))"
  using those_map_nth[of generate_item "objects items" fs] assms generate_item_ok
  unfolding generate_items_def objects_def[symmetric] by auto

theorem generation_keeps_every_entry_witness:
  "\<exists>fs. generate_items [PDict [(''function'', PStr ''f'')], PNone] = Some fs \<and> length fs = 1
     \<and> get (fs ! 0) ''function'' = PStr ''f''"
proof -
  have "\<exists>f. generate_item [(''function'', PStr ''f'')] = Some f"
    by (simp add: generate_item_def get_or_def py_or_def Let_def)
  then obtain fs where fs: "generate_items [PDict [(''function'', PStr ''f'')], PNone] = Some fs"
    by (auto simp: generate_items_def)
  from generation_keeps_every_entry[OF fs] fs show ?thesis by (auto simp: objects_def get_or_def)
qed

end
