(* ===== verification/CallchainDB.thy ===== *)
theory CallchainDB
  imports PyVal
begin

text \<open>
  The call-chain database (\<open>app/pipeline/callchain_db.py\<close>): its tables as lists in insertion order, one definition per
  method, each a transaction. A table with a key takes \<open>INSERT OR IGNORE\<close> and \<open>INSERT OR REPLACE\<close>
  as its statements do; \<open>ORDER BY\<close> is a stable sort, and a query without one returns the order of
  insertion (the results proved do not depend on it). The time stamps are left out. A method that
  converts a value with \<open>int\<close> returns \<open>None\<close> when that raises.
\<close>


section \<open>Tables\<close>

record cc_node =
  nd_hash :: string
  nd_name :: string
  nd_signature :: string
  nd_file :: string
  nd_line :: int
  nd_r3 :: bool
  nd_external :: bool
  nd_role :: string
  nd_confidence :: pyval
  nd_r3_state :: string
  nd_category :: string

record cc_edge =
  ed_caller :: string
  ed_callee :: string
  ed_line :: int
  ed_type :: string

type_synonym closure = "(string \<times> string \<times> nat) list"
type_synonym tree_row = "string \<times> string \<times> nat \<times> string list"

record build_state =
  bs_phase :: string
  bs_nodes :: nat
  bs_edges :: nat
  bs_r3_entries :: nat
  bs_max_depth :: nat
  bs_cycles :: "string list"

record cc_db =
  db_nodes :: "cc_node list"
  db_edges :: "cc_edge list"
  db_closure :: closure
  db_trees :: "tree_row list"
  db_build :: build_state

definition new_build :: build_state where
  "new_build = \<lparr>bs_phase = ''init'', bs_nodes = 0, bs_edges = 0, bs_r3_entries = 0, bs_max_depth = 10, bs_cycles = []\<rparr>"

definition open_db :: cc_db where
  "open_db = \<lparr>db_nodes = [], db_edges = [], db_closure = [], db_trees = [], db_build = new_build\<rparr>"

definition node_at_hash :: "cc_db \<Rightarrow> string \<Rightarrow> cc_node option" where
  "node_at_hash db h = find (\<lambda>n. nd_hash n = h) (db_nodes db)"

text \<open>\<open>INSERT OR IGNORE\<close>, with the number of rows the statement changed.\<close>

definition insert_ignore :: "('r \<Rightarrow> 'k) \<Rightarrow> 'r \<Rightarrow> 'r list \<Rightarrow> 'r list \<times> nat" where
  "insert_ignore key r rows = (if key r \<in> key ` set rows then (rows, 0) else (rows @ [r], 1))"

text \<open>
  \<open>executemany\<close> followed by \<open>SELECT changes()\<close>: the count of the last statement only.
\<close>

fun insert_many :: "('r \<Rightarrow> 'k) \<Rightarrow> 'r list \<Rightarrow> 'r list \<times> nat \<Rightarrow> 'r list \<times> nat" where
  "insert_many key [] t = t"
| "insert_many key (r # rs) (rows, n) = insert_many key rs (insert_ignore key r rows)"

section \<open>Writing\<close>

definition str_or_empty :: "pyval \<Rightarrow> string" where
  "str_or_empty v = py_str (py_or v (PStr []))"

definition node_of_dict :: "dict \<Rightarrow> cc_node option" where
  "node_of_dict n = map_option (\<lambda>l.
     \<lparr>nd_hash = str_or_empty (get n ''func_hash''), nd_name = str_or_empty (get n ''name''),
      nd_signature = str_or_empty (get n ''signature''), nd_file = str_or_empty (get n ''file_hash''), nd_line = l,
      nd_r3 = truthy (get n ''is_r3_entry''), nd_external = truthy (get n ''is_external''),
      nd_role = str_or_empty (get n ''entry_role''), nd_confidence = get n ''entry_confidence'',
      nd_r3_state = ''pending'', nd_category = []\<rparr>) (py_int (py_or (get n ''start_line'') (PInt 0)))"

definition insert_nodes :: "dict list \<Rightarrow> cc_db \<Rightarrow> (cc_db \<times> nat) option" where
  "insert_nodes ns db =
     (if ns = [] then Some (db, 0)
      else map_option (\<lambda>rows.
          (let (nodes, n) = insert_many nd_hash rows (db_nodes db, 0)
           in (db\<lparr>db_nodes := nodes, db_build := (db_build db)\<lparr>bs_phase := ''nodes'', bs_nodes := length nodes\<rparr>\<rparr>, n)))
        (those (map node_of_dict ns)))"

text \<open>The endpoints of the edges that are not yet nodes, each once, as external placeholders.\<close>

fun placeholders :: "(string \<times> string \<times> dict) list \<Rightarrow> string set \<Rightarrow> dict list" where
  "placeholders [] known = []"
| "placeholders ((hk, nk, e) # rest) known =
     (let h = str_or_empty (get e hk) in
      if h \<noteq> [] \<and> h \<notin> known
      then [(''func_hash'', PStr h), (''name'', get_or e nk (PStr h)), (''is_external'', PInt 1)] # placeholders rest (insert h known)
      else placeholders rest known)"

definition edge_sides :: "dict list \<Rightarrow> (string \<times> string \<times> dict) list" where
  "edge_sides es = concat (map (\<lambda>e. [(''caller_hash'', ''caller_name'', e), (''callee_hash'', ''callee_name'', e)]) es)"

definition edge_of_dict :: "dict \<Rightarrow> cc_edge option" where
  "edge_of_dict e = map_option (\<lambda>l. \<lparr>ed_caller = str_or_empty (get e ''caller_hash''), ed_callee = str_or_empty (get e ''callee_hash''),
      ed_line = l, ed_type = py_str (py_or (get e ''call_type'') (PStr ''direct''))\<rparr>)
     (py_int (py_or (get e ''call_site_line'') (PInt 0)))"

definition edge_key :: "cc_edge \<Rightarrow> string \<times> string \<times> int" where
  "edge_key e = (ed_caller e, ed_callee e, ed_line e)"

text \<open>The placeholders stay when the conversion of an edge raises (\<open>None\<close>).\<close>

definition insert_edges :: "dict list \<Rightarrow> cc_db \<Rightarrow> cc_db \<times> nat option" where
  "insert_edges es db =
     (if es = [] then (db, Some 0)
      else case insert_nodes (placeholders (edge_sides es) (nd_hash ` set (db_nodes db))) db of
        None \<Rightarrow> (db, None)
      | Some (db1, _) \<Rightarrow>
          (case those (map edge_of_dict (filter (\<lambda>e. truthy (get e ''caller_hash'') \<and> truthy (get e ''callee_hash'')) es)) of
             None \<Rightarrow> (db1, None)
           | Some [] \<Rightarrow> (db1, Some 0)
           | Some rows \<Rightarrow>
               (let (edges, n) = insert_many edge_key rows (db_edges db1, 0)
                in (db1\<lparr>db_edges := edges, db_build := (db_build db1)\<lparr>bs_phase := ''edges'', bs_edges := length edges\<rparr>\<rparr>, Some n))))"

definition upd_node :: "string \<Rightarrow> (cc_node \<Rightarrow> cc_node) \<Rightarrow> cc_db \<Rightarrow> cc_db" where
  "upd_node h f db = db\<lparr>db_nodes := map (\<lambda>n. if nd_hash n = h then f n else n) (db_nodes db)\<rparr>"

definition mark_r3_entries :: "string list \<Rightarrow> cc_db \<Rightarrow> cc_db" where
  "mark_r3_entries hs db =
     (if hs = [] then db
      else (let db1 = foldl (\<lambda>d h. upd_node h (\<lambda>n. n\<lparr>nd_r3 := True\<rparr>) d) db hs
            in db1\<lparr>db_build := (db_build db1)\<lparr>bs_r3_entries := length (filter nd_r3 (db_nodes db1))\<rparr>\<rparr>))"

definition update_node_r3_entry :: "string \<Rightarrow> bool \<Rightarrow> cc_db \<Rightarrow> cc_db" where
  "update_node_r3_entry h b = upd_node h (\<lambda>n. n\<lparr>nd_r3 := b\<rparr>)"

definition update_node_r3_state :: "string \<Rightarrow> string \<Rightarrow> cc_db \<Rightarrow> cc_db" where
  "update_node_r3_state h st = upd_node h (\<lambda>n. n\<lparr>nd_r3_state := st, nd_r3 := (st = ''keep'')\<rparr>)"

definition update_entry_confidence :: "string \<Rightarrow> pyval \<Rightarrow> cc_db \<Rightarrow> cc_db option" where
  "update_entry_confidence h c db = map_option (\<lambda>q. upd_node h (\<lambda>n. n\<lparr>nd_confidence := flt_round4 q\<rparr>) db) (py_float c)"

definition mark_build_done :: "cc_db \<Rightarrow> cc_db" where
  "mark_build_done db = db\<lparr>db_build := (db_build db)\<lparr>bs_phase := ''done''\<rparr>\<rparr>"

section \<open>The transitive closure\<close>

definition pair_key :: "string \<times> string \<times> nat \<Rightarrow> string \<times> string" where
  "pair_key p = (fst p, fst (snd p))"

definition add_pair :: "closure \<Rightarrow> string \<times> string \<times> nat \<Rightarrow> closure" where
  "add_pair c p = (if pair_key p \<in> pair_key ` set c then c else c @ [p])"

definition direct_pairs :: "cc_edge list \<Rightarrow> closure" where
  "direct_pairs es = foldl add_pair [] (map (\<lambda>e. (ed_caller e, ed_callee e, 1)) (filter (\<lambda>e. ed_caller e \<noteq> ed_callee e) es))"

text \<open>The join of the pairs of the last level with the edges.\<close>

definition next_pairs :: "cc_edge list \<Rightarrow> nat \<Rightarrow> closure \<Rightarrow> closure" where
  "next_pairs es depth c =
     concat (map (\<lambda>(a, m, k). if k = depth - 1
       then map (\<lambda>e. (a, ed_callee e, depth))
              (filter (\<lambda>e. ed_caller e = m \<and> a \<noteq> ed_callee e \<and> (a, ed_callee e) \<notin> pair_key ` set c) es)
       else []) c)"

text \<open>Ancestors with an edge back from a descendant, at most 20 rows of the join.\<close>

definition self_loops :: "cc_edge list \<Rightarrow> closure \<Rightarrow> string list" where
  "self_loops es c =
     take 20 (concat (map (\<lambda>(a, m, k). map (\<lambda>e. a) (filter (\<lambda>e. ed_caller e = m \<and> ed_callee e = a) es)) c))"

definition add_cycles :: "string list \<Rightarrow> string list \<Rightarrow> string list" where
  "add_cycles cs found = foldl (\<lambda>cs h. if h \<in> set cs then cs else cs @ [h]) cs found"

text \<open>The loop over the depths; \<open>left\<close> is the number of iterations that remain.\<close>

fun closure_loop :: "cc_edge list \<Rightarrow> nat \<Rightarrow> nat \<Rightarrow> closure \<Rightarrow> string list \<Rightarrow> nat \<Rightarrow> closure \<times> string list \<times> nat" where
  "closure_loop es depth 0 c cs reached = (c, cs, reached)"
| "closure_loop es depth (Suc left) c cs reached =
     (let cs' = add_cycles cs (self_loops es c);
          c' = foldl add_pair c (next_pairs es depth c)
      in if length c' = length c then (c', cs', reached) else closure_loop es (depth + 1) left c' cs' depth)"

definition build_closure :: "nat \<Rightarrow> cc_db \<Rightarrow> cc_db \<times> nat \<times> nat" where
  "build_closure max_depth db =
     (let (c, cs, reached) = closure_loop (db_edges db) 2 (max_depth - 1) (direct_pairs (db_edges db)) [] 1
      in (db\<lparr>db_closure := c, db_build := new_build\<lparr>bs_phase := ''closure'', bs_max_depth := max_depth, bs_cycles := cs\<rparr>\<rparr>,
          length c, reached))"

section \<open>Entry trees\<close>

definition callees_of :: "cc_edge list \<Rightarrow> string \<Rightarrow> string list" where
  "callees_of es h = map ed_callee (filter (\<lambda>e. ed_caller e = h) es)"

fun push_new :: "string list \<Rightarrow> string list \<Rightarrow> nat \<Rightarrow> string set \<Rightarrow> (string \<times> string list \<times> nat) list \<Rightarrow>
    string set \<times> (string \<times> string list \<times> nat) list" where
  "push_new [] path depth visited q = (visited, q)"
| "push_new (c # cs) path depth visited q =
     (if c \<in> visited then push_new cs path depth visited q
      else push_new cs path depth (insert c visited) (q @ [(c, path @ [c], depth + 1)]))"

lemma push_new_shape:
  "\<exists>new. push_new cs path depth visited q = (visited \<union> set new, q @ map (\<lambda>c. (c, path @ [c], depth + 1)) new)
    \<and> distinct new \<and> set new = set cs - visited"
proof (induction cs arbitrary: visited q)
  case (Cons c cs)
  show ?case
  proof (cases "c \<in> visited")
    case True
    with Cons.IH[of visited q] show ?thesis by auto
  next
    case False
    from Cons.IH[of "insert c visited" "q @ [(c, path @ [c], depth + 1)]"] obtain new where
      n: "push_new cs path depth (insert c visited) (q @ [(c, path @ [c], depth + 1)]) =
        (insert c visited \<union> set new, (q @ [(c, path @ [c], depth + 1)]) @ map (\<lambda>c. (c, path @ [c], depth + 1)) new)"
      "distinct new" "set new = set cs - insert c visited" by blast
    with False show ?thesis by (intro exI[of _ "c # new"]) auto
  qed
qed simp

text \<open>The breadth-first expansion of one rt.\<close>

function tree_loop :: "cc_edge list \<Rightarrow> nat \<Rightarrow> string \<Rightarrow> (string \<times> string list \<times> nat) list \<Rightarrow> string set \<Rightarrow>
    tree_row list \<Rightarrow> bool \<Rightarrow> tree_row list \<times> bool" where
  "tree_loop es max_depth rt [] visited rows truncated = (rows, truncated)"
| "tree_loop es max_depth rt ((node, path, depth) # q) visited rows truncated =
     (if max_depth \<le> depth then tree_loop es max_depth rt q visited (rows @ [(rt, node, depth, path)]) True
      else (let (visited', q') = push_new (callees_of es node) path depth visited q
            in tree_loop es max_depth rt q' visited' (rows @ [(rt, node, depth, path)]) truncated))"
  by pat_completeness auto
termination
proof (relation "measures [\<lambda>(es, md, rt, q, visited, rows, t). card (set (map ed_callee es) - visited),
    \<lambda>(es, md, rt, q, visited, rows, t). length q]", goal_cases)
  case 1
  show ?case by simp
next
  case (2 es md rt node path depth q visited rows t)
  then show ?case by simp
next
  case (3 es md rt node path depth q visited rows t r visited' q')
  from push_new_shape[of "callees_of es node" path depth visited q] 3(2,3) obtain new where
    n: "visited' = visited \<union> set new" "q' = q @ map (\<lambda>c. (c, path @ [c], depth + 1)) new"
    "set new = set (callees_of es node) - visited" by auto
  show ?case
  proof (cases new)
    case Nil
    with n show ?thesis by simp
  next
    case (Cons c cs)
    then have "c \<in> set (map ed_callee es) - visited" using n(3) by (auto simp: callees_of_def)
    then have "set (map ed_callee es) - visited' \<subset> set (map ed_callee es) - visited"
      using n(1) Cons by auto
    then have "card (set (map ed_callee es) - visited') < card (set (map ed_callee es) - visited)"
      by (intro psubset_card_mono) auto
    then show ?thesis by simp
  qed
qed

definition tree_of :: "cc_edge list \<Rightarrow> nat \<Rightarrow> string \<Rightarrow> tree_row list \<times> bool" where
  "tree_of es max_depth rt = tree_loop es max_depth rt [(rt, [rt], 0)] {rt} [] False"

definition tree_key :: "tree_row \<Rightarrow> string \<times> string" where
  "tree_key r = (fst r, fst (snd r))"

text \<open>\<open>INSERT OR REPLACE\<close>.\<close>

definition insert_replace :: "tree_row list \<Rightarrow> tree_row \<Rightarrow> tree_row list" where
  "insert_replace rows r = filter (\<lambda>x. tree_key x \<noteq> tree_key r) rows @ [r]"

definition build_entry_trees :: "string list \<Rightarrow> nat \<Rightarrow> cc_db \<Rightarrow> cc_db \<times> nat \<times> nat \<times> string list" where
  "build_entry_trees roots max_depth db =
     (let b = (db_build db)\<lparr>bs_phase := ''trees''\<rparr> in
      if roots = [] then (db\<lparr>db_build := b\<rparr>, 0, 0, [])
      else (let ts = map (\<lambda>r. (r, tree_of (db_edges db) max_depth r)) roots;
                rows = concat (map (\<lambda>(r, t). fst t) ts)
            in (db\<lparr>db_trees := foldl insert_replace [] rows, db_build := b\<rparr>, length roots, length rows,
                map fst (filter (\<lambda>(r, t). snd t) ts))))"

section \<open>Reading\<close>

record caller_row =
  cl_hash :: string
  cl_name :: "string option"
  cl_type :: string
  cl_line :: int
  cl_r3 :: bool
  cl_external :: bool

text \<open>The left join with the nodes: a missing node has no name and its flags are 0.\<close>

definition joined :: "cc_db \<Rightarrow> string \<Rightarrow> cc_edge \<Rightarrow> caller_row" where
  "joined db h e = (case node_at_hash db h of
      None \<Rightarrow> \<lparr>cl_hash = h, cl_name = None, cl_type = ed_type e, cl_line = ed_line e, cl_r3 = False, cl_external = False\<rparr>
    | Some n \<Rightarrow> \<lparr>cl_hash = h, cl_name = Some (nd_name n), cl_type = ed_type e, cl_line = ed_line e, cl_r3 = nd_r3 n,
        cl_external = nd_external n\<rparr>)"

definition get_callers :: "cc_db \<Rightarrow> string \<Rightarrow> caller_row list" where
  "get_callers db h = sort_key cl_line (map (\<lambda>e. joined db (ed_caller e) e) (filter (\<lambda>e. ed_callee e = h) (db_edges db)))"

definition get_callees :: "cc_db \<Rightarrow> string \<Rightarrow> caller_row list" where
  "get_callees db h = sort_key cl_line (map (\<lambda>e. joined db (ed_callee e) e) (filter (\<lambda>e. ed_caller e = h) (db_edges db)))"

definition get_tree :: "cc_db \<Rightarrow> string \<Rightarrow> (nat \<times> string \<times> string option \<times> bool \<times> string \<times> string list) list" where
  "get_tree db rt = map (\<lambda>(d, n, p). case node_at_hash db n of
        None \<Rightarrow> (d, n, None, False, [], p) | Some x \<Rightarrow> (d, n, Some (nd_name x), nd_r3 x, nd_role x, p))
     (sort_key (\<lambda>(d, n, p). d) (sort_key (\<lambda>(d, n, p). n)
        (concat (map (\<lambda>(r, n, d, p). if r = rt then [(d, n, p)] else []) (db_trees db)))))"

definition is_reachable :: "cc_db \<Rightarrow> string \<Rightarrow> string \<Rightarrow> bool" where
  "is_reachable db a d \<longleftrightarrow> a = d \<or> (a, d) \<in> pair_key ` set (db_closure db)"

definition ancestor_rows :: "cc_db \<Rightarrow> string \<Rightarrow> nat \<Rightarrow> nat \<Rightarrow> (string \<times> nat) list" where
  "ancestor_rows db h lo hi = sort_key snd (sort_key fst
     (concat (map (\<lambda>(a, d, k). if d = h \<and> lo \<le> k \<and> k \<le> hi then [(a, k)] else []) (db_closure db))))"

definition get_ancestors :: "cc_db \<Rightarrow> string \<Rightarrow> nat \<Rightarrow> (string \<times> string option \<times> nat \<times> bool \<times> bool) list" where
  "get_ancestors db h max_depth = map (\<lambda>(a, k). case node_at_hash db a of
      None \<Rightarrow> (a, None, k, False, False) | Some n \<Rightarrow> (a, Some (nd_name n), k, nd_r3 n, nd_external n)) (ancestor_rows db h 0 max_depth)"

definition has_module_external_caller :: "cc_db \<Rightarrow> string \<Rightarrow> bool" where
  "has_module_external_caller db h \<longleftrightarrow> (\<exists>e \<in> set (db_edges db). ed_callee e = h \<and>
     (case node_at_hash db (ed_caller e) of None \<Rightarrow> False | Some n \<Rightarrow> nd_external n))"

definition get_r3_callers :: "cc_db \<Rightarrow> string \<Rightarrow> (string \<times> string \<times> string \<times> string) list" where
  "get_r3_callers db h = concat (map (\<lambda>e. case node_at_hash db (ed_caller e) of
      Some n \<Rightarrow> if ed_callee e = h \<and> nd_r3 n then [(ed_caller e, nd_name n, ed_type e, nd_role n)] else [] | None \<Rightarrow> []) (db_edges db))"

definition get_callers_r3_state :: "cc_db \<Rightarrow> string \<Rightarrow> (string \<times> string \<times> string \<times> bool) list" where
  "get_callers_r3_state db h = map (\<lambda>e. case node_at_hash db (ed_caller e) of
      None \<Rightarrow> (ed_caller e, ed_caller e, ''pending'', False)
    | Some n \<Rightarrow> (ed_caller e, nd_name n, nd_r3_state n, nd_r3 n)) (filter (\<lambda>e. ed_callee e = h) (db_edges db))"

definition get_caller_context :: "cc_db \<Rightarrow> string \<Rightarrow> caller_row list \<times> (string \<times> string option \<times> nat) list \<times> bool" where
  "get_caller_context db h =
     (let direct = get_callers db h
      in (direct, map (\<lambda>(a, k). (a, map_option nd_name (node_at_hash db a), k)) (ancestor_rows db h 2 3), direct \<noteq> []))"

definition get_all_r3_entries :: "cc_db \<Rightarrow> cc_node list" where
  "get_all_r3_entries db = sort_key nd_name (filter nd_r3 (db_nodes db))"

definition iter_nodes :: "cc_db \<Rightarrow> cc_node list" where
  "iter_nodes db = sort_key nd_name (db_nodes db)"

definition cc_stats :: "cc_db \<Rightarrow> nat list" where
  "cc_stats db = [length (db_nodes db), length (filter nd_r3 (db_nodes db)), length (db_edges db), length (db_closure db),
     length (db_trees db), card (fst ` set (db_trees db))]"

definition is_built :: "cc_db \<Rightarrow> bool" where
  "is_built db \<longleftrightarrow> bs_phase (db_build db) = ''done''"

section \<open>The role of a function\<close>

definition dispatcher_names :: "string list" where
  "dispatcher_names = [''dispatch'', ''procmsg'', ''msgproc'', ''handler'', ''process'', ''router'']"

definition dispatcher_like :: "caller_row \<Rightarrow> bool" where
  "dispatcher_like c \<longleftrightarrow> list_ex (\<lambda>kw. has_sub kw (py_lower (or_empty (cl_name c)))) dispatcher_names"

definition only_by_dispatcher :: "caller_row list \<Rightarrow> bool" where
  "only_by_dispatcher callers \<longleftrightarrow> callers \<noteq> [] \<and> list_all dispatcher_like (filter (\<lambda>c. \<not> cl_external c) callers)"

definition suggested_role :: "string \<Rightarrow> caller_row list \<Rightarrow> string" where
  "suggested_role existing callers =
     (if existing \<noteq> [] then existing else if only_by_dispatcher callers then ''dispatch_target'' else ''boundary'')"

definition confidence_delta :: "caller_row list \<Rightarrow> int" where
  "confidence_delta callers =
     (let ext = filter cl_external callers
      in (if callers = [] \<or> ext \<noteq> [] then 15 else 0) + (if only_by_dispatcher callers then 5 else 0)
         - (if 3 < length callers \<and> ext = [] then 10 else 0))"

definition opt_str :: "string option \<Rightarrow> pyval" where
  "opt_str x = (case x of None \<Rightarrow> PNone | Some s \<Rightarrow> PStr s)"

definition get_callchain_role :: "cc_db \<Rightarrow> string \<Rightarrow> dict" where
  "get_callchain_role db h =
     (case node_at_hash db h of
        None \<Rightarrow> [(''func_hash'', PStr h), (''error'', PStr ''not found'')]
      | Some n \<Rightarrow>
          (let callers = get_callers db h
           in [(''func_hash'', PStr h), (''name'', PStr (nd_name n)), (''entry_role'', PStr (nd_role n)),
               (''callers_count'', PInt (int (length callers))),
               (''callers_in_r3'', PList (map (\<lambda>c. opt_str (cl_name c)) (filter cl_r3 callers))),
               (''callers_outside_module'', PInt (int (length (filter cl_external callers)))),
               (''is_only_called_by_dispatcher'', PBool (only_by_dispatcher callers)),
               (''in_how_many_trees'', PInt (int (card (fst ` set (filter (\<lambda>r. fst (snd r) = h) (db_trees db)))))),
               (''suggested_entry_role'', PStr (suggested_role (nd_role n) callers)),
               (''confidence_delta'', flt_hundredths (confidence_delta callers))]))"

section \<open>Classification of the entries\<close>

datatype category = External | Handling | Internal

fun category_text :: "category \<Rightarrow> string" where
  "category_text External = [CHR 0xE5, CHR 0xA4, CHR 0x96, CHR 0xE9, CHR 0x83, CHR 0xA8, CHR 0xE5, CHR 0x85, CHR 0xA5, CHR 0xE5, CHR 0x8F, CHR 0xA3]"
| "category_text Handling = [CHR 0xE5, CHR 0xA4, CHR 0x84, CHR 0xE7, CHR 0x90, CHR 0x86, CHR 0xE5, CHR 0x85, CHR 0xA5, CHR 0xE5, CHR 0x8F, CHR 0xA3]"
| "category_text Internal = [CHR 0xE5, CHR 0x86, CHR 0x85, CHR 0xE9, CHR 0x83, CHR 0xA8, CHR 0xE5, CHR 0xAE, CHR 0x9E, CHR 0xE7, CHR 0x8E, CHR 0xB0]"

definition kept_ancestor :: "closure \<Rightarrow> string list \<Rightarrow> string \<Rightarrow> bool" where
  "kept_ancestor c kept h \<longleftrightarrow> (\<exists>(a, d, k) \<in> set c. d = h \<and> a \<in> set kept \<and> a \<noteq> h)"

text \<open>Pass 1: active functions and functions no kept function reaches.\<close>

definition external_hashes :: "closure \<Rightarrow> string list \<Rightarrow> string set \<Rightarrow> string list" where
  "external_hashes c kept a_types = filter (\<lambda>h. h \<in> a_types \<or> \<not> kept_ancestor c kept h) kept"

definition min_depth :: "closure \<Rightarrow> string list \<Rightarrow> string \<Rightarrow> nat" where
  "min_depth c ext h =
     (let ds = concat (map (\<lambda>(a, d, k). if a \<in> set ext \<and> d = h then [k] else []) c)
      in if ds = [] then 999 else Min (set ds))"

definition category_of :: "closure \<Rightarrow> string list \<Rightarrow> string set \<Rightarrow> nat \<Rightarrow> string \<Rightarrow> category" where
  "category_of c kept a_types max_depth h =
     (let ext = external_hashes c kept a_types
      in if h \<in> set ext then External else if min_depth c ext h \<le> max_depth then Handling else Internal)"

definition classify_entry_categories ::
  "string list \<Rightarrow> string set \<Rightarrow> nat \<Rightarrow> cc_db \<Rightarrow> cc_db \<times> (string \<times> category) list" where
  "classify_entry_categories kept a_types max_depth db =
     (let detail = map (\<lambda>h. (h, category_of (db_closure db) kept a_types max_depth h)) kept
      in (db\<lparr>db_nodes := map (\<lambda>n. case map_of detail (nd_hash n) of
            None \<Rightarrow> n | Some c \<Rightarrow> n\<lparr>nd_category := category_text c\<rparr>) (db_nodes db)\<rparr>, detail))"

definition category_count :: "(string \<times> category) list \<Rightarrow> category \<Rightarrow> nat" where
  "category_count detail c = length (filter (\<lambda>(h, x). x = c) detail)"

end
