(* ===== verification/CallchainSafety.thy ===== *)
theory CallchainSafety
  imports CallchainDB
begin

text \<open>
  The closure holds the exact distances of the call graph up to its bound, the trees are the breadth-first trees, the
  classification follows from both, and inserting nodes keeps their keys.
\<close>

section \<open>Walks and distances\<close>

definition calls :: "cc_edge list \<Rightarrow> string \<Rightarrow> string \<Rightarrow> bool" where
  "calls es a b \<longleftrightarrow> (\<exists>e \<in> set es. ed_caller e = a \<and> ed_callee e = b)"

fun walk :: "cc_edge list \<Rightarrow> nat \<Rightarrow> string \<Rightarrow> string \<Rightarrow> bool" where
  "walk es 0 a b = (a = b)"
| "walk es (Suc k) a b = (\<exists>e \<in> set es. walk es k a (ed_caller e) \<and> ed_callee e = b)"

definition dist_is :: "cc_edge list \<Rightarrow> string \<Rightarrow> string \<Rightarrow> nat \<Rightarrow> bool" where
  "dist_is es a b k \<longleftrightarrow> walk es k a b \<and> (\<forall>j < k. \<not> walk es j a b)"

lemma walk_snoc: "walk es k a m \<Longrightarrow> calls es m b \<Longrightarrow> walk es (Suc k) a b"
  by (auto simp: calls_def)

lemma walk_dist: "walk es k a b \<Longrightarrow> \<exists>j \<le> k. dist_is es a b j"
proof (intro exI conjI)
  assume w: "walk es k a b"
  let ?j = "LEAST j. walk es j a b"
  show "?j \<le> k" using w by (rule Least_le)
  have "walk es ?j a b" using w by (rule LeastI)
  then show "dist_is es a b ?j" unfolding dist_is_def by (blast dest: not_less_Least)
qed

lemma dist_unique: "dist_is es a b k \<Longrightarrow> dist_is es a b j \<Longrightarrow> j = k"
  unfolding dist_is_def by (metis linorder_neqE_nat)

lemma dist_pos: "dist_is es a b k \<Longrightarrow> a \<noteq> b \<Longrightarrow> 0 < k"
  by (cases k) (auto simp: dist_is_def)

lemma dist_pred:
  assumes "dist_is es a b (Suc k)"
  shows "\<exists>m. dist_is es a m k \<and> calls es m b"
proof -
  from assms obtain e where e: "e \<in> set es" "walk es k a (ed_caller e)" "ed_callee e = b" by (auto simp: dist_is_def)
  then have c: "calls es (ed_caller e) b" by (auto simp: calls_def)
  have "\<not> walk es j a (ed_caller e)" if "j < k" for j
  proof
    assume "walk es j a (ed_caller e)"
    then have "walk es (Suc j) a b" using c by (rule walk_snoc)
    moreover have "Suc j < Suc k" using that by simp
    ultimately show False using assms unfolding dist_is_def by blast
  qed
  with e(2) c show ?thesis by (auto simp: dist_is_def)
qed

lemma dist_down: "dist_is es a b k \<Longrightarrow> j \<le> k \<Longrightarrow> \<exists>m. dist_is es a m j"
proof (induction k arbitrary: b)
  case (Suc k)
  show ?case
  proof (cases "j = Suc k")
    case False
    with Suc.prems(2) have "j \<le> k" by simp
    with dist_pred[OF Suc.prems(1)] Suc.IH show ?thesis by blast
  qed (use Suc.prems in blast)
qed (auto simp: dist_is_def)

lemma dist_self: "dist_is es a a k \<longleftrightarrow> k = 0"
  by (auto simp: dist_is_def)

section \<open>The closure is exact\<close>

definition exact :: "cc_edge list \<Rightarrow> nat \<Rightarrow> closure \<Rightarrow> bool" where
  "exact es d c \<longleftrightarrow> (\<forall>a b k. (a, b, k) \<in> set c \<longleftrightarrow> a \<noteq> b \<and> k \<le> d \<and> dist_is es a b k)"

lemma exact_inj: "exact es d c \<Longrightarrow> inj_on pair_key (set c)"
  by (auto simp: inj_on_def exact_def pair_key_def dest: dist_unique)

lemma add_pairs_suffix: "\<exists>s. foldl add_pair c ps = c @ s"
proof (induction ps arbitrary: c)
  case (Cons p ps)
  then show ?case by (auto simp: add_pair_def) (metis append_assoc)
qed simp

lemma add_pairs_set:
  "inj_on pair_key (set c \<union> set ps) \<Longrightarrow> set (foldl add_pair c ps) = set c \<union> set ps"
proof (induction ps arbitrary: c)
  case (Cons p ps)
  show ?case
  proof (cases "pair_key p \<in> pair_key ` set c")
    case True
    with Cons.prems have "p \<in> set c" by (auto simp: inj_on_def)
    moreover from Cons.prems have "inj_on pair_key (set c \<union> set ps)" by (auto simp: inj_on_def)
    ultimately show ?thesis using Cons.IH True by (auto simp: add_pair_def)
  next
    case False
    from Cons.prems have "inj_on pair_key (set (c @ [p]) \<union> set ps)" by (auto simp: inj_on_def)
    with Cons.IH[OF this] False show ?thesis by (auto simp: add_pair_def)
  qed
qed simp

lemma direct_exact: "exact es 1 (direct_pairs es)"
proof -
  let ?ps = "map (\<lambda>e. (ed_caller e, ed_callee e, 1)) (filter (\<lambda>e. ed_caller e \<noteq> ed_callee e) es) :: closure"
  have "inj_on pair_key (set [] \<union> set ?ps)" by (auto simp: inj_on_def pair_key_def)
  from add_pairs_set[OF this] have s: "set (direct_pairs es) = set ?ps" by (simp add: direct_pairs_def)
  show ?thesis
    unfolding exact_def
  proof (intro allI iffI)
    fix a b k assume "(a, b, k) \<in> set (direct_pairs es)"
    then show "a \<noteq> b \<and> k \<le> 1 \<and> dist_is es a b k" unfolding s by (auto simp: dist_is_def)
  next
    fix a b and k :: nat assume "a \<noteq> b \<and> k \<le> 1 \<and> dist_is es a b k"
    then have k: "k = 1" "a \<noteq> b" "walk es 1 a b" using dist_pos[of es a b k] by (cases "k = 1"; auto simp: dist_is_def)+
    then obtain e where "e \<in> set es" "ed_caller e = a" "ed_callee e = b" by auto
    with k(1,2) show "(a, b, k) \<in> set (direct_pairs es)" unfolding s by force
  qed
qed

lemma next_pairs_iff:
  assumes "exact es d c" "1 \<le> d"
  shows "(a, b, k) \<in> set (next_pairs es (Suc d) c) \<longleftrightarrow> a \<noteq> b \<and> k = Suc d \<and> dist_is es a b k"
proof
  assume "(a, b, k) \<in> set (next_pairs es (Suc d) c)"
  then obtain m where m: "(a, m, d) \<in> set c" "calls es m b" "a \<noteq> b" "(a, b) \<notin> pair_key ` set c" "k = Suc d"
    by (auto simp: next_pairs_def calls_def split: if_splits)
  from m(1) assms have "walk es d a m" by (auto simp: exact_def dist_is_def)
  then have w: "walk es (Suc d) a b" using m(2) by (rule walk_snoc)
  have "\<not> walk es j a b" if "j < Suc d" for j
  proof
    assume "walk es j a b"
    then obtain i where "i \<le> j" "dist_is es a b i" using walk_dist by blast
    with that m(3) assms have "(a, b, i) \<in> set c" by (auto simp: exact_def)
    with m(4) show False by (force simp: pair_key_def)
  qed
  with w m(3,5) show "a \<noteq> b \<and> k = Suc d \<and> dist_is es a b k" by (auto simp: dist_is_def)
next
  assume r: "a \<noteq> b \<and> k = Suc d \<and> dist_is es a b k"
  then obtain m where m: "dist_is es a m d" "calls es m b" using dist_pred by blast
  with assms(2) have "a \<noteq> m" using dist_self by (metis not_one_le_zero)
  with m(1) assms(1) have "(a, m, d) \<in> set c" by (auto simp: exact_def)
  moreover have "(a, b) \<notin> pair_key ` set c"
  proof
    assume "(a, b) \<in> pair_key ` set c"
    then obtain j where "(a, b, j) \<in> set c" by (auto simp: pair_key_def)
    with assms(1) have "j \<le> d" "dist_is es a b j" by (auto simp: exact_def)
    moreover have "dist_is es a b k" "k = Suc d" using r by blast+
    ultimately have "j = k" using dist_unique by blast
    with \<open>j \<le> d\<close> \<open>k = Suc d\<close> show False by simp
  qed
  ultimately show "(a, b, k) \<in> set (next_pairs es (Suc d) c)"
    using r m(2) unfolding next_pairs_def calls_def set_concat set_map image_image
    by (intro UN_I[of "(a, m, d)"]) (auto simp: image_iff)
qed

lemma level_exact:
  assumes "exact es d c" "1 \<le> d"
  shows "exact es (Suc d) (foldl add_pair c (next_pairs es (Suc d) c))"
proof -
  have new: "set (next_pairs es (Suc d) c) = {(a, b, k). a \<noteq> b \<and> k = Suc d \<and> dist_is es a b k}"
    using next_pairs_iff[OF assms] by auto
  have old: "set c = {(a, b, k). a \<noteq> b \<and> k \<le> d \<and> dist_is es a b k}" using assms(1) by (auto simp: exact_def)
  have "inj_on pair_key (set c \<union> set (next_pairs es (Suc d) c))"
    unfolding new old by (auto simp: inj_on_def pair_key_def dest: dist_unique)
  from add_pairs_set[OF this] show ?thesis unfolding exact_def new old by (auto simp: le_Suc_eq)
qed

lemma stopped_exact:
  assumes "exact es d c" "1 \<le> d" "length (foldl add_pair c (next_pairs es (Suc d) c)) = length c" "d \<le> e"
  shows "exact es e (foldl add_pair c (next_pairs es (Suc d) c))"
proof -
  let ?c = "foldl add_pair c (next_pairs es (Suc d) c)"
  from add_pairs_suffix[of c "next_pairs es (Suc d) c"] assms(3) have same: "?c = c" by auto
  have no: "\<not> dist_is es a b (Suc d)" if "a \<noteq> b" for a b
    using level_exact[OF assms(1,2)] assms(1) that unfolding same exact_def by (metis Suc_n_not_le_n order_refl)
  have "k \<le> d" if "dist_is es a b k" "a \<noteq> b" for a b k
  proof (rule ccontr)
    assume "\<not> k \<le> d"
    then have "Suc d \<le> k" by simp
    with dist_down[OF that(1)] obtain m where m: "dist_is es a m (Suc d)" by blast
    then have "a \<noteq> m" by (metis dist_self nat.simps(3))
    with no m show False by blast
  qed
  note bound = this
  show ?thesis
    unfolding same exact_def
  proof (intro allI)
    fix a b k
    have "(a, b, k) \<in> set c \<longleftrightarrow> a \<noteq> b \<and> k \<le> d \<and> dist_is es a b k" using assms(1) by (simp add: exact_def)
    also have "\<dots> \<longleftrightarrow> a \<noteq> b \<and> k \<le> e \<and> dist_is es a b k" using bound[of a b k] assms(4) by auto
    finally show "(a, b, k) \<in> set c \<longleftrightarrow> a \<noteq> b \<and> k \<le> e \<and> dist_is es a b k" .
  qed
qed

definition back_edge :: "cc_edge list \<Rightarrow> nat \<Rightarrow> bool" where
  "back_edge es d \<longleftrightarrow> (\<exists>a m k. a \<noteq> m \<and> k \<le> d \<and> dist_is es a m k \<and> calls es m a)"

lemma self_loops_iff:
  assumes "exact es d c"
  shows "self_loops es c \<noteq> [] \<longleftrightarrow> back_edge es d"
proof -
  have "self_loops es c \<noteq> [] \<longleftrightarrow> (\<exists>(a, m, k) \<in> set c. calls es m a)"
  proof -
    have "self_loops es c = [] \<longleftrightarrow> (\<forall>p \<in> set c. case p of (a, m, k) \<Rightarrow> \<not> calls es m a)"
      unfolding self_loops_def calls_def
      by (simp add: filter_empty_conv concat_eq_Nil_conv case_prod_beta)
    then show ?thesis by (simp add: case_prod_beta)
  qed
  with assms show ?thesis unfolding back_edge_def exact_def by blast
qed

lemma add_cycles_Nil: "add_cycles cs found = [] \<longleftrightarrow> cs = [] \<and> found = []"
proof -
  have ne: "foldl (\<lambda>cs h. if h \<in> set cs then cs else cs @ [h]) cs found \<noteq> []" if "cs \<noteq> []" for cs :: "string list" and found
    using that by (induction found arbitrary: cs) auto
  show ?thesis
  proof (cases found)
    case (Cons h hs)
    have "(if h \<in> set cs then cs else cs @ [h]) \<noteq> []" by auto
    from ne[OF this, of hs] have "add_cycles cs found \<noteq> []" unfolding add_cycles_def Cons by simp
    with Cons show ?thesis by simp
  qed (simp add: add_cycles_def)
qed

lemma closure_loop_exact:
  assumes "exact es d c" "1 \<le> d" "closure_loop es (Suc d) left c cs r = (c', cs', r')"
  shows "exact es (d + left) c' \<and> (cs' \<noteq> [] \<longleftrightarrow> cs \<noteq> [] \<or> (0 < left \<and> back_edge es (d + left - 1)))"
  using assms
proof (induction left arbitrary: d c cs r)
  case (Suc left)
  let ?n = "foldl add_pair c (next_pairs es (Suc d) c)" and ?cs = "add_cycles cs (self_loops es c)"
  have cs: "?cs \<noteq> [] \<longleftrightarrow> cs \<noteq> [] \<or> back_edge es d"
    using self_loops_iff[OF Suc.prems(1)] by (auto simp: add_cycles_Nil)
  show ?case
  proof (cases "length ?n = length c")
    case True
    from stopped_exact[OF Suc.prems(1,2) True] have ex: "exact es e ?n" if "d \<le> e" for e using that by blast
    from True Suc.prems(3) have r: "c' = ?n" "cs' = ?cs" by (auto simp: Let_def)
    have "back_edge es d \<longleftrightarrow> back_edge es (d + left)"
      using ex[of d] ex[of "d + left"] by (simp flip: self_loops_iff)
    with ex[of "d + Suc left"] cs r show ?thesis by simp
  next
    case False
    with Suc.prems(3) have "closure_loop es (Suc (Suc d)) left ?n ?cs (Suc d) = (c', cs', r')" by (simp add: Let_def)
    from Suc.IH[OF level_exact[OF Suc.prems(1,2)] _ this] have
      "exact es (Suc d + left) c'" "cs' \<noteq> [] \<longleftrightarrow> ?cs \<noteq> [] \<or> (0 < left \<and> back_edge es (Suc d + left - 1))" by auto
    moreover have "back_edge es d \<Longrightarrow> back_edge es (d + left)" unfolding back_edge_def by (meson le_add1 order_trans)
    ultimately show ?thesis using cs by (cases left) auto
  qed
qed simp

lemma build_closure_exact:
  "exact (db_edges db) (max 1 max_depth) (db_closure (fst (build_closure max_depth db)))"
  "bs_cycles (db_build (fst (build_closure max_depth db))) \<noteq> [] \<longleftrightarrow> 2 \<le> max_depth \<and> back_edge (db_edges db) (max_depth - 1)"
  "db_edges (fst (build_closure max_depth db)) = db_edges db"
  "db_nodes (fst (build_closure max_depth db)) = db_nodes db"
proof -
  obtain c cs r where l: "closure_loop (db_edges db) (Suc 1) (max_depth - 1) (direct_pairs (db_edges db)) [] 1 = (c, cs, r)"
    by (metis prod_cases3)
  from closure_loop_exact[OF direct_exact _ l] have
    e: "exact (db_edges db) (1 + (max_depth - 1)) c" "cs \<noteq> [] \<longleftrightarrow> 0 < max_depth - 1 \<and> back_edge (db_edges db) (1 + (max_depth - 1) - 1)"
    by auto
  have "1 + (max_depth - 1) = max 1 max_depth" by auto
  with e show "exact (db_edges db) (max 1 max_depth) (db_closure (fst (build_closure max_depth db)))"
    "bs_cycles (db_build (fst (build_closure max_depth db))) \<noteq> [] \<longleftrightarrow> 2 \<le> max_depth \<and> back_edge (db_edges db) (max_depth - 1)"
    "db_edges (fst (build_closure max_depth db)) = db_edges db"
    "db_nodes (fst (build_closure max_depth db)) = db_nodes db"
    using l by (auto simp: build_closure_def numeral_2_eq_2)
qed

lemma closure_entries:
  "1 \<le> D \<Longrightarrow> (a, b, k) \<in> set (db_closure (fst (build_closure D db))) \<longleftrightarrow> a \<noteq> b \<and> k \<le> D \<and> dist_is (db_edges db) a b k"
  using build_closure_exact(1)[of db D] by (simp add: exact_def max_def)

lemma reachable_iff_walk:
  assumes "1 \<le> D"
  shows "is_reachable (fst (build_closure D db)) a b \<longleftrightarrow> (\<exists>k \<le> D. walk (db_edges db) k a b)"
proof -
  have "is_reachable (fst (build_closure D db)) a b \<longleftrightarrow> a = b \<or> (\<exists>k. (a, b, k) \<in> set (db_closure (fst (build_closure D db))))"
    by (force simp: is_reachable_def pair_key_def)
  also have "\<dots> \<longleftrightarrow> (\<exists>k \<le> D. walk (db_edges db) k a b)"
  proof
    assume "a = b \<or> (\<exists>k. (a, b, k) \<in> set (db_closure (fst (build_closure D db))))"
    then show "\<exists>k \<le> D. walk (db_edges db) k a b" using closure_entries[OF assms] by (auto simp: dist_is_def intro: exI[of _ 0])
  next
    assume "\<exists>k \<le> D. walk (db_edges db) k a b"
    then obtain j where "j \<le> D" "dist_is (db_edges db) a b j" using walk_dist by (meson order_trans)
    with closure_entries[OF assms] show "a = b \<or> (\<exists>k. (a, b, k) \<in> set (db_closure (fst (build_closure D db))))" by blast
  qed
  finally show ?thesis .
qed


definition edge :: "string \<Rightarrow> string \<Rightarrow> cc_edge" where
  "edge a b = \<lparr>ed_caller = a, ed_callee = b, ed_line = 1, ed_type = ''direct''\<rparr>"

definition cycle_db :: cc_db where
  "cycle_db = open_db\<lparr>db_edges := [edge ''a'' ''b'', edge ''b'' ''a'']\<rparr>"

lemma cycle_db_closure: "db_closure (fst (build_closure 10 cycle_db)) = [(''a'', ''b'', 1), (''b'', ''a'', 1)]"
  by (simp add: build_closure_def cycle_db_def edge_def direct_pairs_def add_pair_def pair_key_def next_pairs_def
      closure_loop.simps numeral_eq_Suc)


section \<open>The trees\<close>

definition path_ok :: "cc_edge list \<Rightarrow> string \<Rightarrow> string \<Rightarrow> nat \<Rightarrow> string list \<Rightarrow> bool" where
  "path_ok es rt node depth path \<longleftrightarrow> path \<noteq> [] \<and> hd path = rt \<and> last path = node \<and> length path = Suc depth \<and> successively (calls es) path"

lemma path_ok_step: "path_ok es rt node depth path \<Longrightarrow> calls es node c \<Longrightarrow> path_ok es rt c (depth + 1) (path @ [c])"
  by (auto simp: path_ok_def successively_append_iff)

definition tree_inv :: "cc_edge list \<Rightarrow> nat \<Rightarrow> string \<Rightarrow> (string \<times> string list \<times> nat) list \<Rightarrow> string set \<Rightarrow> tree_row list \<Rightarrow> bool \<Rightarrow> bool" where
  "tree_inv es md rt q visited rows truncated \<longleftrightarrow>
     (\<forall>(n, p, d) \<in> set q. path_ok es rt n d p \<and> d \<le> md)
     \<and> (\<forall>(r, n, d, p) \<in> set rows. r = rt \<and> path_ok es rt n d p \<and> d \<le> md)
     \<and> distinct (map (\<lambda>(r, n, d, p). n) rows @ map fst q) \<and> visited = (\<lambda>(r, n, d, p). n) ` set rows \<union> fst ` set q
     \<and> (\<not> truncated \<longrightarrow> (\<forall>(r, n, d, p) \<in> set rows. \<forall>c. calls es n c \<longrightarrow> c \<in> visited))"

lemma callees_calls: "c \<in> set (callees_of es n) \<longleftrightarrow> calls es n c"
  by (auto simp: callees_of_def calls_def)

lemma tree_loop_inv:
  "tree_inv es md rt q visited rows truncated \<Longrightarrow> tree_loop es md rt q visited rows truncated = (rows', t') \<Longrightarrow>
    \<exists>visited'. tree_inv es md rt [] visited' rows' t' \<and> visited \<subseteq> visited'"
proof (induction es md rt q visited rows truncated rule: tree_loop.induct)
  case (1 es md rt visited rows truncated)
  then show ?case by auto
next
  case (2 es md rt node path depth q visited rows truncated)
  let ?rows = "rows @ [(rt, node, depth, path)]"
  have p: "path_ok es rt node depth path" "depth \<le> md" using "2.prems"(1) by (auto simp: tree_inv_def)
  show ?case
  proof (cases "md \<le> depth")
    case True
    have "tree_inv es md rt q visited ?rows True"
      using "2.prems"(1) p by (auto simp: tree_inv_def)
    with "2.IH"(1)[OF True] "2.prems"(2) True show ?thesis by simp
  next
    case False
    obtain new where new: "push_new (callees_of es node) path depth visited q =
        (visited \<union> set new, q @ map (\<lambda>c. (c, path @ [c], depth + 1)) new)"
      "distinct new" "set new = set (callees_of es node) - visited" using push_new_shape by blast
    let ?v = "visited \<union> set new" and ?q = "q @ map (\<lambda>c. (c, path @ [c], depth + 1)) new"
    have vis: "visited = (\<lambda>(r, n, d, p). n) ` set rows \<union> insert node (fst ` set q)"
      and dis: "distinct (map (\<lambda>(r, n, d, p). n) rows @ node # map fst q)"
      and qok: "\<forall>(n, p, d) \<in> set q. path_ok es rt n d p \<and> d \<le> md"
      and rok: "\<forall>(r, n, d, p) \<in> set rows. r = rt \<and> path_ok es rt n d p \<and> d \<le> md"
      and cl: "\<not> truncated \<longrightarrow> (\<forall>(r, n, d, p) \<in> set rows. \<forall>c. calls es n c \<longrightarrow> c \<in> visited)"
      using "2.prems"(1) by (auto simp: tree_inv_def)
    have fst_new: "map fst ?q = map fst q @ new" by (simp add: comp_def)
    have "\<forall>(n, p, d) \<in> set ?q. path_ok es rt n d p \<and> d \<le> md"
      using qok p False new(3) path_ok_step[OF p(1)] by (auto simp: callees_calls)
    moreover have "distinct (map (\<lambda>(r, n, d, p). n) ?rows @ map fst ?q)"
      unfolding fst_new using dis new(2,3) by (auto simp: vis)
    moreover have "?v = (\<lambda>(r, n, d, p). n) ` set ?rows \<union> fst ` set ?q"
    proof -
      have "fst ` set ?q = set (map fst ?q)" by (simp only: set_map)
      then have "fst ` set ?q = fst ` set q \<union> set new" by (simp only: fst_new set_append set_map)
      then show ?thesis unfolding vis by (simp add: Un_assoc)
    qed
    moreover have "\<not> truncated \<longrightarrow> (\<forall>(r, n, d, p) \<in> set ?rows. \<forall>c. calls es n c \<longrightarrow> c \<in> ?v)"
      using cl new(3) by (auto simp: callees_calls)
    ultimately have "tree_inv es md rt ?q ?v ?rows truncated"
      using rok p unfolding tree_inv_def by auto
    with "2.IH"(2)[OF False new(1)[symmetric] refl] "2.prems"(2) False new(1) show ?thesis by auto
  qed
qed

lemma tree_start: "tree_inv es md rt [(rt, [rt], 0)] {rt} [] False"
  by (simp add: tree_inv_def path_ok_def)

text \<open>
  C30: the tree of a root lists every function once, with a call path from the root of at most \<open>max_depth\<close> calls, and when the
  expansion was not cut off it lists every function the root can reach.
\<close>

theorem entry_tree_correct:
  assumes "tree_of es max_depth rt = (rows, truncated)"
  shows "distinct (map (\<lambda>(r, n, d, p). n) rows)
    \<and> (\<forall>(r, n, d, p) \<in> set rows. r = rt \<and> path_ok es rt n d p \<and> d \<le> max_depth)
    \<and> (\<not> truncated \<longrightarrow> (\<lambda>(r, n, d, p). n) ` set rows = {n. (calls es)\<^sup>*\<^sup>* rt n})"
proof -
  from tree_loop_inv[OF tree_start assms[unfolded tree_of_def]] obtain v where
    inv: "tree_inv es max_depth rt [] v rows truncated" and rv: "rt \<in> v" by blast
  then have v: "v = (\<lambda>(r, n, d, p). n) ` set rows" by (simp add: tree_inv_def)
  have sound: "(calls es)\<^sup>*\<^sup>* rt n" if "path_ok es rt n d p" for n d p
    using that
  proof (induction d arbitrary: n p)
    case 0
    then have "length p = 1" "hd p = rt" "last p = n" by (simp_all add: path_ok_def)
    then have "rt = n" by (cases p) auto
    then show ?case by simp
  next
    case (Suc d)
    then obtain q where q: "p = q @ [n]" "length q = Suc d" unfolding path_ok_def
      by (metis Suc_eq_plus1 append_butlast_last_id length_butlast nat.inject plus_1_eq_Suc add_diff_cancel_right')
    then have "q \<noteq> []" by auto
    with Suc.prems q have "path_ok es rt (last q) d q" "calls es (last q) n"
      by (auto simp: path_ok_def successively_append_iff)
    with Suc.IH show ?case by (meson rtranclp.rtrancl_into_rtrancl)
  qed
  have "(\<lambda>(r, n, d, p). n) ` set rows = {n. (calls es)\<^sup>*\<^sup>* rt n}" if "\<not> truncated"
  proof
    show "(\<lambda>(r, n, d, p). n) ` set rows \<subseteq> {n. (calls es)\<^sup>*\<^sup>* rt n}"
    proof
      fix n assume "n \<in> (\<lambda>(r, n, d, p). n) ` set rows"
      then obtain r d p where "(r, n, d, p) \<in> set rows" by auto
      with inv have "path_ok es rt n d p" by (auto simp: tree_inv_def)
      then show "n \<in> {n. (calls es)\<^sup>*\<^sup>* rt n}" using sound by blast
    qed
    have "n \<in> v" if "(calls es)\<^sup>*\<^sup>* rt n" for n
      using that
    proof (induction rule: rtranclp_induct)
      case (step y z)
      then obtain r d p where "(r, y, d, p) \<in> set rows" unfolding v by auto
      moreover have "\<forall>(r, n, d, p) \<in> set rows. \<forall>c. calls es n c \<longrightarrow> c \<in> v"
        using inv \<open>\<not> truncated\<close> unfolding tree_inv_def by blast
      ultimately show ?case using step(2) by blast
    qed (rule rv)
    then show "{n. (calls es)\<^sup>*\<^sup>* rt n} \<subseteq> (\<lambda>(r, n, d, p). n) ` set rows" using v by blast
  qed
  with inv show ?thesis by (auto simp: tree_inv_def)
qed

theorem entry_tree_correct_witness:
  "\<exists>rows. tree_of (db_edges cycle_db) 10 ''a'' = (rows, False) \<and> (\<lambda>(r, n, d, p). n) ` set rows = {n. (calls (db_edges cycle_db))\<^sup>*\<^sup>* ''a'' n}
     \<and> length rows = 2"
proof -
  have t: "tree_of (db_edges cycle_db) 10 ''a'' = ([(''a'', ''a'', 0, [''a'']), (''a'', ''b'', 1, [''a'', ''b''])], False)"
    by (simp add: tree_of_def cycle_db_def edge_def callees_of_def)
  from entry_tree_correct[OF t] have
    "(\<lambda>(r, n, d, p). n) ` set [(''a'', ''a'', 0 :: nat, [''a'']), (''a'', ''b'', 1, [''a'', ''b''])] = {n. (calls (db_edges cycle_db))\<^sup>*\<^sup>* ''a'' n}"
    by blast
  with t show ?thesis by (intro exI conjI) (assumption, assumption, simp)
qed

section \<open>Classification\<close>

lemma depths_in:
  "k \<in> set (concat (map (\<lambda>(a, d, k). if a \<in> E \<and> d = h then [k] else []) c)) \<longleftrightarrow> (\<exists>a. (a, h, k) \<in> set c \<and> a \<in> E)"
  by (induction c) auto

lemma min_depth_le:
  assumes "m \<le> 998"
  shows "min_depth c ext h \<le> m \<longleftrightarrow> (\<exists>a k. (a, h, k) \<in> set c \<and> a \<in> set ext \<and> k \<le> m)"
proof -
  let ?ds = "concat (map (\<lambda>(a, d, k). if a \<in> set ext \<and> d = h then [k] else []) c)"
  have ds: "k \<in> set ?ds \<longleftrightarrow> (\<exists>a. (a, h, k) \<in> set c \<and> a \<in> set ext)" for k by (rule depths_in)
  show ?thesis
  proof (cases "?ds = []")
    case True
    then have "min_depth c ext h = 999" by (simp add: min_depth_def Let_def)
    moreover from True ds have "\<not> (\<exists>a k. (a, h, k) \<in> set c \<and> a \<in> set ext)" by (metis empty_iff list.set(1))
    ultimately show ?thesis using assms by auto
  next
    case False
    then have "min_depth c ext h = Min (set ?ds)" by (simp only: min_depth_def Let_def if_False)
    moreover from False have "set ?ds \<noteq> {}" by (simp only: set_empty) simp
    then have "Min (set ?ds) \<le> m \<longleftrightarrow> (\<exists>k \<in> set ?ds. k \<le> m)" by (rule Min_le_iff[OF finite_set])
    ultimately show ?thesis unfolding ds by (metis ds)
  qed
qed

definition category_in :: "cc_db \<Rightarrow> nat \<Rightarrow> string list \<Rightarrow> string set \<Rightarrow> nat \<Rightarrow> string \<Rightarrow> category" where
  "category_in db D kept a_types max_depth h =
     category_of (db_closure (fst (build_closure D db))) kept a_types max_depth h"

text \<open>
  C31: the categories mean what the method says, over the call graph: with the closure of bound \<open>D\<close>, a kept function is
  external exactly when it is active or no other kept function leads to it within \<open>D\<close> calls, and any other is
  handling exactly when an external one leads to it within \<open>max_depth\<close> calls.
\<close>

theorem categories_follow_the_graph:
  assumes "1 \<le> D" "max_depth \<le> D" "max_depth \<le> 998" "h \<in> set kept"
  shows "(category_in db D kept a_types max_depth h = External \<longleftrightarrow>
      h \<in> a_types \<or> \<not> (\<exists>g \<in> set kept. g \<noteq> h \<and> (\<exists>k \<le> D. walk (db_edges db) k g h)))
    \<and> (category_in db D kept a_types max_depth h = Handling \<longleftrightarrow>
      category_in db D kept a_types max_depth h \<noteq> External \<and>
      (\<exists>g \<in> set kept. category_in db D kept a_types max_depth g = External \<and> (\<exists>k \<le> max_depth. walk (db_edges db) k g h)))"
proof -
  let ?es = "db_edges db" and ?cat = "category_in db D kept a_types max_depth"
  let ?c = "db_closure (fst (build_closure D db))" and ?ext = "external_hashes (db_closure (fst (build_closure D db))) kept a_types"
  have ex: "(a, b, k) \<in> set ?c \<longleftrightarrow> a \<noteq> b \<and> k \<le> D \<and> dist_is ?es a b k" for a b k
    using build_closure_exact(1)[of db D] assms(1) by (simp add: exact_def max_def)
  have walks: "(\<exists>k \<le> m. (g, b, k) \<in> set ?c) \<longleftrightarrow> g \<noteq> b \<and> (\<exists>k \<le> m. walk ?es k g b)" if "m \<le> D" for g b m
  proof
    assume "\<exists>k \<le> m. (g, b, k) \<in> set ?c"
    then show "g \<noteq> b \<and> (\<exists>k \<le> m. walk ?es k g b)" by (auto simp: ex dist_is_def)
  next
    assume "g \<noteq> b \<and> (\<exists>k \<le> m. walk ?es k g b)"
    then obtain j where "g \<noteq> b" "j \<le> m" "dist_is ?es g b j" using walk_dist by (meson order_trans)
    with that show "\<exists>k \<le> m. (g, b, k) \<in> set ?c" by (auto simp: ex)
  qed
  have anc: "kept_ancestor ?c kept b \<longleftrightarrow> (\<exists>g \<in> set kept. g \<noteq> b \<and> (\<exists>k \<le> D. walk ?es k g b))" for b
  proof -
    have "kept_ancestor ?c kept b \<longleftrightarrow> (\<exists>g \<in> set kept. g \<noteq> b \<and> (\<exists>k \<le> D. (g, b, k) \<in> set ?c))"
    proof
      assume "kept_ancestor ?c kept b"
      then obtain g k where "(g, b, k) \<in> set ?c" "g \<in> set kept" "g \<noteq> b" by (auto simp: kept_ancestor_def)
      moreover from this(1) have "k \<le> D" by (simp add: ex)
      ultimately show "\<exists>g \<in> set kept. g \<noteq> b \<and> (\<exists>k \<le> D. (g, b, k) \<in> set ?c)" by blast
    next
      assume "\<exists>g \<in> set kept. g \<noteq> b \<and> (\<exists>k \<le> D. (g, b, k) \<in> set ?c)"
      then obtain g k where "(g, b, k) \<in> set ?c" "g \<in> set kept" "g \<noteq> b" by blast
      then show "kept_ancestor ?c kept b" unfolding kept_ancestor_def by (intro bexI[of _ "(g, b, k)"]) auto
    qed
    with walks[of D] show ?thesis by auto
  qed
  have ext: "g \<in> set ?ext \<longleftrightarrow> g \<in> set kept \<and> (g \<in> a_types \<or> \<not> kept_ancestor ?c kept g)" for g
    by (auto simp: external_hashes_def)
  have E: "?cat g = External \<longleftrightarrow> g \<in> set ?ext" for g by (simp add: category_in_def category_of_def Let_def)
  have "?cat h = Handling \<longleftrightarrow> ?cat h \<noteq> External \<and> min_depth ?c ?ext h \<le> max_depth"
    by (simp add: category_in_def category_of_def Let_def)
  also have "min_depth ?c ?ext h \<le> max_depth \<longleftrightarrow> (\<exists>g \<in> set ?ext. \<exists>k \<le> max_depth. (g, h, k) \<in> set ?c)"
    unfolding min_depth_le[OF assms(3)] by auto
  also have "\<dots> \<longleftrightarrow> (\<exists>g \<in> set ?ext. g \<noteq> h \<and> (\<exists>k \<le> max_depth. walk ?es k g h))"
    using walks[OF assms(2)] by auto
  finally have H: "?cat h = Handling \<longleftrightarrow> ?cat h \<noteq> External \<and> (\<exists>g \<in> set ?ext. g \<noteq> h \<and> (\<exists>k \<le> max_depth. walk ?es k g h))" .
  have "(?cat h \<noteq> External \<and> (\<exists>g \<in> set ?ext. g \<noteq> h \<and> (\<exists>k \<le> max_depth. walk ?es k g h))) \<longleftrightarrow>
      (?cat h \<noteq> External \<and> (\<exists>g \<in> set kept. ?cat g = External \<and> (\<exists>k \<le> max_depth. walk ?es k g h)))"
    using E ext by metis
  moreover have "?cat h = External \<longleftrightarrow> h \<in> a_types \<or> \<not> (\<exists>g \<in> set kept. g \<noteq> h \<and> (\<exists>k \<le> D. walk ?es k g h))"
    unfolding E ext anc using assms(4) by simp
  ultimately show ?thesis unfolding H by (rule conjI[rotated])
qed

theorem categories_follow_the_graph_witness:
  "category_in (open_db\<lparr>db_edges := [edge ''a'' ''b'']\<rparr>) 10 [''a'', ''b''] {} 2 ''a'' = External
   \<and> category_in (open_db\<lparr>db_edges := [edge ''a'' ''b'']\<rparr>) 10 [''a'', ''b''] {} 2 ''b'' = Handling"
proof -
  let ?db = "open_db\<lparr>db_edges := [edge ''a'' ''b'']\<rparr>"
  have into_a: "\<not> walk (db_edges ?db) k ''b'' ''a''" for k
    by (cases k) (auto simp: edge_def)
  have ab: "walk (db_edges ?db) 1 ''a'' ''b''" by (simp add: edge_def)
  have a: "category_in ?db 10 [''a'', ''b''] {} 2 ''a'' = External"
    using categories_follow_the_graph[of 10 2 "''a''" "[''a'', ''b'']" ?db "{}"] into_a by auto
  have "category_in ?db 10 [''a'', ''b''] {} 2 ''b'' \<noteq> External"
    using categories_follow_the_graph[of 10 2 "''b''" "[''a'', ''b'']" ?db "{}"] ab
    by (auto intro!: exI[of _ "1 :: nat"])
  with categories_follow_the_graph[of 10 2 "''b''" "[''a'', ''b'']" ?db "{}"] ab a
  have "category_in ?db 10 [''a'', ''b''] {} 2 ''b'' = Handling"
    by (auto intro!: exI[of _ "1 :: nat"])
  with a show ?thesis by blast
qed

text \<open>
  entries that call each other disappear: when every kept function is passive and is reached by another kept one
  (two handlers in a cycle are enough), none is external, all are classified as internal, and a report that lists external and
  handling entries lists none of them.
\<close>

theorem mutually_recursive_entries_vanish:
  assumes "\<forall>h \<in> set kept. h \<notin> a_types \<and> kept_ancestor c kept h" "max_depth \<le> 998" "h \<in> set kept"
  shows "category_of c kept a_types max_depth h = Internal"
proof -
  have e: "external_hashes c kept a_types = []" using assms(1) by (auto simp: external_hashes_def filter_empty_conv)
  have "\<not> min_depth c [] h \<le> max_depth" using min_depth_le[OF assms(2)] by simp
  then show ?thesis by (simp add: category_of_def e)
qed

theorem mutually_recursive_entries_vanish_witness:
  "let db = fst (build_closure 10 cycle_db) in
   snd (classify_entry_categories [''a'', ''b''] {} 2 db) = [(''a'', Internal), (''b'', Internal)]"
proof -
  let ?c = "[(''a'', ''b'', 1), (''b'', ''a'', 1)] :: closure"
  have k: "\<forall>h \<in> set [''a'', ''b'']. h \<notin> {} \<and> kept_ancestor ?c [''a'', ''b''] h" by (auto simp: kept_ancestor_def)
  have "category_of ?c [''a'', ''b''] {} 2 h = Internal" if "h \<in> set [''a'', ''b'']" for h
    using that by (intro mutually_recursive_entries_vanish[OF k]) simp_all
  then show ?thesis by (simp add: classify_entry_categories_def cycle_db_closure Let_def)
qed

section \<open>Roles\<close>

text \<open>
  a function that only functions outside the module call is taken for the target of a dispatcher: the test ranges over
  the callers inside the module, of which there are none, so it holds, and without a role of its own the function
  is suggested as \<open>dispatch_target\<close> although the next rule would call it \<open>boundary\<close>.
\<close>

theorem external_callers_count_as_dispatcher:
  assumes "node_at_hash db h = Some n" "nd_role n = []" "get_callers db h \<noteq> []" "list_all cl_external (get_callers db h)"
  shows "get_or (get_callchain_role db h) ''is_only_called_by_dispatcher'' PNone = PBool True
    \<and> get_or (get_callchain_role db h) ''suggested_entry_role'' PNone = PStr ''dispatch_target''"
proof -
  have "filter (\<lambda>c. \<not> cl_external c) (get_callers db h) = []"
    using assms(4) by (simp add: filter_empty_conv list_all_iff)
  then have "only_by_dispatcher (get_callers db h)" using assms(3) by (simp add: only_by_dispatcher_def)
  then show ?thesis
    using assms(1,2) by (simp add: get_callchain_role_def get_or_def suggested_role_def Let_def)
qed

definition external_demo :: "cc_db option" where
  "external_demo = Some (fst (insert_edges [[(''caller_hash'', PStr ''ext''), (''callee_hash'', PStr ''f'')]] open_db))"

definition placeholder :: "string \<Rightarrow> cc_node" where
  "placeholder h = \<lparr>nd_hash = h, nd_name = h, nd_signature = [], nd_file = [], nd_line = 0, nd_r3 = False, nd_external = True,
     nd_role = [], nd_confidence = PNone, nd_r3_state = ''pending'', nd_category = []\<rparr>"

lemma external_demo_value:
  "\<exists>b. external_demo = Some \<lparr>db_nodes = [placeholder ''ext'', placeholder ''f''],
     db_edges = [\<lparr>ed_caller = ''ext'', ed_callee = ''f'', ed_line = 0, ed_type = ''direct''\<rparr>],
     db_closure = [], db_trees = [], db_build = b\<rparr>"
  by (simp add: external_demo_def insert_edges_def edge_sides_def str_or_empty_def get_or_def py_or_def py_str_def placeholder_def
      open_db_def insert_nodes_def node_of_dict_def insert_ignore_def edge_of_dict_def edge_key_def new_build_def Let_def)

theorem external_callers_count_as_dispatcher_witness:
  "\<exists>db. external_demo = Some db \<and> get_or (get_callchain_role db ''f'') ''suggested_entry_role'' PNone = PStr ''dispatch_target''"
proof -
  from external_demo_value obtain b where db: "external_demo = Some \<lparr>db_nodes = [placeholder ''ext'', placeholder ''f''],
     db_edges = [\<lparr>ed_caller = ''ext'', ed_callee = ''f'', ed_line = 0, ed_type = ''direct''\<rparr>],
     db_closure = [], db_trees = [], db_build = b\<rparr>" (is "_ = Some ?db") by blast
  have f: "node_at_hash ?db ''f'' = Some (placeholder ''f'')" "node_at_hash ?db ''ext'' = Some (placeholder ''ext'')"
    by (simp_all add: node_at_hash_def placeholder_def)
  have c: "get_callers ?db ''f'' \<noteq> []" "list_all cl_external (get_callers ?db ''f'')" "nd_role (placeholder ''f'') = []"
    by (simp_all add: get_callers_def joined_def f(2)) (simp_all add: placeholder_def)
  from external_callers_count_as_dispatcher[OF f(1) c(3,1,2)] db show ?thesis by blast
qed

section \<open>Keys\<close>

interpretation nodes: keyed_table node_at_hash upd_node nd_hash
proof
  show "node_at_hash s k = Some r \<Longrightarrow> nd_hash r = k" for s k r
    unfolding node_at_hash_def by (drule find_by_key) simp
  show "(\<And>r. nd_hash (f r) = nd_hash r) \<Longrightarrow>
      node_at_hash (upd_node k f s) j = (if j = k then map_option f (node_at_hash s k) else node_at_hash s j)" for f k s j
    unfolding node_at_hash_def upd_node_def using find_map_key[of nd_hash f] by simp
qed

text \<open>What the third stage records of a function is what \<open>get_node\<close> reads.\<close>

lemma r3_state_recorded:
  "node_at_hash (update_node_r3_state h st db) j =
    (if j = h then map_option (\<lambda>n. n\<lparr>nd_r3_state := st, nd_r3 := (st = ''keep'')\<rparr>) (node_at_hash db h) else node_at_hash db j)"
  by (simp add: update_node_r3_state_def nodes.lookup_modify)

lemma insert_many_keys:
  "distinct (map key rows) \<Longrightarrow> distinct (map key (fst (insert_many key rs (rows, n))))
    \<and> set rows \<subseteq> set (fst (insert_many key rs (rows, n)))
    \<and> key ` set (fst (insert_many key rs (rows, n))) = key ` set rows \<union> key ` set rs"
proof (induction rs arbitrary: rows n)
  case (Cons r rs)
  show ?case
  proof (cases "key r \<in> key ` set rows")
    case True
    with Cons.IH[OF Cons.prems, of 0] show ?thesis by (auto simp: insert_ignore_def)
  next
    case False
    with Cons.prems have "distinct (map key (rows @ [r]))" by simp
    from Cons.IH[OF this, of 1] False show ?thesis by (auto simp: insert_ignore_def)
  qed
qed simp

lemma insert_many_count: "rs \<noteq> [] \<Longrightarrow> snd (insert_many key rs t) \<le> 1"
proof (induction rs arbitrary: t)
  case (Cons r rs)
  obtain rows n where t: "t = (rows, n)" by fastforce
  show ?case
  proof (cases rs)
    case Nil
    then show ?thesis by (simp add: t insert_ignore_def)
  next
    case (Cons _ _)
    with Cons.IH show ?thesis by (simp add: t)
  qed
qed simp

text \<open>
  whatever batch is inserted, a node that is already known keeps its row, no key is duplicated and every key of the batch is
  present afterwards; but the number of new rows the method reports is that of the last row alone, at most 1.
\<close>

theorem insert_nodes_keeps_keys:
  assumes "insert_nodes ns db = Some (db', n)" "distinct (map nd_hash (db_nodes db))"
  shows "distinct (map nd_hash (db_nodes db')) \<and> set (db_nodes db) \<subseteq> set (db_nodes db')
    \<and> nd_hash ` set (db_nodes db') = nd_hash ` set (db_nodes db) \<union> (\<lambda>d. str_or_empty (get d ''func_hash'')) ` set ns
    \<and> n \<le> 1"
proof (cases "ns = []")
  case True
  with assms show ?thesis by (auto simp: insert_nodes_def)
next
  case False
  with assms(1) obtain rows where r: "those (map node_of_dict ns) = Some rows"
    "db_nodes db' = fst (insert_many nd_hash rows (db_nodes db, 0))" "n = snd (insert_many nd_hash rows (db_nodes db, 0))"
    by (auto simp: insert_nodes_def case_prod_beta Let_def)
  have keys: "nd_hash ` set rows = (\<lambda>d. str_or_empty (get d ''func_hash'')) ` set ns \<and> (rows = [] \<longleftrightarrow> ns = [])"
    using r(1)
  proof (induction ns arbitrary: rows)
    case (Cons d ns)
    then obtain x xs where x: "node_of_dict d = Some x" "those (map node_of_dict ns) = Some xs" "rows = x # xs"
      by (auto split: option.splits)
    from x(1) have "nd_hash x = str_or_empty (get d ''func_hash'')" by (auto simp: node_of_dict_def)
    with Cons.IH[OF x(2)] show ?case by (simp add: x(3))
  qed simp
  with False have "rows \<noteq> []" by simp
  with insert_many_count[OF this] insert_many_keys[OF assms(2), of rows 0] keys show ?thesis
    unfolding r(2,3) by simp
qed

theorem insert_nodes_keeps_keys_witness:
  "\<exists>db n. insert_nodes [[(''func_hash'', PStr ''a'')], [(''func_hash'', PStr ''b'')]] open_db = Some (db, n)
     \<and> nd_hash ` set (db_nodes db) = {''a'', ''b''} \<and> n = 1"
proof -
  have "\<exists>db. insert_nodes [[(''func_hash'', PStr ''a'')], [(''func_hash'', PStr ''b'')]] open_db = Some (db, 1)"
    by (simp add: insert_nodes_def node_of_dict_def get_or_def py_or_def str_or_empty_def py_str_def open_db_def insert_ignore_def)
  then obtain db where db: "insert_nodes [[(''func_hash'', PStr ''a'')], [(''func_hash'', PStr ''b'')]] open_db = Some (db, 1)" by blast
  have "distinct (map nd_hash (db_nodes open_db))" by (simp add: open_db_def)
  from insert_nodes_keeps_keys[OF db this] db show ?thesis
    by (auto simp: open_db_def get_or_def str_or_empty_def py_or_def py_str_def)
qed

end
