(* ===== verification/SourceText.thy ===== *)
theory SourceText
  imports PyVal
begin

text \<open>
  The text of a source file: the scanner that finds the end of a function body
  (\<open>_find_function_end\<close> of \<open>app/pipeline/extractor.py\<close>), the hash of a function, and the comparison of a
  stored body with the file (\<open>app/pipeline/r2_script.py\<close>). The scanner keeps the flags
  of the source; its reference is a lexer with one mode that emits the braces outside comments and
  literals, and a count over them.
\<close>

section \<open>Functions of a source file\<close>

record func_extract =
  fe_name :: string
  fe_signature :: string
  fe_start :: int
  fe_end :: int
  fe_body :: string

text \<open>\<open>hashlib.md5(...).hexdigest()\<close> is the parameter \<open>md5\<close>.\<close>

definition compute_func_hash :: "(string \<Rightarrow> string) \<Rightarrow> string \<Rightarrow> string \<Rightarrow> int \<Rightarrow> string" where
  "compute_func_hash md5 abspath name start = take 12 (md5 (abspath @ ''::'' @ name @ ''::'' @ int_str start))"

definition compute_file_hash :: "(string \<Rightarrow> string) \<Rightarrow> string \<Rightarrow> string" where
  "compute_file_hash md5 abspath = take 12 (md5 abspath)"

section \<open>The end of a function\<close>

record scan =
  sc_depth :: int
  sc_open :: bool
  sc_line_comment :: bool
  sc_block_comment :: bool
  sc_string :: bool
  sc_char :: bool
  sc_escape :: bool

definition scan_start :: scan where
  "scan_start = \<lparr>sc_depth = 0, sc_open = False, sc_line_comment = False, sc_block_comment = False,
     sc_string = False, sc_char = False, sc_escape = False\<rparr>"

definition next_is :: "char \<Rightarrow> string \<Rightarrow> bool" where
  "next_is c r \<longleftrightarrow> r \<noteq> [] \<and> hd r = c"

text \<open>One line; the first component tells that the body was closed on it.\<close>

function scan_line :: "string \<Rightarrow> scan \<Rightarrow> bool \<times> scan" where
  "scan_line [] s = (False, s)"
| "scan_line (c # r) s =
     (if sc_escape s then scan_line r (s\<lparr>sc_escape := False\<rparr>)
      else if c = CHR 0x5C \<and> (sc_string s \<or> sc_char s) then scan_line r (s\<lparr>sc_escape := True\<rparr>)
      else if sc_line_comment s then scan_line r s
      else if sc_block_comment s then
        (if c = CHR ''*'' \<and> next_is (CHR ''/'') r then scan_line (tl r) (s\<lparr>sc_block_comment := False\<rparr>)
         else scan_line r s)
      else if sc_string s then scan_line r (if c = CHR 0x22 then s\<lparr>sc_string := False\<rparr> else s)
      else if sc_char s then scan_line r (if c = CHR 0x27 then s\<lparr>sc_char := False\<rparr> else s)
      else if c = CHR ''/'' \<and> next_is (CHR ''/'') r then scan_line (tl r) (s\<lparr>sc_line_comment := True\<rparr>)
      else if c = CHR ''/'' \<and> next_is (CHR ''*'') r then scan_line (tl r) (s\<lparr>sc_block_comment := True\<rparr>)
      else if c = CHR 0x22 then scan_line r (s\<lparr>sc_string := True\<rparr>)
      else if c = CHR 0x27 then scan_line r (s\<lparr>sc_char := True\<rparr>)
      else if c = CHR 0x7B then scan_line r (s\<lparr>sc_depth := sc_depth s + 1, sc_open := True\<rparr>)
      else if c = CHR 0x7D \<and> sc_open s then
        (if sc_depth s - 1 = 0 then (True, s\<lparr>sc_depth := 0\<rparr>)
         else scan_line r (s\<lparr>sc_depth := sc_depth s - 1\<rparr>))
      else scan_line r s)"
  by pat_completeness auto
termination by (relation "measure (length \<circ> fst)") (auto simp: next_is_def)

fun scan_lines :: "string list \<Rightarrow> int \<Rightarrow> scan \<Rightarrow> int" where
  "scan_lines [] n s = 0"
| "scan_lines (l # ls) n s =
     (case scan_line l (s\<lparr>sc_line_comment := False\<rparr>) of (True, _) \<Rightarrow> n | (False, t) \<Rightarrow> scan_lines ls (n + 1) t)"

definition find_function_end :: "string list \<Rightarrow> int \<Rightarrow> int" where
  "find_function_end lines start =
     (if start - 1 < 0 \<or> int (length lines) \<le> start - 1 then 0
      else scan_lines (take 2000 (drop (nat (start - 1)) lines)) start scan_start)"

section \<open>Comparing a stored body with the file\<close>

text \<open>\<open>lines[i:j]\<close> for \<open>0 \<le> i\<close> and \<open>0 \<le> j\<close>.\<close>

definition py_slice :: "int \<Rightarrow> int \<Rightarrow> 'a list \<Rightarrow> 'a list" where
  "py_slice i j xs = drop (nat i) (take (nat j) xs)"

definition newline :: string where "newline = [CHR 0x0A]"

text \<open>\<open>str.splitlines()\<close>: a final line break does not start another line.\<close>

definition is_break :: "char \<Rightarrow> bool" where
  "is_break c \<longleftrightarrow> c \<in> {CHR 0x0A, CHR 0x0B, CHR 0x0C, CHR 0x0D, CHR 0x1C, CHR 0x1D, CHR 0x1E}"

function split_lines :: "string \<Rightarrow> string list" where
  "split_lines [] = []"
| "split_lines (c # s) =
     (if is_break c then [] # split_lines (if c = CHR 0x0D \<and> next_is (CHR 0x0A) s then tl s else s)
      else (case split_lines s of [] \<Rightarrow> [[c]] | l # ls \<Rightarrow> (c # l) # ls))"
  by pat_completeness auto
termination by (relation "measure length") auto

definition py_rstrip :: "string \<Rightarrow> string" where
  "py_rstrip s = rev (dropWhile is_space (rev s))"

definition norm_body :: "string \<Rightarrow> string" where
  "norm_body text = py_strip (join_with newline (map py_rstrip (split_lines text)))"

datatype r2_verdict = R2Pass | R2Mismatch
datatype r2_detail = OutOfRange int int nat | Identical int int | Different int int

definition r2_script_validate :: "int \<Rightarrow> int \<Rightarrow> string \<Rightarrow> string list \<Rightarrow> r2_verdict \<times> r2_detail" where
  "r2_script_validate start end_line stored lines =
     (let total = int (length lines) in
      if start \<le> 0 \<or> end_line \<le> 0 \<or> total < start \<or> total < end_line
      then (R2Mismatch, OutOfRange start end_line (length lines))
      else if norm_body (join_with newline (py_slice (start - 1) end_line lines)) = norm_body stored
      then (R2Pass, Identical start end_line)
      else (R2Mismatch, Different start end_line))"

end
