(* ===== verification/SourceTextSafety.thy ===== *)
theory SourceTextSafety
  imports SourceText "HOL-Library.Sublist"
begin

text \<open>
  The scanner against its reference: a lexer with a single mode emits the braces of the code (\<open>True\<close> for an
  opening one), and the end of the body is the line on which the first closed word ends.
\<close>

section \<open>The reference\<close>

datatype mode = MCode | MLine | MBlock | MStr | MStrEsc | MChr | MChrEsc

function braces :: "string \<Rightarrow> mode \<Rightarrow> bool list \<times> mode" where
  "braces [] m = ([], m)"
| "braces (c # r) MStrEsc = braces r MStr"
| "braces (c # r) MChrEsc = braces r MChr"
| "braces (c # r) MStr = braces r (if c = CHR 0x5C then MStrEsc else if c = CHR 0x22 then MCode else MStr)"
| "braces (c # r) MChr = braces r (if c = CHR 0x5C then MChrEsc else if c = CHR 0x27 then MCode else MChr)"
| "braces (c # r) MLine = braces r MLine"
| "braces (c # r) MBlock =
     (if c = CHR ''*'' \<and> next_is (CHR ''/'') r then braces (tl r) MCode else braces r MBlock)"
| "braces (c # r) MCode =
     (if c = CHR ''/'' \<and> next_is (CHR ''/'') r then braces (tl r) MLine
      else if c = CHR ''/'' \<and> next_is (CHR ''*'') r then braces (tl r) MBlock
      else if c = CHR 0x22 then braces r MStr
      else if c = CHR 0x27 then braces r MChr
      else if c = CHR 0x7B then (True # fst (braces r MCode), snd (braces r MCode))
      else if c = CHR 0x7D then (False # fst (braces r MCode), snd (braces r MCode))
      else braces r MCode)"
  by pat_completeness auto
termination by (relation "measure (length \<circ> fst)") (auto simp: next_is_def)

definition line_start :: "mode \<Rightarrow> mode" where
  "line_start m = (if m = MLine then MCode else m)"

fun lines_braces :: "string list \<Rightarrow> mode \<Rightarrow> bool list" where
  "lines_braces [] m = []"
| "lines_braces (l # ls) m =
     fst (braces l (line_start m)) @ lines_braces ls (snd (braces l (line_start m)))"

text \<open>A closed word: after closing braces that belong to nobody, as many close as open.\<close>

definition closed_word :: "bool list \<Rightarrow> bool" where
  "closed_word w \<longleftrightarrow> (let u = dropWhile Not w in u \<noteq> [] \<and> count_list u True = count_list u False)"

definition closes :: "bool list \<Rightarrow> bool" where
  "closes w \<longleftrightarrow> (\<exists>p. prefix p w \<and> closed_word p)"

section \<open>The counter\<close>

fun feed :: "bool list \<Rightarrow> int \<Rightarrow> bool \<Rightarrow> (int \<times> bool) option" where
  "feed [] d op = Some (d, op)"
| "feed (True # w) d op = feed w (d + 1) True"
| "feed (False # w) d op = (if op then if d - 1 = 0 then None else feed w (d - 1) True else feed w d False)"

lemma feed_append: "feed (v @ w) d op = (case feed v d op of None \<Rightarrow> None | Some (e, p) \<Rightarrow> feed w e p)"
  by (induction v d op rule: feed.induct) auto

lemma feed_open:
  assumes "1 \<le> d"
  shows "feed w d True = None \<longleftrightarrow> (\<exists>p. prefix p w \<and> d + int (count_list p True) = int (count_list p False))"
  using assms
proof (induction w arbitrary: d)
  case (Cons b w)
  show ?case
  proof (cases b)
    case True
    have "(\<exists>p. prefix p (True # w) \<and> d + int (count_list p True) = int (count_list p False))
        \<longleftrightarrow> (\<exists>p. prefix p w \<and> (d + 1) + int (count_list p True) = int (count_list p False))"
      (is "?L \<longleftrightarrow> ?R")
    proof
      assume ?L
      then obtain p where p: "prefix p (True # w)" "d + int (count_list p True) = int (count_list p False)" by blast
      with Cons.prems obtain q where "p = True # q" "prefix q w" by (cases p) auto
      with p show ?R by (intro exI[of _ q]) simp
    next
      assume ?R
      then obtain p where "prefix p w" "(d + 1) + int (count_list p True) = int (count_list p False)" by blast
      then show ?L by (intro exI[of _ "True # p"]) simp
    qed
    with True Cons show ?thesis by simp
  next
    case False
    show ?thesis
    proof (cases "d = 1")
      case True
      then have "\<exists>p. prefix p (False # w) \<and> d + int (count_list p True) = int (count_list p False)"
        by (intro exI[of _ "[False]"]) simp
      with True False show ?thesis by simp
    next
      case d: False
      have "(\<exists>p. prefix p (False # w) \<and> d + int (count_list p True) = int (count_list p False))
          \<longleftrightarrow> (\<exists>p. prefix p w \<and> (d - 1) + int (count_list p True) = int (count_list p False))"
        (is "?L \<longleftrightarrow> ?R")
      proof
        assume ?L
        then obtain p where p: "prefix p (False # w)" "d + int (count_list p True) = int (count_list p False)" by blast
        with Cons.prems obtain q where "p = False # q" "prefix q w" by (cases p) auto
        with p show ?R by (intro exI[of _ q]) simp
      next
        assume ?R
        then obtain p where "prefix p w" "(d - 1) + int (count_list p True) = int (count_list p False)" by blast
        then show ?L by (intro exI[of _ "False # p"]) simp
      qed
      with False d Cons.prems Cons.IH[of "d - 1"] show ?thesis by simp
    qed
  qed
qed simp

lemma closes_False: "closes (False # w) = closes w"
proof
  assume "closes (False # w)"
  then obtain p where p: "prefix p (False # w)" "closed_word p" by (auto simp: closes_def)
  then obtain q where "p = False # q" "prefix q w" by (cases p) (auto simp: closed_word_def)
  with p(2) show "closes w" by (auto simp: closes_def closed_word_def)
next
  assume "closes w"
  then obtain p where "prefix p w" "closed_word p" by (auto simp: closes_def)
  then show "closes (False # w)" unfolding closes_def
    by (intro exI[of _ "False # p"]) (simp add: closed_word_def)
qed

lemma closes_True:
  "closes (True # w) \<longleftrightarrow> (\<exists>p. prefix p w \<and> 1 + int (count_list p True) = int (count_list p False))"
proof
  assume "closes (True # w)"
  then obtain p where p: "prefix p (True # w)" "closed_word p" by (auto simp: closes_def)
  then obtain q where "p = True # q" "prefix q w" by (cases p) (auto simp: closed_word_def)
  with p(2) show "\<exists>p. prefix p w \<and> 1 + int (count_list p True) = int (count_list p False)"
    by (intro exI[of _ q]) (simp add: closed_word_def)
next
  assume "\<exists>p. prefix p w \<and> 1 + int (count_list p True) = int (count_list p False)"
  then obtain p where "prefix p w" "1 + int (count_list p True) = int (count_list p False)" by blast
  then show "closes (True # w)" unfolding closes_def
    by (intro exI[of _ "True # p"]) (simp add: closed_word_def)
qed

lemma feed_closes: "feed w 0 False = None \<longleftrightarrow> closes w"
proof (induction w)
  case Nil
  show ?case by (auto simp: closes_def closed_word_def)
next
  case (Cons b w)
  then show ?case by (cases b) (simp_all add: closes_False closes_True feed_open)
qed

section \<open>The scanner runs the lexer and the counter at once\<close>

definition scan_of :: "mode \<Rightarrow> int \<Rightarrow> bool \<Rightarrow> scan" where
  "scan_of m d op = \<lparr>sc_depth = d, sc_open = op, sc_line_comment = (m = MLine), sc_block_comment = (m = MBlock),
     sc_string = (m = MStr \<or> m = MStrEsc), sc_char = (m = MChr \<or> m = MChrEsc), sc_escape = (m = MStrEsc \<or> m = MChrEsc)\<rparr>"

definition scan_agrees :: "string \<Rightarrow> mode \<Rightarrow> int \<Rightarrow> bool \<Rightarrow> bool" where
  "scan_agrees l m d op \<longleftrightarrow> (case feed (fst (braces l m)) d op of
     None \<Rightarrow> fst (scan_line l (scan_of m d op))
   | Some (e, p) \<Rightarrow> scan_line l (scan_of m d op) = (False, scan_of (snd (braces l m)) e p))"

lemma scan_agrees_step:
  assumes "braces l m = braces r k" "scan_line l (scan_of m d op) = scan_line r (scan_of k d op)"
  shows "scan_agrees l m d op = scan_agrees r k d op"
  unfolding scan_agrees_def assms ..

lemma scan_of_upd:
  "scan_of MStrEsc d op\<lparr>sc_escape := False\<rparr> = scan_of MStr d op"
  "scan_of MChrEsc d op\<lparr>sc_escape := False\<rparr> = scan_of MChr d op"
  "scan_of MStr d op\<lparr>sc_escape := True\<rparr> = scan_of MStrEsc d op"
  "scan_of MChr d op\<lparr>sc_escape := True\<rparr> = scan_of MChrEsc d op"
  "scan_of MStr d op\<lparr>sc_string := False\<rparr> = scan_of MCode d op"
  "scan_of MChr d op\<lparr>sc_char := False\<rparr> = scan_of MCode d op"
  "scan_of MBlock d op\<lparr>sc_block_comment := False\<rparr> = scan_of MCode d op"
  "scan_of MCode d op\<lparr>sc_line_comment := True\<rparr> = scan_of MLine d op"
  "scan_of MCode d op\<lparr>sc_block_comment := True\<rparr> = scan_of MBlock d op"
  "scan_of MCode d op\<lparr>sc_string := True\<rparr> = scan_of MStr d op"
  "scan_of MCode d op\<lparr>sc_char := True\<rparr> = scan_of MChr d op"
  "scan_of MCode d op\<lparr>sc_open := True\<rparr> = scan_of MCode d True"
  "scan_of MCode d op\<lparr>sc_depth := e\<rparr> = scan_of MCode e op"
  by (simp_all add: scan_of_def)

lemma scan_of_sel [simp]:
  "sc_depth (scan_of m d op) = d" "sc_open (scan_of m d op) = op"
  "sc_line_comment (scan_of m d op) = (m = MLine)" "sc_block_comment (scan_of m d op) = (m = MBlock)"
  "sc_string (scan_of m d op) = (m = MStr \<or> m = MStrEsc)" "sc_char (scan_of m d op) = (m = MChr \<or> m = MChrEsc)"
  "sc_escape (scan_of m d op) = (m = MStrEsc \<or> m = MChrEsc)"
  by (simp_all add: scan_of_def)

lemma scan_line_braces: "scan_agrees l m d op"
proof (induction l m arbitrary: d op rule: braces.induct)
  case (1 m d op)
  show ?case by (simp add: scan_agrees_def)
next
  case (2 c r d op)
  show ?case using 2[of d op] scan_agrees_step[of "c # r" MStrEsc r MStr] by (simp add: scan_of_upd)
next
  case (3 c r d op)
  show ?case using 3[of d op] scan_agrees_step[of "c # r" MChrEsc r MChr] by (simp add: scan_of_upd)
next
  case (4 c r d op)
  show ?case using 4[of d op]
    by (subst scan_agrees_step[of _ _ r "if c = CHR 0x5C then MStrEsc else if c = CHR 0x22 then MCode else MStr"])
      (simp_all add: scan_of_upd)
next
  case (5 c r d op)
  show ?case using 5[of d op]
    by (subst scan_agrees_step[of _ _ r "if c = CHR 0x5C then MChrEsc else if c = CHR 0x27 then MCode else MChr"])
      (simp_all add: scan_of_upd)
next
  case (6 c r d op)
  show ?case using 6[of d op] scan_agrees_step[of "c # r" MLine r MLine] by simp
next
  case (7 c r d op)
  show ?case
  proof (cases "c = CHR ''*'' \<and> next_is (CHR ''/'') r")
    case True
    then show ?thesis using 7(1)[of d op] scan_agrees_step[of "c # r" MBlock "tl r" MCode] by (simp add: scan_of_upd)
  next
    case False
    then show ?thesis using 7(2)[of d op] scan_agrees_step[of "c # r" MBlock r MBlock]
      by (cases "c = CHR ''*''") (simp_all add: scan_of_upd)
  qed
next
  case (8 c r d op)
  consider (line) "c = CHR ''/''" "next_is (CHR ''/'') r"
    | (block) "c = CHR ''/''" "\<not> next_is (CHR ''/'') r" "next_is (CHR ''*'') r"
    | (dquote) "c = CHR 0x22"
    | (squote) "c = CHR 0x27"
    | (obrace) "c = CHR 0x7B"
    | (cbrace) "c = CHR 0x7D"
    | (other) "\<not> (c = CHR ''/'' \<and> next_is (CHR ''/'') r)" "\<not> (c = CHR ''/'' \<and> next_is (CHR ''*'') r)"
        "c \<notin> {CHR 0x22, CHR 0x27, CHR 0x7B, CHR 0x7D}" by blast
  then show ?case
  proof cases
    case line
    then show ?thesis using 8(1)[of d op] scan_agrees_step[of "c # r" MCode "tl r" MLine] by (simp add: scan_of_upd)
  next
    case block
    then show ?thesis using 8(2)[of d op] scan_agrees_step[of "c # r" MCode "tl r" MBlock] by (simp add: scan_of_upd)
  next
    case dquote
    then show ?thesis using 8(3)[of d op] scan_agrees_step[of "c # r" MCode r MStr] by (simp add: scan_of_upd)
  next
    case squote
    then show ?thesis using 8(4)[of d op] scan_agrees_step[of "c # r" MCode r MChr] by (simp add: scan_of_upd)
  next
    case obrace
    then show ?thesis using 8(5)[of "d + 1" True]
      by (simp add: scan_of_upd scan_agrees_def split: option.splits prod.splits)
  next
    case cbrace
    then show ?thesis using 8(7)[of "d - 1" True] 8(7)[of d False]
      by (cases op) (simp_all add: scan_of_upd scan_agrees_def split: option.splits prod.splits)
  next
    case other
    then show ?thesis using 8(9)[of d op] scan_agrees_step[of "c # r" MCode r MCode]
      by (cases "c = CHR ''/''") (simp_all add: scan_of_upd)
  qed
qed

section \<open>Properties\<close>

text \<open>\<open>code_braces\<close>: the braces of some lines, read from their first one.\<close>

definition code_braces :: "string list \<Rightarrow> bool list" where
  "code_braces ls = lines_braces ls MCode"

lemma scan_line_start: "scan_of m d op\<lparr>sc_line_comment := False\<rparr> = scan_of (line_start m) d op"
  by (cases m) (simp_all add: scan_of_def line_start_def)

lemma scan_lines_split:
  "(\<exists>k < length ls. scan_lines ls n (scan_of m d op) = n + int k
      \<and> feed (lines_braces (take (Suc k) ls) m) d op = None \<and> feed (lines_braces (take k ls) m) d op \<noteq> None)
   \<or> scan_lines ls n (scan_of m d op) = 0 \<and> feed (lines_braces ls m) d op \<noteq> None"
proof (induction ls arbitrary: n m d op)
  case (Cons l ls)
  let ?b = "fst (braces l (line_start m))"
  note agree = scan_line_braces[of l "line_start m" d op, unfolded scan_agrees_def]
  show ?case
  proof (cases "feed ?b d op")
    case None
    with agree have "scan_lines (l # ls) n (scan_of m d op) = n"
      by (auto simp: scan_line_start split: prod.split)
    with None show ?thesis by (intro disjI1 exI[of _ 0]) simp
  next
    case (Some ep)
    obtain e p where ep: "ep = (e, p)" by (cases ep)
    let ?m = "snd (braces l (line_start m))"
    have step: "scan_lines (l # ls) n (scan_of m d op) = scan_lines ls (n + 1) (scan_of ?m e p)"
      using agree Some ep by (simp add: scan_line_start)
    have fd: "feed (?b @ w) d op = feed w e p" for w using Some ep by (simp add: feed_append)
    from Cons[of "n + 1" ?m e p] show ?thesis
    proof (elim disjE exE conjE)
      fix k assume "k < length ls" "scan_lines ls (n + 1) (scan_of ?m e p) = n + 1 + int k"
        "feed (lines_braces (take (Suc k) ls) ?m) e p = None" "feed (lines_braces (take k ls) ?m) e p \<noteq> None"
      then show ?thesis using step fd by (intro disjI1 exI[of _ "Suc k"]) simp
    next
      assume "scan_lines ls (n + 1) (scan_of ?m e p) = 0" "feed (lines_braces ls ?m) e p \<noteq> None"
      then show ?thesis using step fd by simp
    qed
  qed
qed simp

lemma lines_braces_append: "\<exists>v. lines_braces (xs @ ys) m = lines_braces xs m @ v"
  by (induction xs arbitrary: m) auto

lemma closes_take:
  assumes "closes (code_braces (take k ls))"
  shows "closes (code_braces ls)"
proof -
  obtain v where "lines_braces (take k ls @ drop k ls) MCode = lines_braces (take k ls) MCode @ v"
    using lines_braces_append by blast
  with assms show ?thesis unfolding closes_def code_braces_def
    by (metis append_take_drop_id prefix_order.trans prefixI)
qed

text \<open>
  C33: the end of a function is exact: for a start inside the file it is the first line, at most 2000 lines from the
  start, by which as many braces close as open, braces in comments and in literals not counted; when there is no such line the result is 0,
  and so it is for a start outside the file.
\<close>

theorem function_end_exact:
  "(let e = find_function_end lines start; body = take 2000 (drop (nat (start - 1)) lines) in
     if start < 1 \<or> int (length lines) < start then e = 0
     else if closes (code_braces body)
     then start \<le> e \<and> e \<le> int (length lines) \<and> e < start + 2000
       \<and> closes (code_braces (take (nat (e - start) + 1) body)) \<and> \<not> closes (code_braces (take (nat (e - start)) body))
     else e = 0)"
proof (cases "start < 1 \<or> int (length lines) < start")
  case True
  then show ?thesis by (auto simp: find_function_end_def Let_def)
next
  case False
  define body where "body = take 2000 (drop (nat (start - 1)) lines)"
  have e: "find_function_end lines start = scan_lines body start (scan_of MCode 0 False)"
    using False by (simp add: find_function_end_def body_def scan_start_def scan_of_def)
  have len: "int (length body) \<le> int (length lines) - start + 1" "length body \<le> 2000"
    using False by (auto simp: body_def)
  from scan_lines_split[of body start MCode 0 False]
  show ?thesis
  proof (elim disjE exE conjE)
    fix k assume k: "k < length body" "scan_lines body start (scan_of MCode 0 False) = start + int k"
      "feed (lines_braces (take (Suc k) body) MCode) 0 False = None" "feed (lines_braces (take k body) MCode) 0 False \<noteq> None"
    have "closes (code_braces (take (Suc k) body))" "\<not> closes (code_braces (take k body))"
      using k(3,4) by (simp_all add: feed_closes code_braces_def)
    moreover from this(1) have "closes (code_braces body)" by (rule closes_take)
    moreover have "nat (start + int k - start) = k" by simp
    ultimately show ?thesis using False e k(1,2) len by (simp add: Let_def flip: body_def)
  next
    assume "scan_lines body start (scan_of MCode 0 False) = 0" "feed (lines_braces body MCode) 0 False \<noteq> None"
    then show ?thesis using False e by (simp add: Let_def body_def feed_closes code_braces_def)
  qed
qed

text \<open>
  Two C sources the scanner misreads: after a backslash that continues a string on the next line it skips the first
  character of that line, and a digit separator opens a character literal.
\<close>

lemma continued_string_hides_end:
  "find_function_end [''void f() { s = '' @ [CHR 0x22, CHR 0x5C], [CHR 0x22] @ ''; }''] 1 = 0"
  by (simp add: find_function_end_def scan_start_def next_is_def)

lemma digit_separator_hides_end:
  "find_function_end [''int f() { return 1'' @ [CHR 0x27] @ ''000; }''] 1 = 0"
  by (simp add: find_function_end_def scan_start_def next_is_def)

end
