(* ===== verification/FunctionDB.thy ===== *)
theory FunctionDB
  imports SourceText Confidence FunctionsList
begin

text \<open>
  The function database of a source file or of the whole run (\<open>app/pipeline/funcdb.py\<close>): its two tables as
  lists of rows in insertion order, one definition per method. A statement that SQLite rejects, or a conversion that
  raises, leaves the tables as they are and is reported by \<open>None\<close> or \<open>False\<close>; the time stamps are left out. The
  column \<open>analysis\<close> holds the decoded JSON value, \<open>None\<close> for NULL. Foreign keys are not enforced
  (SQLite's default).
\<close>

section \<open>Tables\<close>

record func_row =
  fn_hash :: string
  fn_file :: string
  fn_name :: string
  fn_signature :: string
  fn_start :: int
  fn_end :: int
  fn_body :: string
  fn_body_lines :: nat
  fn_analysis :: "pyval option"
  fn_input :: "bool option"
  fn_role :: string
  fn_confidence :: pyval
  fn_r3 :: "string option"
  fn_r4 :: "string option"
  fn_category :: string

record file_row =
  fm_hash :: string
  fm_path :: string
  fm_rel :: string
  fm_base :: string
  fm_total :: nat

record func_db =
  fdb_files :: "file_row list"
  fdb_funcs :: "func_row list"

definition empty_fdb :: func_db where
  "empty_fdb = \<lparr>fdb_files = [], fdb_funcs = []\<rparr>"

text \<open>\<open>INSERT OR IGNORE\<close> and \<open>INSERT OR REPLACE\<close> on a table with a key.\<close>

definition insert_new :: "('r \<Rightarrow> 'k) \<Rightarrow> 'r \<Rightarrow> 'r list \<Rightarrow> 'r list" where
  "insert_new key r rows = (if key r \<in> key ` set rows then rows else rows @ [r])"

definition insert_over :: "('r \<Rightarrow> 'k) \<Rightarrow> 'r \<Rightarrow> 'r list \<Rightarrow> 'r list" where
  "insert_over key r rows = filter (\<lambda>x. key x \<noteq> key r) rows @ [r]"

definition find_func :: "func_db \<Rightarrow> string \<Rightarrow> func_row option" where
  "find_func db h = find (\<lambda>r. fn_hash r = h) (fdb_funcs db)"

definition upd_func :: "string \<Rightarrow> (func_row \<Rightarrow> func_row) \<Rightarrow> func_db \<Rightarrow> func_db" where
  "upd_func h f db = db\<lparr>fdb_funcs := map (\<lambda>r. if fn_hash r = h then f r else r) (fdb_funcs db)\<rparr>"

definition body_lines_of :: "string \<Rightarrow> nat" where
  "body_lines_of body = (if py_strip body = [] then 0 else count_list body (CHR 0x0A) + 1)"

text \<open>A row as the INSERT statements write it: the other columns get their defaults.\<close>

definition new_row :: "string \<Rightarrow> string \<Rightarrow> string \<Rightarrow> string \<Rightarrow> int \<Rightarrow> int \<Rightarrow> string \<Rightarrow> func_row" where
  "new_row h file name sig start end_line body =
     \<lparr>fn_hash = h, fn_file = file, fn_name = name, fn_signature = sig, fn_start = start, fn_end = end_line, fn_body = body,
      fn_body_lines = body_lines_of body, fn_analysis = None, fn_input = None, fn_role = [], fn_confidence = PNone,
      fn_r3 = None, fn_r4 = None, fn_category = []\<rparr>"

text \<open>\<open>Path(p).name\<close>.\<close>

definition path_name :: "string \<Rightarrow> string" where
  "path_name p = (case rev (filter (\<lambda>s. s \<noteq> [] \<and> s \<noteq> ''.'') (split_on (CHR ''/'') p)) of [] \<Rightarrow> [] | s # _ \<Rightarrow> s)"

section \<open>Writing\<close>

definition write_functions :: "string \<Rightarrow> string \<Rightarrow> func_extract list \<Rightarrow> string list \<Rightarrow> string \<Rightarrow> func_db \<Rightarrow> func_db" where
  "write_functions file path funcs hashes rel db =
     (let rows = map (\<lambda>(fe, h). new_row h file (fe_name fe) (fe_signature fe) (fe_start fe) (fe_end fe) (fe_body fe)) (zip funcs hashes)
      in db\<lparr>fdb_files := insert_over fm_hash \<lparr>fm_hash = file, fm_path = path, fm_rel = rel, fm_base = path_name path, fm_total = length funcs\<rparr> (fdb_files db),
            fdb_funcs := foldl (\<lambda>rs r. insert_new fn_hash r rs) (fdb_funcs db) rows\<rparr>)"

text \<open>The keyword arguments of \<open>update_function\<close>; \<open>None\<close> is an absent one (or a Python \<open>None\<close>).\<close>

record func_update =
  u_name :: "string option"
  u_signature :: "string option"
  u_start :: "int option"
  u_end :: "int option"
  u_body :: "string option"

definition given :: "'a option \<Rightarrow> 'a \<Rightarrow> 'a" where
  "given x d = (case x of None \<Rightarrow> d | Some y \<Rightarrow> y)"

definition apply_update :: "func_update \<Rightarrow> func_row \<Rightarrow> func_row" where
  "apply_update u r = r\<lparr>fn_name := given (u_name u) (fn_name r), fn_signature := given (u_signature u) (fn_signature r),
     fn_start := given (u_start u) (fn_start r), fn_end := given (u_end u) (fn_end r),
     fn_body := given (u_body u) (fn_body r),
     fn_body_lines := (case u_body u of None \<Rightarrow> fn_body_lines r | Some b \<Rightarrow> body_lines_of b)\<rparr>"

definition update_function :: "string \<Rightarrow> func_update \<Rightarrow> func_db \<Rightarrow> func_db" where
  "update_function h u db =
     (if u = \<lparr>u_name = None, u_signature = None, u_start = None, u_end = None, u_body = None\<rparr> then db
      else upd_func h (apply_update u) db)"

definition delete_function :: "string \<Rightarrow> func_db \<Rightarrow> func_db" where
  "delete_function h db = db\<lparr>fdb_funcs := filter (\<lambda>r. fn_hash r \<noteq> h) (fdb_funcs db)\<rparr>"

definition role_of_analysis :: "dict \<Rightarrow> string" where
  "role_of_analysis a = (let role = text_of (get a ''entry_role'') in if role \<in> set valid_entry_roles then role else [])"

definition set_analysis :: "string \<Rightarrow> dict \<Rightarrow> func_db \<Rightarrow> func_db option" where
  "set_analysis h a db = map_option (\<lambda>c. upd_func h (\<lambda>r. r\<lparr>fn_analysis := Some (PDict a),
      fn_input := Some (truthy (get a ''has_external_input'')), fn_role := role_of_analysis a,
      fn_confidence := flt_hundredths c\<rparr>) db) (compute_confidence a [] [])"

definition update_confidence :: "string \<Rightarrow> pyval \<Rightarrow> func_db \<Rightarrow> func_db option" where
  "update_confidence h c db = map_option (\<lambda>q. upd_func h (\<lambda>r. r\<lparr>fn_confidence := flt_round4 q\<rparr>) db) (py_float c)"

definition update_r3_decision :: "string \<Rightarrow> string \<Rightarrow> func_db \<Rightarrow> func_db" where
  "update_r3_decision h d = upd_func h (\<lambda>r. r\<lparr>fn_r3 := Some d\<rparr>)"

definition set_fast_mode_result :: "string \<Rightarrow> string \<Rightarrow> bool \<Rightarrow> func_db \<Rightarrow> func_db" where
  "set_fast_mode_result h d i = upd_func h (\<lambda>r. r\<lparr>fn_r3 := Some d, fn_input := Some i\<rparr>)"

definition update_r4_decision :: "string \<Rightarrow> string \<Rightarrow> func_db \<Rightarrow> func_db" where
  "update_r4_decision h d = upd_func h (\<lambda>r. r\<lparr>fn_r4 := Some d\<rparr>)"

definition update_entry_category :: "string \<Rightarrow> string \<Rightarrow> func_db \<Rightarrow> func_db" where
  "update_entry_category h c = upd_func h (\<lambda>r. r\<lparr>fn_category := c\<rparr>)"

text \<open>One function of the JSON file that \<open>sync_from_json\<close> reads; an absent text is \<open>None\<close>.\<close>

record json_func =
  jf_hash :: string
  jf_name :: string
  jf_signature :: string
  jf_start :: int
  jf_end :: int
  jf_body :: "string option"
  jf_analysis :: "pyval option"

definition row_of_json :: "string \<Rightarrow> json_func \<Rightarrow> func_row" where
  "row_of_json file j =
     (let a = (case jf_analysis j of Some v \<Rightarrow> if truthy v then Some v else None | None \<Rightarrow> None)
      in (new_row (jf_hash j) file (jf_name j) (jf_signature j) (jf_start j) (jf_end j) (or_empty (jf_body j)))
         \<lparr>fn_analysis := a,
          fn_input := (case a of Some (PDict d) \<Rightarrow> Some (truthy (get d ''has_external_input'')) | _ \<Rightarrow> None)\<rparr>)"

definition sync_from_json :: "string \<Rightarrow> string \<Rightarrow> string \<Rightarrow> json_func list \<Rightarrow> func_db \<Rightarrow> func_db" where
  "sync_from_json file path rel funcs db =
     (let js = filter (\<lambda>j. jf_hash j \<noteq> []) funcs;
          files = (if file = [] then fdb_files db
            else insert_over fm_hash \<lparr>fm_hash = file, fm_path = path, fm_rel = rel, fm_base = path_name path, fm_total = length funcs\<rparr> (fdb_files db));
          rows = foldl (\<lambda>rs r. insert_over fn_hash r rs) (fdb_funcs db) (map (row_of_json file) js);
          keep = (if file \<noteq> [] \<and> js \<noteq> [] then filter (\<lambda>r. fn_file r = file \<longrightarrow> fn_hash r \<in> jf_hash ` set js) rows else rows)
      in db\<lparr>fdb_files := files, fdb_funcs := keep\<rparr>)"

definition upsert_function :: "string \<Rightarrow> string \<Rightarrow> string \<Rightarrow> string \<Rightarrow> int \<Rightarrow> int \<Rightarrow> string \<Rightarrow> func_db \<Rightarrow> func_db" where
  "upsert_function h file name sig start end_line body db =
     db\<lparr>fdb_funcs := insert_over fn_hash (new_row h file name sig start end_line body) (fdb_funcs db)\<rparr>"

section \<open>Corrections\<close>

text \<open>
  A value bound to a TEXT column: numbers become text, \<open>None\<close> is NULL (\<open>Some None\<close>), and SQLite cannot bind a
  list or an object (\<open>None\<close>).
\<close>

fun bind_text :: "pyval \<Rightarrow> string option option" where
  "bind_text PNone = Some None"
| "bind_text (PStr s) = Some (Some s)"
| "bind_text (PInt i) = Some (Some (int_str i))"
| "bind_text (PBool b) = Some (Some (if b then ''1'' else ''0''))"
| "bind_text (PFlt q t) = Some (Some t)"
| "bind_text _ = None"

definition int_field :: "dict \<Rightarrow> string \<Rightarrow> int option" where
  "int_field c k = py_int (py_or (get c k) (PInt 0))"

text \<open>The lines from \<open>start\<close> to \<open>end_line\<close>, or 150 lines when the end is not known.\<close>

definition cut_body :: "string list \<Rightarrow> int \<Rightarrow> int \<Rightarrow> string" where
  "cut_body lines start end_line = join_with newline
     (py_slice (start - 1) (if start \<le> end_line then end_line else start - 1 + 150) lines)"

definition add_function :: "(string \<Rightarrow> int \<Rightarrow> string) \<Rightarrow> string list \<Rightarrow> string \<Rightarrow> dict \<Rightarrow> func_db \<Rightarrow> func_db \<times> bool" where
  "add_function hash_of lines file c db =
     (case int_field c ''start_line'' of None \<Rightarrow> (db, False) | Some start \<Rightarrow>
      (let name = get_or c ''name'' (PStr []) in
       if \<not> truthy name \<or> start = 0 then (db, True)
       else case int_field c ''end_line'' of None \<Rightarrow> (db, False) | Some e \<Rightarrow>
         (let end_line = (if e \<le> 0 \<and> lines \<noteq> [] then find_function_end lines start else e);
              body = (if lines \<noteq> [] \<and> 0 < start then cut_body lines start end_line else [])
          in (case (bind_text name, bind_text (get_or c ''signature'' name)) of
               (Some (Some n), Some (Some sig)) \<Rightarrow>
                 (db\<lparr>fdb_funcs := insert_new fn_hash (new_row (hash_of (py_str name) start) file n sig start end_line body) (fdb_funcs db)\<rparr>, True)
             | (Some (Some n), Some None) \<Rightarrow> (db, True)
             | _ \<Rightarrow> (db, False)))))"

definition positive :: "int \<Rightarrow> int option" where
  "positive i = (if 0 < i then Some i else None)"

text \<open>The updates a correction asks for; the body is always cut from the file again.\<close>

definition correction_update :: "string list \<Rightarrow> func_row option \<Rightarrow> string option \<Rightarrow> string option \<Rightarrow> int \<Rightarrow> int \<Rightarrow> func_update" where
  "correction_update lines row name sig start end_line =
     (let (cur_start, cur_end) =
            (if 0 < start then (start, if 0 < end_line then end_line else 0)
             else case row of Some r \<Rightarrow> (fn_start r, fn_end r) | None \<Rightarrow> (0, if 0 < end_line then end_line else 0));
          u = \<lparr>u_name = name, u_signature = sig, u_start = positive start, u_end = positive end_line, u_body = None\<rparr>
      in if 0 < cur_start \<and> lines \<noteq> []
         then (let e = (if cur_end \<le> 0 then find_function_end lines cur_start else cur_end)
               in u\<lparr>u_end := (if cur_end \<le> 0 then Some e else u_end u), u_body := Some (cut_body lines cur_start e)\<rparr>)
         else u)"

definition truthy_text :: "pyval \<Rightarrow> string option option" where
  "truthy_text v = (if truthy v then bind_text v else Some None)"

definition correct_function :: "string list \<Rightarrow> string \<Rightarrow> dict \<Rightarrow> func_db \<Rightarrow> func_db \<times> bool" where
  "correct_function lines h c db =
     (case (int_field c ''start_line'', int_field c ''end_line'', truthy_text (get c ''name''), truthy_text (get c ''signature'')) of
        (Some start, Some end_line, Some name, Some sig) \<Rightarrow>
          (update_function h (correction_update lines (find_func db h) name sig start end_line) db, True)
      | _ \<Rightarrow> (db, False))"

definition apply_correction :: "(string \<Rightarrow> int \<Rightarrow> string) \<Rightarrow> string list \<Rightarrow> string \<Rightarrow> dict \<Rightarrow> func_db \<Rightarrow> func_db \<times> bool" where
  "apply_correction hash_of lines file c db =
     (let fh = get_or c ''func_hash'' (PStr []) in
      if \<not> truthy fh then (db, True)
      else if truthy (get c ''delete'') then
        (case bind_text fh of Some (Some h) \<Rightarrow> (delete_function h db, True) | _ \<Rightarrow> (db, False))
      else if fh = PStr ''new'' then add_function hash_of lines file c db
      else case bind_text fh of Some (Some h) \<Rightarrow> correct_function lines h c db | _ \<Rightarrow> (db, False))"

text \<open>An exception ends the loop; what was written before it stays.\<close>

fun apply_all :: "(string \<Rightarrow> int \<Rightarrow> string) \<Rightarrow> string list \<Rightarrow> string \<Rightarrow> dict list \<Rightarrow> func_db \<Rightarrow> func_db \<times> bool" where
  "apply_all hash_of lines file [] db = (db, True)"
| "apply_all hash_of lines file (c # cs) db =
     (case apply_correction hash_of lines file c db of
        (db', True) \<Rightarrow> apply_all hash_of lines file cs db' | (db', False) \<Rightarrow> (db', False))"

text \<open>The file's text is \<open>None\<close> when it cannot be read; \<open>LIMIT 1\<close> takes the first file row.\<close>

definition apply_corrections :: "(string \<Rightarrow> string) \<Rightarrow> string \<Rightarrow> string option \<Rightarrow> dict list \<Rightarrow> func_db \<Rightarrow> func_db \<times> bool" where
  "apply_corrections md5 abspath source cs db =
     apply_all (compute_func_hash md5 abspath) (split_lines (or_empty source))
       (case fdb_files db of [] \<Rightarrow> [] | f # _ \<Rightarrow> fm_hash f) cs db"

section \<open>Reading\<close>

definition get_function :: "func_db \<Rightarrow> string \<Rightarrow> func_row option" where
  "get_function db h = find_func db h"

definition get_next_boundary_line :: "func_db \<Rightarrow> string \<Rightarrow> int \<Rightarrow> int option" where
  "get_next_boundary_line db file start =
     (case map fn_start (filter (\<lambda>r. fn_file r = file \<and> start < fn_start r) (fdb_funcs db)) of
        [] \<Rightarrow> None
      | x # xs \<Rightarrow> (let m = foldl min x xs in if m = 0 then None else Some m))"

text \<open>The left join with the file table; NULL sorts before every text.\<close>

definition file_of :: "func_db \<Rightarrow> func_row \<Rightarrow> file_row option" where
  "file_of db r = find (\<lambda>f. fm_hash f = fn_file r) (fdb_files db)"

definition text_key :: "string option \<Rightarrow> string list" where
  "text_key x = (case x of None \<Rightarrow> [] | Some s \<Rightarrow> [s])"

definition rel_key :: "func_db \<Rightarrow> func_row \<Rightarrow> string list" where
  "rel_key db r = text_key (map_option fm_rel (file_of db r))"

definition base_key :: "func_db \<Rightarrow> func_row \<Rightarrow> string list" where
  "base_key db r = text_key (map_option fm_base (file_of db r))"

definition internal_entry :: string where
  "internal_entry = [CHR 0xE5, CHR 0x86, CHR 0x85, CHR 0xE9, CHR 0x83, CHR 0xA8, CHR 0xE5, CHR 0xAE, CHR 0x9E, CHR 0xE7, CHR 0x8E, CHR 0xB0]"

definition is_kept :: "func_row \<Rightarrow> bool" where
  "is_kept r \<longleftrightarrow> fn_r3 r = Some ''keep'' \<and> (fn_r4 r = None \<or> fn_r4 r = Some ''keep'') \<and> fn_category r \<noteq> internal_entry"

definition tag_of_row :: "func_row \<Rightarrow> pyval" where
  "tag_of_row r = (case fn_analysis r of Some (PDict a) \<Rightarrow> get_or a ''tag'' (PStr []) | _ \<Rightarrow> PStr [])"

definition get_keep_entries :: "func_db \<Rightarrow> (func_row \<times> file_row option \<times> pyval) list" where
  "get_keep_entries db = map (\<lambda>r. (r, file_of db r, tag_of_row r))
     (sort_key (rel_key db) (sort_key fn_start (filter is_kept (fdb_funcs db))))"

definition get_all_meta :: "func_db \<Rightarrow> (func_row \<times> file_row option) list" where
  "get_all_meta db = map (\<lambda>r. (r, file_of db r)) (sort_key fn_start (fdb_funcs db))"

definition get_functions_for_r2 :: "func_db \<Rightarrow> (func_row \<times> file_row option) list" where
  "get_functions_for_r2 db = get_all_meta db"

definition get_entries :: "func_db \<Rightarrow> (func_row \<times> file_row option) list" where
  "get_entries db = map (\<lambda>r. (r, file_of db r)) (sort_key fn_start (filter (\<lambda>r. fn_input r = Some True) (fdb_funcs db)))"

definition get_all_entries_light :: "func_db \<Rightarrow> (func_row \<times> file_row option) list" where
  "get_all_entries_light db = get_entries db"

definition fdb_stats :: "func_db \<Rightarrow> nat \<times> nat \<times> nat" where
  "fdb_stats db = (length (fdb_funcs db), length (filter (\<lambda>r. fn_analysis r \<noteq> None) (fdb_funcs db)),
     length (filter (\<lambda>r. fn_input r = Some True) (fdb_funcs db)))"

definition page_filter :: "string option \<Rightarrow> func_row \<Rightarrow> bool" where
  "page_filter f r = (if f = Some ''keep'' then fn_r3 r = Some ''keep''
     else if f = Some ''filter'' then fn_r3 r = Some ''filter''
     else if f = Some ''entry'' then fn_input r = Some True
     else if f = Some ''pending'' then fn_r3 r = None
     else True)"

definition paginated_rows :: "func_db \<Rightarrow> string option \<Rightarrow> func_row list" where
  "paginated_rows db f = sort_key (base_key db) (sort_key fn_start (filter (page_filter f) (fdb_funcs db)))"

definition list_functions_paginated :: "func_db \<Rightarrow> nat \<Rightarrow> nat \<Rightarrow> string option \<Rightarrow> (func_row \<times> file_row option) list \<times> nat" where
  "list_functions_paginated db offset limit f =
     (map (\<lambda>r. (r, file_of db r)) (take limit (drop offset (paginated_rows db f))),
      length (filter (page_filter f) (fdb_funcs db)))"

end
