(* ===== verification/FunctionDBSafety.thy ===== *)
theory FunctionDBSafety
  imports FunctionDB "HOL-Library.Multiset"
begin

text \<open>
  What the function database keeps: its keys and its line counts under every operation, finished work when a run is
  resumed, and the agreement of stored bodies with the file after a correction.
\<close>

section \<open>Rows by their key\<close>

interpretation funcs: keyed_table find_func upd_func fn_hash
proof
  show "find_func s k = Some r \<Longrightarrow> fn_hash r = k" for s k r
    unfolding find_func_def by (drule find_by_key) simp
  show "(\<And>r. fn_hash (f r) = fn_hash r) \<Longrightarrow>
      find_func (upd_func k f s) j = (if j = k then map_option f (find_func s k) else find_func s j)" for f k s j
    unfolding find_func_def upd_func_def using find_map_key[of fn_hash f] by simp
qed

lemma hash_apply_update [simp]: "fn_hash (apply_update u r) = fn_hash r"
  by (simp add: apply_update_def)

lemma find_update_function:
  "find_func (update_function h u db) j = (if j = h then map_option (apply_update u) (find_func db h) else find_func db j)"
proof (cases "u = \<lparr>u_name = None, u_signature = None, u_start = None, u_end = None, u_body = None\<rparr>")
  case True
  have "apply_update u r = r" for r by (simp add: True apply_update_def given_def)
  then have "map_option (apply_update u) x = x" for x by (simp add: map_option_idI)
  with True show ?thesis by (simp add: update_function_def)
next
  case False
  then show ?thesis by (simp add: update_function_def funcs.lookup_modify)
qed

section \<open>The invariant\<close>

definition row_ok :: "func_row \<Rightarrow> bool" where
  "row_ok r \<longleftrightarrow> fn_body_lines r = body_lines_of (fn_body r) \<and> (fn_role r = [] \<or> fn_role r \<in> set valid_entry_roles)"

definition fdb_ok :: "func_db \<Rightarrow> bool" where
  "fdb_ok db \<longleftrightarrow> distinct (map fn_hash (fdb_funcs db)) \<and> distinct (map fm_hash (fdb_files db)) \<and> list_all row_ok (fdb_funcs db)"

lemma fdb_okI:
  "distinct (map fn_hash (fdb_funcs db)) \<Longrightarrow> distinct (map fm_hash (fdb_files db)) \<Longrightarrow> list_all row_ok (fdb_funcs db) \<Longrightarrow> fdb_ok db"
  by (simp add: fdb_ok_def)

lemma distinct_insert_over: "distinct (map key rows) \<Longrightarrow> distinct (map key (insert_over key r rows))"
  by (auto simp: insert_over_def distinct_map intro: inj_on_subset)

lemma distinct_insert_new: "distinct (map key rows) \<Longrightarrow> distinct (map key (insert_new key r rows))"
  by (auto simp: insert_new_def)

lemma list_all_insert_over: "list_all P rows \<Longrightarrow> P r \<Longrightarrow> list_all P (insert_over key r rows)"
  by (auto simp: insert_over_def list_all_iff)

lemma list_all_insert_new: "list_all P rows \<Longrightarrow> P r \<Longrightarrow> list_all P (insert_new key r rows)"
  by (auto simp: insert_new_def list_all_iff)

lemma foldl_table:
  assumes "distinct (map key rows)" "list_all P rows" "list_all P rs"
    and "\<And>r rows. distinct (map key rows) \<Longrightarrow> distinct (map key (ins r rows))"
    and "\<And>r rows. list_all P rows \<Longrightarrow> P r \<Longrightarrow> list_all P (ins r rows)"
  shows "distinct (map key (foldl (\<lambda>rs r. ins r rs) rows rs)) \<and> list_all P (foldl (\<lambda>rs r. ins r rs) rows rs)"
  using assms(1-3) by (induction rs arbitrary: rows) (use assms(4,5) in auto)

lemma row_ok_new: "row_ok (new_row h file name sig s e body)"
  by (simp add: row_ok_def new_row_def)

lemma row_ok_json: "row_ok (row_of_json file j)"
  by (simp add: row_ok_def row_of_json_def new_row_def Let_def)

lemma row_ok_update: "row_ok r \<Longrightarrow> row_ok (apply_update u r)"
  by (simp add: row_ok_def apply_update_def given_def split: option.split)

lemma ok_upd_func:
  assumes "fdb_ok db" "\<And>r. fn_hash (f r) = fn_hash r" "\<And>r. row_ok r \<Longrightarrow> row_ok (f r)"
  shows "fdb_ok (upd_func h f db)"
proof -
  have "map fn_hash (map (\<lambda>r. if fn_hash r = h then f r else r) (fdb_funcs db)) = map fn_hash (fdb_funcs db)"
    by (rule map_key_upd) (rule assms(2))
  with assms(1) have "distinct (map fn_hash (fdb_funcs (upd_func h f db)))" by (simp add: upd_func_def fdb_ok_def del: map_map)
  moreover have "list_all row_ok (fdb_funcs (upd_func h f db))"
    using assms(1,3) by (auto simp: upd_func_def fdb_ok_def list_all_iff)
  ultimately show ?thesis using assms(1) by (simp add: fdb_ok_def) (simp add: upd_func_def)
qed

lemma ok_write_functions:
  assumes "fdb_ok db"
  shows "fdb_ok (write_functions file path funcs hashes rel db)"
proof -
  let ?new = "map (\<lambda>(fe, h). new_row h file (fe_name fe) (fe_signature fe) (fe_start fe) (fe_end fe) (fe_body fe)) (zip funcs hashes)"
  let ?rows = "foldl (\<lambda>rs r. insert_new fn_hash r rs) (fdb_funcs db) ?new"
  have "list_all row_ok ?new" by (auto simp: list_all_iff row_ok_new)
  then have "distinct (map fn_hash ?rows) \<and> list_all row_ok ?rows"
    using assms by (intro foldl_table) (auto simp: fdb_ok_def distinct_insert_new list_all_insert_new)
  then show ?thesis using assms by (simp add: write_functions_def Let_def fdb_ok_def distinct_insert_over)
qed

lemma ok_update_function: "fdb_ok db \<Longrightarrow> fdb_ok (update_function h u db)"
  by (auto simp: update_function_def intro: ok_upd_func row_ok_update)

lemma ok_delete_function: "fdb_ok db \<Longrightarrow> fdb_ok (delete_function h db)"
  by (auto simp: delete_function_def fdb_ok_def list_all_iff distinct_map_filter)

lemma ok_set_analysis: "fdb_ok db \<Longrightarrow> set_analysis h a db = Some db' \<Longrightarrow> fdb_ok db'"
  by (auto simp: set_analysis_def role_of_analysis_def row_ok_def Let_def intro!: ok_upd_func)

lemma ok_update_confidence: "fdb_ok db \<Longrightarrow> update_confidence h c db = Some db' \<Longrightarrow> fdb_ok db'"
  by (auto simp: update_confidence_def row_ok_def intro!: ok_upd_func)

lemma ok_decisions:
  assumes "fdb_ok db"
  shows "fdb_ok (update_r3_decision h d db)" "fdb_ok (update_r4_decision h d db)" "fdb_ok (set_fast_mode_result h d i db)"
    "fdb_ok (update_entry_category h d db)"
  unfolding update_r3_decision_def update_r4_decision_def set_fast_mode_result_def update_entry_category_def
  using assms by (auto intro!: ok_upd_func simp: row_ok_def)

lemma ok_sync_from_json: "fdb_ok db \<Longrightarrow> fdb_ok (sync_from_json file path rel js db)"
proof -
  assume ok: "fdb_ok db"
  let ?rows = "foldl (\<lambda>rs r. insert_over fn_hash r rs) (fdb_funcs db) (map (row_of_json file) (filter (\<lambda>j. jf_hash j \<noteq> []) js))"
  have "distinct (map fn_hash ?rows) \<and> list_all row_ok ?rows"
    using ok by (intro foldl_table) (simp_all add: fdb_ok_def list.pred_map list.pred_True comp_def row_ok_json distinct_insert_over list_all_insert_over)
  with ok show ?thesis
    by (auto simp: sync_from_json_def Let_def fdb_ok_def distinct_insert_over distinct_map_filter list_all_iff)
qed

lemma ok_upsert_function: "fdb_ok db \<Longrightarrow> fdb_ok (upsert_function h file name sig s e body db)"
  by (simp add: upsert_function_def fdb_ok_def distinct_insert_over list_all_insert_over row_ok_new)

lemma ok_add_function: "fdb_ok db \<Longrightarrow> fdb_ok (fst (add_function hash_of lines file c db))"
  by (auto simp: add_function_def Let_def fdb_ok_def distinct_insert_new list_all_insert_new row_ok_new split: option.split)

lemma ok_correct_function: "fdb_ok db \<Longrightarrow> fdb_ok (fst (correct_function lines h c db))"
  by (auto simp: correct_function_def ok_update_function split: option.split)

lemma ok_apply_correction: "fdb_ok db \<Longrightarrow> fdb_ok (fst (apply_correction hash_of lines file c db))"
  by (auto simp: apply_correction_def Let_def ok_delete_function ok_add_function ok_correct_function split: option.split)

lemma ok_apply_all: "fdb_ok db \<Longrightarrow> fdb_ok (fst (apply_all hash_of lines file cs db))"
proof (induction cs arbitrary: db)
  case (Cons c cs)
  obtain db' b where c: "apply_correction hash_of lines file c db = (db', b)" by (cases "apply_correction hash_of lines file c db")
  with ok_apply_correction[OF Cons.prems] have "fdb_ok db'" by (metis fst_conv)
  with c Cons.IH show ?case by (cases b) simp_all
qed simp

text \<open>Everything the stages of a run do to the database.\<close>

inductive fdb_step :: "func_db \<Rightarrow> func_db \<Rightarrow> bool" where
  st_write: "fdb_step db (write_functions file path funcs hashes rel db)"
| st_update: "fdb_step db (update_function h u db)"
| st_delete: "fdb_step db (delete_function h db)"
| st_analysis: "set_analysis h a db = Some db' \<Longrightarrow> fdb_step db db'"
| st_confidence: "update_confidence h c db = Some db' \<Longrightarrow> fdb_step db db'"
| st_r3: "fdb_step db (update_r3_decision h d db)"
| st_r4: "fdb_step db (update_r4_decision h d db)"
| st_fast: "fdb_step db (set_fast_mode_result h d i db)"
| st_category: "fdb_step db (update_entry_category h c db)"
| st_sync: "fdb_step db (sync_from_json file path rel js db)"
| st_upsert: "fdb_step db (upsert_function h file name sig s e body db)"
| st_corrections: "fdb_step db (fst (apply_corrections md5 abspath source cs db))"

inductive_cases fdb_stepE: "fdb_step db db'"

interpretation fdb: invariant_system "\<lambda>db. db = empty_fdb" fdb_step fdb_ok
proof
  show "db = empty_fdb \<Longrightarrow> fdb_ok db" for db by (simp add: empty_fdb_def fdb_ok_def)
  show "fdb_ok db \<Longrightarrow> fdb_step db db' \<Longrightarrow> fdb_ok db'" for db db'
    by (erule fdb_stepE)
      (auto intro: ok_write_functions ok_update_function ok_delete_function ok_set_analysis ok_update_confidence
        ok_decisions ok_sync_from_json ok_upsert_function ok_apply_all simp: apply_corrections_def)
qed

section \<open>Tables after a batch\<close>

lemma find_insert_new:
  "find (\<lambda>r. key r = k) (insert_new key r rows)
    = (case find (\<lambda>r. key r = k) rows of Some x \<Rightarrow> Some x | None \<Rightarrow> if key r = k then Some r else None)"
proof (cases "key r \<in> key ` set rows")
  case True
  then have "key r = k \<Longrightarrow> find (\<lambda>r. key r = k) rows \<noteq> None" by (auto simp: find_None_iff)
  with True show ?thesis by (auto simp: insert_new_def split: option.split)
next
  case False
  have "find P (xs @ [r]) = (case find P xs of Some x \<Rightarrow> Some x | None \<Rightarrow> if P r then Some r else None)" for P xs
    by (induction xs) auto
  with False show ?thesis by (simp add: insert_new_def)
qed

lemma find_fold_insert_new:
  "find (\<lambda>r. key r = k) (foldl (\<lambda>rs r. insert_new key r rs) rows rs)
    = (case find (\<lambda>r. key r = k) rows of Some x \<Rightarrow> Some x | None \<Rightarrow> find (\<lambda>r. key r = k) rs)"
  by (induction rs arbitrary: rows) (auto simp: find_insert_new split: option.split)

lemma find_insert_over:
  "find (\<lambda>r. key r = k) (insert_over key r rows) = (if key r = k then Some r else find (\<lambda>r. key r = k) rows)"
  by (induction rows) (auto simp: insert_over_def)

lemma set_fold_insert_over:
  "set (foldl (\<lambda>rs r. insert_over key r rs) rows rs) \<subseteq> {r \<in> set rows. key r \<notin> key ` set rs} \<union> set rs"
  by (induction rs arbitrary: rows) (fastforce simp: insert_over_def)+

section \<open>Properties\<close>

text \<open>
  C34: in every state the stages of a run can bring the database to, no function and no file has two rows, the line count of every body is
  the number of its lines, and a role is empty or one of the four roles of an entry.
\<close>

theorem func_db_invariant:
  assumes "reach (\<lambda>db. db = empty_fdb) fdb_step db"
  shows "distinct (map fn_hash (fdb_funcs db)) \<and> distinct (map fm_hash (fdb_files db))
    \<and> (\<forall>r \<in> set (fdb_funcs db). fn_body_lines r = body_lines_of (fn_body r) \<and> (fn_role r = [] \<or> fn_role r \<in> set valid_entry_roles))"
  using fdb.reach_inv[OF assms] by (auto simp: fdb_ok_def row_ok_def list_all_iff)

definition demo_lines :: "string list" where
  "demo_lines = [''int f() {'', ''  return 1;'', ''}'', ''int g;'']"

definition demo_db :: func_db where
  "demo_db = write_functions ''file'' ''/src/a.c'' [\<lparr>fe_name = ''f'', fe_signature = ''int f()'', fe_start = 1, fe_end = 2,
      fe_body = ''int f() {''\<rparr>] [''h1''] ''a.c'' empty_fdb"

lemma demo_reach: "reach (\<lambda>db. db = empty_fdb) fdb_step demo_db"
  unfolding demo_db_def
proof (rule reach_step)
  show "reach (\<lambda>db. db = empty_fdb) fdb_step empty_fdb" by (rule reach_init) simp
qed (rule st_write)

lemma demo_row:
  "fdb_funcs demo_db = [new_row ''h1'' ''file'' ''f'' ''int f()'' 1 2 ''int f() {'']"
  by (simp add: demo_db_def write_functions_def empty_fdb_def insert_new_def)

theorem func_db_invariant_witness:
  "distinct (map fn_hash (fdb_funcs demo_db)) \<and> list_all (\<lambda>r. fn_body_lines r = body_lines_of (fn_body r)) (fdb_funcs demo_db)"
  using func_db_invariant[OF demo_reach] by (simp add: list_all_iff)

text \<open>
  a resumed run that writes the functions of a file again keeps every row there is, with its analysis and its
  decisions, and adds the functions that were missing.
\<close>

theorem rewriting_keeps_work:
  "find_func (write_functions file path funcs hashes rel db) h =
    (case find_func db h of Some r \<Rightarrow> Some r
     | None \<Rightarrow> map_option (\<lambda>(fe, k). new_row k file (fe_name fe) (fe_signature fe) (fe_start fe) (fe_end fe) (fe_body fe))
         (find (\<lambda>(fe, k). k = h) (zip funcs hashes)))"
proof -
  let ?row = "\<lambda>(fe, k). new_row k file (fe_name fe) (fe_signature fe) (fe_start fe) (fe_end fe) (fe_body fe)"
  have "find (\<lambda>r. fn_hash r = h) (map ?row ps) = map_option ?row (find (\<lambda>(fe, k). k = h) ps)" for ps :: "(func_extract \<times> string) list"
    by (induction ps) (auto simp: new_row_def)
  then show ?thesis by (simp add: find_func_def write_functions_def Let_def find_fold_insert_new split: option.split)
qed

lemma correct_find:
  assumes "int_field c ''start_line'' = Some s" "int_field c ''end_line'' = Some e"
    "truthy_text (get c ''name'') = Some name" "truthy_text (get c ''signature'') = Some sig"
  shows "find_func (fst (correct_function lines h c db)) j =
    (if j = h then map_option (apply_update (correction_update lines (find_func db h) name sig s e)) (find_func db h) else find_func db j)"
  using assms by (simp add: correct_function_def find_update_function)

text \<open>
  C32: a correction that names the start and the end of a function leaves a row that the comparison of the next stage accepts: its
  lines are the corrected ones and its body is what the file holds there; every other function is untouched.
\<close>

theorem corrected_function_passes_r2:
  assumes "find_func db h = Some r" "get_or c ''func_hash'' (PStr []) = PStr h" "h \<noteq> []" "h \<noteq> ''new''" "\<not> truthy (get c ''delete'')"
    and "int_field c ''start_line'' = Some s" "int_field c ''end_line'' = Some e"
    and "truthy_text (get c ''name'') = Some name" "truthy_text (get c ''signature'') = Some sig"
    and "1 \<le> s" "s \<le> e" "e \<le> int (length lines)"
  shows "\<exists>db' r'. apply_correction hash_of lines file c db = (db', True) \<and> find_func db' h = Some r'
    \<and> fn_start r' = s \<and> fn_end r' = e \<and> r2_script_validate (fn_start r') (fn_end r') (fn_body r') lines = (R2Pass, Identical s e)
    \<and> (\<forall>j. j \<noteq> h \<longrightarrow> find_func db' j = find_func db j)"
proof -
  let ?u = "correction_update lines (Some r) name sig s e"
  have corr: "apply_correction hash_of lines file c db = correct_function lines h c db"
    using assms(2-5) by (simp add: apply_correction_def)
  have u: "?u = \<lparr>u_name = name, u_signature = sig, u_start = Some s, u_end = Some e, u_body = Some (cut_body lines s e)\<rparr>"
    using assms(10-12) by (auto simp: correction_update_def positive_def Let_def)
  have ok: "snd (correct_function lines h c db)" using assms(6-9) by (simp add: correct_function_def)
  have row: "find_func (fst (correct_function lines h c db)) h = Some (apply_update ?u r)"
    and other: "j \<noteq> h \<Longrightarrow> find_func (fst (correct_function lines h c db)) j = find_func db j" for j
    using correct_find[OF assms(6-9), of lines h db] assms(1) by simp_all
  have "r2_script_validate s e (cut_body lines s e) lines = (R2Pass, Identical s e)"
    using assms(10-12) by (simp add: r2_script_validate_def cut_body_def)
  then show ?thesis using corr ok row other
    by (intro exI[of _ "fst (correct_function lines h c db)"] exI[of _ "apply_update ?u r"])
      (auto simp: u apply_update_def given_def prod_eq_iff)
qed

lemma demo_find: "find_func demo_db ''h1'' = Some (new_row ''h1'' ''file'' ''f'' ''int f()'' 1 2 ''int f() {'')"
  by (simp add: find_func_def demo_row new_row_def)

text \<open>The two corrections of the examples: of both lines, and of the end alone.\<close>

definition both_lines :: dict where
  "both_lines = [(''func_hash'', PStr ''h1''), (''start_line'', PInt 1), (''end_line'', PInt 3)]"

definition end_alone :: dict where
  "end_alone = [(''func_hash'', PStr ''h1''), (''end_line'', PInt 3)]"

lemmas correction_eval = int_field_def truthy_text_def get_or_def py_or_def

theorem corrected_function_passes_r2_witness:
  "\<exists>db' r'. apply_correction (\<lambda>n s. n) demo_lines ''file'' both_lines demo_db = (db', True) \<and> find_func db' ''h1'' = Some r'
    \<and> fn_end r' = 3 \<and> fst (r2_script_validate (fn_start r') (fn_end r') (fn_body r') demo_lines) = R2Pass"
proof -
  have len: "(3 :: int) \<le> int (length demo_lines)" by (simp add: demo_lines_def)
  have fields: "get_or both_lines ''func_hash'' (PStr []) = PStr ''h1''" "\<not> truthy (get both_lines ''delete'')"
    "int_field both_lines ''start_line'' = Some 1" "int_field both_lines ''end_line'' = Some 3"
    "truthy_text (get both_lines ''name'') = Some None" "truthy_text (get both_lines ''signature'') = Some None"
    by (simp_all add: both_lines_def correction_eval)
  from corrected_function_passes_r2[OF demo_find fields(1) _ _ fields(2-6) _ _ len, of "\<lambda>n s. n" "''file''"]
  show ?thesis by fastforce
qed

text \<open>
  a correction that names only a new end stores the new end but cuts the body at the old one, so the row does not hold
  what it says it holds.
\<close>

theorem end_correction_keeps_old_body:
  assumes "find_func db h = Some r" "get_or c ''func_hash'' (PStr []) = PStr h" "h \<noteq> []" "h \<noteq> ''new''" "\<not> truthy (get c ''delete'')"
    and "int_field c ''start_line'' = Some 0" "int_field c ''end_line'' = Some e" "0 < e"
    and "truthy_text (get c ''name'') = Some name" "truthy_text (get c ''signature'') = Some sig"
    and "0 < fn_start r" "0 < fn_end r" "lines \<noteq> []"
  shows "\<exists>r'. find_func (fst (apply_correction hash_of lines file c db)) h = Some r' \<and> fn_end r' = e \<and> fn_start r' = fn_start r
    \<and> fn_body r' = cut_body lines (fn_start r) (fn_end r)"
proof -
  let ?u = "correction_update lines (Some r) name sig 0 e"
  have corr: "apply_correction hash_of lines file c db = correct_function lines h c db"
    using assms(2-5) by (simp add: apply_correction_def)
  have u: "?u = \<lparr>u_name = name, u_signature = sig, u_start = None, u_end = Some e, u_body = Some (cut_body lines (fn_start r) (fn_end r))\<rparr>"
    using assms(8,11-13) by (auto simp: correction_update_def positive_def Let_def)
  have "find_func (fst (correct_function lines h c db)) h = Some (apply_update ?u r)"
    using correct_find[OF assms(6,7,9,10), of lines h db h] assms(1) by simp
  then show ?thesis by (simp add: corr u apply_update_def given_def)
qed

theorem end_correction_keeps_old_body_witness:
  "\<exists>r'. find_func (fst (apply_correction (\<lambda>n s. n) demo_lines ''file'' end_alone demo_db)) ''h1'' = Some r' \<and> fn_end r' = 3
    \<and> fst (r2_script_validate (fn_start r') (fn_end r') (fn_body r') demo_lines) = R2Mismatch"
proof -
  have r2: "fst (r2_script_validate 1 3 (cut_body demo_lines 1 2) demo_lines) = R2Mismatch"
    by (simp add: r2_script_validate_def cut_body_def demo_lines_def py_slice_def numeral_eq_Suc norm_body_def newline_def is_break_def
        py_rstrip_def py_strip_def is_space_def)
  have fields: "get_or end_alone ''func_hash'' (PStr []) = PStr ''h1''" "\<not> truthy (get end_alone ''delete'')"
    "int_field end_alone ''start_line'' = Some 0" "int_field end_alone ''end_line'' = Some 3"
    "truthy_text (get end_alone ''name'') = Some None" "truthy_text (get end_alone ''signature'') = Some None"
    by (simp_all add: end_alone_def correction_eval)
  have row: "0 < fn_start (new_row ''h1'' ''file'' ''f'' ''int f()'' 1 2 ''int f() {'')"
    "0 < fn_end (new_row ''h1'' ''file'' ''f'' ''int f()'' 1 2 ''int f() {'')" by (simp_all add: new_row_def)
  from end_correction_keeps_old_body[OF demo_find fields(1) _ _ fields(2-4) _ fields(5,6) row, of demo_lines "\<lambda>n s. n" "''file''"]
  obtain r' where "find_func (fst (apply_correction (\<lambda>n s. n) demo_lines ''file'' end_alone demo_db)) ''h1'' = Some r'"
    "fn_end r' = 3" "fn_start r' = 1" "fn_body r' = cut_body demo_lines 1 2"
    by (auto simp: new_row_def demo_lines_def)
  with r2 show ?thesis by auto
qed

text \<open>
  synchronising from the JSON file forgets the decisions: a function that the file lists comes back without decision of the
  third and fourth stage, and no function of the file is a kept entry any more.
\<close>

theorem sync_forgets_decisions:
  assumes "file \<noteq> []" "j \<in> set js" "jf_hash j \<noteq> []"
  shows "\<forall>(r, f, t) \<in> set (get_keep_entries (sync_from_json file path rel js db)). fn_file r \<noteq> file"
proof -
  let ?js = "filter (\<lambda>j. jf_hash j \<noteq> []) js"
  let ?rows = "foldl (\<lambda>rs r. insert_over fn_hash r rs) (fdb_funcs db) (map (row_of_json file) ?js)"
  have hash: "fn_hash (row_of_json file i) = jf_hash i" "fn_r3 (row_of_json file i) = None" for i
    by (simp_all add: row_of_json_def new_row_def Let_def)
  have "set ?rows \<subseteq> {r \<in> set (fdb_funcs db). fn_hash r \<notin> jf_hash ` set ?js} \<union> row_of_json file ` set ?js"
    using set_fold_insert_over[of fn_hash "fdb_funcs db" "map (row_of_json file) ?js"] by (simp add: image_image hash)
  then have "r \<in> set ?rows \<Longrightarrow> fn_hash r \<in> jf_hash ` set ?js \<Longrightarrow> fn_r3 r = None" for r using hash(2) by auto
  moreover have "?js \<noteq> []" using assms by (auto simp: filter_empty_conv)
  ultimately have "r \<in> set (fdb_funcs (sync_from_json file path rel js db)) \<Longrightarrow> fn_file r = file \<Longrightarrow> fn_r3 r = None" for r
    using assms(1) by (auto simp: sync_from_json_def Let_def)
  then show ?thesis by (auto simp: get_keep_entries_def is_kept_def)
qed

definition demo_json :: json_func where
  "demo_json = \<lparr>jf_hash = ''h1'', jf_name = ''f'', jf_signature = ''int f()'', jf_start = 1, jf_end = 3, jf_body = None, jf_analysis = None\<rparr>"

theorem sync_forgets_decisions_witness:
  "get_keep_entries (update_r3_decision ''h1'' ''keep'' demo_db) \<noteq> []
   \<and> (\<forall>(r, f, t) \<in> set (get_keep_entries (sync_from_json ''file'' ''/src/a.c'' ''a.c'' [demo_json] (update_r3_decision ''h1'' ''keep'' demo_db))).
       fn_file r \<noteq> ''file'')"
proof
  show "get_keep_entries (update_r3_decision ''h1'' ''keep'' demo_db) \<noteq> []"
    by (simp add: get_keep_entries_def update_r3_decision_def upd_func_def demo_row new_row_def is_kept_def internal_entry_def)
  show "\<forall>(r, f, t) \<in> set (get_keep_entries (sync_from_json ''file'' ''/src/a.c'' ''a.c'' [demo_json] (update_r3_decision ''h1'' ''keep'' demo_db))).
       fn_file r \<noteq> ''file''"
    by (rule sync_forgets_decisions[of _ demo_json]) (simp_all add: demo_json_def)
qed

text \<open>
  the pages of the function list are the whole list: pages of a positive length, taken one after the other, give every selected function
  exactly once and in order, and the total each page reports is their number.
\<close>

theorem pages_cover_the_list:
  assumes "0 < limit" "snd (list_functions_paginated db 0 limit f) \<le> n * limit"
  shows "concat (map (\<lambda>i. fst (list_functions_paginated db (i * limit) limit f)) [0..<n])
      = map (\<lambda>r. (r, file_of db r)) (paginated_rows db f)
    \<and> mset (paginated_rows db f) = mset (filter (page_filter f) (fdb_funcs db))
    \<and> (\<forall>i. snd (list_functions_paginated db i limit f) = length (paginated_rows db f))"
proof -
  have pages: "concat (map (\<lambda>i. take limit (drop (i * limit) xs)) [0..<n]) = take (n * limit) xs" for xs :: "func_row list" and n
  proof (induction n)
    case (Suc n)
    have "take (limit + n * limit) xs = take (n * limit) xs @ take limit (drop (n * limit) xs)"
      by (metis add.commute take_add)
    with Suc show ?case by simp
  qed simp
  have len: "length (paginated_rows db f) = length (filter (page_filter f) (fdb_funcs db))" by (simp add: paginated_rows_def)
  then have "take (n * limit) (paginated_rows db f) = paginated_rows db f" using assms(2) by (simp add: list_functions_paginated_def)
  with pages[of "paginated_rows db f" n]
  have "concat (map (\<lambda>i. take limit (drop (i * limit) (paginated_rows db f))) [0..<n]) = paginated_rows db f" by simp
  from arg_cong[OF this, of "map (\<lambda>r. (r, file_of db r))"] show ?thesis
    using len by (simp add: list_functions_paginated_def map_concat comp_def) (simp add: paginated_rows_def)
qed

theorem pages_cover_the_list_witness:
  "concat (map (\<lambda>i. fst (list_functions_paginated demo_db (i * 1) 1 None)) [0..<1])
    = map (\<lambda>r. (r, file_of demo_db r)) (paginated_rows demo_db None)"
  using pages_cover_the_list[of 1 demo_db None 1] by (simp add: list_functions_paginated_def demo_row)

end
