(* ===== verification/AgentRunner.thy ===== *)
theory AgentRunner
  imports PyVal
begin

text \<open>
  One agent process as \<open>app/runner.py\<close> sees it: the limits and delays of the retry policy, the classification of what
  went wrong, the events of a process, and the session file. The loops around it are in \<open>AgentRetry\<close>. \<open>json.loads\<close> is
  an argument. Log lines, the callbacks for streaming, the bookkeeping of live processes and the wait for a slot
  (\<open>AgentSlots\<close>) are left out, so are the fields of a result that only name its role and directory. An error message
  that is no text is taken as its text.
\<close>

section \<open>Constants and small helpers\<close>

definition max_backoff :: rat where "max_backoff = 300"
definition query_engine_401_max :: nat where "query_engine_401_max = 10"
definition default_context_window :: nat where "default_context_window = 128000"
definition prompt_token_overhead :: nat where "prompt_token_overhead = 128"

definition context_windows :: "(string \<times> nat) list" where
  "context_windows = [(''gpt-5.4'', 128000), (''gpt-5.4-mini'', 128000), (''gpt-5.5'', 256000), (''gpt-5.3-codex'', 128000),
     (''gpt-5.2'', 200000), (''minimax/minimax-m2.5'', 163804), (''minimax-m2.5'', 163804), (''minimax-m2.7'', 128000),
     (''glm-5.1'', 128000), (''zai-org/glm-5'', 128000)]"

definition backoff :: "rat \<Rightarrow> nat \<Rightarrow> rat" where
  "backoff base attempt = min (base * 2 ^ min (attempt - 1) 6) max_backoff"

definition should_retry :: "nat \<Rightarrow> int \<Rightarrow> bool \<Rightarrow> bool" where
  "should_retry failures max_retries cancelled =
     (if cancelled then False else if max_retries < 0 then True else int failures \<le> max_retries)"

definition emit_rate_limit_event :: "nat \<Rightarrow> bool" where
  "emit_rate_limit_event streak \<longleftrightarrow> streak = 1 \<or> (0 < streak \<and> streak mod 10 = 0)"

definition emit_infinite_retry_event :: "nat \<Rightarrow> bool" where
  "emit_infinite_retry_event streak \<longleftrightarrow> 0 < streak \<and> streak mod 10 = 0"

definition emit_api_retry_event :: "nat \<Rightarrow> rat \<Rightarrow> bool" where
  "emit_api_retry_event retries delay \<longleftrightarrow> 30 \<le> max 0 delay \<and> 0 < retries \<and> retries mod 10 = 0"

definition normalize_timeout :: "pyval \<Rightarrow> rat option" where
  "normalize_timeout v = (case py_float v of Some q \<Rightarrow> if 0 < q then Some q else None | None \<Rightarrow> None)"

text \<open>ASCII characters count a quarter token, all others one; a UTF-8 character starts with a byte below 128 or above 191.\<close>

definition estimate_tokens :: "string \<Rightarrow> nat" where
  "estimate_tokens text =
     (if text = [] then 0
      else (let ascii = length (filter (\<lambda>c. of_char c < (128 :: nat)) text);
                other = length (filter (\<lambda>c. 192 \<le> (of_char c :: nat)) text)
            in max 1 ((ascii + 3) div 4 + other)))"

definition model_context_window :: "string \<Rightarrow> nat" where
  "model_context_window model =
     (case find (\<lambda>(k, v). has_sub k (py_lower (py_strip model))) context_windows of
        Some (k, v) \<Rightarrow> v | None \<Rightarrow> default_context_window)"

definition single_input_estimate :: "string \<Rightarrow> string \<Rightarrow> nat" where
  "single_input_estimate system prompt = estimate_tokens system + estimate_tokens prompt + prompt_token_overhead"

definition single_input_limit :: "nat \<Rightarrow> nat" where
  "single_input_limit window = max 1 (window * 3 div 4)"

definition effective_context_limit :: "nat \<Rightarrow> nat \<Rightarrow> nat" where
  "effective_context_limit window reserved = max 1 (window - max reserved 4096 - 4096)"

definition preflight_limit :: "nat \<Rightarrow> nat \<Rightarrow> nat" where
  "preflight_limit window reserved = max 1 (effective_context_limit window reserved * 3 div 4)"

section \<open>Context overflow\<close>

record overflow_details =
  od_input :: nat
  od_actual_input :: nat
  od_requested_output :: nat
  od_context :: nat
  od_provider_context :: nat
  od_max_input :: nat
  od_reserved :: nat

text \<open>\<open>re.search(pre + "\s+(\d+)\s+" + suf)\<close> on text in lower case.\<close>

definition num_here :: "string \<Rightarrow> string \<Rightarrow> string \<Rightarrow> nat option" where
  "num_here pre suf s =
     (if is_prefix pre s
      then (let r = drop (length pre) s;
                r1 = dropWhile is_space r;
                ds = takeWhile is_digit r1;
                r2 = dropWhile is_digit r1;
                r3 = dropWhile is_space r2
            in if length r1 < length r \<and> ds \<noteq> [] \<and> length r3 < length r2 \<and> is_prefix suf r3 then Some (digits_val ds) else None)
      else None)"

fun num_search :: "string list \<Rightarrow> string \<Rightarrow> string \<Rightarrow> nat" where
  "num_search pres suf [] = 0"
| "num_search pres suf (c # s) =
     (case concat (map (\<lambda>pre. case num_here pre suf (c # s) of Some n \<Rightarrow> [n] | None \<Rightarrow> []) pres) of
        n # _ \<Rightarrow> n | [] \<Rightarrow> num_search pres suf s)"

definition no_details :: overflow_details where
  "no_details = \<lparr>od_input = 0, od_actual_input = 0, od_requested_output = 0, od_context = 0, od_provider_context = 0,
     od_max_input = 0, od_reserved = 0\<rparr>"

definition parse_overflow :: "string \<Rightarrow> overflow_details" where
  "parse_overflow text =
     (let s = py_lower text in
      if \<not> has_sub ''context length'' s \<and> \<not> has_sub ''input tokens'' s \<and> \<not> has_sub ''prefill_context_length_exceeded'' s
      then no_details
      else (let inp = num_search [''passed''] ''input tokens'' s;
                act = num_search [''input has''] ''tokens'' s;
                ctx = num_search [''context length is only''] ''tokens'' s;
                prov = num_search [''maximum context length is''] ''tokens'' s
            in \<lparr>od_input = (if inp = 0 then act else inp), od_actual_input = act,
                od_requested_output = num_search [''requested''] ''output tokens'' s,
                od_context = (if ctx = 0 then prov else ctx), od_provider_context = prov,
                od_max_input = num_search [''maximum input length of'', ''maximum input length''] ''tokens'' s,
                od_reserved = num_search [''reserves''] ''safety-buffer tokens'' s\<rparr>))"

definition is_context_overflow :: "string \<Rightarrow> bool" where
  "is_context_overflow text =
     (let s = py_lower text in
      0 < od_context (parse_overflow text)
      \<or> ((has_sub ''context length'' s \<or> has_sub ''prefill_context_length_exceeded'' s)
         \<and> (has_sub ''input tokens'' s \<or> has_sub ''input has'' s)
         \<and> (has_sub ''badrequesterror'' s \<or> has_sub ''400'' s)))"

section \<open>Results\<close>

record agent_result =
  ar_output :: string
  ar_messages :: "pyval list"
  ar_input_tokens :: rat
  ar_output_tokens :: rat
  ar_cache_read :: rat
  ar_cache_write :: rat
  ar_cost :: rat
  ar_exit :: int
  ar_error :: "string option"
  ar_fatal :: bool
  ar_rate_limited :: bool
  ar_rate_count :: nat
  ar_delay :: int
  ar_rate_event :: bool
  ar_api_event :: bool
  ar_api_count :: nat
  ar_api_reason :: "string option"
  ar_window :: nat
  ar_reserved :: nat
  ar_preflight_exceeded :: bool
  ar_overflow_failed :: bool

definition new_result :: agent_result where
  "new_result = \<lparr>ar_output = [], ar_messages = [], ar_input_tokens = 0, ar_output_tokens = 0, ar_cache_read = 0,
     ar_cache_write = 0, ar_cost = 0, ar_exit = 0, ar_error = None, ar_fatal = False, ar_rate_limited = False, ar_rate_count = 0,
     ar_delay = 0, ar_rate_event = False, ar_api_event = False, ar_api_count = 0, ar_api_reason = None, ar_window = 0,
     ar_reserved = 0, ar_preflight_exceeded = False, ar_overflow_failed = False\<rparr>"

text \<open>\<open>(result.error or "").lower()\<close>; an empty error counts as none.\<close>

definition error_text :: "agent_result \<Rightarrow> string" where
  "error_text r = py_lower (or_empty (ar_error r))"

definition has_error :: "agent_result \<Rightarrow> bool" where
  "has_error r \<longleftrightarrow> or_empty (ar_error r) \<noteq> []"

section \<open>Classification\<close>

definition fatal_patterns :: "string list list" where
  "fatal_patterns = [[''model'', ''not found''], [''not found'', ''use --list''], [''invalid model''], [''unknown model''],
     [''model does not exist''], [''unsupported model''], [''invalid'', ''api key''], [''invalid'', ''api_key''],
     [''unauthorized''], [''authentication'', ''failed''], [''403'', ''forbidden''], [''does not exist''],
     [''cannot find module''], [''syntax error''], [''syntaxerror'']]"

definition retryable_patterns :: "string list" where
  "retryable_patterns = [''connection'', ''timeout'', ''timed out'', ''ECONNREFUSED'', ''ECONNRESET'', ''ETIMEDOUT'', ''ENOTFOUND'',
     ''socket hang up'', ''fetch failed'', ''rate limit'', ''429'', ''503'', ''502'', ''500'', ''overloaded'', ''capacity'',
     ''temporarily unavailable'', ''server error'', ''internal error'', ''bad gateway'', ''service unavailable'', ''request failed'']"

definition query_engine_patterns :: "string list list" where
  "query_engine_patterns = [[''401'', ''authentication error''], [''client is not connected to the query engine''],
     [''must call `connect()` before attempting to query data'']]"

definition timeout_patterns :: "string list" where
  "timeout_patterns = [''timeout'', ''timed out'', ''etimedout'', ''request timed out'']"

definition rate_limit_patterns :: "string list" where
  "rate_limit_patterns = [''rate limit'', ''429'', ''too many requests'']"

definition matches_any :: "string list list \<Rightarrow> string \<Rightarrow> bool" where
  "matches_any pats s \<longleftrightarrow> list_ex (list_all (\<lambda>p. has_sub p s)) pats"

definition is_timeout_error :: "string option \<Rightarrow> bool" where
  "is_timeout_error e \<longleftrightarrow> list_ex (\<lambda>p. has_sub p (py_lower (or_empty e))) timeout_patterns"

definition is_fatal_error :: "agent_result \<Rightarrow> bool" where
  "is_fatal_error r \<longleftrightarrow> has_error r \<and> \<not> is_context_overflow (or_empty (ar_error r)) \<and> matches_any fatal_patterns (error_text r)"

definition is_retryable_api_error :: "agent_result \<Rightarrow> bool" where
  "is_retryable_api_error r \<longleftrightarrow> (ar_exit r \<noteq> 0 \<or> has_error r) \<and> list_ex (\<lambda>p. has_sub p (error_text r)) retryable_patterns"

definition is_query_engine_401 :: "agent_result \<Rightarrow> bool" where
  "is_query_engine_401 r \<longleftrightarrow> (ar_exit r \<noteq> 0 \<or> has_error r) \<and> matches_any query_engine_patterns (error_text r)"

definition is_empty_response :: "agent_result \<Rightarrow> bool" where
  "is_empty_response r \<longleftrightarrow> ar_exit r = 0 \<and> \<not> has_error r \<and> py_strip (ar_output r) = [] \<and> \<not> 0 < ar_output_tokens r"

definition is_pi_crash :: "agent_result \<Rightarrow> bool" where
  "is_pi_crash r \<longleftrightarrow> ar_exit r \<noteq> 0 \<and> ar_messages r = [] \<and> \<not> is_retryable_api_error r \<and> \<not> is_fatal_error r"

definition check_stderr :: "string \<Rightarrow> agent_result \<Rightarrow> agent_result" where
  "check_stderr stderr r =
     (let s = py_lower stderr in
      if has_sub ''error:'' s \<and> \<not> is_context_overflow stderr \<and> matches_any fatal_patterns s
      then r\<lparr>ar_error := Some (py_strip stderr)\<rparr> else r)"

section \<open>The events of one process\<close>

definition add_usage :: "dict \<Rightarrow> agent_result \<Rightarrow> agent_result option" where
  "add_usage u r =
     (case (py_num (get_or u ''input'' (PInt 0)), py_num (get_or u ''output'' (PInt 0)),
            py_num (get_or u ''cacheRead'' (PInt 0)), py_num (get_or u ''cacheWrite'' (PInt 0))) of
        (Some i, Some out, Some cr, Some cw) \<Rightarrow>
          (let r1 = r\<lparr>ar_input_tokens := ar_input_tokens r + i, ar_output_tokens := ar_output_tokens r + out,
                ar_cache_read := ar_cache_read r + cr, ar_cache_write := ar_cache_write r + cw\<rparr>
           in case get_or u ''cost'' (PDict []) of
                PDict c \<Rightarrow> map_option (\<lambda>q. r1\<lparr>ar_cost := ar_cost r1 + q\<rparr>) (py_num (get_or c ''total'' (PInt 0)))
              | v \<Rightarrow> (case py_num v of Some q \<Rightarrow> Some (r1\<lparr>ar_cost := ar_cost r1 + q\<rparr>) | None \<Rightarrow> Some r1))
      | _ \<Rightarrow> None)"

definition message_error :: "dict \<Rightarrow> string option" where
  "message_error m = (case get_or m ''errorMessage'' (PStr ''Unknown error'') of PNone \<Rightarrow> None | v \<Rightarrow> Some (py_str v))"

text \<open>The second component is \<open>False\<close> when an exception leaves the function; what was recorded before stays.\<close>

definition end_message :: "pyval \<Rightarrow> agent_result \<Rightarrow> agent_result \<times> bool" where
  "end_message msg r =
     (let r1 = r\<lparr>ar_messages := ar_messages r @ [msg]\<rparr> in
      case msg of
        PDict m \<Rightarrow>
          (if get m ''role'' = PStr ''assistant''
           then (case get_or m ''usage'' (PDict []) of
                   PDict u \<Rightarrow> (case add_usage u r1 of
                      Some r2 \<Rightarrow> (if get m ''stopReason'' = PStr ''error'' then r2\<lparr>ar_error := message_error m\<rparr> else r2, True)
                    | None \<Rightarrow> (r1, False))
                 | _ \<Rightarrow> (r1, False))
           else (r1, True))
      | _ \<Rightarrow> (r1, False))"

definition process_line :: "(string \<Rightarrow> pyval option) \<Rightarrow> string \<Rightarrow> agent_result \<Rightarrow> agent_result \<times> bool" where
  "process_line json line r =
     (let s = py_strip line in
      if s = [] then (r, True)
      else case json s of
        None \<Rightarrow> (r, True)
      | Some (PDict e) \<Rightarrow>
          (if get e ''type'' = PStr ''message_update''
           then (r, case get_or e ''assistantMessageEvent'' (PDict []) of PDict _ \<Rightarrow> True | _ \<Rightarrow> False)
           else if get e ''type'' = PStr ''message_end'' \<and> truthy (get e ''message'') then end_message (get e ''message'') r
           else (r, True))
      | Some _ \<Rightarrow> (r, False))"

fun process_lines :: "(string \<Rightarrow> pyval option) \<Rightarrow> string list \<Rightarrow> agent_result \<Rightarrow> agent_result \<times> bool" where
  "process_lines json [] r = (r, True)"
| "process_lines json (l # ls) r =
     (case process_line json l r of (r', True) \<Rightarrow> process_lines json ls r' | (r', False) \<Rightarrow> (r', False))"

text \<open>
  How a process ends: it could not be started (\<open>OSError\<close>); a \<open>TimeoutError\<close> outside the block that reads its output; no
  output for the idle limit; an exception while reading, with its text; the end of its output with the text on the error
  channel and the exit code. The lines are those read until then; a line whose event has the wrong shape is an exception too, with
  the text \<open>bad_event\<close>.
\<close>

datatype proc_end = SpawnError string | OuterTimeout | IdleOut "string list" | ReadFailed "string list" string
  | Exited "string list" string int

definition read_error :: "string \<Rightarrow> agent_result \<Rightarrow> agent_result" where
  "read_error e r = r\<lparr>ar_error := Some (''pi process read error: '' @ e), ar_exit := -1\<rparr>"

definition finish_exit :: "string \<Rightarrow> int \<Rightarrow> agent_result \<Rightarrow> agent_result" where
  "finish_exit stderr code r =
     (let err = py_strip stderr;
          r1 = (if err = [] then r
                else (let r0 = check_stderr err r in if has_error r0 then r0 else r0\<lparr>ar_error := Some err\<rparr>))
      in r1\<lparr>ar_exit := code\<rparr>)"

definition exec_result :: "(string \<Rightarrow> pyval option) \<Rightarrow> string \<Rightarrow> proc_end \<Rightarrow> agent_result" where
  "exec_result json bad_event e =
     (case e of
        IdleOut ls \<Rightarrow> (case process_lines json ls new_result of (r, True) \<Rightarrow> read_error [] r | (r, False) \<Rightarrow> read_error bad_event r)
      | ReadFailed ls t \<Rightarrow> (case process_lines json ls new_result of (r, True) \<Rightarrow> read_error t r | (r, False) \<Rightarrow> read_error bad_event r)
      | Exited ls stderr code \<Rightarrow> (case process_lines json ls new_result of (r, True) \<Rightarrow> finish_exit stderr code r | (r, False) \<Rightarrow> read_error bad_event r)
      | _ \<Rightarrow> new_result)"

text \<open>The text of the last message of the assistant; \<open>None\<close> when an exception leaves the loop.\<close>

fun content_text :: "pyval \<Rightarrow> string list option" where
  "content_text (PDict c) = (if get c ''type'' = PStr ''text''
     then (case get c ''text'' of PStr s \<Rightarrow> Some [s] | _ \<Rightarrow> None) else Some [])"
| "content_text _ = None"

definition message_text :: "dict \<Rightarrow> string option" where
  "message_text m = (case py_or (get m ''content'') (PList []) of
      PList cs \<Rightarrow> map_option (\<lambda>ts. join_with [CHR 0x0A] (concat ts)) (those (map content_text cs)) | _ \<Rightarrow> None)"

fun output_of :: "pyval list \<Rightarrow> string option" where
  "output_of [] = Some []"
| "output_of (PDict m # ms) = (if get m ''role'' = PStr ''assistant'' then message_text m else output_of ms)"
| "output_of (_ # ms) = None"

definition with_output :: "agent_result \<Rightarrow> agent_result option" where
  "with_output r = map_option (\<lambda>s. r\<lparr>ar_output := s\<rparr>) (output_of (rev (ar_messages r)))"

section \<open>The session file\<close>

text \<open>
  \<open>bytes.split(b"\n")\<close>, the position after the last line that parses, and the cut there. The search for the last user
  message uses \<open>bytes.splitlines\<close>, which also splits at a carriage return; empty lines are skipped.
\<close>

fun last_valid :: "(string \<Rightarrow> pyval option) \<Rightarrow> nat \<Rightarrow> string list \<Rightarrow> nat \<Rightarrow> nat" where
  "last_valid json pos [] best = best"
| "last_valid json pos (l # ls) best =
     last_valid json (pos + length l + 1) ls
       (if py_strip l \<noteq> [] \<and> json (py_strip l) \<noteq> None then pos + length l + 1 else best)"

definition truncate_session :: "(string \<Rightarrow> pyval option) \<Rightarrow> string \<Rightarrow> string" where
  "truncate_session json content =
     (let n = last_valid json 0 (split_on (CHR 0x0A) content) 0
      in if n < length content \<and> 0 < n then take n content else content)"

definition text_parts :: "pyval list \<Rightarrow> string list" where
  "text_parts items = concat (map (\<lambda>v. case v of
      PDict i \<Rightarrow> (let t = py_str (py_or (get i ''text'') (PStr [])) in
                  if get i ''type'' = PStr ''text'' \<and> py_strip t \<noteq> [] then [t] else [])
    | _ \<Rightarrow> []) items)"

definition user_text :: "dict \<Rightarrow> string option" where
  "user_text obj =
     (case py_or (get obj ''message'') (PDict []) of
        PDict m \<Rightarrow>
          (if get m ''role'' = PStr ''user''
           then (let t = (case py_or (get_or m ''content'' (PStr [])) (PStr []) of
                           PList items \<Rightarrow> join_with [CHR 0x0A] (text_parts items) | v \<Rightarrow> py_str v)
                 in if py_strip t \<noteq> [] then Some t else None)
           else None)
      | _ \<Rightarrow> None)"

fun last_user :: "(string \<Rightarrow> pyval option) \<Rightarrow> string list \<Rightarrow> string option \<Rightarrow> string option" where
  "last_user json [] best = best"
| "last_user json (l # ls) best =
     (if py_strip l = [] then last_user json ls best
      else case json (py_strip l) of
        None \<Rightarrow> last_user json ls best
      | Some (PDict obj) \<Rightarrow> last_user json ls (case user_text obj of Some t \<Rightarrow> Some t | None \<Rightarrow> best)
      | Some _ \<Rightarrow> None)"

definition extract_last_user :: "(string \<Rightarrow> pyval option) \<Rightarrow> string \<Rightarrow> string option" where
  "extract_last_user json content =
     last_user json (split_on (CHR 0x0A) (map (\<lambda>c. if c = CHR 0x0D then CHR 0x0A else c) content)) None"

end
