(* ===== verification/AgentRetry.thy ===== *)
theory AgentRetry
  imports AgentRunner
begin

text \<open>
  The three nested loops of \<open>app/runner.py\<close> around one agent process. The world gives, by the number of the
  attempt, how the process ends, what the cancel event says at each place that reads it, and what the session file then holds. A
  loop that never ends is \<open>None\<close>; the second component of a result is the number of attempts made so far.
\<close>

section \<open>Configuration and world\<close>

record run_cfg =
  rc_json :: "string \<Rightarrow> pyval option"
  rc_bad_event :: string
  rc_model :: string
  rc_system :: string
  rc_prompt :: string
  rc_session :: bool
  rc_stdin :: string
  rc_continue :: string
  rc_max_retries :: int
  rc_retry_delay :: rat
  rc_idle :: "rat option"
  rc_timeout_retry :: bool
  rc_timeout_max :: int
  rc_empty_max :: int
  rc_pi_max :: int
  rc_pi_delay :: rat

text \<open>The cancel event: before an attempt, after it, in the handler of the outer loop, and at the end of the sleep.\<close>

record world =
  wd_end :: "nat \<Rightarrow> proc_end"
  wd_start :: "nat \<Rightarrow> bool"
  wd_cancel :: "nat \<Rightarrow> bool"
  wd_caught :: "nat \<Rightarrow> bool"
  wd_slept :: "nat \<Rightarrow> bool"
  wd_session :: "nat \<Rightarrow> string"

datatype outcome = Done agent_result | OsError string | Escapes

section \<open>Errors of the API\<close>

record api_state =
  as_attempts :: nat
  as_timeouts :: nat
  as_q401 :: nat
  as_empty :: nat
  as_rate :: nat
  as_api_timeouts :: nat
  as_stdin :: string

datatype verdict = Stop outcome | Again api_state

definition api_init :: "run_cfg \<Rightarrow> api_state" where
  "api_init c = \<lparr>as_attempts = 0, as_timeouts = 0, as_q401 = 0, as_empty = 0, as_rate = 0, as_api_timeouts = 0,
     as_stdin = rc_stdin c\<rparr>"

definition within_limit :: "int \<Rightarrow> nat \<Rightarrow> bool" where
  "within_limit limit k \<longleftrightarrow> limit < 0 \<or> int k \<le> limit"

text \<open>\<open>_extract_last_user_message(session_file) or current_stdin or continue_stdin\<close>, after the session was cut.\<close>

definition resend :: "run_cfg \<Rightarrow> string \<Rightarrow> string \<Rightarrow> string" where
  "resend c session current =
     (let found = (if rc_session c then or_empty (extract_last_user (rc_json c) (truncate_session (rc_json c) session)) else [])
      in if found \<noteq> [] then found else if current \<noteq> [] then current else rc_continue c)"

definition idle_error :: "run_cfg \<Rightarrow> string" where
  "idle_error c = (case rc_idle c of Some q \<Rightarrow> ''agent run idle timed out after '' @ int_str (round_even q) @ ''s''
     | None \<Rightarrow> ''agent run idle timed out'')"

definition on_idle :: "run_cfg \<Rightarrow> world \<Rightarrow> nat \<Rightarrow> api_state \<Rightarrow> verdict" where
  "on_idle c w n st =
     (let k = Suc (as_timeouts st);
          r = new_result\<lparr>ar_error := Some (idle_error c), ar_exit := -1\<rparr>
      in if \<not> (rc_timeout_retry c \<and> within_limit (rc_timeout_max c) k) \<or> wd_cancel w n then Stop (Done r)
         else Again (st\<lparr>as_timeouts := k, as_stdin := resend c (wd_session w n) (as_stdin st)\<rparr>))"

definition after_sleep :: "world \<Rightarrow> nat \<Rightarrow> agent_result \<Rightarrow> api_state \<Rightarrow> verdict" where
  "after_sleep w n r st = (if wd_slept w n then Stop (Done r) else Again st)"

definition empty_error :: "run_cfg \<Rightarrow> nat \<Rightarrow> string" where
  "empty_error c k = ''upstream returned empty responses '' @ nat_str k @ '' times in a row (limit='' @ int_str (rc_empty_max c) @ '')''"

definition on_empty :: "run_cfg \<Rightarrow> world \<Rightarrow> nat \<Rightarrow> api_state \<Rightarrow> agent_result \<Rightarrow> verdict" where
  "on_empty c w n st r =
     (let k = Suc (as_empty st)
      in if rc_empty_max c = -1 \<or> int k \<le> rc_empty_max c then after_sleep w n r (st\<lparr>as_empty := k\<rparr>)
         else Stop (Done (r\<lparr>ar_error := Some (empty_error c k), ar_exit := -1\<rparr>)))"

definition on_q401 :: "run_cfg \<Rightarrow> world \<Rightarrow> nat \<Rightarrow> api_state \<Rightarrow> agent_result \<Rightarrow> verdict" where
  "on_q401 c w n st r =
     (let k = Suc (as_q401 st)
      in if k \<le> query_engine_401_max then after_sleep w n r (st\<lparr>as_q401 := k\<rparr>)
         else Stop (Done (r\<lparr>ar_error := Some (or_empty (ar_error r) @ ('' [query engine 401 '' @ [CHR 0xE8, CHR 0xBF, CHR 0x9E, CHR 0xE7, CHR 0xBB, CHR 0xAD, CHR 0xE9, CHR 0x87, CHR 0x8D, CHR 0xE8, CHR 0xAF, CHR 0x95, CHR 0xE8, CHR 0x80, CHR 0x97, CHR 0xE5, CHR 0xB0, CHR 0xBD] @ '': '') @ nat_str k @ ('' '' @ [CHR 0xE6, CHR 0xAC, CHR 0xA1, CHR 0xE5, CHR 0xA4, CHR 0xB1, CHR 0xE8, CHR 0xB4, CHR 0xA5] @ '']''))\<rparr>)))"

definition is_rate_limit :: "agent_result \<Rightarrow> bool" where
  "is_rate_limit r \<longleftrightarrow> list_ex (\<lambda>p. has_sub p (error_text r)) rate_limit_patterns"

definition on_rate_limit :: "world \<Rightarrow> nat \<Rightarrow> api_state \<Rightarrow> agent_result \<Rightarrow> verdict" where
  "on_rate_limit w n st r =
     (let k = Suc (as_rate st)
      in after_sleep w n (r\<lparr>ar_rate_limited := True, ar_rate_count := k, ar_delay := 30, ar_rate_event := emit_rate_limit_event k\<rparr>)
           (st\<lparr>as_rate := k\<rparr>))"

definition trunc_rat :: "rat \<Rightarrow> int" where
  "trunc_rat q = (if q < 0 then - \<lfloor>- q\<rfloor> else \<lfloor>q\<rfloor>)"

definition retry_reason :: "agent_result \<Rightarrow> string option" where
  "retry_reason r = (let t = utf_take 500 (py_strip (or_empty (ar_error r))) in if t = [] then None else Some t)"

definition on_api_timeout :: "run_cfg \<Rightarrow> world \<Rightarrow> nat \<Rightarrow> api_state \<Rightarrow> agent_result \<Rightarrow> verdict" where
  "on_api_timeout c w n st r =
     (let k = Suc (as_api_timeouts st)
      in if \<not> within_limit (rc_timeout_max c) k \<or> wd_cancel w n then Stop (Done r)
         else Again (st\<lparr>as_api_timeouts := k, as_stdin := resend c (wd_session w n) (as_stdin st)\<rparr>))"

definition on_api_error :: "run_cfg \<Rightarrow> world \<Rightarrow> nat \<Rightarrow> api_state \<Rightarrow> agent_result \<Rightarrow> verdict" where
  "on_api_error c w n st r =
     (let k = Suc (as_attempts st);
          st1 = st\<lparr>as_rate := 0, as_attempts := k\<rparr>;
          delay = backoff (rc_retry_delay c) k
      in if is_timeout_error (ar_error r) then on_api_timeout c w n st1 r
         else after_sleep w n (r\<lparr>ar_delay := trunc_rat delay, ar_api_count := k, ar_api_reason := retry_reason r,
                ar_api_event := emit_api_retry_event k delay\<rparr>)
              (st1\<lparr>as_api_timeouts := 0\<rparr>))"

definition classify_attempt :: "run_cfg \<Rightarrow> world \<Rightarrow> nat \<Rightarrow> api_state \<Rightarrow> agent_result \<Rightarrow> verdict" where
  "classify_attempt c w n st r =
     (if wd_cancel w n then Stop (Done r)
      else if is_pi_crash r then Stop (Done r)
      else if is_fatal_error r then Stop (Done r)
      else if is_empty_response r then on_empty c w n st r
      else let st1 = st\<lparr>as_empty := 0\<rparr> in
        if is_query_engine_401 r then on_q401 c w n st1 r
        else let st2 = st1\<lparr>as_q401 := 0\<rparr> in
          if is_retryable_api_error r then (if is_rate_limit r then on_rate_limit w n st2 r else on_api_error c w n st2 r)
          else Stop (Done r))"

definition api_step :: "run_cfg \<Rightarrow> world \<Rightarrow> nat \<Rightarrow> api_state \<Rightarrow> verdict" where
  "api_step c w n st =
     (case wd_end w n of
        SpawnError e \<Rightarrow> Stop (OsError e)
      | OuterTimeout \<Rightarrow> on_idle c w n st
      | e \<Rightarrow> (case with_output (exec_result (rc_json c) (rc_bad_event c) e) of
               Some r \<Rightarrow> classify_attempt c w n st r | None \<Rightarrow> Stop Escapes))"

partial_function (option) api_run :: "run_cfg \<Rightarrow> world \<Rightarrow> nat \<Rightarrow> api_state \<Rightarrow> (outcome \<times> nat) option" where
  "api_run c w n st =
     (case api_step c w n st of Stop out \<Rightarrow> Some (out, Suc n) | Again st' \<Rightarrow> api_run c w (Suc n) st')"

section \<open>Crashes of the process\<close>

definition crash_text :: "agent_result \<Rightarrow> string" where
  "crash_text r = ''exit_code='' @ int_str (ar_exit r) @ '': '' @
     (if has_error r then or_empty (ar_error r) else ''(no error message)'')"

text \<open>What the outer loop does with the result of the inner one: return it, or treat it as a failure with this text.\<close>

definition pi_check :: "outcome \<Rightarrow> outcome" where
  "pi_check out = (case out of
      Done r \<Rightarrow> (if is_fatal_error r \<or> ar_fatal r then Done (r\<lparr>ar_fatal := True\<rparr>)
                else if is_pi_crash r then OsError (crash_text r) else Done r)
    | other \<Rightarrow> other)"

definition cancelled_result :: "string \<Rightarrow> agent_result" where
  "cancelled_result e = new_result\<lparr>ar_error := Some e\<rparr>"

definition pi_failed :: "run_cfg \<Rightarrow> bool \<Rightarrow> bool \<Rightarrow> nat \<Rightarrow> string \<Rightarrow> agent_result option" where
  "pi_failed c cancelled slept k exc =
     (if cancelled then Some (cancelled_result (''cancelled after pi error: '' @ exc))
      else if matches_any fatal_patterns (py_lower exc)
      then Some (new_result\<lparr>ar_error := Some exc, ar_exit := -1, ar_fatal := True\<rparr>)
      else if should_retry k (rc_pi_max c) cancelled
      then (if slept then Some (cancelled_result (''cancelled after pi error: '' @ exc)) else None)
      else Some (new_result\<lparr>ar_exit := -1, ar_error := Some (''pi process failed after '' @ nat_str k @ '' retries: '' @ exc)\<rparr>))"

partial_function (option) pi_run :: "run_cfg \<Rightarrow> world \<Rightarrow> nat \<Rightarrow> nat \<Rightarrow> (outcome \<times> nat) option" where
  "pi_run c w n k =
     (if wd_start w n then Some (Done (cancelled_result ''cancelled''), n)
      else case api_run c w n (api_init c) of
        None \<Rightarrow> None
      | Some (out, m) \<Rightarrow>
          (case pi_check out of
             OsError exc \<Rightarrow>
               (case pi_failed c (wd_caught w (m - 1)) (wd_slept w (m - 1)) (Suc k) exc of
                  Some r \<Rightarrow> Some (Done r, m) | None \<Rightarrow> pi_run c w m (Suc k))
           | other \<Rightarrow> Some (other, m)))"

section \<open>Context overflow\<close>

definition compaction_prompt :: string where
  "compaction_prompt = ([CHR 0xE8, CHR 0xAF, CHR 0xB7, CHR 0xE7, CHR 0xAB, CHR 0x8B, CHR 0xE5, CHR 0x8D, CHR 0xB3, CHR 0xE8, CHR 0xA7, CHR 0xA6, CHR 0xE5, CHR 0x8F, CHR 0x91, CHR 0xE4, CHR 0xB8, CHR 0x80, CHR 0xE6, CHR 0xAC, CHR 0xA1, CHR 0xE5, CHR 0xBD, CHR 0x93, CHR 0xE5, CHR 0x89, CHR 0x8D, CHR 0xE4, CHR 0xBC, CHR 0x9A, CHR 0xE8, CHR 0xAF, CHR 0x9D, CHR 0xE7, CHR 0x9A, CHR 0x84, CHR 0xE8, CHR 0x87, CHR 0xAA, CHR 0xE5, CHR 0x8A, CHR 0xA8, CHR 0xE5, CHR 0x8E, CHR 0x8B, CHR 0xE7, CHR 0xBC, CHR 0xA9, CHR 0xEF, CHR 0xBC, CHR 0x88] @ ''compaction'' @ [CHR 0xEF, CHR 0xBC, CHR 0x89, CHR 0xEF, CHR 0xBC, CHR 0x8C, CHR 0xE4, CHR 0xBB, CHR 0x85, CHR 0xE4, CHR 0xBF, CHR 0x9D, CHR 0xE7, CHR 0x95, CHR 0x99, CHR 0xE5, CHR 0x90, CHR 0x8E, CHR 0xE7, CHR 0xBB, CHR 0xAD, CHR 0xE7, CHR 0xBB, CHR 0xA7, CHR 0xE7, CHR 0xBB, CHR 0xAD, CHR 0xE6, CHR 0x89, CHR 0xA7, CHR 0xE8, CHR 0xA1, CHR 0x8C, CHR 0xE4, CHR 0xBB, CHR 0xBB, CHR 0xE5, CHR 0x8A, CHR 0xA1, CHR 0xE6, CHR 0x89, CHR 0x80, CHR 0xE9, CHR 0x9C, CHR 0x80, CHR 0xE7, CHR 0x9A, CHR 0x84, CHR 0xE5, CHR 0x85, CHR 0xB3, CHR 0xE9, CHR 0x94, CHR 0xAE, CHR 0xE7, CHR 0xBB, CHR 0x93, CHR 0xE8, CHR 0xAE, CHR 0xBA, CHR 0xE3, CHR 0x80, CHR 0x81, CHR 0xE7, CHR 0xBA, CHR 0xA6, CHR 0xE6, CHR 0x9D, CHR 0x9F, CHR 0xE5, CHR 0x92, CHR 0x8C, CHR 0xE5, CHR 0xBE, CHR 0x85, CHR 0xE5, CHR 0x8A, CHR 0x9E, CHR 0xE3, CHR 0x80, CHR 0x82, CHR 0xE4, CHR 0xB8, CHR 0x8D, CHR 0xE8, CHR 0xA6, CHR 0x81, CHR 0xE7, CHR 0xBB, CHR 0xA7, CHR 0xE7, CHR 0xBB, CHR 0xAD, CHR 0xE4, CHR 0xB8, CHR 0x9A, CHR 0xE5, CHR 0x8A, CHR 0xA1, CHR 0xE5, CHR 0x88, CHR 0x86, CHR 0xE6, CHR 0x9E, CHR 0x90, CHR 0xEF, CHR 0xBC, CHR 0x8C, CHR 0xE5, CHR 0x8F, CHR 0xAA, CHR 0xE5, CHR 0x9B, CHR 0x9E, CHR 0xE5, CHR 0xA4, CHR 0x8D] @ '' COMPACTION_OK'' @ [CHR 0xE3, CHR 0x80, CHR 0x82])"

definition compaction :: "run_cfg \<Rightarrow> run_cfg" where
  "compaction c = c\<lparr>rc_stdin := compaction_prompt, rc_continue := compaction_prompt\<rparr>"

definition overflow_failure :: "string \<Rightarrow> nat \<Rightarrow> nat \<Rightarrow> nat \<Rightarrow> bool \<Rightarrow> nat \<Rightarrow> string" where
  "overflow_failure original window tokens limit attempted reserved =
     (if attempted then [CHR 0xE5, CHR 0xB7, CHR 0xB2, CHR 0xE5, CHR 0x85, CHR 0x88, CHR 0xE8, CHR 0xA7, CHR 0xA6, CHR 0xE5, CHR 0x8F, CHR 0x91, CHR 0xE4, CHR 0xB8, CHR 0x80, CHR 0xE6, CHR 0xAC, CHR 0xA1, CHR 0xE4, CHR 0xBC, CHR 0x9A, CHR 0xE8, CHR 0xAF, CHR 0x9D, CHR 0xE8, CHR 0x87, CHR 0xAA, CHR 0xE5, CHR 0x8A, CHR 0xA8, CHR 0xE5, CHR 0x8E, CHR 0x8B, CHR 0xE7, CHR 0xBC, CHR 0xA9, CHR 0xE5, CHR 0xB9, CHR 0xB6, CHR 0xE9, CHR 0x87, CHR 0x8D, CHR 0xE8, CHR 0xAF, CHR 0x95] else [CHR 0xE6, CHR 0x9C, CHR 0xAA, CHR 0xE8, CHR 0x83, CHR 0xBD, CHR 0xE8, CHR 0xA7, CHR 0xA6, CHR 0xE5, CHR 0x8F, CHR 0x91, CHR 0xE4, CHR 0xBC, CHR 0x9A, CHR 0xE8, CHR 0xAF, CHR 0x9D, CHR 0xE8, CHR 0x87, CHR 0xAA, CHR 0xE5, CHR 0x8A, CHR 0xA8, CHR 0xE5, CHR 0x8E, CHR 0x8B, CHR 0xE7, CHR 0xBC, CHR 0xA9])
     @ ([CHR 0xEF, CHR 0xBC, CHR 0x8C, CHR 0xE4, CHR 0xBD, CHR 0x86, CHR 0xE5, CHR 0xBD, CHR 0x93, CHR 0xE5, CHR 0x89, CHR 0x8D, CHR 0xE5, CHR 0x8D, CHR 0x95, CHR 0xE6, CHR 0xAC, CHR 0xA1, CHR 0xE8, CHR 0xBE, CHR 0x93, CHR 0xE5, CHR 0x85, CHR 0xA5, CHR 0xE4, CHR 0xBC, CHR 0xB0, CHR 0xE7, CHR 0xAE, CHR 0x97, CHR 0xE7, CHR 0xBA, CHR 0xA6] @ '' '') @ nat_str tokens @ ('' tokens'' @ [CHR 0xEF, CHR 0xBC, CHR 0x8C, CHR 0xE8, CHR 0xB6, CHR 0x85, CHR 0xE8, CHR 0xBF, CHR 0x87, CHR 0xE6, CHR 0x9C, CHR 0x89, CHR 0xE6, CHR 0x95, CHR 0x88, CHR 0xE9, CHR 0xA2, CHR 0x84, CHR 0xE7, CHR 0xAE, CHR 0x97, CHR 0xE9, CHR 0x98, CHR 0x88, CHR 0xE5, CHR 0x80, CHR 0xBC] @ '' 75%: '') @ nat_str limit @ ''/'' @ nat_str window
     @ ([CHR 0xEF, CHR 0xBC, CHR 0x88] @ ''proxy_reserved='') @ nat_str (max reserved 4096) @ ([CHR 0xEF, CHR 0xBC, CHR 0x89, CHR 0xEF, CHR 0xBC, CHR 0x8C, CHR 0xE6, CHR 0x9C, CHR 0xAC, CHR 0xE6, CHR 0xAC, CHR 0xA1, CHR 0xE8, CHR 0xAF, CHR 0xB7, CHR 0xE6, CHR 0xB1, CHR 0x82, CHR 0xE4, CHR 0xB8, CHR 0x8D, CHR 0xE5, CHR 0x86, CHR 0x8D, CHR 0xE7, CHR 0xBB, CHR 0xA7, CHR 0xE7, CHR 0xBB, CHR 0xAD, CHR 0xE9, CHR 0x87, CHR 0x8D, CHR 0xE8, CHR 0xAF, CHR 0x95, CHR 0xE3, CHR 0x80, CHR 0x82, CHR 0xE5, CHR 0x8E, CHR 0x9F, CHR 0xE5, CHR 0xA7, CHR 0x8B, CHR 0xE9, CHR 0x94, CHR 0x99, CHR 0xE8, CHR 0xAF, CHR 0xAF] @ '': '')
     @ (if original = [] then ''unknown'' else original)"

definition input_tokens :: "run_cfg \<Rightarrow> nat" where
  "input_tokens c = single_input_estimate (rc_system c) (rc_prompt c)"

definition input_budget :: "run_cfg \<Rightarrow> nat" where
  "input_budget c = preflight_limit (model_context_window (rc_model c)) 0"

definition preflight_result :: "run_cfg \<Rightarrow> agent_result" where
  "preflight_result c =
     (let window = model_context_window (rc_model c)
      in new_result\<lparr>ar_window := window, ar_reserved := 4096, ar_preflight_exceeded := True,
           ar_error := Some (overflow_failure ''preflight_context_budget_exceeded_without_session'' window (input_tokens c)
             (input_budget c) False 4096),
           ar_overflow_failed := True\<rparr>)"

definition overflowed :: "run_cfg \<Rightarrow> agent_result \<Rightarrow> agent_result" where
  "overflowed c r =
     (let d = parse_overflow (or_empty (ar_error r))
      in r\<lparr>ar_window := (if od_context d = 0 then model_context_window (rc_model c) else od_context d),
           ar_reserved := od_reserved d\<rparr>)"

text \<open>A result that is followed by another round is dropped with the flags set on it, so they are left out.\<close>

partial_function (option) overflow_run :: "run_cfg \<Rightarrow> world \<Rightarrow> nat \<Rightarrow> (outcome \<times> nat) option" where
  "overflow_run c w n =
     (if input_budget c < input_tokens c
      then (if \<not> rc_session c then Some (Done (preflight_result c), n)
            else case pi_run (compaction c) w n 0 of
              None \<Rightarrow> None
            | Some (out, m) \<Rightarrow> (case out of Done _ \<Rightarrow> overflow_run c w m | _ \<Rightarrow> Some (out, m)))
      else case pi_run c w n 0 of
        None \<Rightarrow> None
      | Some (out, m) \<Rightarrow>
          (case out of
             Done r \<Rightarrow>
               (if \<not> is_context_overflow (or_empty (ar_error r))
                then Some (Done (r\<lparr>ar_window := model_context_window (rc_model c)\<rparr>), m)
                else if \<not> rc_session c then Some (Done ((overflowed c r)\<lparr>ar_overflow_failed := True\<rparr>), m)
                else case pi_run (compaction c) w m 0 of
                  None \<Rightarrow> None
                | Some (out', m') \<Rightarrow> (case out' of Done _ \<Rightarrow> overflow_run c w m' | _ \<Rightarrow> Some (out', m')))
           | _ \<Rightarrow> Some (out, m)))"

section \<open>The entry point\<close>

record run_request =
  rr_prompt :: string
  rr_model :: string
  rr_system :: string
  rr_session :: "string option"
  rr_max_retries :: int
  rr_retry_delay :: rat
  rr_timeout :: pyval
  rr_timeout_retry :: bool
  rr_timeout_max :: int
  rr_pi_max :: int
  rr_pi_delay :: rat
  rr_continue :: string
  rr_empty_max :: int

definition continue_default :: string where
  "continue_default = [CHR 0xE5, CHR 0x89, CHR 0x8D, CHR 0xE6, CHR 0xAC, CHR 0xA1, CHR 0xE6, CHR 0x89, CHR 0xA7, CHR 0xE8, CHR 0xA1, CHR 0x8C, CHR 0xE5, CHR 0x9B, CHR 0xA0, CHR 0xE8, CHR 0xB6, CHR 0x85, CHR 0xE6, CHR 0x97, CHR 0xB6, CHR 0xE6, CHR 0x88, CHR 0x96, CHR 0xE7, CHR 0xBD, CHR 0x91, CHR 0xE7, CHR 0xBB, CHR 0x9C, CHR 0xE9, CHR 0x97, CHR 0xAE, CHR 0xE9, CHR 0xA2, CHR 0x98, CHR 0xE4, CHR 0xB8, CHR 0xAD, CHR 0xE6, CHR 0x96, CHR 0xAD, CHR 0xEF, CHR 0xBC, CHR 0x8C, CHR 0xE8, CHR 0xAF, CHR 0xB7, CHR 0xE7, CHR 0xBB, CHR 0xA7, CHR 0xE7, CHR 0xBB, CHR 0xAD, CHR 0xE5, CHR 0xAE, CHR 0x8C, CHR 0xE6, CHR 0x88, CHR 0x90, CHR 0xE4, CHR 0xB9, CHR 0x8B, CHR 0xE5, CHR 0x89, CHR 0x8D, CHR 0xE7, CHR 0x9A, CHR 0x84, CHR 0xE4, CHR 0xBB, CHR 0xBB, CHR 0xE5, CHR 0x8A, CHR 0xA1, CHR 0xEF, CHR 0xBC, CHR 0x8C, CHR 0xE4, CHR 0xBB, CHR 0x8E, CHR 0xE4, CHR 0xB8, CHR 0x8A, CHR 0xE6, CHR 0xAC, CHR 0xA1, CHR 0xE8, CHR 0xBF, CHR 0x9B, CHR 0xE5, CHR 0xBA, CHR 0xA6, CHR 0xE7, CHR 0xBB, CHR 0xA7, CHR 0xE7, CHR 0xBB, CHR 0xAD, CHR 0xE5, CHR 0xB7, CHR 0xA5, CHR 0xE4, CHR 0xBD, CHR 0x9C, CHR 0xE3, CHR 0x80, CHR 0x82]"

definition run_config :: "(string \<Rightarrow> pyval option) \<Rightarrow> string \<Rightarrow> run_request \<Rightarrow> run_cfg" where
  "run_config json bad_event q =
     (let session = or_empty (rr_session q) \<noteq> []
      in \<lparr>rc_json = json, rc_bad_event = bad_event, rc_model = rr_model q, rc_system = rr_system q, rc_prompt = rr_prompt q,
          rc_session = session, rc_stdin = rr_prompt q,
          rc_continue = (if session then (if rr_continue q = [] then continue_default else rr_continue q) else rr_prompt q),
          rc_max_retries = rr_max_retries q, rc_retry_delay = rr_retry_delay q, rc_idle = normalize_timeout (rr_timeout q),
          rc_timeout_retry = rr_timeout_retry q, rc_timeout_max = rr_timeout_max q, rc_empty_max = rr_empty_max q,
          rc_pi_max = rr_pi_max q, rc_pi_delay = rr_pi_delay q\<rparr>)"

text \<open>\<open>pi_missing\<close> is the text of the error when the executable is not found.\<close>

definition run_agent :: "string option \<Rightarrow> (string \<Rightarrow> pyval option) \<Rightarrow> string \<Rightarrow> run_request \<Rightarrow> world \<Rightarrow> (outcome \<times> nat) option" where
  "run_agent pi_missing json bad_event q w =
     (case pi_missing of
        Some e \<Rightarrow> Some (Done (new_result\<lparr>ar_error := Some e, ar_exit := -1, ar_fatal := True\<rparr>), 0)
      | None \<Rightarrow> overflow_run (run_config json bad_event q) w 0)"

end
