(* ===== verification/AgentRetrySafety.thy ===== *)
theory AgentRetrySafety
  imports AgentRetry
begin

text \<open>
  What the retry loops of the runner guarantee: with finite limits they end after a known number of attempts, a cancel ends them,
  fatal errors are not retried; and where the loops do not do what their arguments say.
\<close>

section \<open>One round of the inner loop\<close>

text \<open>The results that the inner loop answers by waiting and trying again without any limit.\<close>

definition endless_result :: "agent_result \<Rightarrow> bool" where
  "endless_result r \<longleftrightarrow> \<not> is_pi_crash r \<and> \<not> is_fatal_error r \<and> \<not> is_empty_response r \<and> \<not> is_query_engine_401 r
     \<and> is_retryable_api_error r \<and> (is_rate_limit r \<or> \<not> is_timeout_error (ar_error r))"

definition attempt_result :: "run_cfg \<Rightarrow> proc_end \<Rightarrow> agent_result option" where
  "attempt_result c e = with_output (exec_result (rc_json c) (rc_bad_event c) e)"

definition endless :: "run_cfg \<Rightarrow> proc_end \<Rightarrow> bool" where
  "endless c e \<longleftrightarrow> (case e of SpawnError _ \<Rightarrow> False | OuterTimeout \<Rightarrow> False
     | _ \<Rightarrow> (case attempt_result c e of Some r \<Rightarrow> endless_result r | None \<Rightarrow> False))"

lemma api_step_cases:
  obtains (spawn) e where "wd_end w n = SpawnError e" "api_step c w n st = Stop (OsError e)"
  | (idle) "wd_end w n = OuterTimeout" "api_step c w n st = on_idle c w n st"
  | (escape) "attempt_result c (wd_end w n) = None" "api_step c w n st = Stop Escapes"
  | (run) r where "wd_end w n \<noteq> OuterTimeout" "attempt_result c (wd_end w n) = Some r" "api_step c w n st = classify_attempt c w n st r"
      "endless c (wd_end w n) = endless_result r"
  by (cases "wd_end w n"; cases "attempt_result c (wd_end w n)")
    (auto simp: api_step_def attempt_result_def endless_def)

lemmas round_defs = on_idle_def on_empty_def on_q401_def on_rate_limit_def on_api_error_def on_api_timeout_def after_sleep_def

text \<open>How the counters move when another attempt follows.\<close>

definition retry_rank :: "run_cfg \<Rightarrow> api_state \<Rightarrow> nat" where
  "retry_rank c st =
     ((2 * nat (rc_timeout_max c) - as_timeouts st - as_api_timeouts st) * 11 + (10 - as_q401 st)) * (nat (rc_empty_max c) + 1)
     + (nat (rc_empty_max c) - as_empty st)"

definition counters_ok :: "run_cfg \<Rightarrow> api_state \<Rightarrow> bool" where
  "counters_ok c st \<longleftrightarrow> int (as_timeouts st) \<le> rc_timeout_max c \<and> int (as_api_timeouts st) \<le> rc_timeout_max c
     \<and> as_q401 st \<le> 10 \<and> as_empty st \<le> nat (rc_empty_max c)"

lemma rank_drop:
  fixes X X' q q' e e' E :: nat
  assumes "X' * 11 + (10 - q') < X * 11 + (10 - q) \<or> X' * 11 + (10 - q') = X * 11 + (10 - q) \<and> E - e' < E - e"
  shows "(X' * 11 + (10 - q')) * (E + 1) + (E - e') < (X * 11 + (10 - q)) * (E + 1) + (E - e)"
proof (cases "X' * 11 + (10 - q') < X * 11 + (10 - q)")
  case True
  then have "(X' * 11 + (10 - q') + 1) * (E + 1) \<le> (X * 11 + (10 - q)) * (E + 1)"
    by (intro mult_right_mono) simp_all
  then show ?thesis by (simp add: algebra_simps)
next
  case False
  then show ?thesis using assms by simp
qed

lemma on_idle_again:
  assumes "on_idle c w n st = Again st'" and "counters_ok c st" and "0 \<le> rc_timeout_max c"
  shows "counters_ok c st' \<and> retry_rank c st' < retry_rank c st"
  using assms unfolding retry_rank_def
  by (intro conjI rank_drop) (auto simp: round_defs Let_def counters_ok_def within_limit_def split: if_splits)

lemma classify_attempt_again:
  assumes "classify_attempt c w n st r = Again st'" and "counters_ok c st" and "0 \<le> rc_timeout_max c" and "rc_empty_max c \<noteq> -1"
    and "\<not> endless_result r"
  shows "counters_ok c st' \<and> retry_rank c st' < retry_rank c st"
proof -
  have go: "wd_cancel w n = False" "is_pi_crash r = False" "is_fatal_error r = False"
    using assms(1) by (auto simp: classify_attempt_def split: if_splits)
  show ?thesis
  proof (cases "is_empty_response r")
    case True
    then show ?thesis using assms go unfolding retry_rank_def
      by (intro conjI rank_drop)
        (auto simp: classify_attempt_def round_defs Let_def counters_ok_def split: if_splits)
  next
    case empty: False
    show ?thesis
    proof (cases "is_query_engine_401 r")
      case True
      then show ?thesis using assms go empty unfolding retry_rank_def
        by (intro conjI rank_drop)
          (auto simp: classify_attempt_def round_defs Let_def counters_ok_def query_engine_401_max_def split: if_splits)
    next
      case False
      then show ?thesis using assms go empty unfolding retry_rank_def
        by (intro conjI rank_drop)
          (auto simp: classify_attempt_def round_defs Let_def counters_ok_def within_limit_def endless_result_def split: if_splits)
    qed
  qed
qed

lemma api_step_again:
  assumes "api_step c w n st = Again st'" and "counters_ok c st" and "0 \<le> rc_timeout_max c" and "rc_empty_max c \<noteq> -1"
    and "\<not> endless c (wd_end w n)"
  shows "counters_ok c st' \<and> retry_rank c st' < retry_rank c st"
  by (rule api_step_cases [of w n c st]) (use assms on_idle_again classify_attempt_again in \<open>auto\<close>)

section \<open>Termination\<close>

definition attempt_bound :: "run_cfg \<Rightarrow> nat" where
  "attempt_bound c = (22 * nat (rc_timeout_max c) + 11) * (nat (rc_empty_max c) + 1)"

lemma api_run_bounded:
  assumes "counters_ok c st" and "0 \<le> rc_timeout_max c" and "rc_empty_max c \<noteq> -1" and "\<forall>k. \<not> endless c (wd_end w k)"
  shows "\<exists>out m. api_run c w n st = Some (out, m) \<and> n < m \<and> m \<le> n + retry_rank c st + 1"
  using assms(1)
proof (induction "retry_rank c st" arbitrary: n st rule: less_induct)
  case less
  show ?case
  proof (cases "api_step c w n st")
    case (Stop out)
    then show ?thesis by (subst api_run.simps) simp
  next
    case (Again st')
    have st': "counters_ok c st'" "retry_rank c st' < retry_rank c st"
      using api_step_again [OF Again less.prems assms(2,3)] assms(4) by auto
    obtain out m where "api_run c w (Suc n) st' = Some (out, m)" "Suc n < m" "m \<le> Suc n + retry_rank c st' + 1"
      using less.hyps [OF st'(2,1)] by blast
    with Again st' show ?thesis by (subst api_run.simps) auto
  qed
qed

lemma api_run_terminates:
  assumes "0 \<le> rc_timeout_max c" and "rc_empty_max c \<noteq> -1" and "\<forall>k. \<not> endless c (wd_end w k)"
  shows "\<exists>out m. api_run c w n (api_init c) = Some (out, m) \<and> n < m \<and> m \<le> n + attempt_bound c"
proof -
  have "counters_ok c (api_init c)" using assms(1) by (simp add: counters_ok_def api_init_def)
  moreover have "attempt_bound c = retry_rank c (api_init c) + 1"
    by (simp add: retry_rank_def attempt_bound_def api_init_def algebra_simps)
  ultimately show ?thesis using api_run_bounded [OF _ assms, of "api_init c" n] by (simp add: add.assoc)
qed

lemma pi_failed_retries:
  "pi_failed c b s k exc = None \<Longrightarrow> 0 \<le> rc_pi_max c \<Longrightarrow> int k \<le> rc_pi_max c \<and> \<not> b \<and> \<not> s"
  by (auto simp: pi_failed_def should_retry_def split: if_splits)

lemma pi_run_bounded:
  assumes "0 \<le> rc_timeout_max c" and "rc_empty_max c \<noteq> -1" and "0 \<le> rc_pi_max c" and "\<forall>k. \<not> endless c (wd_end w k)"
  shows "\<exists>out m. pi_run c w n k = Some (out, m) \<and> n \<le> m \<and> m \<le> n + (nat (rc_pi_max c) - k + 1) * attempt_bound c"
proof (induction "nat (rc_pi_max c) - k" arbitrary: n k rule: less_induct)
  case less
  obtain o1 m1 where run: "api_run c w n (api_init c) = Some (o1, m1)" "n < m1" "m1 \<le> n + attempt_bound c"
    using api_run_terminates [OF assms(1,2,4)] by blast
  have small: "m1 \<le> n + (nat (rc_pi_max c) - k + 1) * attempt_bound c" using run(3) by simp
  consider "wd_start w n" | other where "\<not> wd_start w n" "pi_check o1 = other" "\<forall>e. other \<noteq> OsError e"
    | exc where "\<not> wd_start w n" "pi_check o1 = OsError exc" by blast
  then show ?case
  proof cases
    case 1
    then show ?thesis by (subst pi_run.simps) simp
  next
    case 2
    then show ?thesis using run(1,2) small by (subst pi_run.simps) (auto split: outcome.split)
  next
    case 3
    show ?thesis
    proof (cases "pi_failed c (wd_caught w (m1 - 1)) (wd_slept w (m1 - 1)) (Suc k) exc")
      case None
      then have "int (Suc k) \<le> rc_pi_max c" using pi_failed_retries assms(3) by blast
      then have "nat (rc_pi_max c) - Suc k < nat (rc_pi_max c) - k" by linarith
      from less(1) [OF this, of m1] obtain out m where
        rest: "pi_run c w m1 (Suc k) = Some (out, m)" "m1 \<le> m" "m \<le> m1 + (nat (rc_pi_max c) - Suc k + 1) * attempt_bound c"
        by blast
      have "nat (rc_pi_max c) - k + 1 = Suc (nat (rc_pi_max c) - Suc k + 1)" using \<open>int (Suc k) \<le> rc_pi_max c\<close> by linarith
      then have "m1 + (nat (rc_pi_max c) - Suc k + 1) * attempt_bound c \<le> n + (nat (rc_pi_max c) - k + 1) * attempt_bound c"
        using run(3) by simp
      with rest run 3 None show ?thesis by (subst pi_run.simps) simp
    next
      case (Some r)
      then show ?thesis using run(1,2) small 3 by (subst pi_run.simps) simp
    qed
  qed
qed

section \<open>Cancelling\<close>

text \<open>A cancel event that is set stays set.\<close>

definition cancel_stays :: "world \<Rightarrow> bool" where
  "cancel_stays w \<longleftrightarrow> (\<forall>n. (wd_start w n \<longrightarrow> wd_cancel w n) \<and> (wd_cancel w n \<longrightarrow> wd_caught w n \<and> wd_slept w n \<and> wd_start w (Suc n)))"

lemma cancelled_step: "wd_cancel w n \<Longrightarrow> \<exists>out. api_step c w n st = Stop out"
  by (rule api_step_cases [of w n c st]) (auto simp: classify_attempt_def on_idle_def Let_def)

lemma api_run_cancelled:
  assumes "n \<le> k" and "wd_cancel w k"
  shows "\<exists>out m. api_run c w n st = Some (out, m) \<and> n < m \<and> m \<le> Suc k"
  using assms(1)
proof (induction "k - n" arbitrary: n st)
  case 0
  then show ?case using cancelled_step [of w n c st] assms(2) by (subst api_run.simps) auto
next
  case (Suc d)
  show ?case
  proof (cases "api_step c w n st")
    case (Stop out)
    then show ?thesis using Suc.prems by (subst api_run.simps) simp
  next
    case (Again st')
    have "d = k - Suc n" "Suc n \<le> k" using Suc.hyps(2) by auto
    from Suc.hyps(1) [OF this, of st'] Again show ?thesis by (subst api_run.simps) auto
  qed
qed

lemma stays_set:
  assumes "cancel_stays w" and "wd_start w k" and "k \<le> m"
  shows "wd_start w m"
  using assms(3,2) by (induction m rule: dec_induct) (use assms(1) in \<open>auto simp: cancel_stays_def\<close>)

lemma pi_run_cancelled:
  assumes "cancel_stays w" and "n \<le> Suc k" and "wd_cancel w k"
  shows "\<exists>out m. pi_run c w n j = Some (out, m) \<and> n \<le> m \<and> m \<le> Suc k \<and> (n = m \<longrightarrow> wd_start w n)"
  using assms(2)
proof (induction "Suc k - n" arbitrary: n j rule: less_induct)
  case less
  show ?case
  proof (cases "wd_start w n")
    case True
    then show ?thesis using less.prems by (subst pi_run.simps) simp
  next
    case False
    then have "n \<le> k" using less.prems assms(1,3) by (cases "n = Suc k") (auto simp: cancel_stays_def)
    then obtain out m where run: "api_run c w n (api_init c) = Some (out, m)" "n < m" "m \<le> Suc k"
      using api_run_cancelled assms(3) by blast
    have "Suc k - m < Suc k - n" using run(2,3) \<open>n \<le> k\<close> by linarith
    from less.hyps [OF this run(3), of "Suc j"] obtain out' m' where
      res: "pi_run c w m (Suc j) = Some (out', m')" "m \<le> m'" "m' \<le> Suc k" by blast
    show ?thesis
      by (subst pi_run.simps) (use False run res in \<open>auto split: outcome.split option.split\<close>)
  qed
qed

lemma pi_run_started: "wd_start w n \<Longrightarrow> pi_run c w n j = Some (Done (cancelled_result ''cancelled''), n)"
  by (subst pi_run.simps) simp

lemma cancelled_is_no_overflow: "\<not> is_context_overflow ''cancelled''"
  by code_simp

lemma overflow_run_started:
  assumes "wd_start w n" and "input_tokens c \<le> input_budget c"
  shows "\<exists>r. overflow_run c w n = Some (Done r, n)"
  using assms cancelled_is_no_overflow by (subst overflow_run.simps) (auto simp: pi_run_started cancelled_result_def or_empty_def)

lemma overflow_run_cancelled:
  assumes "cancel_stays w" and "n \<le> Suc k" and "wd_cancel w k" and "input_tokens c \<le> input_budget c"
  shows "\<exists>out m. overflow_run c w n = Some (out, m) \<and> n \<le> m \<and> m \<le> Suc k"
  using assms(2)
proof (induction "Suc k - n" arbitrary: n rule: less_induct)
  case less
  show ?case
  proof (cases "wd_start w n")
    case True
    then show ?thesis using overflow_run_started [OF _ assms(4)] less.prems by blast
  next
    case False
    obtain out m where run: "pi_run c w n 0 = Some (out, m)" "n \<le> m" "m \<le> Suc k" "n \<noteq> m"
      using pi_run_cancelled [OF assms(1) less.prems assms(3), of c 0] False by blast
    obtain out1 m1 where comp: "pi_run (compaction c) w m 0 = Some (out1, m1)" "m \<le> m1" "m1 \<le> Suc k"
      using pi_run_cancelled [OF assms(1) run(3) assms(3), of "compaction c" 0] by blast
    have "Suc k - m1 < Suc k - n" using run comp by linarith
    from less.hyps [OF this comp(3)] obtain out2 m2 where
      rest: "overflow_run c w m1 = Some (out2, m2)" "m1 \<le> m2" "m2 \<le> Suc k" by blast
    show ?thesis
      by (subst overflow_run.simps) (use assms(4) run comp rest in \<open>auto split: outcome.split\<close>)
  qed
qed

section \<open>Loops that never end\<close>

lemmas api_run_induct = api_run.raw_induct [rotated 1, consumes 1]
lemmas pi_run_induct = pi_run.raw_induct [rotated 1, consumes 1]
lemmas overflow_run_induct = overflow_run.raw_induct [rotated 1, consumes 1]

lemma pi_run_no_os_error: "pi_run c w n k = Some y \<Longrightarrow> fst y \<noteq> OsError e"
proof (induction rule: pi_run_induct)
  case (1 f c w n k y)
  from 1(2) show ?case by (auto dest!: 1(1) split: if_splits option.splits outcome.splits)
qed

lemma pi_run_escapes: "pi_run c w n k = Some (out, m) \<Longrightarrow> out = Escapes \<or> (\<exists>r. out = Done r)"
  using pi_run_no_os_error by (cases out) fastforce+

lemma endless_step:
  assumes "endless c (wd_end w n)" and "\<not> wd_cancel w n" and "\<not> wd_slept w n"
  shows "\<exists>st'. api_step c w n st = Again st'"
proof -
  obtain r where "endless_result r" "api_step c w n st = classify_attempt c w n st r"
    using assms(1) by (cases rule: api_step_cases [of w n c st]) (auto simp: endless_def split: option.splits proc_end.splits)
  then show ?thesis using assms by (auto simp: classify_attempt_def endless_result_def round_defs Let_def)
qed

lemma api_run_endless_aux:
  "api_run c w n st = Some y \<Longrightarrow> \<exists>k\<ge>n. wd_cancel w k \<or> wd_slept w k \<or> \<not> endless c (wd_end w k)"
proof (induction rule: api_run_induct)
  case (1 f c w n st y)
  show ?case
  proof (cases "api_step c w n st")
    case (Stop out)
    then show ?thesis using endless_step [of c w n st] by (metis order_refl verdict.distinct(1))
  next
    case (Again st')
    then have "f c w (Suc n) st' = Some y" using 1(2) by simp
    from 1(1) [OF this] show ?thesis by (meson Suc_leD)
  qed
qed

text \<open>With a session and a prompt over the budget, the overflow loop asks for compactions only.\<close>

lemma oversized_aux:
  "overflow_run c w n = Some y \<Longrightarrow> input_budget c < input_tokens c \<Longrightarrow> rc_session c \<Longrightarrow>
     fst y = Escapes \<and> \<not> wd_start w n"
proof (induction rule: overflow_run_induct)
  case (1 f c w n y)
  obtain out m where run: "pi_run (compaction c) w n 0 = Some (out, m)"
    using 1(2-4) by (auto split: option.splits)
  show ?case
  proof (cases "wd_start w n")
    case True
    then have "out = Done (cancelled_result ''cancelled'')" "m = n" using run by (auto simp: pi_run_started)
    then have "f c w n = Some y" using 1(2-4) run by simp
    with 1(1) 1(3,4) True show ?thesis by blast
  next
    case False
    have "out = Escapes \<or> (\<exists>r. out = Done r)" using pi_run_escapes [OF run] .
    then show ?thesis using 1 run False by (cases y) auto
  qed
qed

section \<open>The session file\<close>

text \<open>The cut keeps whole lines only: \<open>last_valid\<close> is the length of the lines up to the last one that parses.\<close>

abbreviation nl :: char where "nl \<equiv> CHR 0x0A"

definition parses :: "(string \<Rightarrow> pyval option) \<Rightarrow> string \<Rightarrow> bool" where
  "parses json l \<longleftrightarrow> py_strip l \<noteq> [] \<and> json (py_strip l) \<noteq> None"

lemma last_valid_none: "list_all (\<lambda>l. \<not> parses json l) ls \<Longrightarrow> last_valid json p ls b = b"
  by (induction ls arbitrary: p) (auto simp: parses_def)

lemma last_valid_split:
  assumes "parses json l" and "list_all (\<lambda>l. \<not> parses json l) rest"
  shows "last_valid json p (as @ l # rest) b = p + length (concat (map (\<lambda>l. l @ [nl]) (as @ [l])))"
  using assms by (induction as arbitrary: p b) (auto simp: last_valid_none parses_def[symmetric] parses_def)

lemma split_on_no_nl: "l \<in> set (split_on c s) \<Longrightarrow> c \<notin> set l"
  by (induction s arbitrary: l) (auto split: if_splits list.splits)

lemma split_on_line: "c \<notin> set l \<Longrightarrow> split_on c (l @ c # s) = l # split_on c s"
  by (induction l) auto

lemma split_on_plain: "c \<notin> set l \<Longrightarrow> split_on c l = [l]"
  by (induction l) auto

lemma split_on_lines:
  "\<forall>l\<in>set ls. c \<notin> set l \<Longrightarrow> split_on c (concat (map (\<lambda>l. l @ [c]) ls)) = ls @ [[]]"
  by (induction ls) (auto simp: split_on_line)

lemma join_with_Cons: "zs \<noteq> [] \<Longrightarrow> join_with c (x # zs) = x @ c @ join_with c zs"
  by (cases zs) auto

lemma join_lines: "ls \<noteq> [] \<Longrightarrow> join_with [nl] ls @ [nl] = concat (map (\<lambda>l. l @ [nl]) ls)"
  by (induction ls rule: list_nonempty_induct) (auto simp: join_with_Cons)

lemma join_with_append:
  "ys \<noteq> [] \<Longrightarrow> join_with [nl] (xs @ ys) = concat (map (\<lambda>l. l @ [nl]) xs) @ join_with [nl] ys"
  by (induction xs) (auto simp: join_with_Cons)

text \<open>The lines of the cut: all of them, or those up to the last one that parses and an empty one.\<close>

lemma truncate_lines:
  obtains (same) "truncate_session json s = s"
      "\<not> list_ex (parses json) (split_on nl s) \<or> parses json (last (split_on nl s))"
  | (cut) as l rest where "split_on nl s = as @ l # rest" "parses json l" "list_all (\<lambda>l. \<not> parses json l) rest"
      "split_on nl (truncate_session json s) = as @ [l, []]"
      "truncate_session json s = concat (map (\<lambda>l. l @ [nl]) (as @ [l]))"
proof (cases "list_ex (parses json) (split_on nl s)")
  case False
  then have "truncate_session json s = s"
    by (simp add: truncate_session_def last_valid_none list_all_iff list_ex_iff)
  then show ?thesis by (rule that(1)) (use False in simp)
next
  case True
  then obtain as l rest where ls: "split_on nl s = as @ l # rest" "parses json l" "list_all (\<lambda>l. \<not> parses json l) rest"
    using split_list_last_prop [of "split_on nl s" "parses json"] by (auto simp: list_ex_iff list_all_iff)
  let ?head = "concat (map (\<lambda>l. l @ [nl]) (as @ [l]))"
  have n: "last_valid json 0 (split_on nl s) 0 = length ?head"
    using last_valid_split [OF ls(2,3), of 0 as 0] ls(1) by simp
  show ?thesis
  proof (cases "rest = []")
    case True
    have "s @ [nl] = ?head" using join_lines [of "as @ [l]"] join_split [of nl s] ls(1) True by simp
    then have "length ?head = length s + 1" by (metis length_append_singleton Suc_eq_plus1)
    then have "truncate_session json s = s" using n by (simp add: truncate_session_def Let_def)
    then show ?thesis by (rule that(1)) (simp add: ls True)
  next
    case False
    have "s = ?head @ join_with [nl] rest"
      using join_with_append [OF False, of "as @ [l]"] join_split [of nl s] ls(1) by simp
    then have t: "truncate_session json s = ?head" using n by (simp add: truncate_session_def Let_def)
    have "\<forall>x\<in>set (as @ [l]). nl \<notin> set x" using split_on_no_nl [of _ nl s] ls(1) by auto
    then have "split_on nl (truncate_session json s) = as @ [l, []]" using split_on_lines [of "as @ [l]" nl] t by simp
    then show ?thesis using that(2) ls t by blast
  qed
qed

lemma empty_line [simp]: "\<not> parses json []"
  by (simp add: parses_def py_strip_def)

lemma truncate_idem: "truncate_session json (truncate_session json s) = truncate_session json s"
proof (cases rule: truncate_lines [of json s])
  case same
  then show ?thesis by simp
next
  case (cut as l rest)
  have "last_valid json 0 (as @ [l, []]) 0 = length (truncate_session json s)"
    using last_valid_split [OF cut(2), of "[[]]" 0 as 0] cut(5) by simp
  then show ?thesis using cut(4) by (subst truncate_session_def) simp
qed

section \<open>Properties\<close>

definition sample_request :: run_request where
  "sample_request = \<lparr>rr_prompt = ''go'', rr_model = [], rr_system = [], rr_session = Some ''s.jsonl'', rr_max_retries = 3,
     rr_retry_delay = 10, rr_timeout = PInt 3600, rr_timeout_retry = True, rr_timeout_max = 3, rr_pi_max = 2, rr_pi_delay = 5,
     rr_continue = [], rr_empty_max = 3\<rparr>"

definition sample_cfg :: "(string \<Rightarrow> pyval option) \<Rightarrow> run_cfg" where
  "sample_cfg json = run_config json [] sample_request"

definition sample_world :: "proc_end \<Rightarrow> nat \<Rightarrow> world" where
  "sample_world e k = \<lparr>wd_end = (\<lambda>_. e), wd_start = (\<lambda>n. k < n), wd_cancel = (\<lambda>n. k \<le> n), wd_caught = (\<lambda>n. k \<le> n),
     wd_slept = (\<lambda>n. k \<le> n), wd_session = (\<lambda>_. [])\<rparr>"

lemma sample_cfg_fields [simp]:
  "rc_json (sample_cfg j) = j" "rc_bad_event (sample_cfg j) = []" "rc_system (sample_cfg j) = []" "rc_session (sample_cfg j)"
  "rc_timeout_max (sample_cfg j) = 3" "rc_empty_max (sample_cfg j) = 3" "rc_pi_max (sample_cfg j) = 2"
  "rc_stdin (sample_cfg j) = ''go''"
  by (simp_all add: sample_cfg_def run_config_def sample_request_def or_empty_def Let_def)

lemma sample_model [simp]: "rc_model (sample_cfg j) = []" "rc_prompt (sample_cfg j) = ''go''"
  by (simp_all add: sample_cfg_def run_config_def sample_request_def Let_def)

lemma sample_budget: "input_budget (sample_cfg j) = 89856"
  by (simp add: input_budget_def model_context_window_def context_windows_def default_context_window_def py_lower_def
      preflight_limit_def effective_context_limit_def)

lemma sample_fits: "input_tokens (sample_cfg j) \<le> input_budget (sample_cfg j)"
  by (simp add: sample_budget input_tokens_def single_input_estimate_def prompt_token_overhead_def estimate_tokens_def)

lemma sample_world_fields [simp]:
  "wd_end (sample_world e k) n = e" "wd_start (sample_world e k) n \<longleftrightarrow> k < n" "wd_cancel (sample_world e k) n \<longleftrightarrow> k \<le> n"
  "wd_caught (sample_world e k) n \<longleftrightarrow> k \<le> n" "wd_slept (sample_world e k) n \<longleftrightarrow> k \<le> n" "wd_session (sample_world e k) n = []"
  by (simp_all add: sample_world_def)

text \<open>
  C38: With finite limits, and unless an attempt ends in an error that is retried without a limit (a rate limit, or another
  temporary error of the API that is no timeout), the loops for API errors and crashes return after at most
  \<open>(pi_max + 1) (22 timeout_max + 11) (empty_max + 1)\<close> attempts, however timeouts, empty answers, query-engine
  errors and crashes alternate.
\<close>
theorem pi_run_terminates:
  assumes "0 \<le> rc_timeout_max c" and "rc_empty_max c \<noteq> -1" and "0 \<le> rc_pi_max c" and "\<forall>k. \<not> endless c (wd_end w k)"
  shows "\<exists>out m. pi_run c w n 0 = Some (out, m)
    \<and> m \<le> n + (nat (rc_pi_max c) + 1) * ((22 * nat (rc_timeout_max c) + 11) * (nat (rc_empty_max c) + 1))"
  using pi_run_bounded [OF assms, of n 0] by (auto simp: attempt_bound_def)

theorem pi_run_terminates_witness:
  "\<exists>out m. pi_run (sample_cfg (\<lambda>_. None)) (sample_world OuterTimeout 1000) 0 0 = Some (out, m) \<and> m \<le> 924"
  using pi_run_terminates [of "sample_cfg (\<lambda>_. None)" "sample_world OuterTimeout 1000" 0]
  by (simp add: endless_def)

text \<open>
  A cancel ends the run: if the prompt fits the model and the event is set when attempt \<open>k\<close> has ended,
  and stays set, \<open>run_agent\<close> returns without another attempt.
\<close>
theorem cancel_ends_the_run:
  assumes "cancel_stays w" and "wd_cancel w k"
    and "input_tokens (run_config json bad q) \<le> input_budget (run_config json bad q)"
  shows "\<exists>out m. run_agent None json bad q w = Some (out, m) \<and> m \<le> Suc k"
  using overflow_run_cancelled [OF assms(1) _ assms(2,3), of 0] by (auto simp: run_agent_def)

theorem cancel_ends_the_run_witness:
  "\<exists>out m. run_agent None (\<lambda>_. None) [] sample_request (sample_world (Exited [] ''503'' 0) 7) = Some (out, m) \<and> m \<le> 8"
  using cancel_ends_the_run [of "sample_world (Exited [] ''503'' 0) 7" 7 "\<lambda>_. None" "[]" sample_request] sample_fits
  by (auto simp: cancel_stays_def sample_cfg_def)

text \<open>
  An agent with a session and a prompt over the budget never returns a result: the prompt is measured again after
  each compaction and cannot shrink. When the run is cancelled before it starts, the loop does not even start a process any more.
\<close>
theorem oversized_prompt_never_returns:
  assumes "input_budget c < input_tokens c" and "rc_session c"
  shows "overflow_run c w n \<noteq> Some (Done r, m) \<and> (wd_start w n \<longrightarrow> overflow_run c w n = None)"
proof -
  have "overflow_run c w n \<noteq> Some y" if "wd_start w n \<or> (\<exists>r. fst y = Done r)" for y
    using oversized_aux [OF _ assms, of w n y] that by auto
  then show ?thesis by (metis fst_conv not_Some_eq)
qed

lemma estimate_replicate: "estimate_tokens (replicate (Suc n) CHR ''x'') = (n + 4) div 4"
  by (simp add: estimate_tokens_def Let_def filter_replicate)

theorem oversized_prompt_never_returns_witness:
  "overflow_run ((sample_cfg (\<lambda>_. None))\<lparr>rc_prompt := replicate (Suc 400000) CHR ''x''\<rparr>)
     ((sample_world OuterTimeout 0)\<lparr>wd_start := \<lambda>_. True\<rparr>) 0 = None"
proof -
  let ?c = "(sample_cfg (\<lambda>_. None))\<lparr>rc_prompt := replicate (Suc 400000) CHR ''x''\<rparr>"
  have "input_budget ?c = input_budget (sample_cfg (\<lambda>_. None))" by (simp add: input_budget_def)
  moreover have "input_tokens ?c = estimate_tokens [] + estimate_tokens (replicate (Suc 400000) CHR ''x'') + 128"
    unfolding input_tokens_def single_input_estimate_def prompt_token_overhead_def by simp
  ultimately have "input_budget ?c < input_tokens ?c" using sample_budget by (simp only: estimate_replicate)
  moreover have "rc_session ?c" by simp
  ultimately show ?thesis
    using oversized_prompt_never_returns [of ?c "(sample_world OuterTimeout 0)\<lparr>wd_start := \<lambda>_. True\<rparr>" 0] by simp
qed

text \<open>
  As long as every attempt ends in a rate limit or another plain error of the API and nobody cancels, the inner loop
  never returns, whatever \<open>max_retries\<close> is: the limit is never read.
\<close>
theorem plain_errors_never_give_up:
  assumes "\<forall>k\<ge>n. endless c (wd_end w k) \<and> \<not> wd_cancel w k \<and> \<not> wd_slept w k"
  shows "api_run (c\<lparr>rc_max_retries := limit\<rparr>) w n st = None"
proof -
  have "attempt_result (c\<lparr>rc_max_retries := limit\<rparr>) = attempt_result c" by (simp add: attempt_result_def fun_eq_iff)
  then have "endless (c\<lparr>rc_max_retries := limit\<rparr>) = endless c" by (intro ext) (simp add: endless_def split: proc_end.split)
  then show ?thesis using api_run_endless_aux [of "c\<lparr>rc_max_retries := limit\<rparr>" w n st] assms by (metis not_Some_eq)
qed

lemma unavailable_is_endless: "endless (sample_cfg (\<lambda>_. None)) (Exited [] ''503 service unavailable'' 0)"
proof -
  have "attempt_result (sample_cfg (\<lambda>_. None)) (Exited [] ''503 service unavailable'' 0)
      = Some (new_result\<lparr>ar_error := Some ''503 service unavailable''\<rparr>)"
    unfolding attempt_result_def sample_cfg_fields by code_simp
  moreover have "endless_result (new_result\<lparr>ar_error := Some ''503 service unavailable''\<rparr>)"
    by code_simp
  ultimately show ?thesis by (simp add: endless_def)
qed

theorem plain_errors_never_give_up_witness:
  "api_run ((sample_cfg (\<lambda>_. None))\<lparr>rc_max_retries := 0\<rparr>)
     ((sample_world (Exited [] ''503 service unavailable'' 0) 0)\<lparr>wd_cancel := \<lambda>_. False, wd_slept := \<lambda>_. False\<rparr>) 0
     (api_init (sample_cfg (\<lambda>_. None))) = None"
  by (rule plain_errors_never_give_up) (simp add: unavailable_is_endless)

text \<open>
  An idle timeout is raised inside the block that also catches read errors, so it becomes such an error and the
  timeout policy never sees it: an attempt that had produced messages before is not repeated, and the run returns the message
  of a read error whatever the timeout settings say.
\<close>
theorem idle_timeout_is_not_retried:
  assumes "wd_end w n = IdleOut ls" and "process_lines (rc_json c) ls new_result = (r, True)" and "ar_messages r \<noteq> []"
    and "output_of (rev (ar_messages r)) = Some s" and "\<not> wd_start w n" and "ar_fatal r = False"
  shows "pi_run (c\<lparr>rc_timeout_retry := retry, rc_timeout_max := limit\<rparr>) w n k =
    Some (Done (r\<lparr>ar_error := Some ''pi process read error: '', ar_exit := -1, ar_output := s\<rparr>), Suc n)"
proof -
  let ?c = "c\<lparr>rc_timeout_retry := retry, rc_timeout_max := limit\<rparr>"
  let ?r = "r\<lparr>ar_error := Some ''pi process read error: '', ar_exit := -1, ar_output := s\<rparr>"
  have fatal: "\<not> matches_any fatal_patterns (py_lower ''pi process read error: '')"
    and retry: "\<not> list_ex (\<lambda>p. has_sub p (py_lower ''pi process read error: '')) retryable_patterns"
    and q401: "\<not> matches_any query_engine_patterns (py_lower ''pi process read error: '')" by code_simp+
  have cls: "\<not> is_pi_crash ?r" "\<not> is_fatal_error ?r" "\<not> is_empty_response ?r" "\<not> is_query_engine_401 ?r" "\<not> is_retryable_api_error ?r"
    using fatal retry q401 assms(3)
    by (simp_all add: is_pi_crash_def is_fatal_error_def is_empty_response_def is_query_engine_401_def
        is_retryable_api_error_def error_text_def or_empty_def)
  have "api_step ?c w n (api_init ?c) = Stop (Done ?r)"
    using assms cls by (simp add: api_step_def exec_result_def read_error_def with_output_def classify_attempt_def Let_def)
  then have "api_run ?c w n (api_init ?c) = Some (Done ?r, Suc n)" by (subst api_run.simps) simp
  then show ?thesis using assms(5,6) cls by (subst pi_run.simps) (simp add: pi_check_def)
qed

definition sample_json :: "string \<Rightarrow> pyval option" where
  "sample_json _ = Some (PDict [(''type'', PStr ''message_end''), (''message'', PDict [(''role'', PStr ''assistant'')])])"

theorem idle_timeout_is_not_retried_witness:
  "pi_run ((sample_cfg sample_json)\<lparr>rc_timeout_retry := True, rc_timeout_max := 3\<rparr>) (sample_world (IdleOut [''x'']) 9) 0 0 =
    Some (Done (new_result\<lparr>ar_messages := [PDict [(''role'', PStr ''assistant'')]], ar_error := Some ''pi process read error: '',
      ar_exit := -1, ar_output := []\<rparr>), 1)"
proof -
  have "process_lines sample_json [''x''] new_result = (new_result\<lparr>ar_messages := [PDict [(''role'', PStr ''assistant'')]]\<rparr>, True)"
    and "output_of (rev [PDict [(''role'', PStr ''assistant'')]]) = Some []"
    by code_simp+
  then show ?thesis
    using idle_timeout_is_not_retried [of "sample_world (IdleOut [''x'']) 9" 0 "[''x'']" "sample_cfg sample_json"]
    by (simp add: new_result_def)
qed

lemma resend_unused:
  "s \<noteq> [] \<Longrightarrow> resend c l s \<noteq> []" "s \<noteq> [] \<Longrightarrow> resend (c\<lparr>rc_continue := x\<rparr>) l s = resend c l s"
  by (simp_all add: resend_def Let_def)

lemma continue_unused:
  "attempt_result (c\<lparr>rc_continue := x\<rparr>) e = attempt_result c e"
  "as_stdin st \<noteq> [] \<Longrightarrow> on_idle (c\<lparr>rc_continue := x\<rparr>) w n st = on_idle c w n st"
  "as_stdin st \<noteq> [] \<Longrightarrow> on_api_timeout (c\<lparr>rc_continue := x\<rparr>) w n st r = on_api_timeout c w n st r"
  "on_empty (c\<lparr>rc_continue := x\<rparr>) w n st r = on_empty c w n st r"
  "on_q401 (c\<lparr>rc_continue := x\<rparr>) w n st r = on_q401 c w n st r"
  by (simp_all only: on_q401_def) (simp_all add: attempt_result_def on_idle_def idle_error_def on_api_timeout_def on_empty_def empty_error_def resend_unused Let_def)

lemma classify_continue_unused:
  "as_stdin st \<noteq> [] \<Longrightarrow> classify_attempt (c\<lparr>rc_continue := x\<rparr>) w n st r = classify_attempt c w n st r"
  unfolding classify_attempt_def on_api_error_def Let_def by (simp add: continue_unused)

lemma stdin_kept:
  assumes "as_stdin st \<noteq> []"
  shows "on_idle c w n st = Again st' \<Longrightarrow> as_stdin st' \<noteq> []"
    and "classify_attempt c w n st r = Again st' \<Longrightarrow> as_stdin st' \<noteq> []"
proof -
  have sleep: "after_sleep w n r st0 = Again st' \<Longrightarrow> st' = st0" for r st0 by (simp add: after_sleep_def split: if_splits)
  show "on_idle c w n st = Again st' \<Longrightarrow> as_stdin st' \<noteq> []"
    using assms by (auto simp: on_idle_def Let_def resend_unused split: if_splits)
  have kept: "on_empty c w n st r = Again st' \<Longrightarrow> as_stdin st' \<noteq> []" "on_q401 c w n st r = Again st' \<Longrightarrow> as_stdin st' \<noteq> []"
    "on_rate_limit w n st r = Again st' \<Longrightarrow> as_stdin st' \<noteq> []" "on_api_error c w n st r = Again st' \<Longrightarrow> as_stdin st' \<noteq> []"
    if "as_stdin st \<noteq> []" for st
    using that by (auto simp: on_empty_def on_q401_def on_rate_limit_def on_api_error_def on_api_timeout_def Let_def resend_unused dest!: sleep split: if_splits)
  show "classify_attempt c w n st r = Again st' \<Longrightarrow> as_stdin st' \<noteq> []"
    using assms kept [of st] kept [of "st\<lparr>as_empty := 0\<rparr>"] kept [of "st\<lparr>as_empty := 0, as_q401 := 0\<rparr>"] unfolding classify_attempt_def Let_def by (simp split: if_splits)
qed

text \<open>
  The continue prompt of a run is never used when the prompt is not empty: a retry sends the last user message
  of the session, or what was sent before.
\<close>
theorem continue_prompt_is_never_sent:
  assumes "as_stdin st \<noteq> []" and "api_step c w n st = Again st'"
  shows "as_stdin st' \<noteq> [] \<and> api_step (c\<lparr>rc_continue := other\<rparr>) w n st = Again st'"
proof
  show "as_stdin st' \<noteq> []" using assms(2) stdin_kept [OF assms(1)] by (cases rule: api_step_cases [of w n c st]) simp_all
  have "api_step (c\<lparr>rc_continue := other\<rparr>) w n st = api_step c w n st"
    unfolding api_step_def using assms(1) by (simp add: continue_unused classify_continue_unused split: proc_end.split option.split)
  then show "api_step (c\<lparr>rc_continue := other\<rparr>) w n st = Again st'" using assms(2) by simp
qed

text \<open>
  C39: The cut after a timeout loses no record of the session and leaves no broken one behind: the same lines parse before
  and after it, after a line that parses only empty lines remain, and cutting again changes nothing.
\<close>
theorem session_cut_exact:
  "filter (parses json) (split_on nl (truncate_session json s)) = filter (parses json) (split_on nl s) \<and>
   (list_ex (parses json) (split_on nl s) \<longrightarrow>
      (\<exists>as l rest. split_on nl (truncate_session json s) = as @ l # rest \<and> parses json l \<and> list_all (\<lambda>x. x = []) rest)) \<and>
   truncate_session json (truncate_session json s) = truncate_session json s"
proof (intro conjI truncate_idem)
  show "filter (parses json) (split_on nl (truncate_session json s)) = filter (parses json) (split_on nl s)"
    by (cases rule: truncate_lines [of json s]) (simp_all add: list_all_iff)
  show "list_ex (parses json) (split_on nl s) \<longrightarrow>
      (\<exists>as l rest. split_on nl (truncate_session json s) = as @ l # rest \<and> parses json l \<and> list_all (\<lambda>x. x = []) rest)"
  proof
    assume some: "list_ex (parses json) (split_on nl s)"
    show "\<exists>as l rest. split_on nl (truncate_session json s) = as @ l # rest \<and> parses json l \<and> list_all (\<lambda>x. x = []) rest"
    proof (cases rule: truncate_lines [of json s])
      case same
      then have "parses json (last (split_on nl s))" using some by simp
      then show ?thesis using same by (metis append_butlast_last_id list.pred_inject(1) split_on_ne)
    next
      case (cut as l rest)
      then show ?thesis by (intro exI [of _ as] exI [of _ l] exI [of _ "[[]]"]) simp
    qed
  qed
qed

theorem session_cut_exact_witness:
  "\<exists>as l rest. split_on nl (truncate_session sample_json (''a'' @ [nl] @ ''b'' @ [nl])) = as @ l # rest
     \<and> parses sample_json l \<and> list_all (\<lambda>x. x = []) rest"
proof -
  have "list_ex (parses sample_json) (split_on nl (''a'' @ [nl] @ ''b'' @ [nl]))" by code_simp
  then show ?thesis using session_cut_exact [of sample_json "''a'' @ [nl] @ ''b'' @ [nl]"] by blast
qed

text \<open>
  A fatal error is final: when an attempt ends in one, the run returns its result, marked as fatal, after that attempt;
  so it does when a process cannot be started and the error of the system has the words of a fatal one.
\<close>
theorem fatal_errors_are_final:
  assumes "\<not> wd_start w n"
    and "(\<exists>r. wd_end w n \<noteq> OuterTimeout \<and> (\<forall>e. wd_end w n \<noteq> SpawnError e) \<and> attempt_result c (wd_end w n) = Some r
            \<and> is_fatal_error r \<and> res = r\<lparr>ar_fatal := True\<rparr>)
       \<or> (\<exists>e. wd_end w n = SpawnError e \<and> matches_any fatal_patterns (py_lower e) \<and> \<not> wd_caught w n
            \<and> res = new_result\<lparr>ar_error := Some e, ar_exit := -1, ar_fatal := True\<rparr>)"
  shows "pi_run c w n k = Some (Done res, Suc n)"
  using assms(2)
proof
  assume "\<exists>r. wd_end w n \<noteq> OuterTimeout \<and> (\<forall>e. wd_end w n \<noteq> SpawnError e) \<and> attempt_result c (wd_end w n) = Some r
            \<and> is_fatal_error r \<and> res = r\<lparr>ar_fatal := True\<rparr>"
  then obtain r where r: "wd_end w n \<noteq> OuterTimeout" "\<forall>e. wd_end w n \<noteq> SpawnError e" "attempt_result c (wd_end w n) = Some r"
    "is_fatal_error r" "res = r\<lparr>ar_fatal := True\<rparr>" by blast
  have "api_step c w n (api_init c) = Stop (Done r)"
    using r by (cases rule: api_step_cases [of w n c "api_init c"]) (auto simp: classify_attempt_def)
  then have "api_run c w n (api_init c) = Some (Done r, Suc n)" by (subst api_run.simps) simp
  then show ?thesis using assms(1) r by (subst pi_run.simps) (simp add: pi_check_def)
next
  assume "\<exists>e. wd_end w n = SpawnError e \<and> matches_any fatal_patterns (py_lower e) \<and> \<not> wd_caught w n
            \<and> res = new_result\<lparr>ar_error := Some e, ar_exit := -1, ar_fatal := True\<rparr>"
  then obtain e where e: "wd_end w n = SpawnError e" "matches_any fatal_patterns (py_lower e)" "\<not> wd_caught w n"
    "res = new_result\<lparr>ar_error := Some e, ar_exit := -1, ar_fatal := True\<rparr>" by blast
  then have "api_run c w n (api_init c) = Some (OsError e, Suc n)" by (subst api_run.simps) (simp add: api_step_def)
  then show ?thesis using assms(1) e by (subst pi_run.simps) (simp add: pi_check_def pi_failed_def)
qed

theorem fatal_errors_are_final_witness:
  "\<exists>res. pi_run (sample_cfg (\<lambda>_. None)) (sample_world (Exited [] ''Error: 403 Forbidden'' 1) 5) 0 0 = Some (Done res, 1)
     \<and> ar_fatal res"
proof -
  let ?r = "new_result\<lparr>ar_error := Some ''Error: 403 Forbidden'', ar_exit := 1\<rparr>"
  have "attempt_result (sample_cfg (\<lambda>_. None)) (Exited [] ''Error: 403 Forbidden'' 1) = Some ?r"
    unfolding attempt_result_def sample_cfg_fields by code_simp
  moreover have "is_fatal_error ?r" by code_simp
  ultimately show ?thesis
    using fatal_errors_are_final [of "sample_world (Exited [] ''Error: 403 Forbidden'' 1) 5" 0 "sample_cfg (\<lambda>_. None)" "?r\<lparr>ar_fatal := True\<rparr>" 0]
    by auto
qed

text \<open>
  A process that ends normally, with messages, but writes a line like a temporary error to its error channel is run again.
\<close>
lemma noisy_success_is_repeated:
  "\<exists>st'. api_step (sample_cfg sample_json) (sample_world (Exited [''x''] ''warning: slow connection pool'' 0) 5) 0
     (api_init (sample_cfg sample_json)) = Again st'"
proof (rule endless_step)
  let ?r = "new_result\<lparr>ar_messages := [PDict [(''role'', PStr ''assistant'')]], ar_error := Some ''warning: slow connection pool''\<rparr>"
  have "attempt_result (sample_cfg sample_json) (Exited [''x''] ''warning: slow connection pool'' 0) = Some ?r"
    unfolding attempt_result_def sample_cfg_fields by code_simp
  moreover have "endless_result ?r" by code_simp
  ultimately show "endless (sample_cfg sample_json) (wd_end (sample_world (Exited [''x''] ''warning: slow connection pool'' 0) 5) 0)"
    by (simp add: endless_def)
qed simp_all

text \<open>
  An error of the query engine before the first message, with a non-zero exit code, is taken for a crash of the process, so
  it never reaches the branch with the limit of ten.
\<close>
lemma early_query_engine_error_is_crash:
  "is_query_engine_401 r \<Longrightarrow> ar_messages r = [] \<Longrightarrow> ar_exit r \<noteq> 0 \<Longrightarrow> \<not> is_retryable_api_error r \<Longrightarrow>
     classify_attempt c w n st r = Stop (Done r)"
  by (simp add: classify_attempt_def is_pi_crash_def is_fatal_error_def)

text \<open>The four patterns in upper case can never be found in text in lower case.\<close>

lemma lower_char_not_E: "lower_char c \<noteq> CHR ''E''"
proof
  assume "lower_char c = CHR ''E''"
  then have "(of_char (lower_char c) :: nat) = 69" by simp
  then show False by (auto simp: lower_char_def Let_def split: if_splits)
qed

lemma is_prefix_upper: "is_prefix (c # p) (py_lower s) \<Longrightarrow> c \<noteq> CHR ''E''"
  using lower_char_not_E by (cases s) (auto simp: py_lower_def)

lemma upper_case_patterns_are_dead:
  "\<not> has_sub (CHR ''E'' # p) (py_lower s)"
proof (induction s)
  case (Cons d s)
  then show ?case using is_prefix_upper [of "CHR ''E''" p "d # s"] by (auto simp: py_lower_def)
qed (simp add: py_lower_def)

end
