(* ===== verification/PiCommand.thy ===== *)
theory PiCommand
  imports PyVal
begin

text \<open>
  The command line of the agent process (\<open>app/runner.py\<close>): which model of \<open>models.json\<close> a model name of the configuration means,
  the arguments, and the isolation that wraps them. The content of \<open>models.json\<close> is an argument (\<open>None\<close> when it cannot be
  read), so are \<open>shutil.which\<close> and \<open>os.path.isdir\<close>. An exception is \<open>None\<close>.
\<close>

section \<open>The model\<close>

definition ends_with :: "string \<Rightarrow> string \<Rightarrow> bool" where
  "ends_with s t \<longleftrightarrow> is_prefix (rev t) (rev s)"

fun model_names :: "pyval \<Rightarrow> string list" where
  "model_names (PDict m) = filter (\<lambda>t. t \<noteq> []) (map (\<lambda>v. py_strip (py_str (py_or v (PStr [])))) [get m ''id'', get m ''name''])"
| "model_names _ = []"

fun provider_models :: "pyval \<Rightarrow> pyval list" where
  "provider_models (PDict cfg) = (case get cfg ''models'' of PList ms \<Rightarrow> ms | _ \<Rightarrow> [])"
| "provider_models _ = []"

text \<open>All candidates in the order of the loops, with the name \<open>provider/model\<close> each stands for.\<close>

definition candidates :: "dict \<Rightarrow> (string \<times> string) list" where
  "candidates providers = concat (map (\<lambda>(p, cfg). map (\<lambda>t. (t, p @ ''/'' @ t)) (concat (map model_names (provider_models cfg)))) providers)"

definition exact_match :: "string \<Rightarrow> string \<times> string \<Rightarrow> bool" where
  "exact_match requested = (\<lambda>(t, _). py_lower requested = py_lower t)"

definition suffix_match :: "string \<Rightarrow> string \<times> string \<Rightarrow> bool" where
  "suffix_match requested = (\<lambda>(t, _). ends_with (py_lower requested) (''/'' @ py_lower t)
     \<or> ends_with (py_lower t) (''/'' @ py_lower requested))"

definition first_match :: "string \<Rightarrow> (string \<times> string) list \<Rightarrow> string option" where
  "first_match requested cs =
     (case find (exact_match requested) cs of Some c \<Rightarrow> Some (snd c)
      | None \<Rightarrow> map_option snd (find (suffix_match requested) cs))"

definition first_available :: "string \<times> pyval \<Rightarrow> string list" where
  "first_available = (\<lambda>(p, cfg). case provider_models cfg of
      PDict m # _ \<Rightarrow> (if truthy (get m ''id'') then [p @ ''/'' @ py_str (get m ''id'')] else [])
    | _ \<Rightarrow> [])"

definition resolve_model :: "string \<Rightarrow> pyval option \<Rightarrow> string option" where
  "resolve_model model data =
     (let requested = py_strip model in
      if requested = [] then Some requested
      else case data of
        None \<Rightarrow> Some requested
      | Some (PDict d) \<Rightarrow>
          (case get d ''providers'' of
             PDict providers \<Rightarrow>
               (if hd (split_on (CHR ''/'') requested) \<in> fst ` set providers then Some requested
                else case first_match requested (candidates providers) of
                  Some r \<Rightarrow> (if r \<noteq> requested then Some r
                    else (case concat (map first_available providers) of f # _ \<Rightarrow> Some f | [] \<Rightarrow> Some requested))
                | None \<Rightarrow> (case concat (map first_available providers) of f # _ \<Rightarrow> Some f | [] \<Rightarrow> Some requested))
           | _ \<Rightarrow> Some requested)
      | Some _ \<Rightarrow> None)"

section \<open>The arguments\<close>

definition build_args :: "string list \<Rightarrow> string \<Rightarrow> string list \<Rightarrow> string \<Rightarrow> string option \<Rightarrow> pyval option \<Rightarrow> string list option" where
  "build_args pi_cmd model tools thinking session data =
     (let head = pi_cmd @ [''--mode'', ''json'', ''-p''] @
            (if or_empty session \<noteq> [] then [''--session'', or_empty session] else [''--no-session'']);
          tail = (if tools \<noteq> [] then [''--tools'', join_with '','' tools] else []) @
            (if thinking \<noteq> [] then [''--thinking'', thinking] else [])
      in if model = [] then Some (head @ tail)
         else map_option (\<lambda>m. head @ [''--model'', m] @ tail) (resolve_model model data))"

definition bwrap_args :: "(string \<Rightarrow> bool) \<Rightarrow> string \<Rightarrow> string \<Rightarrow> string list" where
  "bwrap_args is_dir bwrap cwd =
     [bwrap]
     @ concat (map (\<lambda>p. [''--ro-bind'', p, p]) (filter is_dir [''/usr'', ''/bin'', ''/sbin'', ''/lib'', ''/lib64'', ''/lib32'',
         ''/etc'', ''/opt'', ''/nix'', ''/run'']))
     @ concat (map (\<lambda>p. [''--ro-bind'', p, p]) (filter is_dir [''/root/.pi'', ''/root/.npm'', ''/root/.config'', ''/root/.cache'']))
     @ [''--proc'', ''/proc'', ''--dev'', ''/dev'', ''--tmpfs'', ''/tmp'']
     @ [''--bind'', cwd, cwd, ''--chdir'', cwd, ''--'']"

definition isolated_args :: "string \<Rightarrow> (string \<Rightarrow> string option) \<Rightarrow> (string \<Rightarrow> bool) \<Rightarrow> string list \<Rightarrow> string \<Rightarrow> string list" where
  "isolated_args mode which is_dir args cwd =
     (if mode = ''none'' then args
      else case (if mode = ''bwrap'' then which ''bwrap'' else None) of
        Some bwrap \<Rightarrow> bwrap_args is_dir bwrap cwd @ args
      | None \<Rightarrow>
          (if mode = ''unshare'' \<or> mode = ''bwrap''
           then (case which ''unshare'' of
                   Some unshare \<Rightarrow> [unshare, ''--mount'', ''--user'', ''--map-root-user'', ''--''] @ args | None \<Rightarrow> args)
           else args))"

section \<open>Lemmas\<close>

definition offered :: "dict \<Rightarrow> string \<Rightarrow> bool" where
  "offered providers r \<longleftrightarrow> list_ex (\<lambda>(p, cfg). list_ex (\<lambda>m. list_ex (\<lambda>t. r = p @ ''/'' @ t) (model_names m)
     \<or> (case m of PDict d \<Rightarrow> truthy (get d ''id'') \<and> r = p @ ''/'' @ py_str (get d ''id'') | _ \<Rightarrow> False)) (provider_models cfg)) providers"

lemma candidate_offered: "c \<in> set (candidates ps) \<Longrightarrow> offered ps (snd c)"
  by (fastforce simp: candidates_def offered_def list_ex_iff)

lemma find_in_set: "find P xs = Some x \<Longrightarrow> x \<in> set xs"
  by (auto simp: find_Some_iff)

lemma first_match_offered: "first_match q (candidates ps) = Some r \<Longrightarrow> offered ps r"
  by (auto simp: first_match_def split: option.splits dest!: find_in_set candidate_offered)

lemma first_available_offered: "concat (map first_available ps) = f # fs \<Longrightarrow> offered ps f"
proof -
  assume "concat (map first_available ps) = f # fs"
  then have "f \<in> set (concat (map first_available ps))" by simp
  then obtain p cfg where "(p, cfg) \<in> set ps" "f \<in> set (first_available (p, cfg))" by auto
  moreover then obtain m ms where "provider_models cfg = PDict m # ms" "truthy (get m ''id'')" "f = p @ ''/'' @ py_str (get m ''id'')"
    by (cases "provider_models cfg") (auto simp: first_available_def split: pyval.splits if_splits)
  ultimately show ?thesis
    by (auto simp: offered_def list_ex_iff intro!: bexI [of _ "(p, cfg)"])
qed

text \<open>
  The model passed to the process is the requested one or one that \<open>models.json\<close> offers under a provider; it is the
  requested one when that already names a provider.
\<close>
theorem resolved_model_is_offered:
  assumes "resolve_model model (Some (PDict d)) = Some r" and "get d ''providers'' = PDict ps"
  shows "(r = py_strip model \<or> offered ps r) \<and> (hd (split_on (CHR ''/'') (py_strip model)) \<in> fst ` set ps \<longrightarrow> r = py_strip model)"
  using assms by (auto simp: resolve_model_def Let_def dest: first_match_offered first_available_offered
      split: if_splits option.splits list.splits)

text \<open>The wrapped command always ends with the command itself, so isolation never changes what runs.\<close>
theorem isolation_keeps_command: "\<exists>pre. isolated_args mode which is_dir args cwd = pre @ args"
  by (auto simp: isolated_args_def split: option.split)

end
