(* ===== verification/CallExtractor.thy ===== *)
theory CallExtractor
  imports FunctionDB SourceText CallchainDB
begin

text \<open>
  The static extraction of calls from C source (\<open>app/pipeline/callchain_extractor.py\<close>): which functions a line of a body calls, as
  a direct call or as a function pointer, which are declared in a block of extern declarations, and the dictionary of edges the
  three scans fill. Files are an argument that maps a path to its text, \<open>None\<close> when it cannot be read. A name is a word of
  ASCII letters; \<open>\b\<close> and \<open>\s\<close> concern ASCII characters only. Sets of names are iterated in the order of the functions.
\<close>

section \<open>Lines\<close>

definition word_char :: "char \<Rightarrow> bool" where
  "word_char c \<longleftrightarrow> (let n = of_char c :: nat in (48 \<le> n \<and> n \<le> 57) \<or> (65 \<le> n \<and> n \<le> 90) \<or> n = 95 \<or> (97 \<le> n \<and> n \<le> 122))"

definition comment_line :: "string \<Rightarrow> bool" where
  "comment_line s = (let t = dropWhile is_space s in is_prefix ''//'' t \<or> is_prefix ''/*'' t \<or> is_prefix ''*'' t)"

definition preprocessor_line :: "string \<Rightarrow> bool" where
  "preprocessor_line s = is_prefix ''#'' (py_strip s)"

fun strip_line_comment :: "string \<Rightarrow> string" where
  "strip_line_comment [] = []"
| "strip_line_comment (c # s) = (if is_prefix ''//'' (c # s) then [] else c # strip_line_comment s)"

text \<open>\<open>\s*\(\<close>\<close>

definition opens :: "string \<Rightarrow> bool" where
  "opens s = is_prefix ''('' (dropWhile is_space s)"

text \<open>\<open>(?<![A-Za-z0-9_]){name}\s*\(\<close>, from a position whose previous character is a word character or not.\<close>

fun direct_from :: "string \<Rightarrow> bool \<Rightarrow> string \<Rightarrow> bool" where
  "direct_from name w [] = (\<not> w \<and> name = [] \<and> opens [])"
| "direct_from name w (c # s) =
     ((\<not> w \<and> is_prefix name (c # s) \<and> opens (drop (length name) (c # s))) \<or> direct_from name (word_char c) s)"

definition direct_call :: "string \<Rightarrow> string \<Rightarrow> bool" where
  "direct_call name code = direct_from name False code"

text \<open>\<open>(?:=|,|\()\s*{name}(?!\s*\()\<close>\<close>

fun pointer_here :: "string \<Rightarrow> string \<Rightarrow> bool" where
  "pointer_here name s =
     ((is_prefix name s \<and> \<not> opens (drop (length name) s)) \<or> (case s of [] \<Rightarrow> False | c # t \<Rightarrow> is_space c \<and> pointer_here name t))"

fun pointer_use :: "string \<Rightarrow> string \<Rightarrow> bool" where
  "pointer_use name [] = False"
| "pointer_use name (c # s) = ((c \<in> {CHR ''='', CHR '','', CHR ''(''} \<and> pointer_here name s) \<or> pointer_use name s)"

datatype call_type = Direct | Pointer | ExternTable

definition classify_call :: "string \<Rightarrow> string \<Rightarrow> call_type option" where
  "classify_call code name =
     (if direct_call name code then Some Direct else if pointer_use name code then Some Pointer else None)"

section \<open>The known functions\<close>

record known_func =
  kf_hash :: string
  kf_name :: string
  kf_path :: string
  kf_start :: int
  kf_end :: int

definition collect_known :: "(string \<times> string) list \<Rightarrow> func_db \<Rightarrow> known_func list" where
  "collect_known paths db =
     map (\<lambda>(r, _). \<lparr>kf_hash = fn_hash r, kf_name = fn_name r, kf_path = or_empty (map_of (rev paths) (fn_file r)),
                    kf_start = fn_start r, kf_end = fn_end r\<rparr>)
       (filter (\<lambda>(r, _). fn_hash r \<noteq> []) (get_all_meta db))"

definition known_names :: "known_func list \<Rightarrow> string list" where
  "known_names ks = remdups (filter (\<lambda>n. n \<noteq> []) (map kf_name ks))"

text \<open>\<open>_pick_callee_hash(name_to_hashes[name], ...)\<close>: the first function of that name.\<close>

definition callee_of :: "known_func list \<Rightarrow> string \<Rightarrow> string option" where
  "callee_of ks name = map_option kf_hash (find (\<lambda>k. kf_name k = name) ks)"

section \<open>The dictionary of edges\<close>

type_synonym call_edge = "(string \<times> string \<times> int) \<times> call_type"

definition record_call :: "call_edge list \<Rightarrow> call_edge \<Rightarrow> call_edge list" where
  "record_call es e =
     (case map_of es (fst e) of
        None \<Rightarrow> es @ [e]
      | Some old \<Rightarrow> if snd e = Direct \<and> old \<noteq> Direct
                    then map (\<lambda>x. if fst x = fst e then e else x) es else es)"

section \<open>The scan of a body\<close>

definition scan_names :: "known_func list \<Rightarrow> known_func \<Rightarrow> int \<Rightarrow> string \<Rightarrow> string list \<Rightarrow> call_edge list \<Rightarrow> call_edge list" where
  "scan_names ks caller lineno code names es =
     foldl (\<lambda>es n.
       if \<not> has_sub n code then es
       else case callee_of ks n of
              None \<Rightarrow> es
            | Some h \<Rightarrow> (case classify_call code n of None \<Rightarrow> es | Some t \<Rightarrow> record_call es ((kf_hash caller, h, lineno), t))) es names"

definition scan_code_line :: "known_func list \<Rightarrow> known_func \<Rightarrow> int \<Rightarrow> string \<Rightarrow> call_edge list \<Rightarrow> call_edge list" where
  "scan_code_line ks caller lineno line es =
     (if comment_line line \<or> preprocessor_line line then es
      else (let code = strip_line_comment line
            in if py_strip code = [] then es
               else scan_names ks caller lineno code (filter (\<lambda>n. n \<noteq> kf_name caller) (known_names ks)) es))"

fun scan_body :: "known_func list \<Rightarrow> known_func \<Rightarrow> int \<Rightarrow> string list \<Rightarrow> call_edge list \<Rightarrow> call_edge list" where
  "scan_body ks caller lineno [] es = es"
| "scan_body ks caller lineno (l # ls) es = scan_body ks caller (lineno + 1) ls (scan_code_line ks caller lineno l es)"

definition body_end :: "known_func \<Rightarrow> int \<Rightarrow> int" where
  "body_end k len = (if 0 < kf_end k then min (kf_end k) len else min (kf_start k + 300) len)"

definition scan_func :: "known_func list \<Rightarrow> string list \<Rightarrow> known_func \<Rightarrow> call_edge list \<Rightarrow> call_edge list" where
  "scan_func ks ls caller es =
     (let len = int (length ls) in
      if kf_start caller \<le> 0 \<or> len < kf_start caller then es
      else scan_body ks caller (kf_start caller) (drop (nat (kf_start caller - 1)) (take (nat (body_end caller len)) ls)) es)"

section \<open>Blocks of extern declarations\<close>

definition ends_word :: "string \<Rightarrow> bool" where
  "ends_word s \<longleftrightarrow> (case s of [] \<Rightarrow> True | c # _ \<Rightarrow> \<not> word_char c)"

text \<open>\<open>^\s*extern\b\<close>\<close>

definition extern_line :: "string \<Rightarrow> bool" where
  "extern_line s = (let t = dropWhile is_space s in is_prefix ''extern'' t \<and> ends_word (drop 6 t))"

fun extern_blocks_from :: "nat \<Rightarrow> (nat \<times> nat) option \<Rightarrow> string list \<Rightarrow> (nat \<times> nat) list" where
  "extern_blocks_from i block [] = (case block of Some (s, n) \<Rightarrow> if 3 \<le> n then [(s, i)] else [] | None \<Rightarrow> [])"
| "extern_blocks_from i block (l # ls) =
     (if extern_line l
      then extern_blocks_from (i + 1) (Some (case block of None \<Rightarrow> (i + 1, 1) | Some (s, n) \<Rightarrow> (s, n + 1))) ls
      else (case block of Some (s, n) \<Rightarrow> if 3 \<le> n then [(s, i)] else [] | None \<Rightarrow> []) @ extern_blocks_from (i + 1) None ls)"

definition find_extern_blocks :: "string list \<Rightarrow> (nat \<times> nat) list" where
  "find_extern_blocks ls = extern_blocks_from 0 None ls"

text \<open>\<open>.*\b{name}\s*\(\<close> after \<open>extern\<close>, from a position whose previous character is a word character or not.\<close>

fun declares_from :: "string \<Rightarrow> bool \<Rightarrow> string \<Rightarrow> bool" where
  "declares_from name w [] = False"
| "declares_from name w (c # s) =
     ((w \<noteq> word_char c \<and> is_prefix name (c # s) \<and> opens (drop (length name) (c # s))) \<or> declares_from name (word_char c) s)"

definition declares :: "string \<Rightarrow> string \<Rightarrow> bool" where
  "declares name line = (extern_line line \<and> declares_from name True (drop 6 (dropWhile is_space line)))"

definition dispatcher_words :: "string list" where
  "dispatcher_words = [''dispatch'', ''procmsg'', ''msgproc'', ''handler'', ''process'']"

definition is_dispatcher :: "known_func \<Rightarrow> bool" where
  "is_dispatcher k \<longleftrightarrow> list_ex (\<lambda>w. has_sub w (py_lower (kf_name k))) dispatcher_words"

definition scan_extern_line :: "known_func list \<Rightarrow> string \<Rightarrow> nat \<Rightarrow> string \<Rightarrow> call_edge list \<Rightarrow> call_edge list" where
  "scan_extern_line ks dispatcher lineno line es =
     (if \<not> extern_line line then es
      else foldl (\<lambda>es n.
        if \<not> has_sub n line \<or> \<not> declares n line then es
        else case callee_of ks n of
               None \<Rightarrow> es
             | Some h \<Rightarrow> if h = dispatcher then es else record_call es ((dispatcher, h, int lineno), ExternTable)) es (known_names ks))"

definition scan_extern_block :: "known_func list \<Rightarrow> string list \<Rightarrow> string \<Rightarrow> nat \<times> nat \<Rightarrow> call_edge list \<Rightarrow> call_edge list" where
  "scan_extern_block ks ls dispatcher block es =
     foldl (\<lambda>es i. scan_extern_line ks dispatcher i (ls ! (i - 1)) es) es
       (filter (\<lambda>i. i \<le> length ls) [fst block..<snd block + 1])"

definition scan_extern_blocks :: "known_func list \<Rightarrow> string list \<Rightarrow> known_func list \<Rightarrow> call_edge list \<Rightarrow> call_edge list" where
  "scan_extern_blocks ks ls in_file es =
     (case find is_dispatcher in_file of
        None \<Rightarrow> es
      | Some d \<Rightarrow> foldl (\<lambda>es b. scan_extern_block ks ls (kf_hash d) b es) es (find_extern_blocks ls))"

section \<open>All files\<close>

definition scan_file :: "known_func list \<Rightarrow> (string \<Rightarrow> string option) \<Rightarrow> string \<Rightarrow> call_edge list \<Rightarrow> call_edge list" where
  "scan_file ks files path es =
     (let in_file = filter (\<lambda>k. kf_path k = path \<and> path \<noteq> []) ks in
      if in_file = [] then es
      else case files path of
        None \<Rightarrow> es
      | Some text \<Rightarrow>
          (let ls = split_lines text
           in scan_extern_blocks ks ls in_file (foldl (\<lambda>es k. scan_func ks ls k es) es in_file)))"

definition extract_call_edges :: "string list \<Rightarrow> known_func list \<Rightarrow> (string \<Rightarrow> string option) \<Rightarrow> call_edge list" where
  "extract_call_edges source_files ks files =
     (if ks = [] then [] else foldl (\<lambda>es path. scan_file ks files path es) [] source_files)"

definition type_name :: "call_type \<Rightarrow> string" where
  "type_name t = (case t of Direct \<Rightarrow> ''direct'' | Pointer \<Rightarrow> ''ptr'' | ExternTable \<Rightarrow> ''extern_table'')"

definition edge_dict :: "call_edge \<Rightarrow> dict" where
  "edge_dict e = (case e of ((caller, callee, line), t) \<Rightarrow>
     [(''caller_hash'', PStr caller), (''callee_hash'', PStr callee), (''call_site_line'', PInt line), (''call_type'', PStr (type_name t))])"

end
