(* ===== verification/CallExtractorSafety.thy ===== *)
theory CallExtractorSafety
  imports CallExtractor CallchainSafety
begin

text \<open>
  What the extraction of calls finds: the scanners for the two patterns are exactly the regular expressions, every direct call
  of a scanned line is an edge, and every edge has a line of code behind it.
\<close>

section \<open>The patterns\<close>

lemma opens_iff: "opens s \<longleftrightarrow> (\<exists>ws t. s = ws @ CHR ''('' # t \<and> list_all is_space ws)"
proof
  assume "opens s"
  then obtain t where "dropWhile is_space s = CHR ''('' # t" by (auto simp: opens_def is_prefix_iff)
  then have "s = takeWhile is_space s @ CHR ''('' # t" by (metis takeWhile_dropWhile_id)
  moreover have "list_all is_space (takeWhile is_space s)" by (auto simp: list_all_iff dest: set_takeWhileD)
  ultimately show "\<exists>ws t. s = ws @ CHR ''('' # t \<and> list_all is_space ws" by blast
next
  assume "\<exists>ws t. s = ws @ CHR ''('' # t \<and> list_all is_space ws"
  then obtain ws t where s: "s = ws @ CHR ''('' # t" and "list_all is_space ws" by blast
  moreover have "\<not> is_space CHR ''(''" by (simp add: is_space_def)
  ultimately have "dropWhile is_space s = CHR ''('' # t" by (simp add: dropWhile_append2 list_all_iff)
  then show "opens s" by (simp add: opens_def)
qed

text \<open>The character before a position, with what was there at the start.\<close>

definition word_before :: "bool \<Rightarrow> string \<Rightarrow> bool" where
  "word_before w a = (if a = [] then w else word_char (last a))"

lemma word_before_Cons: "word_before w (c # a) = word_before (word_char c) a"
  by (simp add: word_before_def)

lemma direct_from_iff:
  "direct_from name w s \<longleftrightarrow> (\<exists>a b. s = a @ name @ b \<and> \<not> word_before w a \<and> opens b)"
proof (induction s arbitrary: w)
  case Nil
  then show ?case by (auto simp: word_before_def)
next
  case (Cons c s)
  have "(\<exists>a b. c # s = a @ name @ b \<and> \<not> word_before w a \<and> opens b) \<longleftrightarrow>
      (\<exists>b. c # s = name @ b \<and> \<not> w \<and> opens b) \<or> (\<exists>a b. s = a @ name @ b \<and> \<not> word_before (word_char c) a \<and> opens b)"
    (is "?L \<longleftrightarrow> ?A \<or> ?B")
  proof
    assume ?L
    then obtain a b where ab: "c # s = a @ name @ b" "\<not> word_before w a" "opens b" by blast
    show "?A \<or> ?B"
    proof (cases a)
      case Nil
      then show ?thesis using ab by (auto simp: word_before_def)
    next
      case (Cons d a')
      then have "s = a' @ name @ b" "\<not> word_before (word_char c) a'" using ab by (auto simp: word_before_def split: if_splits)
      then show ?thesis using ab(3) by blast
    qed
  next
    assume "?A \<or> ?B"
    then show ?L
    proof
      assume ?A
      then obtain b where "c # s = [] @ name @ b" "\<not> word_before w []" "opens b" by (auto simp: word_before_def)
      then show ?L by blast
    next
      assume ?B
      then obtain a b where ab: "s = a @ name @ b" "\<not> word_before (word_char c) a" "opens b" by blast
      have "c # s = (c # a) @ name @ b" "\<not> word_before w (c # a)" using ab by (simp_all add: word_before_Cons)
      then show ?L using ab(3) by blast
    qed
  qed
  moreover have "is_prefix name (c # s) \<and> opens (drop (length name) (c # s)) \<longleftrightarrow> (\<exists>b. c # s = name @ b \<and> opens b)"
    by (auto simp: is_prefix_iff)
  ultimately show ?case using Cons.IH by auto
qed

lemma direct_call_iff:
  "direct_call name code \<longleftrightarrow> (\<exists>a b. code = a @ name @ b \<and> (a = [] \<or> \<not> word_char (last a)) \<and> opens b)"
  by (auto simp: direct_call_def direct_from_iff word_before_def)

lemma pointer_here_iff:
  "pointer_here name s \<longleftrightarrow> (\<exists>ws b. s = ws @ name @ b \<and> list_all is_space ws \<and> \<not> opens b)"
proof (induction s)
  case Nil
  then show ?case by (auto simp: is_prefix_iff)
next
  case (Cons c s)
  have "(\<exists>ws b. c # s = ws @ name @ b \<and> list_all is_space ws \<and> \<not> opens b) \<longleftrightarrow>
      (\<exists>b. c # s = name @ b \<and> \<not> opens b) \<or> is_space c \<and> (\<exists>ws b. s = ws @ name @ b \<and> list_all is_space ws \<and> \<not> opens b)"
    (is "?L \<longleftrightarrow> ?A \<or> ?B")
  proof
    assume ?L
    then obtain ws b where "c # s = ws @ name @ b" "list_all is_space ws" "\<not> opens b" by blast
    then show "?A \<or> ?B" by (cases ws) auto
  next
    assume "?A \<or> ?B"
    then show ?L
    proof
      assume ?A
      then show ?L by (metis append_Nil list.pred_inject(1))
    next
      assume ?B
      then show ?L by (metis append_Cons list.pred_inject(2))
    qed
  qed
  moreover have "is_prefix name (c # s) \<and> \<not> opens (drop (length name) (c # s)) \<longleftrightarrow> (\<exists>b. c # s = name @ b \<and> \<not> opens b)"
    by (auto simp: is_prefix_iff)
  ultimately show ?case using Cons.IH by (subst pointer_here.simps) auto
qed

lemma pointer_use_iff:
  "pointer_use name code \<longleftrightarrow>
    (\<exists>a c ws b. code = a @ c # ws @ name @ b \<and> c \<in> {CHR ''='', CHR '','', CHR ''(''} \<and> list_all is_space ws \<and> \<not> opens b)"
proof (induction code)
  case (Cons c s)
  have "(\<exists>a d ws b. c # s = a @ d # ws @ name @ b \<and> d \<in> {CHR ''='', CHR '','', CHR ''(''} \<and> list_all is_space ws \<and> \<not> opens b)
    \<longleftrightarrow> (c \<in> {CHR ''='', CHR '','', CHR ''(''} \<and> pointer_here name s) \<or>
      (\<exists>a d ws b. s = a @ d # ws @ name @ b \<and> d \<in> {CHR ''='', CHR '','', CHR ''(''} \<and> list_all is_space ws \<and> \<not> opens b)"
    (is "?L \<longleftrightarrow> ?A \<or> ?B")
  proof
    assume ?L
    then obtain a d ws b where e: "c # s = a @ d # ws @ name @ b" "d \<in> {CHR ''='', CHR '','', CHR ''(''}" "list_all is_space ws" "\<not> opens b"
      by blast
    show "?A \<or> ?B"
    proof (cases a)
      case Nil
      then show ?thesis using e unfolding pointer_here_iff by auto
    next
      case (Cons x a')
      then have "s = a' @ d # ws @ name @ b" using e(1) by simp
      then show ?thesis using e(2-4) by blast
    qed
  next
    assume "?A \<or> ?B"
    then show ?L unfolding pointer_here_iff by (metis append_Cons append_Nil)
  qed
  then show ?case using Cons.IH by simp
qed simp

lemma classify_call_has_name: "classify_call code n = Some t \<Longrightarrow> has_sub n code"
  unfolding classify_call_def direct_call_iff pointer_use_iff has_sub_iff
  by (auto split: if_splits) (metis append_Cons append_assoc)+

section \<open>The dictionary\<close>

lemma map_replace_keys: "map fst (map (\<lambda>x. if fst x = fst e then e else x) es) = map fst es"
  by (induction es) auto

lemma record_call_keys: "fst ` set (record_call es e) = insert (fst e) (fst ` set es)"
proof (cases "map_of es (fst e)")
  case (Some t)
  then have "fst e \<in> fst ` set es" by (metis map_of_SomeD fst_conv image_eqI)
  moreover have "map fst (record_call es e) = map fst es"
    unfolding record_call_def Some by (simp only: option.case map_replace_keys split: if_split) simp
  then have "fst ` set (record_call es e) = fst ` set es" by (metis list.set_map)
  ultimately show ?thesis by (simp add: insert_absorb)
qed (simp add: record_call_def)

lemma record_call_distinct: "distinct (map fst es) \<Longrightarrow> distinct (map fst (record_call es e))"
  by (cases "map_of es (fst e)")
    (auto simp: record_call_def map_replace_keys map_of_eq_None_iff simp del: map_map split: option.split)

lemma record_call_sub: "set (record_call es e) \<subseteq> insert e (set es)"
  by (auto simp: record_call_def split: option.splits if_splits)

lemma record_call_direct:
  assumes "(k, Direct) \<in> insert e (set es)" and "distinct (map fst es)"
  shows "(k, Direct) \<in> set (record_call es e)"
proof (cases "map_of es (fst e)")
  case None
  then show ?thesis using assms by (auto simp: record_call_def)
next
  case (Some old)
  then have old: "(fst e, old) \<in> set es" by (rule map_of_SomeD)
  show ?thesis
  proof (cases "(k, Direct) \<in> set es")
    case True
    then show ?thesis using Some old assms(2) eq_key_imp_eq_value [OF assms(2), of "fst e" old Direct]
      by (cases "fst e = k") (auto simp: record_call_def intro: image_eqI [of _ _ "(k, Direct)"])
  next
    case False
    then have "e = (k, Direct)" using assms(1) by auto
    then show ?thesis using Some old by (cases old) (auto simp: record_call_def intro: image_eqI [of _ _ "(k, old)"])
  qed
qed

lemma record_all_distinct: "distinct (map fst es) \<Longrightarrow> distinct (map fst (foldl record_call es evs))"
  by (induction evs arbitrary: es) (auto simp: record_call_distinct)

lemma record_all_keys: "fst ` set (foldl record_call es evs) = fst ` set es \<union> fst ` set evs"
  by (induction evs arbitrary: es) (auto simp: record_call_keys)

lemma record_all_sub: "set (foldl record_call es evs) \<subseteq> set es \<union> set evs"
proof (induction evs arbitrary: es)
  case (Cons e evs)
  show ?case using Cons [of "record_call es e"] record_call_sub [of es e] by auto
qed simp

lemma record_all_direct:
  "distinct (map fst es) \<Longrightarrow> (k, Direct) \<in> set es \<union> set evs \<Longrightarrow> (k, Direct) \<in> set (foldl record_call es evs)"
proof (induction evs arbitrary: es)
  case (Cons e evs)
  have "(k, Direct) \<in> set (record_call es e) \<union> set evs" using Cons.prems record_call_direct [of k e es] by auto
  then show ?case using Cons.IH [OF record_call_distinct [OF Cons.prems(1)]] by simp
qed simp

section \<open>The scans as lists of calls\<close>

lemma foldl_calls:
  assumes "\<And>es x. f es x = foldl record_call es (g x)"
  shows "foldl f es xs = foldl record_call es (concat (map g xs))"
  by (induction xs arbitrary: es) (simp_all add: assms)

definition scanned_code :: "string \<Rightarrow> string option" where
  "scanned_code line = (if comment_line line \<or> preprocessor_line line \<or> py_strip (strip_line_comment line) = [] then None
     else Some (strip_line_comment line))"

definition name_calls :: "known_func list \<Rightarrow> known_func \<Rightarrow> int \<Rightarrow> string \<Rightarrow> string \<Rightarrow> call_edge list" where
  "name_calls ks caller i code n = (case (callee_of ks n, classify_call code n) of
      (Some h, Some t) \<Rightarrow> [((kf_hash caller, h, i), t)] | _ \<Rightarrow> [])"

definition line_calls :: "known_func list \<Rightarrow> known_func \<Rightarrow> int \<Rightarrow> string \<Rightarrow> call_edge list" where
  "line_calls ks caller i line = (case scanned_code line of
      Some code \<Rightarrow> concat (map (name_calls ks caller i code) (filter (\<lambda>n. n \<noteq> kf_name caller) (known_names ks))) | None \<Rightarrow> [])"

fun body_calls :: "known_func list \<Rightarrow> known_func \<Rightarrow> int \<Rightarrow> string list \<Rightarrow> call_edge list" where
  "body_calls ks caller i [] = []"
| "body_calls ks caller i (l # ls) = line_calls ks caller i l @ body_calls ks caller (i + 1) ls"

definition func_calls :: "known_func list \<Rightarrow> string list \<Rightarrow> known_func \<Rightarrow> call_edge list" where
  "func_calls ks ls k = (if kf_start k \<le> 0 \<or> int (length ls) < kf_start k then []
     else body_calls ks k (kf_start k) (drop (nat (kf_start k - 1)) (take (nat (body_end k (int (length ls)))) ls)))"

lemma scan_names_calls:
  "scan_names ks caller i code names es = foldl record_call es (concat (map (name_calls ks caller i code) names))"
  unfolding scan_names_def
  by (rule foldl_calls) (auto simp: name_calls_def dest: classify_call_has_name split: option.split)

lemma scan_code_line_calls: "scan_code_line ks caller i line es = foldl record_call es (line_calls ks caller i line)"
  by (auto simp: scan_code_line_def line_calls_def scanned_code_def scan_names_calls Let_def)

lemma scan_body_calls: "scan_body ks caller i ls es = foldl record_call es (body_calls ks caller i ls)"
  by (induction ls arbitrary: i es) (simp_all add: scan_code_line_calls)

lemma scan_func_calls: "scan_func ks ls k es = foldl record_call es (func_calls ks ls k)"
  by (simp add: scan_func_def func_calls_def scan_body_calls Let_def)

definition extern_name_calls :: "known_func list \<Rightarrow> string \<Rightarrow> nat \<Rightarrow> string \<Rightarrow> string \<Rightarrow> call_edge list" where
  "extern_name_calls ks d i line n = (if has_sub n line \<and> declares n line
     then (case callee_of ks n of Some h \<Rightarrow> if h = d then [] else [((d, h, int i), ExternTable)] | None \<Rightarrow> []) else [])"

definition extern_line_calls :: "known_func list \<Rightarrow> string \<Rightarrow> nat \<Rightarrow> string \<Rightarrow> call_edge list" where
  "extern_line_calls ks d i line = (if extern_line line then concat (map (extern_name_calls ks d i line) (known_names ks)) else [])"

definition extern_calls :: "known_func list \<Rightarrow> string list \<Rightarrow> known_func list \<Rightarrow> call_edge list" where
  "extern_calls ks ls in_file = (case find is_dispatcher in_file of None \<Rightarrow> []
     | Some d \<Rightarrow> concat (map (\<lambda>b. concat (map (\<lambda>i. extern_line_calls ks (kf_hash d) i (ls ! (i - 1)))
         (filter (\<lambda>i. i \<le> length ls) [fst b..<snd b + 1]))) (find_extern_blocks ls)))"

definition file_calls :: "known_func list \<Rightarrow> (string \<Rightarrow> string option) \<Rightarrow> string \<Rightarrow> call_edge list" where
  "file_calls ks files path =
     (let in_file = filter (\<lambda>k. kf_path k = path \<and> path \<noteq> []) ks in
      if in_file = [] then []
      else case files path of None \<Rightarrow> []
        | Some text \<Rightarrow> concat (map (func_calls ks (split_lines text)) in_file) @ extern_calls ks (split_lines text) in_file)"

lemma scan_extern_line_calls:
  "scan_extern_line ks d i line es = foldl record_call es (extern_line_calls ks d i line)"
proof -
  have "foldl (\<lambda>es n. if \<not> has_sub n line \<or> \<not> declares n line then es
        else case callee_of ks n of None \<Rightarrow> es
             | Some h \<Rightarrow> if h = d then es else record_call es ((d, h, int i), ExternTable)) es (known_names ks)
      = foldl record_call es (concat (map (extern_name_calls ks d i line) (known_names ks)))"
    by (rule foldl_calls) (auto simp: extern_name_calls_def split: option.split)
  then show ?thesis by (simp add: scan_extern_line_def extern_line_calls_def)
qed

lemma scan_extern_blocks_calls:
  "scan_extern_blocks ks ls in_file es = foldl record_call es (extern_calls ks ls in_file)"
  by (auto simp: scan_extern_blocks_def extern_calls_def scan_extern_block_def scan_extern_line_calls
      intro!: foldl_calls split: option.split)

lemma scan_file_calls: "scan_file ks files path es = foldl record_call es (file_calls ks files path)"
  by (simp add: scan_file_def file_calls_def scan_extern_blocks_calls scan_func_calls foldl_calls Let_def split: option.split)

lemma extract_calls:
  "extract_call_edges paths ks files = foldl record_call [] (concat (map (file_calls ks files) paths))"
proof (cases "ks = []")
  case True
  then have "concat (map (file_calls ks files) paths) = []" by (simp add: file_calls_def)
  then show ?thesis using True by (metis extract_call_edges_def foldl_Nil)
next
  case False
  then show ?thesis by (simp add: extract_call_edges_def foldl_calls scan_file_calls)
qed

section \<open>What the calls are\<close>

text \<open>The code of line \<open>i\<close> of the body of a function, if the scan looks at it.\<close>

definition code_at :: "string list \<Rightarrow> known_func \<Rightarrow> int \<Rightarrow> string option" where
  "code_at ls k i = (if 0 < kf_start k \<and> kf_start k \<le> i \<and> i \<le> body_end k (int (length ls)) \<and> i \<le> int (length ls)
     then scanned_code (ls ! nat (i - 1)) else None)"

text \<open>The text says: on line \<open>i\<close> of its body the function \<open>c\<close> uses the name of the function \<open>h\<close>, not its own name, in the way \<open>t\<close>.\<close>

definition text_call :: "string list \<Rightarrow> known_func list \<Rightarrow> (string \<Rightarrow> string option) \<Rightarrow> string \<Rightarrow> string \<Rightarrow> int \<Rightarrow> call_type \<Rightarrow> bool" where
  "text_call paths ks files c h i t \<longleftrightarrow>
     (\<exists>k text code n. k \<in> set ks \<and> kf_hash k = c \<and> kf_path k \<noteq> [] \<and> kf_path k \<in> set paths \<and> files (kf_path k) = Some text
        \<and> code_at (split_lines text) k i = Some code
        \<and> n \<noteq> [] \<and> n \<noteq> kf_name k \<and> callee_of ks n = Some h \<and> classify_call code n = Some t)"

lemma callee_of_known: "callee_of ks n = Some h \<Longrightarrow> n \<noteq> [] \<Longrightarrow> n \<in> set (known_names ks)"
  by (auto simp: callee_of_def known_names_def find_Some_iff)

lemma line_calls_iff:
  "((c, h, i'), t) \<in> set (line_calls ks k i line) \<longleftrightarrow>
     c = kf_hash k \<and> i' = i \<and> (\<exists>code n. scanned_code line = Some code \<and> n \<noteq> [] \<and> n \<noteq> kf_name k \<and> callee_of ks n = Some h
        \<and> classify_call code n = Some t)"
proof -
  have "((c, h, i'), t) \<in> set (name_calls ks k i code n) \<longleftrightarrow>
      c = kf_hash k \<and> i' = i \<and> callee_of ks n = Some h \<and> classify_call code n = Some t" for code n
    by (auto simp: name_calls_def split: option.splits)
  then have "((c, h, i'), t) \<in> set (line_calls ks k i line) \<longleftrightarrow> c = kf_hash k \<and> i' = i \<and> (\<exists>code n. scanned_code line = Some code
      \<and> n \<in> set (known_names ks) \<and> n \<noteq> kf_name k \<and> callee_of ks n = Some h \<and> classify_call code n = Some t)"
    by (cases "scanned_code line") (simp add: line_calls_def, auto simp: line_calls_def)
  moreover have "n \<in> set (known_names ks) \<Longrightarrow> n \<noteq> []" for n by (simp add: known_names_def)
  ultimately show ?thesis using callee_of_known [of ks _ h] by meson
qed

lemma body_calls_iff:
  "e \<in> set (body_calls ks k i ls) \<longleftrightarrow> (\<exists>j < length ls. e \<in> set (line_calls ks k (i + int j) (ls ! j)))"
proof (induction ls arbitrary: i)
  case (Cons l ls)
  have "(\<exists>j < length (l # ls). e \<in> set (line_calls ks k (i + int j) ((l # ls) ! j))) \<longleftrightarrow>
      e \<in> set (line_calls ks k i l) \<or> (\<exists>j < length ls. e \<in> set (line_calls ks k (i + 1 + int j) (ls ! j)))"
    unfolding length_Cons Ex_less_Suc2 by (simp add: add.assoc)
  then show ?case using Cons [of "i + 1"] by simp
qed simp

lemma func_calls_iff:
  "((c, h, i), t) \<in> set (func_calls ks ls k) \<longleftrightarrow>
     c = kf_hash k \<and> (\<exists>code n. code_at ls k i = Some code \<and> n \<noteq> [] \<and> n \<noteq> kf_name k \<and> callee_of ks n = Some h
        \<and> classify_call code n = Some t)"
proof (cases "kf_start k \<le> 0 \<or> int (length ls) < kf_start k")
  case True
  then show ?thesis by (auto simp: func_calls_def code_at_def)
next
  case False
  let ?s = "nat (kf_start k - 1)" and ?e = "min (nat (body_end k (int (length ls)))) (length ls)"
  let ?body = "drop ?s (take (nat (body_end k (int (length ls)))) ls)"
  have line: "?body ! j = ls ! (?s + j)" if "j < length ?body" for j
    using that by (subst nth_drop) (auto simp: less_diff_conv)
  have len: "length ?body = ?e - ?s" by simp
  have "((c, h, i), t) \<in> set (func_calls ks ls k) \<longleftrightarrow>
      (\<exists>j < length ?body. ((c, h, i), t) \<in> set (line_calls ks k (kf_start k + int j) (?body ! j)))"
    using False by (simp add: func_calls_def body_calls_iff del: length_drop length_take)
  also have "\<dots> \<longleftrightarrow> kf_start k \<le> i \<and> i \<le> body_end k (int (length ls)) \<and> i \<le> int (length ls)
      \<and> ((c, h, i), t) \<in> set (line_calls ks k i (ls ! nat (i - 1)))" (is "?L \<longleftrightarrow> ?R")
  proof
    assume ?L
    then obtain j where j: "j < length ?body" "((c, h, i), t) \<in> set (line_calls ks k (kf_start k + int j) (?body ! j))" by blast
    then have i: "i = kf_start k + int j" by (simp add: line_calls_iff)
    have "?s + j = nat (i - 1)" using i False by linarith
    moreover have "i \<le> body_end k (int (length ls))" "i \<le> int (length ls)" using j(1) i False unfolding len by linarith+
    ultimately show ?R using j(2) line [OF j(1)] i False by simp
  next
    assume r: ?R
    let ?j = "nat (i - kf_start k)"
    have "?j < length ?body" using r False unfolding len by linarith
    moreover have "?s + ?j = nat (i - 1)" using r False by linarith
    then have "?body ! ?j = ls ! nat (i - 1)" using line [OF calculation] by simp
    moreover have "kf_start k + int ?j = i" using r by simp
    ultimately show ?L using r by metis
  qed
  finally show ?thesis using False by (auto simp: line_calls_iff code_at_def)
qed

lemma extern_calls_type: "(key, t) \<in> set (extern_calls ks ls fs) \<Longrightarrow> t = ExternTable"
  by (auto simp: extern_calls_def extern_line_calls_def extern_name_calls_def split: option.splits if_splits)

lemma classify_not_extern: "classify_call code n \<noteq> Some ExternTable"
  by (simp add: classify_call_def)

lemma all_calls_iff:
  assumes "t \<noteq> ExternTable"
  shows "((c, h, i), t) \<in> set (concat (map (file_calls ks files) paths)) \<longleftrightarrow> text_call paths ks files c h i t"
proof -
  have "((c, h, i), t) \<in> set (file_calls ks files path) \<longleftrightarrow>
      (\<exists>text k. path \<noteq> [] \<and> files path = Some text \<and> k \<in> set ks \<and> kf_path k = path
         \<and> ((c, h, i), t) \<in> set (func_calls ks (split_lines text) k))" for path
    using assms extern_calls_type
    by (cases "files path") (auto simp: file_calls_def Let_def filter_empty_conv)
  then show ?thesis
    unfolding text_call_def by (simp add: func_calls_iff) blast
qed

section \<open>Properties\<close>


section \<open>From the text to the closure\<close>

text \<open>
  The dispatcher of a file, its first function with the name of one, counts as a caller of every known function that is declared in
  one of the file's blocks of extern declarations.
\<close>

definition table_call :: "string list \<Rightarrow> known_func list \<Rightarrow> (string \<Rightarrow> string option) \<Rightarrow> string \<Rightarrow> string \<Rightarrow> int \<Rightarrow> bool" where
  "table_call paths ks files c h i \<longleftrightarrow>
     (\<exists>path text d b j n. path \<in> set paths \<and> path \<noteq> [] \<and> files path = Some text
        \<and> find is_dispatcher (filter (\<lambda>k. kf_path k = path) ks) = Some d \<and> c = kf_hash d
        \<and> b \<in> set (find_extern_blocks (split_lines text)) \<and> fst b \<le> j \<and> j \<le> snd b \<and> j \<le> length (split_lines text) \<and> i = int j
        \<and> declares n (split_lines text ! (j - 1)) \<and> n \<noteq> [] \<and> callee_of ks n = Some h \<and> h \<noteq> c)"

definition source_call :: "string list \<Rightarrow> known_func list \<Rightarrow> (string \<Rightarrow> string option) \<Rightarrow> string \<Rightarrow> string \<Rightarrow> bool" where
  "source_call paths ks files c h \<longleftrightarrow> (\<exists>i t. text_call paths ks files c h i t) \<or> (\<exists>i. table_call paths ks files c h i)"

lemma declares_from_has_sub: "declares_from n w s \<Longrightarrow> has_sub n s"
  by (induction n w s rule: declares_from.induct) auto

lemma declares_has_sub: "declares n line \<Longrightarrow> has_sub n line"
proof -
  assume "declares n line"
  then have "has_sub n (drop 6 (dropWhile is_space line))" by (auto simp: declares_def dest: declares_from_has_sub)
  moreover have "\<exists>p. line = p @ drop 6 (dropWhile is_space line)"
    by (metis append_assoc append_take_drop_id takeWhile_dropWhile_id)
  ultimately show ?thesis unfolding has_sub_iff by (metis append_assoc)
qed

lemma extern_line_calls_iff:
  "((c, h, i'), t) \<in> set (extern_line_calls ks d i line) \<longleftrightarrow>
     c = d \<and> i' = int i \<and> t = ExternTable \<and> (\<exists>n. declares n line \<and> n \<noteq> [] \<and> callee_of ks n = Some h \<and> h \<noteq> c)"
proof -
  have "((c, h, i'), t) \<in> set (extern_name_calls ks d i line n) \<longleftrightarrow>
      c = d \<and> i' = int i \<and> t = ExternTable \<and> declares n line \<and> callee_of ks n = Some h \<and> h \<noteq> c" for n
    using declares_has_sub [of n line] unfolding extern_name_calls_def
    by (cases "callee_of ks n"; cases "declares n line") (simp_all, blast)
  then have "((c, h, i'), t) \<in> set (extern_line_calls ks d i line) \<longleftrightarrow> extern_line line \<and> c = d \<and> i' = int i \<and> t = ExternTable
      \<and> (\<exists>n. n \<in> set (known_names ks) \<and> declares n line \<and> callee_of ks n = Some h \<and> h \<noteq> c)"
    by (cases "extern_line line") (auto simp: extern_line_calls_def)
  moreover have "n \<in> set (known_names ks) \<Longrightarrow> n \<noteq> []" for n by (simp add: known_names_def)
  moreover have "declares n line \<Longrightarrow> extern_line line" for n by (simp add: declares_def)
  ultimately show ?thesis using callee_of_known [of ks _ h] by meson
qed

lemma in_concat_map: "e \<in> set (concat (map f xs)) \<longleftrightarrow> (\<exists>x. x \<in> set xs \<and> e \<in> set (f x))"
  by auto

lemma extern_calls_iff:
  "((c, h, i), t) \<in> set (extern_calls ks ls fs) \<longleftrightarrow>
     t = ExternTable \<and> (\<exists>d b j n. find is_dispatcher fs = Some d \<and> c = kf_hash d \<and> b \<in> set (find_extern_blocks ls)
        \<and> fst b \<le> j \<and> j \<le> snd b \<and> j \<le> length ls \<and> i = int j \<and> declares n (ls ! (j - 1)) \<and> n \<noteq> [] \<and> callee_of ks n = Some h \<and> h \<noteq> c)"
proof (cases "find is_dispatcher fs")
  case (Some d)
  have "((c, h, i), t) \<in> set (extern_calls ks ls fs) \<longleftrightarrow>
      (\<exists>b j. b \<in> set (find_extern_blocks ls) \<and> fst b \<le> j \<and> j \<le> snd b \<and> j \<le> length ls
        \<and> ((c, h, i), t) \<in> set (extern_line_calls ks (kf_hash d) j (ls ! (j - 1))))"
  proof -
    have "j \<in> set (filter (\<lambda>i. i \<le> length ls) [fst b..<snd b + 1]) \<longleftrightarrow> fst b \<le> j \<and> j \<le> snd b \<and> j \<le> length ls" for j and b :: "nat \<times> nat"
      by auto
    then show ?thesis unfolding extern_calls_def Some option.case in_concat_map by blast
  qed
  then show ?thesis unfolding Some extern_line_calls_iff by blast
qed (simp add: extern_calls_def)

lemma file_calls_table:
  "((c, h, i), ExternTable) \<in> set (concat (map (file_calls ks files) paths)) \<longleftrightarrow> table_call paths ks files c h i"
proof -
  have "((c, h, i), ExternTable) \<notin> set (func_calls ks ls k)" for ls k by (simp add: func_calls_iff classify_not_extern)
  then have "((c, h, i), ExternTable) \<in> set (file_calls ks files path) \<longleftrightarrow>
      (\<exists>text. path \<noteq> [] \<and> files path = Some text \<and> filter (\<lambda>k. kf_path k = path) ks \<noteq> []
        \<and> ((c, h, i), ExternTable) \<in> set (extern_calls ks (split_lines text) (filter (\<lambda>k. kf_path k = path) ks)))" for path
    by (cases "files path"; cases "path = []") (auto simp: file_calls_def Let_def filter_empty_conv)
  moreover have "extern_calls ks ls [] = []" for ls by (simp add: extern_calls_def)
  ultimately have "((c, h, i), ExternTable) \<in> set (concat (map (file_calls ks files) paths)) \<longleftrightarrow>
      (\<exists>path text. path \<in> set paths \<and> path \<noteq> [] \<and> files path = Some text
        \<and> ((c, h, i), ExternTable) \<in> set (extern_calls ks (split_lines text) (filter (\<lambda>k. kf_path k = path) ks)))"
    unfolding in_concat_map by (metis empty_iff list.set(1))
  then show ?thesis unfolding table_call_def extern_calls_iff by blast
qed

lemma edge_keys_iff:
  "(c, h, i) \<in> fst ` set (extract_call_edges paths ks files) \<longleftrightarrow> (\<exists>t. text_call paths ks files c h i t) \<or> table_call paths ks files c h i"
proof -
  have "(c, h, i) \<in> fst ` set (extract_call_edges paths ks files) \<longleftrightarrow>
      (\<exists>t. ((c, h, i), t) \<in> set (concat (map (file_calls ks files) paths)))"
    unfolding extract_calls record_all_keys by force
  moreover have "\<not> text_call paths ks files c h i ExternTable" by (simp add: text_call_def classify_not_extern)
  ultimately show ?thesis using all_calls_iff [of _ c h i ks files paths] file_calls_table [of c h i ks files paths] by metis
qed

lemma edge_hashes:
  assumes "list_all (\<lambda>k. kf_hash k \<noteq> []) ks" and "((c, h, i), t) \<in> set (extract_call_edges paths ks files)"
  shows "c \<noteq> [] \<and> h \<noteq> []"
proof -
  have hash: "h' \<noteq> []" if "callee_of ks n = Some h'" for n h'
    using that assms(1) by (auto simp: callee_of_def find_Some_iff list_all_iff)
  have disp: "kf_hash d \<noteq> []" if "find is_dispatcher (filter P ks) = Some d" for P d
    using that assms(1) by (auto simp: find_Some_iff list_all_iff dest!: nth_mem)
  have "(c, h, i) \<in> fst ` set (extract_call_edges paths ks files)" using assms(2) by force
  then show ?thesis
    unfolding edge_keys_iff text_call_def table_call_def using hash disp assms(1) by (fastforce simp: list_all_iff)
qed

lemma edge_of_edge_dict:
  assumes "c \<noteq> []" and "h \<noteq> []"
  shows "edge_of_dict (edge_dict ((c, h, i), t)) = Some \<lparr>ed_caller = c, ed_callee = h, ed_line = i, ed_type = type_name t\<rparr>
    \<and> truthy (get (edge_dict ((c, h, i), t)) ''caller_hash'') \<and> truthy (get (edge_dict ((c, h, i), t)) ''callee_hash'')"
  using assms by (cases t) (auto simp: edge_of_dict_def edge_dict_def get_or_def str_or_empty_def py_or_def py_str_def type_name_def)

lemma placeholders_convert: "those (map node_of_dict (placeholders xs known)) \<noteq> None"
proof (induction xs known rule: placeholders.induct)
  case (2 hk nk e rest known)
  have node: "node_of_dict ((''func_hash'', PStr h) # (''name'', v) # [(''is_external'', PInt 1)]) = None \<longleftrightarrow> False" for h v
    by (simp add: node_of_dict_def get_or_def py_or_def)
  show ?case using 2 by (simp add: Let_def node split: option.split)
qed simp

lemma insert_extracted:
  assumes "list_all (\<lambda>k. kf_hash k \<noteq> []) ks" and "db_edges db = []"
  shows "edge_key ` set (db_edges (fst (insert_edges (map edge_dict (extract_call_edges paths ks files)) db)))
    = fst ` set (extract_call_edges paths ks files)"
proof -
  let ?E = "extract_call_edges paths ks files" and ?row = "\<lambda>e :: call_edge. case e of ((c, h, i), t) \<Rightarrow> \<lparr>ed_caller = c, ed_callee = h, ed_line = i, ed_type = type_name t\<rparr>"
  show ?thesis
  proof (cases "?E = []")
    case True
    then show ?thesis using assms(2) by (simp add: insert_edges_def)
  next
    case False
    have ok: "edge_of_dict (edge_dict e) = Some (?row e) \<and> truthy (get (edge_dict e) ''caller_hash'') \<and> truthy (get (edge_dict e) ''callee_hash'')"
      if "e \<in> set ?E" for e
    proof -
      obtain c h i t where "e = ((c, h, i), t)" by (metis prod.exhaust)
      with that show ?thesis using edge_hashes [OF assms(1)] edge_of_edge_dict by simp
    qed
    then have all: "filter (\<lambda>e. truthy (get e ''caller_hash'') \<and> truthy (get e ''callee_hash'')) (map edge_dict ?E) = map edge_dict ?E"
      by (simp add: filter_map filter_id_conv comp_def)
    have rows: "those (map edge_of_dict (map edge_dict ?E)) = Some (map ?row ?E)"
      using ok those_map_Some [of ?E "edge_of_dict \<circ> edge_dict" ?row] by (simp add: comp_def)
    obtain db1 n where db1: "insert_nodes (placeholders (edge_sides (map edge_dict ?E)) (nd_hash ` set (db_nodes db))) db = Some (db1, n)"
      "db_edges db1 = []"
      using placeholders_convert assms(2) by (fastforce simp: insert_nodes_def Let_def case_prod_beta split: if_splits)
    obtain e es where "map ?row ?E = e # es" using False by (cases ?E) auto
    then have "db_edges (fst (insert_edges (map edge_dict ?E) db)) = fst (insert_many edge_key (map ?row ?E) ([], 0))"
      using False by (simp add: insert_edges_def all rows db1 case_prod_beta Let_def del: map_map)
    then have "edge_key ` set (db_edges (fst (insert_edges (map edge_dict ?E) db))) = edge_key ` ?row ` set ?E"
      using insert_many_keys [of edge_key "[]" "map ?row ?E" 0] by simp
    also have "\<dots> = fst ` set ?E" by (force simp: edge_key_def image_image)
    finally show ?thesis .
  qed
qed

lemma walk_relpow: "walk es k a b \<longleftrightarrow> (calls es ^^ k) a b"
  by (induction k arbitrary: b) (auto simp: calls_def relcompp_apply)

text \<open>
  C22: From the source to the closure: when the extracted edges are stored in a database without edges and its closure
  is built with bound \<open>D\<close>, one function counts as reachable from another exactly when the text of the files has a chain
  of at most \<open>D\<close> calls between them.
\<close>
theorem reachability_follows_the_text:
  assumes "1 \<le> D" and "list_all (\<lambda>k. kf_hash k \<noteq> []) ks" and "db_edges db = []"
  shows "is_reachable (fst (build_closure D (fst (insert_edges (map edge_dict (extract_call_edges paths ks files)) db)))) a b \<longleftrightarrow>
    (\<exists>k \<le> D. (source_call paths ks files ^^ k) a b)"
proof -
  let ?es = "db_edges (fst (insert_edges (map edge_dict (extract_call_edges paths ks files)) db))"
  have "calls ?es x y \<longleftrightarrow> (\<exists>i. (x, y, i) \<in> edge_key ` set ?es)" for x y
    by (force simp: calls_def edge_key_def)
  then have "calls ?es x y \<longleftrightarrow> source_call paths ks files x y" for x y
    unfolding insert_extracted [OF assms(2,3)] edge_keys_iff source_call_def by blast
  then have "calls ?es = source_call paths ks files" by (intro ext) simp
  then show ?thesis by (simp add: reachable_iff_walk [OF assms(1)] walk_relpow)
qed

definition sample_known :: "known_func list" where
  "sample_known = [\<lparr>kf_hash = ''i'', kf_name = ''init'', kf_path = ''m.c'', kf_start = 1, kf_end = 1\<rparr>,
     \<lparr>kf_hash = ''ia'', kf_name = ''init_all'', kf_path = ''m.c'', kf_start = 2, kf_end = 2\<rparr>,
     \<lparr>kf_hash = ''m'', kf_name = ''main'', kf_path = ''m.c'', kf_start = 3, kf_end = 3\<rparr>]"

definition sample_files :: "string \<Rightarrow> string option" where
  "sample_files p = (if p = ''m.c''
     then Some (''int init() {}'' @ [CHR 0x0A] @ ''int init_all() {}'' @ [CHR 0x0A] @ ''int main() { int r = init_all(); }'') else None)"

lemma sample_edges:
  "extract_call_edges [''m.c''] sample_known sample_files = [((''m'', ''ia'', 3), Direct), ((''m'', ''i'', 3), Pointer)]
    \<or> extract_call_edges [''m.c''] sample_known sample_files = [((''m'', ''i'', 3), Pointer), ((''m'', ''ia'', 3), Direct)]"
  by code_simp

theorem reachability_follows_the_text_witness:
  "is_reachable (fst (build_closure 10 (fst (insert_edges (map edge_dict (extract_call_edges [''m.c''] sample_known sample_files)) open_db)))) ''m'' ''ia''"
proof -
  have "(''m'', ''ia'', 3) \<in> fst ` set (extract_call_edges [''m.c''] sample_known sample_files)"
    using sample_edges by force
  then have "source_call [''m.c''] sample_known sample_files ''m'' ''ia''"
    unfolding edge_keys_iff source_call_def by blast
  then have "(source_call [''m.c''] sample_known sample_files ^^ 1) ''m'' ''ia''" by (auto simp: relcompp_apply)
  moreover have "list_all (\<lambda>k. kf_hash k \<noteq> []) sample_known" by (simp add: sample_known_def)
  moreover have "db_edges open_db = []" by (simp add: open_db_def)
  ultimately show ?thesis using reachability_follows_the_text [of 10 sample_known open_db "[''m.c'']" sample_files "''m''" "''ia''"]
    by (metis le_numeral_extra(4) one_le_numeral)
qed

text \<open>
  The pattern for function pointers has no end of word: in \<open>r = init_all()\<close> the name \<open>init\<close> counts as a pointer, so a function whose
  name begins a longer name after \<open>=\<close>, a comma or a parenthesis gets an edge it has not.
\<close>
lemma prefix_of_a_name_is_a_call:
  assumes "c \<in> {CHR ''='', CHR '','', CHR ''(''}" and "list_all is_space ws" and "word_char d"
  shows "classify_call (a @ c # ws @ n @ d # b) n \<noteq> None"
proof -
  have "d \<noteq> CHR ''(''" "\<not> is_space d" using assms(3) by (auto simp: word_char_def is_space_def Let_def)
  then have "\<not> opens (d # b)" by (simp add: opens_def)
  then have "pointer_use n (a @ c # ws @ n @ d # b)" unfolding pointer_use_iff using assms(1,2) by blast
  then show ?thesis by (simp add: classify_call_def)
qed

text \<open>Of two functions with one name, the first known one is the callee of every call, also of the calls in the other's file.\<close>

lemma namesake_takes_the_calls:
  "callee_of (k # ks) (kf_name k) = Some (kf_hash k)"
  by (simp add: callee_of_def)

end
