(* ===== verification/EngineRun.thy ===== *)
theory EngineRun
  imports Prelude
begin

text \<open>
  The concurrency of \<open>PipelineEngine.run\<close> (\<open>app/pipeline/engine.py\<close>): one coroutine per file, one per function of a file that has
  passed R1, one for the call chain, joined by counters and two events. A step is what a coroutine does between two places where
  it waits. The two semaphores are bounds on the numbers of coroutines inside them. What a stage finds is open: R1 gives any number
  of functions (0 when it fails), R2 passes or not. The wait for a batch in fast mode belongs to R3. R4 and R5 are one step.
\<close>

section \<open>State\<close>

datatype file_phase = FileNew | FileWait | FileInR1 | FileGone
datatype func_phase = FuncNew | FuncWait | FuncInR2 | FuncInR3 | FuncWaitCC | FuncTail | FuncGone
datatype cc_phase = CCWait | CCRunning | CCDone

record run_state =
  rn_files :: "file_phase list"
  rn_funcs :: "func_phase list"
  rn_cc :: cc_phase
  rn_total :: nat
  rn_r1 :: nat
  rn_r2 :: nat
  rn_all_r1 :: bool
  rn_r2_event :: bool
  rn_cc_event :: bool
  rn_cancel :: bool
  rn_returned :: bool

definition run_start :: "nat \<Rightarrow> run_state" where
  "run_start total_files = \<lparr>rn_files = replicate total_files FileNew, rn_funcs = [], rn_cc = CCWait, rn_total = 0, rn_r1 = 0,
     rn_r2 = 0, rn_all_r1 = False, rn_r2_event = (total_files = 0), rn_cc_event = False, rn_cancel = False, rn_returned = False\<rparr>"

section \<open>The counters\<close>

definition maybe_set_all_r2_done :: "run_state \<Rightarrow> run_state" where
  "maybe_set_all_r2_done s = (if rn_all_r1 s \<and> rn_total s \<le> rn_r2 s then s\<lparr>rn_r2_event := True\<rparr> else s)"

definition on_r1_done :: "nat \<Rightarrow> run_state \<Rightarrow> run_state" where
  "on_r1_done n s =
     (let s1 = s\<lparr>rn_total := rn_total s + n, rn_r1 := rn_r1 s + 1\<rparr>
      in if rn_r1 s1 = length (rn_files s1) then maybe_set_all_r2_done (s1\<lparr>rn_all_r1 := True\<rparr>) else s1)"

definition count_r2 :: "run_state \<Rightarrow> run_state" where
  "count_r2 s = maybe_set_all_r2_done (s\<lparr>rn_r2 := rn_r2 s + 1\<rparr>)"

section \<open>The coroutines\<close>

definition set_file :: "nat \<Rightarrow> file_phase \<Rightarrow> run_state \<Rightarrow> run_state" where
  "set_file i p s = s\<lparr>rn_files := (rn_files s)[i := p]\<rparr>"

definition set_func :: "nat \<Rightarrow> func_phase \<Rightarrow> run_state \<Rightarrow> run_state" where
  "set_func j p s = s\<lparr>rn_funcs := (rn_funcs s)[j := p]\<rparr>"

definition file_enter :: "nat \<Rightarrow> run_state \<Rightarrow> run_state" where
  "file_enter i s = set_file i (if rn_cancel s then FileGone else FileWait) s"

text \<open>R1 is over and the file has \<open>n\<close> functions; their coroutines start unless the run is cancelled.\<close>

definition file_r1_done :: "nat \<Rightarrow> nat \<Rightarrow> run_state \<Rightarrow> run_state" where
  "file_r1_done i n s =
     (let s1 = on_r1_done n (set_file i FileGone s)
      in if rn_cancel s then s1 else s1\<lparr>rn_funcs := rn_funcs s1 @ replicate n FuncNew\<rparr>)"

definition func_enter :: "nat \<Rightarrow> run_state \<Rightarrow> run_state" where
  "func_enter j s = set_func j (if rn_cancel s then FuncGone else FuncWait) s"

text \<open>The function or its file is not in the state: it is counted and left.\<close>

definition func_missing :: "nat \<Rightarrow> run_state \<Rightarrow> run_state" where
  "func_missing j s = count_r2 (set_func j FuncGone s)"

definition func_r2_done :: "nat \<Rightarrow> bool \<Rightarrow> run_state \<Rightarrow> run_state" where
  "func_r2_done j passed s = count_r2 (set_func j (if rn_cancel s \<or> \<not> passed then FuncGone else FuncInR3) s)"

definition func_r3_done :: "nat \<Rightarrow> bool \<Rightarrow> run_state \<Rightarrow> run_state" where
  "func_r3_done j filtered s = set_func j (if rn_cancel s \<or> filtered then FuncGone else FuncWaitCC) s"

definition func_cc_done :: "nat \<Rightarrow> run_state \<Rightarrow> run_state" where
  "func_cc_done j s = set_func j (if rn_cancel s then FuncGone else FuncTail) s"

definition cc_enter :: "run_state \<Rightarrow> run_state" where
  "cc_enter s = (if rn_cancel s then s\<lparr>rn_cc := CCDone, rn_cc_event := True\<rparr> else s\<lparr>rn_cc := CCRunning\<rparr>)"

definition cc_finish :: "run_state \<Rightarrow> run_state" where
  "cc_finish s = s\<lparr>rn_cc := CCDone, rn_cc_event := True\<rparr>"

definition all_gone :: "run_state \<Rightarrow> bool" where
  "all_gone s \<longleftrightarrow> list_all (\<lambda>p. p = FileGone) (rn_files s) \<and> list_all (\<lambda>p. p = FuncGone) (rn_funcs s) \<and> rn_cc s = CCDone"

definition in_r1 :: "run_state \<Rightarrow> nat" where
  "in_r1 s = length (filter (\<lambda>p. p = FileInR1) (rn_files s))"

definition in_r2 :: "run_state \<Rightarrow> nat" where
  "in_r2 s = length (filter (\<lambda>p. p = FuncInR2) (rn_funcs s))"

abbreviation file_at :: "run_state \<Rightarrow> nat \<Rightarrow> file_phase \<Rightarrow> bool" where
  "file_at s i p \<equiv> i < length (rn_files s) \<and> rn_files s ! i = p"

abbreviation func_at :: "run_state \<Rightarrow> nat \<Rightarrow> func_phase \<Rightarrow> bool" where
  "func_at s j p \<equiv> j < length (rn_funcs s) \<and> rn_funcs s ! j = p"

inductive run_step :: "nat \<Rightarrow> nat \<Rightarrow> run_state \<Rightarrow> run_state \<Rightarrow> bool" for l1 l2 where
  step_cancel: "\<not> rn_cancel s \<Longrightarrow> run_step l1 l2 s (s\<lparr>rn_cancel := True\<rparr>)"
| step_file_enter: "file_at s i FileNew \<Longrightarrow> run_step l1 l2 s (file_enter i s)"
| step_file_start: "file_at s i FileWait \<Longrightarrow> in_r1 s < l1 \<Longrightarrow> run_step l1 l2 s (set_file i FileInR1 s)"
| step_file_done: "file_at s i FileInR1 \<Longrightarrow> run_step l1 l2 s (file_r1_done i n s)"
| step_func_enter: "func_at s j FuncNew \<Longrightarrow> run_step l1 l2 s (func_enter j s)"
| step_func_missing: "func_at s j FuncNew \<Longrightarrow> \<not> rn_cancel s \<Longrightarrow> run_step l1 l2 s (func_missing j s)"
| step_func_start: "func_at s j FuncWait \<Longrightarrow> in_r2 s < l2 \<Longrightarrow> run_step l1 l2 s (set_func j FuncInR2 s)"
| step_func_r2: "func_at s j FuncInR2 \<Longrightarrow> run_step l1 l2 s (func_r2_done j passed s)"
| step_func_r3: "func_at s j FuncInR3 \<Longrightarrow> run_step l1 l2 s (func_r3_done j filtered s)"
| step_func_cc: "func_at s j FuncWaitCC \<Longrightarrow> rn_cc_event s \<Longrightarrow> run_step l1 l2 s (func_cc_done j s)"
| step_func_tail: "func_at s j FuncTail \<Longrightarrow> run_step l1 l2 s (set_func j FuncGone s)"
| step_cc_enter: "rn_cc s = CCWait \<Longrightarrow> rn_r2_event s \<Longrightarrow> run_step l1 l2 s (cc_enter s)"
| step_cc_finish: "rn_cc s = CCRunning \<Longrightarrow> run_step l1 l2 s (cc_finish s)"
| step_return: "all_gone s \<Longrightarrow> \<not> rn_returned s \<Longrightarrow> run_step l1 l2 s (s\<lparr>rn_returned := True\<rparr>)"

inductive_cases run_stepE: "run_step l1 l2 s t"

section \<open>Counting phases\<close>

definition phases :: "('p \<Rightarrow> bool) \<Rightarrow> 'p list \<Rightarrow> nat" where
  "phases P ps = length (filter P ps)"

lemma phases_update:
  "i < length ps \<Longrightarrow> phases P (ps[i := p]) + (if P (ps ! i) then 1 else 0) = phases P ps + (if P p then 1 else 0)"
proof (induction ps arbitrary: i)
  case (Cons q ps)
  then show ?case by (cases i) (auto simp: phases_def)
qed simp

lemma phases_append [simp]: "phases P (ps @ qs) = phases P ps + phases P qs"
  by (simp add: phases_def)

lemma phases_replicate [simp]: "phases P (replicate n p) = (if P p then n else 0)"
  by (simp add: phases_def filter_replicate)

lemma phases_0: "phases P ps = 0 \<longleftrightarrow> list_all (\<lambda>p. \<not> P p) ps"
  by (auto simp: phases_def filter_empty_conv list_all_iff)

lemma phases_pos: "i < length ps \<Longrightarrow> P (ps ! i) \<Longrightarrow> 0 < phases P ps"
  by (auto simp: phases_def filter_empty_conv)

definition before_r1_end :: "file_phase \<Rightarrow> bool" where
  "before_r1_end p \<longleftrightarrow> p \<noteq> FileGone"

definition before_r2_end :: "func_phase \<Rightarrow> bool" where
  "before_r2_end p \<longleftrightarrow> p \<in> {FuncNew, FuncWait, FuncInR2}"

lemma before_simps [simp]:
  "before_r1_end FileNew" "before_r1_end FileWait" "before_r1_end FileInR1" "\<not> before_r1_end FileGone"
  "before_r2_end FuncNew" "before_r2_end FuncWait" "before_r2_end FuncInR2" "\<not> before_r2_end FuncInR3"
  "\<not> before_r2_end FuncWaitCC" "\<not> before_r2_end FuncTail" "\<not> before_r2_end FuncGone"
  by (simp_all add: before_r1_end_def before_r2_end_def)

definition files_open :: "run_state \<Rightarrow> nat" where
  "files_open s = phases before_r1_end (rn_files s)"

definition funcs_open :: "run_state \<Rightarrow> nat" where
  "funcs_open s = phases before_r2_end (rn_funcs s)"

end
