(* ===== verification/EngineRunSafety.thy ===== *)
theory EngineRunSafety
  imports EngineRun
begin

text \<open>
  The barrier of a run: the call chain is built after the last function has left R2, a run that nobody cancels returns, and a run
  that is cancelled while a file is in R1 waits for ever.
\<close>

section \<open>The counters\<close>

definition run_inv :: "nat \<Rightarrow> run_state \<Rightarrow> bool" where
  "run_inv F s \<longleftrightarrow> length (rn_files s) = F
     \<and> rn_r1 s + files_open s \<le> F \<and> rn_r2 s + funcs_open s \<le> rn_total s
     \<and> (\<not> rn_cancel s \<longrightarrow> rn_r1 s + files_open s = F \<and> rn_r2 s + funcs_open s = rn_total s)
     \<and> (rn_all_r1 s \<longleftrightarrow> 0 < F \<and> rn_r1 s = F)
     \<and> (F = 0 \<longrightarrow> rn_funcs s = [] \<and> rn_total s = 0)
     \<and> (rn_r2_event s \<longleftrightarrow> F = 0 \<or> rn_all_r1 s \<and> rn_total s \<le> rn_r2 s)
     \<and> (rn_cc s \<noteq> CCWait \<longrightarrow> rn_r2_event s) \<and> (rn_cc_event s \<longleftrightarrow> rn_cc s = CCDone)
     \<and> (rn_returned s \<longrightarrow> all_gone s)"

lemmas counter_defs = maybe_set_all_r2_done_def on_r1_done_def count_r2_def set_file_def set_func_def file_enter_def file_r1_done_def
  func_enter_def func_missing_def func_r2_done_def func_r3_done_def func_cc_done_def cc_enter_def cc_finish_def Let_def

lemma files_open_update:
  "file_at s i p \<Longrightarrow> before_r1_end p \<Longrightarrow>
    phases before_r1_end ((rn_files s)[i := q]) = (if before_r1_end q then files_open s else files_open s - 1) \<and> 0 < files_open s"
  using phases_update [of i "rn_files s" before_r1_end q] phases_pos [of i "rn_files s" before_r1_end]
  by (auto simp: files_open_def)

lemma funcs_open_update:
  "func_at s j p \<Longrightarrow>
    phases before_r2_end ((rn_funcs s)[j := q]) + (if before_r2_end p then 1 else 0) = funcs_open s + (if before_r2_end q then 1 else 0)"
  using phases_update [of j "rn_funcs s" before_r2_end q] by (auto simp: funcs_open_def)

lemma funcs_open_pos: "func_at s j p \<Longrightarrow> before_r2_end p \<Longrightarrow> 0 < funcs_open s"
  using phases_pos [of j "rn_funcs s" before_r2_end] by (auto simp: funcs_open_def)

lemma not_gone:
  "file_at s i p \<Longrightarrow> p \<noteq> FileGone \<Longrightarrow> \<not> all_gone s"
  "func_at s j q \<Longrightarrow> q \<noteq> FuncGone \<Longrightarrow> \<not> all_gone s"
  by (auto simp: all_gone_def list_all_length)

lemma run_inv_init: "run_inv F (run_start F)"
  by (auto simp: run_inv_def run_start_def files_open_def funcs_open_def phases_def)

lemma run_inv_file_done:
  assumes "run_inv F s" and "file_at s i FileInR1"
  shows "run_inv F (file_r1_done i n s)"
proof -
  have "phases before_r1_end ((rn_files s)[i := FileGone]) = files_open s - 1" "0 < files_open s"
    using files_open_update [OF assms(2), of FileGone] by simp_all
  with assms not_gone(1) [OF assms(2)] show ?thesis
    by (auto simp: run_inv_def counter_defs files_open_def funcs_open_def)
qed

lemma run_inv_count:
  assumes "run_inv F s" and "func_at s j p" and "before_r2_end p" and "\<not> before_r2_end q"
  shows "run_inv F (count_r2 (set_func j q s))"
proof -
  have "phases before_r2_end ((rn_funcs s)[j := q]) + 1 = funcs_open s"
    using funcs_open_update [OF assms(2), of q] assms(3,4) by simp
  moreover have "\<not> all_gone s" using not_gone(2) [OF assms(2)] assms(3) by (cases p) auto
  ultimately show ?thesis using assms(1,2)
    by (auto simp: run_inv_def counter_defs files_open_def funcs_open_def)
qed

lemma run_inv_set_func:
  assumes "run_inv F s" and "func_at s j p" and "p \<noteq> FuncGone"
    and "before_r2_end q = before_r2_end p \<or> rn_cancel s \<and> \<not> before_r2_end q"
  shows "run_inv F (set_func j q s)"
proof -
  have "phases before_r2_end ((rn_funcs s)[j := q]) + (if before_r2_end p then 1 else 0) = funcs_open s + (if before_r2_end q then 1 else 0)"
    by (rule funcs_open_update [OF assms(2)])
  with assms not_gone(2) [OF assms(2,3)] show ?thesis
    by (auto simp: run_inv_def set_func_def files_open_def funcs_open_def split: if_splits)
qed

lemma run_inv_set_file:
  assumes "run_inv F s" and "file_at s i p" and "before_r1_end p" and "before_r1_end q \<or> rn_cancel s"
  shows "run_inv F (set_file i q s)"
proof -
  have "phases before_r1_end ((rn_files s)[i := q]) = (if before_r1_end q then files_open s else files_open s - 1)" "0 < files_open s"
    using files_open_update [OF assms(2,3)] by simp_all
  moreover have "\<not> all_gone s" using not_gone(1) [OF assms(2)] assms(3) by (cases p) auto
  ultimately show ?thesis using assms
    by (auto simp: run_inv_def set_file_def files_open_def funcs_open_def)
qed

lemma run_inv_step: "run_inv F s \<Longrightarrow> run_step l1 l2 s t \<Longrightarrow> run_inv F t"
proof (erule run_step.cases)
  fix s' i assume "run_inv F s" "s = s'" "t = file_enter i s'" "file_at s' i FileNew"
  then show ?thesis by (auto simp: file_enter_def intro!: run_inv_set_file)
next
  fix s' i assume "run_inv F s" "s = s'" "t = set_file i FileInR1 s'" "file_at s' i FileWait"
  then show ?thesis by (auto intro!: run_inv_set_file)
next
  fix s' i n assume "run_inv F s" "s = s'" "t = file_r1_done i n s'" "file_at s' i FileInR1"
  then show ?thesis by (auto intro!: run_inv_file_done)
next
  fix s' j assume "run_inv F s" "s = s'" "t = func_enter j s'" "func_at s' j FuncNew"
  then show ?thesis unfolding func_enter_def by (auto intro!: run_inv_set_func)
next
  fix s' j assume "run_inv F s" "s = s'" "t = func_missing j s'" "func_at s' j FuncNew"
  then show ?thesis unfolding func_missing_def by (auto intro!: run_inv_count)
next
  fix s' j assume "run_inv F s" "s = s'" "t = set_func j FuncInR2 s'" "func_at s' j FuncWait"
  then show ?thesis by (auto intro!: run_inv_set_func)
next
  fix s' j p assume "run_inv F s" "s = s'" "t = func_r2_done j p s'" "func_at s' j FuncInR2"
  then show ?thesis unfolding func_r2_done_def by (auto intro!: run_inv_count)
next
  fix s' j p assume "run_inv F s" "s = s'" "t = func_r3_done j p s'" "func_at s' j FuncInR3"
  then show ?thesis unfolding func_r3_done_def by (auto intro!: run_inv_set_func)
next
  fix s' j assume "run_inv F s" "s = s'" "t = func_cc_done j s'" "func_at s' j FuncWaitCC"
  then show ?thesis unfolding func_cc_done_def by (auto intro!: run_inv_set_func)
next
  fix s' j assume "run_inv F s" "s = s'" "t = set_func j FuncGone s'" "func_at s' j FuncTail"
  then show ?thesis by (auto intro!: run_inv_set_func)
qed (auto simp: run_inv_def cc_enter_def cc_finish_def files_open_def funcs_open_def all_gone_def)

interpretation engine_run: invariant_system "\<lambda>s. s = run_start F" "run_step l1 l2" "run_inv F"
  by unfold_locales (auto intro: run_inv_init run_inv_step)

section \<open>Termination\<close>

fun file_rank :: "file_phase \<Rightarrow> nat" where
  "file_rank FileNew = 3" | "file_rank FileWait = 2" | "file_rank FileInR1 = 1" | "file_rank FileGone = 0"

fun func_rank :: "func_phase \<Rightarrow> nat" where
  "func_rank FuncNew = 6" | "func_rank FuncWait = 5" | "func_rank FuncInR2 = 4" | "func_rank FuncInR3 = 3"
| "func_rank FuncWaitCC = 2" | "func_rank FuncTail = 1" | "func_rank FuncGone = 0"

fun cc_rank :: "cc_phase \<Rightarrow> nat" where
  "cc_rank CCWait = 2" | "cc_rank CCRunning = 1" | "cc_rank CCDone = 0"

definition files_rank :: "run_state \<Rightarrow> nat" where
  "files_rank s = sum_list (map file_rank (rn_files s))"

definition rest_rank :: "run_state \<Rightarrow> nat" where
  "rest_rank s = sum_list (map func_rank (rn_funcs s)) + cc_rank (rn_cc s) + (if rn_cancel s then 0 else 1) + (if rn_returned s then 0 else 1)"

lemma rank_update: "i < length ps \<Longrightarrow> sum_list (map f (ps[i := p])) + f (ps ! i) = sum_list (map f ps) + (f p :: nat)"
proof (induction ps arbitrary: i)
  case (Cons q ps)
  then show ?case by (cases i) auto
qed simp

lemma rest_rank_counters [simp]:
  "rest_rank (s\<lparr>rn_r2_event := b\<rparr>) = rest_rank s" "rest_rank (s\<lparr>rn_r2 := k\<rparr>) = rest_rank s"
  "files_rank (s\<lparr>rn_r2_event := b\<rparr>) = files_rank s" "files_rank (s\<lparr>rn_r2 := k\<rparr>) = files_rank s"
  by (simp_all add: rest_rank_def files_rank_def)

lemma count_r2_rank [simp]: "rest_rank (count_r2 s) = rest_rank s" "files_rank (count_r2 s) = files_rank s"
  by (simp_all add: count_r2_def maybe_set_all_r2_done_def)

lemma set_func_rank:
  "func_at s j p \<Longrightarrow> func_rank q < func_rank p \<Longrightarrow> rest_rank (set_func j q s) < rest_rank s \<and> files_rank (set_func j q s) = files_rank s"
  using rank_update [of j "rn_funcs s" func_rank q] by (auto simp: set_func_def rest_rank_def files_rank_def)

lemma set_file_rank:
  "file_at s i p \<Longrightarrow> file_rank q < file_rank p \<Longrightarrow> files_rank (set_file i q s) < files_rank s"
  using rank_update [of i "rn_files s" file_rank q] by (auto simp: set_file_def files_rank_def)

lemma r1_done_rank: "file_at s i FileInR1 \<Longrightarrow> files_rank (file_r1_done i n s) < files_rank s"
  using set_file_rank [of i s FileInR1 FileGone]
  by (auto simp: file_r1_done_def on_r1_done_def maybe_set_all_r2_done_def files_rank_def Let_def)

lemma run_step_rank:
  "run_step l1 l2 s t \<Longrightarrow> files_rank t < files_rank s \<or> files_rank t = files_rank s \<and> rest_rank t < rest_rank s"
proof (erule run_step.cases)
  fix s' i assume "s = s'" "t = file_enter i s'" "file_at s' i FileNew"
  then show ?thesis using set_file_rank [of i s' FileNew] by (auto simp: file_enter_def)
next
  fix s' i assume "s = s'" "t = set_file i FileInR1 s'" "file_at s' i FileWait"
  then show ?thesis using set_file_rank [of i s' FileWait] by auto
next
  fix s' i n assume "s = s'" "t = file_r1_done i n s'" "file_at s' i FileInR1"
  then show ?thesis using r1_done_rank by auto
next
  fix s' j assume "s = s'" "t = func_enter j s'" "func_at s' j FuncNew"
  then show ?thesis using set_func_rank [of j s' FuncNew] by (auto simp: func_enter_def)
next
  fix s' j assume "s = s'" "t = func_missing j s'" "func_at s' j FuncNew"
  then show ?thesis using set_func_rank [of j s' FuncNew] by (auto simp: func_missing_def)
next
  fix s' j assume "s = s'" "t = set_func j FuncInR2 s'" "func_at s' j FuncWait"
  then show ?thesis using set_func_rank [of j s' FuncWait] by auto
next
  fix s' j p assume "s = s'" "t = func_r2_done j p s'" "func_at s' j FuncInR2"
  then show ?thesis using set_func_rank [of j s' FuncInR2] by (auto simp: func_r2_done_def)
next
  fix s' j p assume "s = s'" "t = func_r3_done j p s'" "func_at s' j FuncInR3"
  then show ?thesis using set_func_rank [of j s' FuncInR3] by (auto simp: func_r3_done_def)
next
  fix s' j assume "s = s'" "t = func_cc_done j s'" "func_at s' j FuncWaitCC"
  then show ?thesis using set_func_rank [of j s' FuncWaitCC] by (auto simp: func_cc_done_def)
next
  fix s' j assume "s = s'" "t = set_func j FuncGone s'" "func_at s' j FuncTail"
  then show ?thesis using set_func_rank [of j s' FuncTail] by auto
qed (auto simp: cc_enter_def cc_finish_def files_rank_def rest_rank_def)

lemma run_steps_wf: "wf {(t, s). run_step l1 l2 s t}"
  by (rule wf_subset [of "inv_image (less_than <*lex*> less_than) (\<lambda>s. (files_rank s, rest_rank s))"])
    (auto dest: run_step_rank)

section \<open>Progress\<close>

lemma cancel_kept [simp]:
  "rn_cancel (file_r1_done i n s) = rn_cancel s" "rn_cancel (file_enter i s) = rn_cancel s" "rn_cancel (set_file i p s) = rn_cancel s"
  "rn_cancel (set_func j q s) = rn_cancel s" "rn_cancel (func_enter j s) = rn_cancel s" "rn_cancel (func_r2_done j b s) = rn_cancel s"
  "rn_cancel (func_r3_done j b s) = rn_cancel s" "rn_cancel (func_cc_done j s) = rn_cancel s" "rn_cancel (func_missing j s) = rn_cancel s"
  "rn_cancel (cc_enter s) = rn_cancel s" "rn_cancel (cc_finish s) = rn_cancel s" "rn_cancel (count_r2 s) = rn_cancel s"
  by (simp_all add: counter_defs)

lemma some_open_file:
  assumes "0 < files_open s" and "0 < l1" and "\<not> rn_cancel s"
  shows "\<exists>t. run_step l1 l2 s t \<and> \<not> rn_cancel t"
proof -
  have "\<not> list_all (\<lambda>p. \<not> before_r1_end p) (rn_files s)" using assms(1) phases_0 [of before_r1_end "rn_files s"] by (simp add: files_open_def)
  then obtain i where i: "i < length (rn_files s)" "before_r1_end (rn_files s ! i)" by (auto simp: list_all_length)
  show ?thesis
  proof (cases "\<exists>k. file_at s k FileInR1")
    case True
    then obtain k where "file_at s k FileInR1" by blast
    then have "run_step l1 l2 s (file_r1_done k 0 s)" by (rule step_file_done)
    then show ?thesis using assms(3) by auto
  next
    case False
    then have none: "in_r1 s = 0" by (auto simp: in_r1_def filter_empty_conv in_set_conv_nth)
    show ?thesis
    proof (cases "rn_files s ! i")
      case FileNew
      then have "run_step l1 l2 s (file_enter i s)" using i by (intro step_file_enter) simp
      then show ?thesis using assms(3) by auto
    next
      case FileWait
      then have "run_step l1 l2 s (set_file i FileInR1 s)" using i none assms(2) by (intro step_file_start) auto
      then show ?thesis using assms(3) by auto
    qed (use i False in auto)
  qed
qed

lemma some_open_func:
  assumes "j < length (rn_funcs s)" and "rn_funcs s ! j \<noteq> FuncGone" and "rn_funcs s ! j = FuncWaitCC \<Longrightarrow> rn_cc_event s"
    and "0 < l2" and "\<not> rn_cancel s"
  shows "\<exists>t. run_step l1 l2 s t \<and> \<not> rn_cancel t"
proof (cases "\<exists>k. func_at s k FuncInR2")
  case True
  then obtain k where "func_at s k FuncInR2" by blast
  then have "run_step l1 l2 s (func_r2_done k True s)" by (rule step_func_r2)
  then show ?thesis using assms(5) by auto
next
  case False
  then have none: "in_r2 s = 0" by (auto simp: in_r2_def filter_empty_conv in_set_conv_nth)
  show ?thesis
  proof (cases "rn_funcs s ! j")
    case FuncNew
    then have "run_step l1 l2 s (func_enter j s)" using assms(1) by (intro step_func_enter) simp
    then show ?thesis using assms(5) by auto
  next
    case FuncWait
    then have "run_step l1 l2 s (set_func j FuncInR2 s)" using assms(1,4) none by (intro step_func_start) auto
    then show ?thesis using assms(5) by auto
  next
    case FuncInR3
    then have "run_step l1 l2 s (func_r3_done j False s)" using assms(1) by (intro step_func_r3) simp
    then show ?thesis using assms(5) by auto
  next
    case FuncWaitCC
    then have "run_step l1 l2 s (func_cc_done j s)" using assms(1,3) by (intro step_func_cc) auto
    then show ?thesis using assms(5) by auto
  next
    case FuncTail
    then have "run_step l1 l2 s (set_func j FuncGone s)" using assms(1) by (intro step_func_tail) simp
    then show ?thesis using assms(5) by auto
  qed (use assms(1,2) False in auto)
qed

lemma progress:
  assumes inv: "run_inv F s" and "0 < l1" and "0 < l2" and nc: "\<not> rn_cancel s" and nr: "\<not> rn_returned s"
  shows "\<exists>t. run_step l1 l2 s t \<and> \<not> rn_cancel t"
proof (cases "0 < files_open s")
  case True
  then show ?thesis using some_open_file assms by blast
next
  case files: False
  show ?thesis
  proof (cases "\<exists>j. j < length (rn_funcs s) \<and> rn_funcs s ! j \<noteq> FuncGone \<and> (rn_funcs s ! j = FuncWaitCC \<longrightarrow> rn_cc_event s)")
    case True
    then show ?thesis using some_open_func assms by blast
  next
    case False
    then have wait: "rn_funcs s ! j = FuncGone \<or> rn_funcs s ! j = FuncWaitCC \<and> \<not> rn_cc_event s" if "j < length (rn_funcs s)" for j
      using that by blast
    then have "list_all (\<lambda>p. \<not> before_r2_end p) (rn_funcs s)" by (fastforce simp: list_all_length)
    then have "funcs_open s = 0" using phases_0 [of before_r2_end "rn_funcs s"] by (simp add: funcs_open_def)
    with inv nc files have ev: "rn_r2_event s" by (auto simp: run_inv_def)
    show ?thesis
    proof (cases "rn_cc s")
      case CCWait
      then have "run_step l1 l2 s (cc_enter s)" using ev by (intro step_cc_enter)
      then show ?thesis using nc by auto
    next
      case CCRunning
      then have "run_step l1 l2 s (cc_finish s)" by (rule step_cc_finish)
      then show ?thesis using nc by auto
    next
      case CCDone
      then have "rn_cc_event s" using inv by (simp add: run_inv_def)
      then have "list_all (\<lambda>p. p = FuncGone) (rn_funcs s)" using wait by (auto simp: list_all_length)
      moreover have "list_all (\<lambda>p. p = FileGone) (rn_files s)"
        using files phases_0 [of before_r1_end "rn_files s"] by (simp add: files_open_def before_r1_end_def)
      ultimately have "run_step l1 l2 s (s\<lparr>rn_returned := True\<rparr>)" using CCDone nr by (intro step_return) (simp_all add: all_gone_def)
      then show ?thesis using nc by (auto simp: run_inv_def)
    qed
  qed
qed

section \<open>A count that is missing\<close>

text \<open>A file or function that has left without being counted.\<close>

definition count_lost :: "run_state \<Rightarrow> bool" where
  "count_lost s \<longleftrightarrow> rn_r1 s + files_open s < length (rn_files s) \<or> rn_r2 s + funcs_open s < rn_total s"

lemma lost_no_event: "run_inv F s \<Longrightarrow> count_lost s \<Longrightarrow> \<not> rn_r2_event s \<and> \<not> rn_returned s"
  by (auto simp: run_inv_def count_lost_def all_gone_def)

lemma count_lost_set_func:
  assumes "count_lost s" and "func_at s j p" and "before_r2_end q \<longrightarrow> before_r2_end p"
  shows "count_lost (set_func j q s)"
proof -
  have "phases before_r2_end ((rn_funcs s)[j := q]) \<le> funcs_open s"
    using funcs_open_update [OF assms(2), of q] assms(3) by (auto split: if_splits)
  then show ?thesis using assms(1) by (auto simp: count_lost_def set_func_def files_open_def funcs_open_def)
qed

lemma count_lost_count:
  assumes "count_lost s" and "func_at s j p" and "before_r2_end p" and "\<not> before_r2_end q"
  shows "count_lost (count_r2 (set_func j q s))"
proof -
  have "phases before_r2_end ((rn_funcs s)[j := q]) + 1 = funcs_open s"
    using funcs_open_update [OF assms(2), of q] assms(3,4) by simp
  then show ?thesis using assms(1) by (auto simp: count_lost_def counter_defs files_open_def funcs_open_def)
qed

lemma count_lost_set_file:
  assumes "count_lost s" and "file_at s i p" and "before_r1_end p"
  shows "count_lost (set_file i q s)"
proof -
  have "phases before_r1_end ((rn_files s)[i := q]) \<le> files_open s"
    using files_open_update [OF assms(2,3), of q] by (auto split: if_splits)
  then show ?thesis using assms(1) by (auto simp: count_lost_def set_file_def files_open_def funcs_open_def)
qed

lemma count_lost_r1:
  assumes "count_lost s" and "file_at s i FileInR1"
  shows "count_lost (file_r1_done i n s)"
proof -
  have "phases before_r1_end ((rn_files s)[i := FileGone]) = files_open s - 1" "0 < files_open s"
    using files_open_update [OF assms(2), of FileGone] by simp_all
  then show ?thesis using assms(1) by (auto simp: count_lost_def counter_defs files_open_def funcs_open_def)
qed

lemma count_lost_step: "count_lost s \<Longrightarrow> run_step l1 l2 s t \<Longrightarrow> count_lost t"
proof (erule run_step.cases)
  fix s' i assume "count_lost s" "s = s'" "t = file_enter i s'" "file_at s' i FileNew"
  then show ?thesis unfolding file_enter_def by (auto intro!: count_lost_set_file)
next
  fix s' i assume "count_lost s" "s = s'" "t = set_file i FileInR1 s'" "file_at s' i FileWait"
  then show ?thesis by (auto intro!: count_lost_set_file)
next
  fix s' i n assume "count_lost s" "s = s'" "t = file_r1_done i n s'" "file_at s' i FileInR1"
  then show ?thesis by (auto intro!: count_lost_r1)
next
  fix s' j assume "count_lost s" "s = s'" "t = func_enter j s'" "func_at s' j FuncNew"
  then show ?thesis unfolding func_enter_def by (auto intro!: count_lost_set_func)
next
  fix s' j assume "count_lost s" "s = s'" "t = func_missing j s'" "func_at s' j FuncNew"
  then show ?thesis unfolding func_missing_def by (auto intro!: count_lost_count)
next
  fix s' j assume "count_lost s" "s = s'" "t = set_func j FuncInR2 s'" "func_at s' j FuncWait"
  then show ?thesis by (auto intro!: count_lost_set_func)
next
  fix s' j p assume "count_lost s" "s = s'" "t = func_r2_done j p s'" "func_at s' j FuncInR2"
  then show ?thesis unfolding func_r2_done_def by (auto intro!: count_lost_count)
next
  fix s' j p assume "count_lost s" "s = s'" "t = func_r3_done j p s'" "func_at s' j FuncInR3"
  then show ?thesis unfolding func_r3_done_def by (auto intro!: count_lost_set_func)
next
  fix s' j assume "count_lost s" "s = s'" "t = func_cc_done j s'" "func_at s' j FuncWaitCC"
  then show ?thesis unfolding func_cc_done_def by (auto intro!: count_lost_set_func)
next
  fix s' j assume "count_lost s" "s = s'" "t = set_func j FuncGone s'" "func_at s' j FuncTail"
  then show ?thesis by (auto intro!: count_lost_set_func)
qed (auto simp: count_lost_def cc_enter_def cc_finish_def files_open_def funcs_open_def)

lemma lost_for_ever:
  "(run_step l1 l2)\<^sup>*\<^sup>* s t \<Longrightarrow> run_inv F s \<Longrightarrow> count_lost s \<Longrightarrow> run_inv F t \<and> count_lost t"
  by (induction rule: rtranclp_induct) (auto intro: run_inv_step count_lost_step)

section \<open>A sample run\<close>

lemma steps_reach: "step\<^sup>*\<^sup>* s t \<Longrightarrow> reach init step s \<Longrightarrow> reach init step t"
  by (induction rule: rtranclp_induct) (auto intro: reach_step)

text \<open>One file with one function, up to the moment before the call chain is built.\<close>

definition sample_in_r1 :: run_state where
  "sample_in_r1 = set_file 0 FileInR1 (file_enter 0 (run_start 1))"

definition sample_after_r2 :: run_state where
  "sample_after_r2 = func_r2_done 0 True (set_func 0 FuncInR2 (func_enter 0 (file_r1_done 0 1 sample_in_r1)))"

lemmas sample_defs = sample_in_r1_def sample_after_r2_def run_start_def in_r1_def in_r2_def counter_defs

lemma sample_in_r1_run: "(run_step 1 1)\<^sup>*\<^sup>* (run_start 1) sample_in_r1"
proof -
  have "run_step 1 1 (run_start 1) (file_enter 0 (run_start 1))" by (rule step_file_enter) (simp add: sample_defs)
  moreover have "run_step 1 1 (file_enter 0 (run_start 1)) sample_in_r1"
    unfolding sample_in_r1_def by (rule step_file_start) (simp_all add: sample_defs)
  ultimately show ?thesis by (meson converse_rtranclp_into_rtranclp rtranclp.rtrancl_refl)
qed

lemma sample_after_r2_run: "(run_step 1 1)\<^sup>*\<^sup>* sample_in_r1 sample_after_r2"
proof -
  let ?a = "file_r1_done 0 1 sample_in_r1"
  let ?b = "func_enter 0 ?a"
  have "run_step 1 1 sample_in_r1 ?a" by (rule step_file_done) (simp add: sample_defs)
  moreover have "run_step 1 1 ?a ?b" by (rule step_func_enter) (simp add: sample_defs)
  moreover have "run_step 1 1 ?b (set_func 0 FuncInR2 ?b)" by (rule step_func_start) (simp_all add: sample_defs)
  moreover have "run_step 1 1 (set_func 0 FuncInR2 ?b) sample_after_r2"
    unfolding sample_after_r2_def by (rule step_func_r2) (simp add: sample_defs)
  ultimately show ?thesis by (meson converse_rtranclp_into_rtranclp rtranclp.rtrancl_refl)
qed

lemma sample_cc: "run_step 1 1 sample_after_r2 (cc_enter sample_after_r2)"
  by (rule step_cc_enter) (simp_all add: sample_defs)

lemma sample_reach_r1: "reach (\<lambda>s. s = run_start 1) (run_step 1 1) sample_in_r1"
  by (rule steps_reach [OF sample_in_r1_run]) (simp add: reach_init)

lemma sample_reach_r2: "reach (\<lambda>s. s = run_start 1) (run_step 1 1) sample_after_r2"
  by (rule steps_reach [OF sample_after_r2_run sample_reach_r1])

section \<open>Properties\<close>

text \<open>
  C23: The call chain is built after everything it reads: when its coroutine has left its wait, no file is before the end of R1,
  no function before the end of R2, and every function has been counted.
\<close>
theorem cc_after_all_r2:
  assumes "reach (\<lambda>s. s = run_start F) (run_step l1 l2) s" and "rn_cc s \<noteq> CCWait"
  shows "list_all (\<lambda>p. p = FileGone) (rn_files s) \<and> list_all (\<lambda>p. p \<notin> {FuncNew, FuncWait, FuncInR2}) (rn_funcs s)
    \<and> rn_r2 s = rn_total s"
proof -
  have inv: "run_inv F s" using engine_run.reach_inv [OF assms(1)] .
  have "files_open s = 0 \<and> funcs_open s = 0 \<and> rn_r2 s = rn_total s"
  proof (cases "F = 0")
    case True
    then show ?thesis using inv by (auto simp: run_inv_def funcs_open_def phases_def)
  next
    case False
    then have "rn_all_r1 s" "rn_total s \<le> rn_r2 s" using inv assms(2) by (auto simp: run_inv_def)
    then show ?thesis using inv by (auto simp: run_inv_def)
  qed
  then show ?thesis
    using phases_0 [of before_r1_end "rn_files s"] phases_0 [of before_r2_end "rn_funcs s"]
    by (auto simp: files_open_def funcs_open_def before_r1_end_def before_r2_end_def)
qed

theorem cc_after_all_r2_witness:
  "list_all (\<lambda>p. p = FileGone) (rn_files (cc_enter sample_after_r2)) \<and> rn_r2 (cc_enter sample_after_r2) = rn_total (cc_enter sample_after_r2)"
proof -
  have "reach (\<lambda>s. s = run_start 1) (run_step 1 1) (cc_enter sample_after_r2)"
    by (rule reach_step [OF sample_reach_r2 sample_cc])
  moreover have "rn_cc (cc_enter sample_after_r2) \<noteq> CCWait" by (simp add: cc_enter_def)
  ultimately show ?thesis using cc_after_all_r2 [of 1 1 1 "cc_enter sample_after_r2"] by blast
qed



text \<open>
  C37: A cancelled run can wait for ever: when the run is cancelled while a file is in R1 and R1 then reports functions, their
  coroutines are not started and not counted, the barrier stays closed, and the run never returns, in any continuation.
\<close>
theorem cancel_in_r1_hangs:
  assumes "reach (\<lambda>s. s = run_start F) (run_step l1 l2) s" and "file_at s i FileInR1" and "rn_cancel s" and "0 < n"
    and "(run_step l1 l2)\<^sup>*\<^sup>* (file_r1_done i n s) t"
  shows "\<not> rn_returned t"
proof -
  have inv: "run_inv F s" using engine_run.reach_inv [OF assms(1)] .
  have "rn_r2 s + funcs_open s \<le> rn_total s" using inv by (simp add: run_inv_def)
  then have "count_lost (file_r1_done i n s)"
    using assms(3,4) by (simp add: count_lost_def counter_defs funcs_open_def)
  then show ?thesis
    using lost_for_ever [OF assms(5) run_inv_file_done [OF inv assms(2)]] lost_no_event by blast
qed

theorem cancel_in_r1_hangs_witness: "\<not> rn_returned (file_r1_done 0 1 (sample_in_r1\<lparr>rn_cancel := True\<rparr>))"
proof -
  have "run_step 1 1 sample_in_r1 (sample_in_r1\<lparr>rn_cancel := True\<rparr>)" by (rule step_cancel) (simp add: sample_defs)
  then have "reach (\<lambda>s. s = run_start 1) (run_step 1 1) (sample_in_r1\<lparr>rn_cancel := True\<rparr>)"
    by (rule reach_step [OF sample_reach_r1])
  then show ?thesis
    by (rule cancel_in_r1_hangs [where i = 0 and n = 1]) (simp_all add: sample_defs)
qed

end
