(* ===== verification/EngineStages.thy ===== *)
theory EngineStages
  imports CallExtractor PipelineState
begin

text \<open>
  What the engine (\<open>app/pipeline/engine.py\<close>) does with one function between the end of R1 and the final list: the rounds of worker and
  judge of R2, R3, R4 and R5, the construction of the call chain and the collection of the entries. The answers of the agents and
  the readings of the cancel event are an argument, \<open>engine_env\<close>, which gives one per stage and attempt (\<open>None\<close> is an exception);
  the judges' answers are what \<open>_parse_j_result\<close> returns. The coroutine of one function is alone with its databases, whose statements do
  not fail. Left out are the fields that only go into prompts and events (feedback, summaries, reasons), result files that nobody reads,
  and the lines of a log. A loop without a limit of rounds that does not end is \<open>None\<close>.
\<close>

section \<open>State and environment\<close>

text \<open>The fields of \<open>FunctionState\<close> the stages use, with the types of their annotations.\<close>

record func_work =
  wf_hash :: string
  wf_file :: string
  wf_name :: string
  wf_signature :: string
  wf_start :: int
  wf_end :: int
  wf_r2_w :: node_state
  wf_r2_w_attempts :: int
  wf_r2_j :: node_state
  wf_r2_j_attempts :: int
  wf_incomplete :: bool
  wf_r3_w :: node_state
  wf_r3_w_attempts :: int
  wf_r3_j :: node_state
  wf_r3_j_attempts :: int
  wf_input :: "bool option"
  wf_role :: string
  wf_decision :: string
  wf_r4 :: node_state
  wf_r4_attempts :: int
  wf_r4_j :: node_state
  wf_r4_j_attempts :: int
  wf_r5 :: node_state
  wf_r5_attempts :: int

text \<open>
  The function, the function database, the call chain (\<open>None\<close> while its file does not exist), whether its stage has passed, and the
  result files of the R2 worker by attempt.
\<close>

record work =
  wk_fn :: func_work
  wk_db :: func_db
  wk_cc :: "cc_db option"
  wk_cc_passed :: bool
  wk_r2w :: "int \<Rightarrow> pyval option"

definition on_fn :: "(func_work \<Rightarrow> func_work) \<Rightarrow> work \<Rightarrow> work" where
  "on_fn f w = w\<lparr>wk_fn := f (wk_fn w)\<rparr>"

datatype point = R2Loop | R2Judged | R2Quota | R2Corrected | AfterR2 | R3In | R3WLoop | R3WDone | R3JLoop | R3JDone | AfterR3
  | AfterCC | R4Loop | R4WIn | R4WDone | R4Quota | R5Loop

datatype r2w_answer = NoCorrections | Corrections "dict list" | SourceIncomplete
datatype r3w_answer = Analysis dict | NoAnalysis bool

record engine_env =
  ev_cancel :: "point \<Rightarrow> int \<Rightarrow> bool"
  ev_source :: "string option"
  ev_path :: string
  ev_md5 :: "string \<Rightarrow> string"
  ev_r2_max :: int
  ev_r3_max :: int
  ev_r3_j_max :: int
  ev_r4_max :: int
  ev_r4_j_max :: int
  ev_r5_max :: int
  ev_r2_judge :: "int \<Rightarrow> (bool \<times> string) option"
  ev_r2_worker :: "int \<Rightarrow> r2w_answer option"
  ev_r3_worker :: "int \<Rightarrow> r3w_answer option"
  ev_r3_judge :: "int \<Rightarrow> (bool \<times> string) option"
  ev_r4_worker :: "int \<Rightarrow> pyval option option"
  ev_r4_judge :: "int \<Rightarrow> (bool \<times> string) option"
  ev_r5_worker :: "int \<Rightarrow> bool option"
  ev_r5_judge :: "int \<Rightarrow> (bool \<times> string) option"
  ev_cc :: "cc_db option \<times> bool"
  ev_out :: bool
  ev_single :: bool

definition should_continue :: "int \<Rightarrow> int \<Rightarrow> bool \<Rightarrow> bool" where
  "should_continue attempts max_rounds cancelled =
     (if cancelled then False else if max_rounds = 0 then False else if max_rounds = -1 then True else attempts < max_rounds)"

section \<open>R2: the script check of the judge\<close>

datatype script_verdict = ScriptPass | ScriptDelete | ScriptSkip

text \<open>\<open>xs[i:]\<close>\<close>

definition py_from :: "int \<Rightarrow> 'a list \<Rightarrow> 'a list" where
  "py_from i xs = drop (nat (if i < 0 then max 0 (int (length xs) + i) else i)) xs"

text \<open>Is there a closing brace after which the depth is 0?\<close>

fun closes_braces :: "int \<Rightarrow> string \<Rightarrow> bool" where
  "closes_braces d [] = False"
| "closes_braces d (c # s) =
     (if c = CHR 0x7B then closes_braces (d + 1) s
      else if c = CHR 0x7D then d - 1 = 0 \<or> closes_braces (d - 1) s
      else closes_braces d s)"

text \<open>The lines the worker's first correction names, or the current ones; \<open>None\<close> when a conversion raises.\<close>

definition checked_range :: "int \<Rightarrow> int \<Rightarrow> pyval \<Rightarrow> (int \<times> int) option" where
  "checked_range start end_line corrections =
     (if \<not> truthy corrections then Some (start, end_line)
      else case (case corrections of PList (c # cs) \<Rightarrow> c | v \<Rightarrow> v) of
        PDict c \<Rightarrow>
          (case (py_int (py_or (get c ''start_line'') (PInt start)), py_int (py_or (get c ''end_line'') (PInt end_line))) of
             (Some s, Some e) \<Rightarrow> Some (s, e) | _ \<Rightarrow> None)
      | _ \<Rightarrow> None)"

definition range_ok :: "string \<Rightarrow> string list \<Rightarrow> int \<times> int \<Rightarrow> bool" where
  "range_ok name lines r =
     (let (s, e) = r in
      if s < 1 \<or> e < s \<or> int (length lines) < e then False
      else (let text = concat (py_slice (s - 1) e lines);
                opens = count_list text (CHR 0x7B); closes = count_list text (CHR 0x7D)
            in opens = closes \<and> 1 \<le> opens \<and> has_sub name (lines ! nat (s - 1))
               \<and> is_prefix [CHR 0x7D] (py_strip (lines ! nat (e - 1)))))"

definition r2_j_script_check :: "string \<Rightarrow> int \<Rightarrow> int \<Rightarrow> string option \<Rightarrow> dict \<Rightarrow> script_verdict option" where
  "r2_j_script_check name start end_line source answer =
     (case source of None \<Rightarrow> None | Some text \<Rightarrow>
       (let lines = split_lines text in
        if \<not> (list_ex (has_sub (name @ ''('')) lines \<or> list_ex (has_sub name) lines) then Some ScriptDelete
        else if truthy (get answer ''source_incomplete'') then
          (if closes_braces 0 (concat (py_from (start - 1) lines)) then None else Some ScriptSkip)
        else case checked_range start end_line (py_or (get answer ''corrections'') (PList [])) of
          None \<Rightarrow> None
        | Some r \<Rightarrow> if range_ok name lines r then Some ScriptPass else None))"

text \<open>What the judge reads of the worker's result file.\<close>

definition worker_check :: "pyval option \<Rightarrow> dict" where
  "worker_check file =
     (case file of None \<Rightarrow> [] | Some v \<Rightarrow>
       (case py_or v (PDict []) of
          PDict p \<Rightarrow>
            (case (case py_or (get p ''result'') (PDict []) of PStr s \<Rightarrow> PDict [] | r \<Rightarrow> r) of
               PDict r \<Rightarrow>
                 [(''source_incomplete'', PBool (truthy (get p ''source_incomplete'') \<or> truthy (get r ''source_incomplete''))),
                  (''corrections'', py_or (get r ''corrections'') (PList [])),
                  (''no_corrections'', PBool (truthy (get r ''no_corrections'') \<or> get p ''status'' = PStr ''no_corrections''))]
             | _ \<Rightarrow> [])
        | _ \<Rightarrow> []))"

section \<open>R2: the judge\<close>

definition verdict_delete :: string where "verdict_delete = ''__DELETE__''"
definition verdict_skip :: string where "verdict_skip = ''__SKIP__''"
definition verdict_discard :: string where "verdict_discard = ''__DISCARD__''"

text \<open>The script's verdict, or the agent's answer.\<close>

definition r2_judgement :: "engine_env \<Rightarrow> work \<Rightarrow> (bool \<times> string) option" where
  "r2_judgement env w =
     (let f = wk_fn w in
      case r2_j_script_check (wf_name f) (wf_start f) (wf_end f) (ev_source env) (worker_check (wk_r2w w (max 1 (wf_r2_w_attempts f)))) of
        Some ScriptDelete \<Rightarrow> Some (True, verdict_delete)
      | Some ScriptSkip \<Rightarrow> Some (False, verdict_skip)
      | Some ScriptPass \<Rightarrow> Some (True, ''[script] '')
      | None \<Rightarrow> ev_r2_judge env (wf_r2_j_attempts f))"

definition run_r2_j :: "engine_env \<Rightarrow> work \<Rightarrow> work \<times> bool" where
  "run_r2_j env w0 =
     (let w = on_fn (\<lambda>f. f\<lparr>wf_r2_j := Running, wf_r2_j_attempts := wf_r2_j_attempts f + 1\<rparr>) w0 in
      case r2_judgement env w of
        None \<Rightarrow> (on_fn (\<lambda>f. f\<lparr>wf_r2_j := Failed\<rparr>) w, False)
      | Some (passed, feedback) \<Rightarrow>
          if is_prefix verdict_delete feedback
          then (on_fn (\<lambda>f. f\<lparr>wf_r2_j := Passed\<rparr>) (w\<lparr>wk_db := delete_function (wf_hash (wk_fn w)) (wk_db w)\<rparr>), True)
          else if is_prefix verdict_skip feedback \<or> is_prefix verdict_discard feedback
          then (on_fn (\<lambda>f. f\<lparr>wf_incomplete := True, wf_r2_j := Failed\<rparr>) w, True)
          else (on_fn (\<lambda>f. f\<lparr>wf_r2_j := if passed then Passed else Failed\<rparr>) w, passed))"

section \<open>R2: the worker\<close>

definition r2w_payload :: "r2w_answer \<Rightarrow> dict" where
  "r2w_payload a =
     [(''source_incomplete'', PBool (a = SourceIncomplete)),
      (''status'', PStr (if a = SourceIncomplete then ''source_incomplete'' else ''ok'')),
      (''result'', PList (case a of Corrections cs \<Rightarrow> map PDict cs | _ \<Rightarrow> []))]"

text \<open>\<open>run_r2_w_worker\<close>: the result file, then the corrections; the flag is \<open>False\<close> when \<open>apply_corrections\<close> raises.\<close>

definition run_r2_w_worker :: "engine_env \<Rightarrow> int \<Rightarrow> r2w_answer \<Rightarrow> work \<Rightarrow> work \<times> bool" where
  "run_r2_w_worker env attempt a w0 =
     (let w = w0\<lparr>wk_r2w := (wk_r2w w0)(max 1 attempt := Some (PDict (r2w_payload a)))\<rparr> in
      case a of
        Corrections (c # cs) \<Rightarrow>
          (let (db, ok) = apply_corrections (ev_md5 env) (ev_path env) (ev_source env) (c # cs) (wk_db w) in (w\<lparr>wk_db := db\<rparr>, ok))
      | _ \<Rightarrow> (w, True))"

definition run_r2_w :: "engine_env \<Rightarrow> work \<Rightarrow> work" where
  "run_r2_w env w0 =
     (let w = on_fn (\<lambda>f. f\<lparr>wf_r2_w := Running, wf_r2_w_attempts := wf_r2_w_attempts f + 1\<rparr>) w0;
          k = wf_r2_w_attempts (wk_fn w)
      in case ev_r2_worker env k of
           None \<Rightarrow> on_fn (\<lambda>f. f\<lparr>wf_r2_w := Failed\<rparr>) w
         | Some a \<Rightarrow>
             (case run_r2_w_worker env k a w of
                (w1, False) \<Rightarrow> on_fn (\<lambda>f. f\<lparr>wf_r2_w := Failed\<rparr>) w1
              | (w1, True) \<Rightarrow> on_fn (\<lambda>f. f\<lparr>wf_r2_w := Passed, wf_incomplete := (wf_incomplete f \<or> a = SourceIncomplete)\<rparr>) w1))"

text \<open>After the worker the function is read back from the database.\<close>

definition r2_sync :: "work \<Rightarrow> work" where
  "r2_sync w =
     (case get_function (wk_db w) (wf_hash (wk_fn w)) of
        None \<Rightarrow> w
      | Some r \<Rightarrow> on_fn (\<lambda>f. f\<lparr>wf_start := if fn_start r \<noteq> 0 then fn_start r else wf_start f,
          wf_end := if fn_end r \<noteq> 0 then fn_end r else wf_end f,
          wf_name := if fn_name r \<noteq> [] then fn_name r else wf_name f,
          wf_signature := if fn_signature r \<noteq> [] then fn_signature r else wf_signature f\<rparr>) w)"

section \<open>R2: the rounds\<close>

definition stored_body :: "work \<Rightarrow> string" where
  "stored_body w = (case get_function (wk_db w) (wf_hash (wk_fn w)) of None \<Rightarrow> [] | Some r \<Rightarrow> fn_body r)"

definition r2_script_pass :: "engine_env \<Rightarrow> work \<Rightarrow> bool" where
  "r2_script_pass env w \<longleftrightarrow>
     (case ev_source env of None \<Rightarrow> False
      | Some text \<Rightarrow> fst (r2_script_validate (wf_start (wk_fn w)) (wf_end (wk_fn w)) (stored_body w) (split_lines text)) = R2Pass)"

definition force_r2 :: "work \<Rightarrow> work" where
  "force_r2 = on_fn (\<lambda>f. if wf_r2_j f \<noteq> Passed then f\<lparr>wf_r2_j := Passed\<rparr> else f)"

definition r2_continue :: "engine_env \<Rightarrow> point \<Rightarrow> work \<Rightarrow> bool" where
  "r2_continue env p w = should_continue (wf_r2_j_attempts (wk_fn w)) (ev_r2_max env) (ev_cancel env p (wf_r2_j_attempts (wk_fn w)))"

partial_function (option) r2_loop :: "engine_env \<Rightarrow> work \<Rightarrow> work option" where
  "r2_loop env w =
     (if \<not> r2_continue env R2Loop w then Some (force_r2 w)
      else if wf_r2_j (wk_fn w) = Passed then Some (force_r2 w)
      else (let (w1, passed) = run_r2_j env w in
        if passed then Some (force_r2 w1)
        else if ev_cancel env R2Judged (wf_r2_j_attempts (wk_fn w1)) then Some w1
        else if \<not> r2_continue env R2Quota w1 then Some (force_r2 w1)
        else (let w2 = run_r2_w env (on_fn (\<lambda>f. f\<lparr>wf_r2_w := Pending\<rparr>) w1) in
          if ev_cancel env R2Corrected (wf_r2_w_attempts (wk_fn w2)) then Some w2
          else r2_loop env (r2_sync w2))))"

definition run_r2 :: "engine_env \<Rightarrow> work \<Rightarrow> work option" where
  "run_r2 env w =
     (if wf_r2_j (wk_fn w) = Passed \<or> wf_incomplete (wk_fn w) then Some w
      else if r2_script_pass env w then Some (on_fn (\<lambda>f. f\<lparr>wf_r2_j := Passed, wf_r2_j_attempts := 1\<rparr>) w)
      else r2_loop env w)"

section \<open>R3: the worker\<close>

definition dispatcher_hints :: "string list" where
  "dispatcher_hints = [''dispatch'', ''proc'', ''handle'', ''router'', ''route'', ''switch'', ''process'', ''dealer'', ''demux'', ''classify'']"

definition callback_hints :: "string list" where
  "callback_hints = [''register'', ''hook'', ''subscribe'', ''listen'', ''callback'', ''addhandler'', ''sethandler'', ''install'']"

fun role_of_callers :: "caller_row list \<Rightarrow> string" where
  "role_of_callers [] = ''boundary''"
| "role_of_callers (c # cs) =
     (let n = py_lower (or_empty (cl_name c)) in
      if list_ex (\<lambda>h. has_sub h n) dispatcher_hints then ''dispatch_target''
      else if list_ex (\<lambda>h. has_sub h n) callback_hints then ''callback''
      else role_of_callers cs)"

definition infer_entry_role :: "cc_db option \<Rightarrow> string \<Rightarrow> string" where
  "infer_entry_role cc h = (case cc of None \<Rightarrow> [] | Some db \<Rightarrow> role_of_callers (get_callers db h))"

definition decision_text :: "dict \<Rightarrow> string" where
  "decision_text a = py_strip (py_lower (str_or_empty (get a ''decision'')))"

definition has_input_of :: "dict \<Rightarrow> bool" where
  "has_input_of a = truthy (get_or a ''has_external_input'' (PBool True))"

text \<open>The decision a parsed answer gives: \<open>keep\<close>, \<open>filter\<close>, or the one before when it names neither.\<close>

definition decided :: "dict \<Rightarrow> string \<Rightarrow> string" where
  "decided a old =
     (if \<not> has_input_of a then ''filter''
      else if decision_text a = ''filter'' then ''filter''
      else if decision_text a = ''keep'' then ''keep'' else old)"

definition no_role :: "string \<Rightarrow> bool" where
  "no_role r \<longleftrightarrow> py_lower r \<in> {''unknown'', [], ''none''}"

definition role_found :: "cc_db option \<Rightarrow> string \<Rightarrow> dict \<Rightarrow> string" where
  "role_found cc h a =
     (let role = text_of (get a ''entry_role''); inferred = infer_entry_role cc h
      in if no_role role \<and> inferred \<noteq> [] then inferred else role)"

text \<open>The analysis is stored with the role that was inferred.\<close>

definition analysis_stored :: "cc_db option \<Rightarrow> string \<Rightarrow> dict \<Rightarrow> dict" where
  "analysis_stored cc h a =
     (if no_role (text_of (get a ''entry_role'')) \<and> infer_entry_role cc h \<noteq> []
      then dset ''entry_role'' (PStr (infer_entry_role cc h)) a else a)"

text \<open>The flag is \<open>False\<close> when the confidence of the analysis cannot be computed and \<open>set_analysis\<close> raises.\<close>

definition r3_take :: "r3w_answer \<Rightarrow> work \<Rightarrow> work \<times> bool" where
  "r3_take answer w =
     (case answer of
        NoAnalysis b \<Rightarrow>
          (on_fn (\<lambda>f. f\<lparr>wf_input := Some b, wf_decision := if \<not> b \<and> wf_decision f = [] then ''filter'' else wf_decision f\<rparr>) w, True)
      | Analysis a \<Rightarrow>
          (let w1 = on_fn (\<lambda>f. f\<lparr>wf_input := Some (has_input_of a), wf_decision := decided a (wf_decision f)\<rparr>) w;
               h = wf_hash (wk_fn w)
           in if has_input_of a \<and> decision_text a \<noteq> ''filter''
              then (let role = role_found (wk_cc w) h a;
                        w2 = on_fn (\<lambda>f. f\<lparr>wf_role := if role \<in> set valid_entry_roles then role else wf_role f\<rparr>) w1
                    in (case set_analysis h (analysis_stored (wk_cc w) h a) (wk_db w2) of
                          None \<Rightarrow> (w2, False) | Some db \<Rightarrow> (w2\<lparr>wk_db := db\<rparr>, True)))
              else (w1, True)))"

definition cc_note :: "string \<Rightarrow> work \<Rightarrow> work" where
  "cc_note st w = (if wk_cc_passed w then w\<lparr>wk_cc := map_option (update_node_r3_state (wf_hash (wk_fn w)) st) (wk_cc w)\<rparr> else w)"

definition r3_finish :: "work \<Rightarrow> work" where
  "r3_finish w =
     (let d = (if wf_decision (wk_fn w) = [] then ''filter'' else wf_decision (wk_fn w));
          w1 = w\<lparr>wk_db := update_r3_decision (wf_hash (wk_fn w)) d (wk_db w)\<rparr>
      in on_fn (\<lambda>f. f\<lparr>wf_r3_w := Passed\<rparr>) (cc_note (if d = ''keep'' then ''keep'' else ''filter'') w1))"

text \<open>One attempt; the flag says whether the worker is done.\<close>

definition r3_attempt :: "engine_env \<Rightarrow> work \<Rightarrow> work \<times> bool" where
  "r3_attempt env w0 =
     (let w1 = on_fn (\<lambda>f. f\<lparr>wf_r3_w := Running, wf_r3_w_attempts := wf_r3_w_attempts f + 1\<rparr>) w0;
          k = wf_r3_w_attempts (wk_fn w1);
          w = (if k = 1 then cc_note ''running'' w1 else w1)
      in case ev_r3_worker env k of
           None \<Rightarrow> (on_fn (\<lambda>f. f\<lparr>wf_r3_w := Failed\<rparr>) w, False)
         | Some answer \<Rightarrow>
             (case r3_take answer w of
                (w2, False) \<Rightarrow> (on_fn (\<lambda>f. f\<lparr>wf_r3_w := Failed\<rparr>) w2, False)
              | (w2, True) \<Rightarrow> (r3_finish w2, True)))"

partial_function (option) r3_w_loop :: "engine_env \<Rightarrow> work \<Rightarrow> work option" where
  "r3_w_loop env w =
     (let k = wf_r3_w_attempts (wk_fn w) in
      if \<not> should_continue k (ev_r3_max env) (ev_cancel env R3WLoop k) \<or> wf_r3_w (wk_fn w) = Passed then Some w
      else (let (w1, done) = r3_attempt env w in if done then Some w1 else r3_w_loop env w1))"

section \<open>R3: the judge\<close>

definition analysis_dict :: "func_row \<Rightarrow> dict option" where
  "analysis_dict r = (case fn_analysis r of None \<Rightarrow> Some [] | Some v \<Rightarrow> (case py_or v (PDict []) of PDict a \<Rightarrow> Some a | _ \<Rightarrow> None))"

text \<open>What a \<open>for\<close> loop ranges over; \<open>None\<close> raises.\<close>

fun py_iter :: "pyval \<Rightarrow> pyval list option" where
  "py_iter (PList xs) = Some xs"
| "py_iter (PStr s) = Some (map (\<lambda>c. PStr [c]) s)"
| "py_iter (PDict d) = Some (map (PStr \<circ> fst) d)"
| "py_iter _ = None"

text \<open>\<open>re.split(r"->|\.", t)[0]\<close>\<close>

fun taint_root :: "string \<Rightarrow> string" where
  "taint_root [] = []"
| "taint_root (c # s) = (if c = CHR ''.'' \<or> is_prefix ''->'' (c # s) then [] else c # taint_root s)"

definition letter :: "char \<Rightarrow> bool" where
  "letter c \<longleftrightarrow> word_char c \<and> \<not> is_digit c"

text \<open>\<open>^[a-zA-Z_][a-zA-Z0-9_]*$\<close>; the dollar sign allows one line break at the end.\<close>

definition c_ident :: "string \<Rightarrow> bool" where
  "c_ident s = (case s of [] \<Rightarrow> False
     | c # r \<Rightarrow> letter c \<and> (list_all word_char r \<or> (r \<noteq> [] \<and> last r = CHR 0x0A \<and> list_all word_char (butlast r))))"

definition taints_of :: "dict \<Rightarrow> pyval list option" where
  "taints_of a = py_iter (py_or (get a ''taints'') (PList []))"

text \<open>The first check: a taint whose root is not an identifier.\<close>

definition bad_taint_format :: "func_row \<Rightarrow> bool" where
  "bad_taint_format r =
     (case analysis_dict r of None \<Rightarrow> False | Some a \<Rightarrow>
       (case taints_of a of None \<Rightarrow> False | Some ts \<Rightarrow> list_ex (\<lambda>t. \<not> c_ident (taint_root (py_str t))) ts))"

text \<open>\<open>\s*(?:\[[^\]]*\])?\s*(?:,|$)\<close> after a name: the rest of the text when it matches.\<close>

definition after_name :: "string \<Rightarrow> string option" where
  "after_name s =
     (let r = dropWhile is_space s;
          t = (if is_prefix ''['' r \<and> CHR '']'' \<in> set r
               then dropWhile is_space (tl (dropWhile (\<lambda>c. c \<noteq> CHR '']'') r)) else r)
      in case t of [] \<Rightarrow> Some [] | c # u \<Rightarrow> if c = CHR '','' then Some u else None)"

lemma after_name_length: "after_name s = Some r \<Longrightarrow> length r \<le> length s"
proof -
  assume s: "after_name s = Some r"
  let ?r = "dropWhile is_space s"
  let ?t = "if is_prefix ''['' ?r \<and> CHR '']'' \<in> set ?r
    then dropWhile is_space (tl (dropWhile (\<lambda>c. c \<noteq> CHR '']'') ?r)) else ?r"
  have tl: "length (tl xs) \<le> length xs" for xs :: string by (cases xs) auto
  have "length ?t \<le> length s"
    using length_dropWhile_le [of is_space s] length_dropWhile_le [of "\<lambda>c. c \<noteq> CHR '']''" ?r]
      length_dropWhile_le [of is_space "tl (dropWhile (\<lambda>c. c \<noteq> CHR '']'') ?r)"] tl [of "dropWhile (\<lambda>c. c \<noteq> CHR '']'') ?r"]
    by (auto simp del: length_tl)
  moreover have "length r \<le> length ?t" using s by (auto simp: after_name_def Let_def split: list.splits if_splits)
  ultimately show ?thesis by simp
qed

lemma after_name_shorter: "after_name (dropWhile word_char s) = Some r \<Longrightarrow> length r < Suc (length s)"
  using after_name_length [of "dropWhile word_char s" r] length_dropWhile_le [of word_char s] by simp

text \<open>\<open>re.findall(r"\b([a-zA-Z_]\w*)\s*(?:\[[^\]]*\])?\s*(?:,|$)", s)\<close>, after a word character or not.\<close>

function param_names :: "bool \<Rightarrow> string \<Rightarrow> string list" where
  "param_names w [] = []"
| "param_names w (c # s) =
     (if \<not> w \<and> letter c
      then (case after_name (dropWhile word_char s) of
              Some rest \<Rightarrow> (c # takeWhile word_char s) # param_names False rest
            | None \<Rightarrow> param_names True s)
      else param_names (word_char c) s)"
  by pat_completeness auto
termination by (relation "measure (length \<circ> snd)") (auto dest: after_name_shorter)

text \<open>The group of \<open>\((.+)\)\<close>: from the first parenthesis to the last.\<close>

definition in_parentheses :: "string \<Rightarrow> string option" where
  "in_parentheses s =
     (let r = dropWhile (\<lambda>c. c \<noteq> CHR ''('') s;
          t = rev (dropWhile (\<lambda>c. c \<noteq> CHR '')'') (rev (tl r)))
      in if r = [] \<or> length t < 2 then None else Some (butlast t))"

text \<open>The second check: a passive function with a taint whose root is none of its parameters.\<close>

definition bad_taint_param :: "string \<Rightarrow> func_row \<Rightarrow> bool" where
  "bad_taint_param sig r =
     (case analysis_dict r of None \<Rightarrow> False | Some a \<Rightarrow>
       (let taints = py_or (get a ''taints'') (PList []);
            s = py_strip (if fn_signature r \<noteq> [] then fn_signature r else sig) in
        if get_or a ''tag'' (PStr []) = PStr ''P'' \<and> (fn_input r = Some True \<or> truthy (get_or a ''has_external_input'' (PBool False)))
           \<and> truthy taints \<and> s \<noteq> []
        then (case in_parentheses s of None \<Rightarrow> False | Some inner \<Rightarrow>
               (let p = py_strip inner; names = param_names False p in
                if p = [] \<or> p = ''void'' then False
                else case py_iter taints of None \<Rightarrow> False
                  | Some ts \<Rightarrow> list_ex (\<lambda>t. taint_root (py_str t) \<notin> set names) ts \<and> names \<noteq> []))
        else False))"

text \<open>\<open>\(\s*(void\s*)?\)\<close> somewhere in the signature.\<close>

fun no_parameters :: "string \<Rightarrow> bool" where
  "no_parameters [] = False"
| "no_parameters (c # s) =
     ((c = CHR ''('' \<and> (let r = dropWhile is_space s; t = (if is_prefix ''void'' r then dropWhile is_space (drop 4 r) else r)
                          in is_prefix '')'' t)) \<or> no_parameters s)"

text \<open>The check after an approval: an external input without a taint in a function with parameters.\<close>

definition missing_taints :: "func_row \<Rightarrow> bool" where
  "missing_taints r =
     (case analysis_dict r of None \<Rightarrow> False | Some a \<Rightarrow>
       truthy (get a ''has_external_input'') \<and> \<not> truthy (get a ''taints'') \<and> \<not> (fn_signature r \<noteq> [] \<and> no_parameters (fn_signature r)))"

definition conf_state :: "func_work \<Rightarrow> string \<Rightarrow> dict" where
  "conf_state f judge = [(''r3_j_state'', PStr judge), (''name'', PStr (wf_name f)), (''entry_role'', PStr (wf_role f))]"

text \<open>The confidence is computed again; it stays when anything raises.\<close>

definition rescore :: "string \<Rightarrow> dict \<Rightarrow> work \<Rightarrow> work" where
  "rescore judge role w =
     (let h = wf_hash (wk_fn w) in
      case get_function (wk_db w) h of None \<Rightarrow> w | Some r \<Rightarrow>
        (case analysis_dict r of None \<Rightarrow> w | Some a \<Rightarrow>
          (case compute_confidence a (conf_state (wk_fn w) judge) role of None \<Rightarrow> w | Some c \<Rightarrow>
            (case update_confidence h (flt_hundredths c) (wk_db w) of None \<Rightarrow> w | Some db \<Rightarrow> w\<lparr>wk_db := db\<rparr>))))"

text \<open>A failed check before the agent leaves the judge's state at \<open>Running\<close>.\<close>

definition run_r3_j :: "engine_env \<Rightarrow> work \<Rightarrow> work \<times> bool" where
  "run_r3_j env w0 =
     (let w = on_fn (\<lambda>f. f\<lparr>wf_r3_j := Running, wf_r3_j_attempts := wf_r3_j_attempts f + 1\<rparr>) w0;
          f = wk_fn w;
          row = get_function (wk_db w) (wf_hash f)
      in if (case row of None \<Rightarrow> False | Some r \<Rightarrow> bad_taint_format r \<or> bad_taint_param (wf_signature f) r) then (w, False)
         else case ev_r3_judge env (wf_r3_j_attempts f) of
           None \<Rightarrow> (on_fn (\<lambda>f. f\<lparr>wf_r3_j := Failed\<rparr>) w, False)
         | Some (passed, feedback) \<Rightarrow>
             (if passed \<and> \<not> (case row of None \<Rightarrow> False | Some r \<Rightarrow> missing_taints r)
              then (rescore ''passed'' [] (on_fn (\<lambda>f. f\<lparr>wf_r3_j := Passed\<rparr>) w), True)
              else (on_fn (\<lambda>f. f\<lparr>wf_r3_j := Failed\<rparr>) w, False)))"

section \<open>R3: the rounds\<close>

partial_function (option) r3_j_loop :: "engine_env \<Rightarrow> work \<Rightarrow> work option" where
  "r3_j_loop env w =
     (let k = wf_r3_j_attempts (wk_fn w) in
      if \<not> should_continue k (ev_r3_j_max env) (ev_cancel env R3JLoop k) \<or> wf_r3_j (wk_fn w) = Passed then Some w
      else (let (w1, passed) = run_r3_j env w
            in if passed then Some w1
               else case r3_w_loop env (on_fn (\<lambda>f. f\<lparr>wf_r3_w := Pending\<rparr>) w1) of None \<Rightarrow> None | Some w2 \<Rightarrow> r3_j_loop env w2))"

definition r3_judged :: "engine_env \<Rightarrow> work \<Rightarrow> work option" where
  "r3_judged env w =
     (if wf_r3_w (wk_fn w) \<noteq> Passed then Some w
      else if wf_input (wk_fn w) \<noteq> Some True then Some (on_fn (\<lambda>f. f\<lparr>wf_r3_j := Passed\<rparr>) w)
      else r3_j_loop env w)"

definition r3_close :: "work \<Rightarrow> work" where
  "r3_close w0 =
     (let w = (if wf_input (wk_fn w0) \<noteq> Some True then on_fn (\<lambda>f. f\<lparr>wf_decision := ''filter''\<rparr>) w0 else w0);
          f = wk_fn w
      in if wk_cc_passed w \<and> wf_input f = Some True
         then (case wk_cc w of None \<Rightarrow> w
           | Some cc \<Rightarrow> rescore (if wf_r3_j f = Passed then ''passed'' else []) (get_callchain_role cc (wf_hash f)) w)
         else w)"

definition run_r3_analysis :: "engine_env \<Rightarrow> work \<Rightarrow> work option" where
  "run_r3_analysis env w =
     (if ev_cancel env R3In 0 then Some w
      else case (if wf_r3_w (wk_fn w) \<noteq> Passed then r3_w_loop env w else Some w) of None \<Rightarrow> None | Some w1 \<Rightarrow>
        if ev_cancel env R3WDone 0 then Some w1
        else case r3_judged env w1 of None \<Rightarrow> None | Some w2 \<Rightarrow>
          if ev_cancel env R3JDone 0 then Some w2 else Some (r3_close w2))"

section \<open>R4\<close>

definition callers_in_state :: "string \<Rightarrow> cc_db option \<Rightarrow> string \<Rightarrow> bool" where
  "callers_in_state st cc h = (case cc of None \<Rightarrow> False | Some db \<Rightarrow> list_ex (\<lambda>(c, n, s, e). s = st) (get_callers_r3_state db h))"

definition active_tag :: "func_db \<Rightarrow> string \<Rightarrow> bool" where
  "active_tag db h = (case get_function db h of None \<Rightarrow> False
     | Some r \<Rightarrow> (case analysis_dict r of None \<Rightarrow> False | Some a \<Rightarrow> get a ''tag'' = PStr ''A''))"

text \<open>Opening the call chain creates the file, so a missing one has no callers.\<close>

definition r4_quick_path :: "func_db \<Rightarrow> cc_db option \<Rightarrow> string \<Rightarrow> bool" where
  "r4_quick_path db cc h =
     (if active_tag db h then True
      else (let kept = callers_in_state ''keep'' cc h; running = callers_in_state ''running'' cc h
            in if \<not> kept \<and> \<not> running then True else if running \<and> \<not> kept then True else False))"

definition r4_answer_decision :: "pyval option \<Rightarrow> string" where
  "r4_answer_decision file =
     (case file of Some (PDict d) \<Rightarrow> py_strip (py_lower (py_str (get_or d ''decision'' (PStr ''keep'')))) | _ \<Rightarrow> ''keep'')"

definition r4_continue :: "engine_env \<Rightarrow> point \<Rightarrow> work \<Rightarrow> bool" where
  "r4_continue env p w = should_continue (wf_r4_attempts (wk_fn w)) (ev_r4_max env) (ev_cancel env p (wf_r4_attempts (wk_fn w)))"

definition run_r4_for_func :: "engine_env \<Rightarrow> work \<Rightarrow> work" where
  "run_r4_for_func env w0 =
     (if wf_r4 (wk_fn w0) = Passed then w0
      else if \<not> r4_continue env R4WIn w0 then on_fn (\<lambda>f. f\<lparr>wf_r4 := Passed, wf_decision := ''keep''\<rparr>) w0
      else (let w = on_fn (\<lambda>f. f\<lparr>wf_r4 := Running, wf_r4_attempts := wf_r4_attempts f + 1\<rparr>) w0
            in case ev_r4_worker env (wf_r4_attempts (wk_fn w)) of
                 None \<Rightarrow> on_fn (\<lambda>f. f\<lparr>wf_r4 := Passed, wf_decision := ''keep''\<rparr>) w
               | Some file \<Rightarrow>
                   (let d = r4_answer_decision file
                    in (on_fn (\<lambda>f. f\<lparr>wf_decision := d\<rparr>) w)\<lparr>wk_db := update_r4_decision (wf_hash (wk_fn w)) d (wk_db w)\<rparr>)))"

definition run_r4_j :: "engine_env \<Rightarrow> work \<Rightarrow> work \<times> bool" where
  "run_r4_j env w0 =
     (let w = on_fn (\<lambda>f. f\<lparr>wf_r4_j := Running, wf_r4_j_attempts := wf_r4_j_attempts f + 1\<rparr>) w0
      in case ev_r4_judge env (wf_r4_j_attempts (wk_fn w)) of
           None \<Rightarrow> (on_fn (\<lambda>f. f\<lparr>wf_r4_j := Failed\<rparr>) w, False)
         | Some (passed, feedback) \<Rightarrow> (on_fn (\<lambda>f. f\<lparr>wf_r4_j := if passed then Passed else Failed\<rparr>) w, passed))"

definition pass_r4 :: "work \<Rightarrow> work" where
  "pass_r4 = on_fn (\<lambda>f. f\<lparr>wf_r4 := Passed\<rparr>)"

partial_function (option) r4_loop :: "engine_env \<Rightarrow> work \<Rightarrow> work option" where
  "r4_loop env w =
     (if \<not> r4_continue env R4Loop w \<or> wf_r4 (wk_fn w) = Passed then Some (pass_r4 w)
      else (let w1 = run_r4_for_func env w in
        if ev_cancel env R4WDone (wf_r4_attempts (wk_fn w1)) then Some (pass_r4 w1)
        else (let (w2, passed) = run_r4_j env w1; k = wf_r4_j_attempts (wk_fn w2) in
          if passed then Some (pass_r4 w2)
          else if \<not> should_continue k (ev_r4_j_max env) (ev_cancel env R4Quota k) then Some (pass_r4 w2)
          else r4_loop env (on_fn (\<lambda>f. f\<lparr>wf_r4_j := Pending\<rparr>) w2))))"

definition run_r4 :: "engine_env \<Rightarrow> work \<Rightarrow> work option" where
  "run_r4 env w =
     (let h = wf_hash (wk_fn w) in
      if wf_decision (wk_fn w) \<noteq> ''keep'' \<or> wf_r4 (wk_fn w) = Passed then Some w
      else if r4_quick_path (wk_db w) (wk_cc w) h
      then Some ((on_fn (\<lambda>f. f\<lparr>wf_decision := ''keep'', wf_r4 := Passed\<rparr>) w)\<lparr>wk_db := update_r4_decision h ''keep'' (wk_db w)\<rparr>)
      else r4_loop env w)"

section \<open>R5\<close>

partial_function (option) r5_loop :: "engine_env \<Rightarrow> work \<Rightarrow> work option" where
  "r5_loop env w =
     (let k = wf_r5_attempts (wk_fn w) in
      if \<not> should_continue k (ev_r5_max env) (ev_cancel env R5Loop k) then Some w
      else (let w1 = on_fn (\<lambda>f. f\<lparr>wf_r5_attempts := k + 1, wf_r5 := Running\<rparr>) w in
        case ev_r5_worker env (k + 1) of
          None \<Rightarrow> Some w1
        | Some written \<Rightarrow>
            if \<not> written then r5_loop env w1
            else (case ev_r5_judge env (k + 1) of
               None \<Rightarrow> r5_loop env (on_fn (\<lambda>f. f\<lparr>wf_r5 := Failed\<rparr>) w1)
             | Some (passed, feedback) \<Rightarrow>
                 if passed then Some (on_fn (\<lambda>f. f\<lparr>wf_r5 := Passed\<rparr>) w1) else r5_loop env w1)))"

definition run_report_for_func :: "engine_env \<Rightarrow> work \<Rightarrow> work option" where
  "run_report_for_func env w =
     (if wf_r5 (wk_fn w) = Passed then Some w
      else map_option (on_fn (\<lambda>f. f\<lparr>wf_r5 := Passed\<rparr>)) (r5_loop env w))"

definition run_r5 :: "engine_env \<Rightarrow> work \<Rightarrow> work option" where
  "run_r5 env w =
     (if ev_out env \<and> wf_decision (wk_fn w) = ''keep'' \<and> (wf_r4 (wk_fn w) = Passed \<or> ev_single env) \<and> wf_r5 (wk_fn w) \<noteq> Passed
      then run_report_for_func env w else Some w)"

section \<open>The call chain\<close>

definition cc_nodes :: "func_db \<Rightarrow> dict list" where
  "cc_nodes db = map (\<lambda>(r, _). [(''func_hash'', PStr (fn_hash r)), (''name'', PStr (fn_name r)), (''signature'', PStr (fn_signature r)),
       (''file_hash'', PStr (fn_file r)), (''start_line'', PInt (fn_start r)), (''is_r3_entry'', PInt 0), (''entry_role'', PStr (fn_role r))])
     (filter (\<lambda>(r, _). fn_hash r \<noteq> []) (get_all_meta db))"

text \<open>The flag says whether the stage has passed; what was written before an exception stays.\<close>

definition run_callchain_analysis ::
  "string list \<Rightarrow> (string \<times> string) list \<Rightarrow> (string \<Rightarrow> string option) \<Rightarrow> func_db \<Rightarrow> cc_db \<Rightarrow> cc_db \<times> bool" where
  "run_callchain_analysis module_files paths files db cc =
     (case insert_nodes (cc_nodes db) cc of
        None \<Rightarrow> (cc, False)
      | Some (cc1, _) \<Rightarrow>
          (case insert_edges (map edge_dict (extract_call_edges module_files (collect_known paths db) files)) cc1 of
             (cc2, None) \<Rightarrow> (cc2, False)
           | (cc2, Some _) \<Rightarrow> (mark_build_done (fst (build_closure 10 cc2)), True)))"

section \<open>One function from R2 to R5\<close>

text \<open>After R3 the function waits for the call chain and finds it as the other coroutines have left it.\<close>

definition func_tail :: "engine_env \<Rightarrow> work \<Rightarrow> work option" where
  "func_tail env w =
     (let w1 = w\<lparr>wk_cc := fst (ev_cc env), wk_cc_passed := snd (ev_cc env)\<rparr>
      in if ev_cancel env AfterCC 0 then Some w1
         else case run_r4 env w1 of None \<Rightarrow> None | Some w2 \<Rightarrow> run_r5 env w2)"

definition func_pipeline :: "engine_env \<Rightarrow> work \<Rightarrow> work option" where
  "func_pipeline env w =
     (case (if wf_r2_j (wk_fn w) \<noteq> Passed then run_r2 env w else Some w) of None \<Rightarrow> None | Some w1 \<Rightarrow>
        if ev_cancel env AfterR2 0 then Some w1
        else if wf_r2_j (wk_fn w1) \<noteq> Passed then Some w1
        else case run_r3_analysis env w1 of None \<Rightarrow> None | Some w2 \<Rightarrow>
          if ev_cancel env AfterR3 0 then Some w2 else func_tail env w2)"

section \<open>The final list\<close>

text \<open>The only file \<open>FunctionDB.open\<close> opens, and the pattern \<open>*_functions.db\<close>.\<close>

definition function_db_file :: string where "function_db_file = ''functions.db''"

definition per_file_db :: "string \<Rightarrow> bool" where
  "per_file_db name \<longleftrightarrow> drop (length name - length ''_functions.db'') name = ''_functions.db''"

text \<open>
  The entries of R6: the names in the directory of the databases are matched against the pattern, and each match opens
  the same database.
\<close>

definition collect_entries :: "string list \<Rightarrow> func_db \<Rightarrow> (func_row \<times> file_row option \<times> pyval) list" where
  "collect_entries names db = concat (map (\<lambda>name. get_keep_entries db) (filter per_file_db names))"

text \<open>
  The categories are written to the call chain and, once per matching file, to the function database; without a call chain every
  entry keeps the category of its row, because \<open>setdefault\<close> finds the key set.
\<close>

definition run_entry_classification ::
  "string list \<Rightarrow> (func_row \<times> file_row option \<times> pyval) list \<Rightarrow> cc_db option \<Rightarrow> func_db \<Rightarrow>
     cc_db option \<times> func_db \<times> (string \<times> string) list" where
  "run_entry_classification names entries cc db =
     (let hashes = map (fn_hash \<circ> fst) entries in
      case cc of
        None \<Rightarrow> (None, db, map (\<lambda>(r, f, tag). (fn_hash r, fn_category r)) entries)
      | Some c \<Rightarrow>
          (let active = set (map (fn_hash \<circ> fst) (filter (\<lambda>(r, f, tag). tag = PStr ''A'') entries));
               (c', detail) = classify_entry_categories (remdups hashes) active 2 c;
               text = (\<lambda>h. case map_of detail h of None \<Rightarrow> category_text External | Some x \<Rightarrow> category_text x);
               write = (\<lambda>d. foldl (\<lambda>d (h, x). update_entry_category h (category_text x) d) d detail)
           in (Some c', if filter per_file_db names = [] then db else write db, map (\<lambda>h. (h, text h)) hashes)))"

definition run_r6_finalize ::
  "bool \<Rightarrow> string list \<Rightarrow> cc_db option \<Rightarrow> func_db \<Rightarrow> cc_db option \<times> func_db \<times> (string \<times> string option) list" where
  "run_r6_finalize cancelled names cc db =
     (let entries = collect_entries names db in
      if entries = [] then (cc, db, [])
      else if cancelled then (cc, db, map (\<lambda>(r, _). (fn_hash r, None)) entries)
      else (let (cc', db', cats) = run_entry_classification names entries cc db in (cc', db', map (\<lambda>(h, c). (h, Some c)) cats)))"

end
