(* ===== verification/EngineStagesSafety.thy ===== *)
theory EngineStagesSafety
  imports EngineStages FunctionDBSafety
begin

text \<open>
  The rounds of the stages end when their limits are finite, R2 lets every function through, and a function its worker keeps reaches
  the final list; and the ways in which an entry is lost on the way.
\<close>

section \<open>Frames\<close>

text \<open>What a step leaves alone.\<close>

lemma on_fn_simps [simp]:
  "wk_fn (on_fn f w) = f (wk_fn w)" "wk_db (on_fn f w) = wk_db w" "wk_cc (on_fn f w) = wk_cc w"
  "wk_cc_passed (on_fn f w) = wk_cc_passed w" "wk_r2w (on_fn f w) = wk_r2w w"
  by (simp_all add: on_fn_def)

lemma cc_note_simps [simp]: "wk_fn (cc_note st w) = wk_fn w" "wk_db (cc_note st w) = wk_db w" "wk_cc_passed (cc_note st w) = wk_cc_passed w"
  by (simp_all add: cc_note_def)

lemma r3_finish_simps [simp]:
  "wf_r3_w_attempts (wk_fn (r3_finish w)) = wf_r3_w_attempts (wk_fn w)" "wf_r3_j_attempts (wk_fn (r3_finish w)) = wf_r3_j_attempts (wk_fn w)"
  "wf_hash (wk_fn (r3_finish w)) = wf_hash (wk_fn w)" "wf_input (wk_fn (r3_finish w)) = wf_input (wk_fn w)"
  "wf_decision (wk_fn (r3_finish w)) = wf_decision (wk_fn w)" "wf_r3_w (wk_fn (r3_finish w)) = Passed"
  by (simp_all add: r3_finish_def Let_def)

lemma r3_take_frame:
  "wf_r3_w_attempts (wk_fn (fst (r3_take a w))) = wf_r3_w_attempts (wk_fn w)"
  "wf_r3_j_attempts (wk_fn (fst (r3_take a w))) = wf_r3_j_attempts (wk_fn w)"
  "wf_hash (wk_fn (fst (r3_take a w))) = wf_hash (wk_fn w)"
  by (auto simp: r3_take_def Let_def split: r3w_answer.splits option.splits)

lemma r3_attempt_frame:
  "wf_r3_w_attempts (wk_fn (fst (r3_attempt env w))) = wf_r3_w_attempts (wk_fn w) + 1"
  "wf_r3_j_attempts (wk_fn (fst (r3_attempt env w))) = wf_r3_j_attempts (wk_fn w)"
  "wf_hash (wk_fn (fst (r3_attempt env w))) = wf_hash (wk_fn w)"
proof -
  define w1 where "w1 = on_fn (\<lambda>f. f\<lparr>wf_r3_w := Running, wf_r3_w_attempts := wf_r3_w_attempts f + 1\<rparr>) w"
  define v where "v = (if wf_r3_w_attempts (wk_fn w1) = 1 then cc_note ''running'' w1 else w1)"
  have v: "wf_r3_w_attempts (wk_fn v) = wf_r3_w_attempts (wk_fn w) + 1" "wf_r3_j_attempts (wk_fn v) = wf_r3_j_attempts (wk_fn w)"
    "wf_hash (wk_fn v) = wf_hash (wk_fn w)" by (simp_all add: v_def w1_def)
  show "wf_r3_w_attempts (wk_fn (fst (r3_attempt env w))) = wf_r3_w_attempts (wk_fn w) + 1"
    "wf_r3_j_attempts (wk_fn (fst (r3_attempt env w))) = wf_r3_j_attempts (wk_fn w)"
    "wf_hash (wk_fn (fst (r3_attempt env w))) = wf_hash (wk_fn w)"
    using v r3_take_frame [of _ v] unfolding r3_attempt_def Let_def w1_def [symmetric] v_def [symmetric]
    by (auto split: option.splits prod.splits bool.splits; metis fst_conv)+
qed

section \<open>The rounds end\<close>

lemma continue_bound: "should_continue k m c \<Longrightarrow> m \<noteq> -1 \<Longrightarrow> k < m"
  by (auto simp: should_continue_def split: if_splits)

lemma r3_w_loop_total:
  "ev_r3_max env \<noteq> -1 \<Longrightarrow> \<exists>w'. r3_w_loop env w = Some w' \<and> wf_r3_j_attempts (wk_fn w') = wf_r3_j_attempts (wk_fn w)"
proof (induction "nat (ev_r3_max env - wf_r3_w_attempts (wk_fn w))" arbitrary: w rule: less_induct)
  case less
  show ?case
  proof (cases "\<not> should_continue (wf_r3_w_attempts (wk_fn w)) (ev_r3_max env) (ev_cancel env R3WLoop (wf_r3_w_attempts (wk_fn w)))
      \<or> wf_r3_w (wk_fn w) = Passed \<or> snd (r3_attempt env w)")
    case True
    then show ?thesis using r3_attempt_frame(2) [of env w]
      by (subst r3_w_loop.simps) (auto simp: Let_def split: prod.splits)
  next
    case False
    let ?w = "fst (r3_attempt env w)"
    have "wf_r3_w_attempts (wk_fn w) < ev_r3_max env" using False continue_bound less.prems by blast
    then have "nat (ev_r3_max env - wf_r3_w_attempts (wk_fn ?w)) < nat (ev_r3_max env - wf_r3_w_attempts (wk_fn w))"
      using r3_attempt_frame(1) [of env w] by simp
    from less.hyps [OF this less.prems] obtain w' where
      "r3_w_loop env ?w = Some w'" "wf_r3_j_attempts (wk_fn w') = wf_r3_j_attempts (wk_fn ?w)" by blast
    with False show ?thesis using r3_attempt_frame(2) [of env w]
      by (subst r3_w_loop.simps) (auto simp: Let_def split: prod.splits)
  qed
qed

lemma run_r3_j_attempts: "wf_r3_j_attempts (wk_fn (fst (run_r3_j env w))) = wf_r3_j_attempts (wk_fn w) + 1"
  by (auto simp: run_r3_j_def rescore_def Let_def split: option.splits)

lemma r3_j_loop_total:
  "ev_r3_max env \<noteq> -1 \<Longrightarrow> ev_r3_j_max env \<noteq> -1 \<Longrightarrow> \<exists>w'. r3_j_loop env w = Some w'"
proof (induction "nat (ev_r3_j_max env - wf_r3_j_attempts (wk_fn w))" arbitrary: w rule: less_induct)
  case less
  let ?k = "wf_r3_j_attempts (wk_fn w)"
  let ?w = "on_fn (\<lambda>f. f\<lparr>wf_r3_w := Pending\<rparr>) (fst (run_r3_j env w))"
  obtain w2 where w2: "r3_w_loop env ?w = Some w2" "wf_r3_j_attempts (wk_fn w2) = ?k + 1"
    using r3_w_loop_total [OF less.prems(1), of ?w] run_r3_j_attempts [of env w] by auto
  show ?case
  proof (cases "should_continue ?k (ev_r3_j_max env) (ev_cancel env R3JLoop ?k)")
    case True
    then have "?k < ev_r3_j_max env" using continue_bound less.prems(2) by blast
    then have "nat (ev_r3_j_max env - wf_r3_j_attempts (wk_fn w2)) < nat (ev_r3_j_max env - ?k)" using w2(2) by simp
    from less.hyps [OF this less.prems] show ?thesis using w2(1)
      by (subst r3_j_loop.simps) (auto simp: Let_def split: prod.splits)
  next
    case False
    then show ?thesis by (subst r3_j_loop.simps) (simp add: Let_def)
  qed
qed

lemma run_r3_total: "ev_r3_max env \<noteq> -1 \<Longrightarrow> ev_r3_j_max env \<noteq> -1 \<Longrightarrow> \<exists>w'. run_r3_analysis env w = Some w'"
proof -
  assume m: "ev_r3_max env \<noteq> -1" "ev_r3_j_max env \<noteq> -1"
  obtain w1 where "(if wf_r3_w (wk_fn w) \<noteq> Passed then r3_w_loop env w else Some w) = Some w1"
    using r3_w_loop_total [OF m(1), of w] by (cases "wf_r3_w (wk_fn w) = Passed") auto
  moreover obtain w2 where "r3_judged env w1 = Some w2" using r3_j_loop_total [OF m, of w1]
    by (cases "wf_r3_w (wk_fn w1) \<noteq> Passed"; cases "wf_input (wk_fn w1) \<noteq> Some True") (auto simp: r3_judged_def)
  ultimately show ?thesis by (auto simp: run_r3_analysis_def)
qed

lemma run_r2_j_attempts: "wf_r2_j_attempts (wk_fn (fst (run_r2_j env w))) = wf_r2_j_attempts (wk_fn w) + 1"
  by (auto simp: run_r2_j_def Let_def split: option.splits)

lemma r2_w_worker_fn: "wk_fn (fst (run_r2_w_worker env k a w)) = wk_fn w"
  by (auto simp: run_r2_w_worker_def Let_def split: r2w_answer.splits list.splits prod.splits)

lemma run_r2_w_frame:
  "wf_r2_j_attempts (wk_fn (run_r2_w env w)) = wf_r2_j_attempts (wk_fn w)" "wf_r2_j (wk_fn (run_r2_w env w)) = wf_r2_j (wk_fn w)"
proof -
  define v where "v = on_fn (\<lambda>f. f\<lparr>wf_r2_w := Running, wf_r2_w_attempts := wf_r2_w_attempts f + 1\<rparr>) w"
  have "wf_r2_j_attempts (wk_fn (run_r2_w env w)) = wf_r2_j_attempts (wk_fn v) \<and> wf_r2_j (wk_fn (run_r2_w env w)) = wf_r2_j (wk_fn v)"
  proof (cases "ev_r2_worker env (wf_r2_w_attempts (wk_fn v))")
    case None
    then show ?thesis by (simp add: run_r2_w_def v_def [symmetric] Let_def)
  next
    case (Some a)
    obtain u ok where u: "run_r2_w_worker env (wf_r2_w_attempts (wk_fn v)) a v = (u, ok)" by (cases "run_r2_w_worker env (wf_r2_w_attempts (wk_fn v)) a v")
    then have "wk_fn u = wk_fn v" using r2_w_worker_fn [of env "wf_r2_w_attempts (wk_fn v)" a v] by simp
    with Some u show ?thesis by (cases ok) (simp_all add: run_r2_w_def v_def [symmetric] Let_def)
  qed
  then show "wf_r2_j_attempts (wk_fn (run_r2_w env w)) = wf_r2_j_attempts (wk_fn w)" "wf_r2_j (wk_fn (run_r2_w env w)) = wf_r2_j (wk_fn w)"
    by (simp_all add: v_def)
qed

lemma r2_sync_attempts: "wf_r2_j_attempts (wk_fn (r2_sync w)) = wf_r2_j_attempts (wk_fn w)"
  by (auto simp: r2_sync_def split: option.splits)

lemma r2_sync_frame: "wf_r2_j (wk_fn (r2_sync w)) = wf_r2_j (wk_fn w)"
  by (auto simp: r2_sync_def split: option.splits)

text \<open>What the loop does in a round that it does not leave.\<close>

definition r2_round :: "engine_env \<Rightarrow> work \<Rightarrow> work" where
  "r2_round env w = r2_sync (run_r2_w env (on_fn (\<lambda>f. f\<lparr>wf_r2_w := Pending\<rparr>) (fst (run_r2_j env w))))"

lemma r2_loop_unfold:
  "r2_loop env w = Some (force_r2 w) \<or> r2_loop env w = Some (force_r2 (fst (run_r2_j env w)))
    \<or> (\<exists>p k. ev_cancel env p k \<and> (\<exists>w'. r2_loop env w = Some w'))
    \<or> r2_continue env R2Loop w \<and> r2_loop env w = r2_loop env (r2_round env w)"
proof (cases "run_r2_j env w")
  case (Pair w1 passed)
  then show ?thesis by (subst (1 2 3 4) r2_loop.simps) (auto simp: Let_def r2_round_def)
qed

lemma r2_loop_total: "ev_r2_max env \<noteq> -1 \<Longrightarrow> \<exists>w'. r2_loop env w = Some w'"
proof (induction "nat (ev_r2_max env - wf_r2_j_attempts (wk_fn w))" arbitrary: w rule: less_induct)
  case less
  show ?case
  proof (cases "r2_continue env R2Loop w")
    case True
    then have "wf_r2_j_attempts (wk_fn w) < ev_r2_max env" using continue_bound less.prems unfolding r2_continue_def by blast
    moreover have "wf_r2_j_attempts (wk_fn (r2_round env w)) = wf_r2_j_attempts (wk_fn w) + 1"
      by (simp add: r2_round_def r2_sync_attempts run_r2_w_frame run_r2_j_attempts)
    ultimately have "nat (ev_r2_max env - wf_r2_j_attempts (wk_fn (r2_round env w))) < nat (ev_r2_max env - wf_r2_j_attempts (wk_fn w))" by simp
    from less.hyps [OF this less.prems] show ?thesis using r2_loop_unfold [of env w] by metis
  next
    case False
    then show ?thesis by (subst r2_loop.simps) simp
  qed
qed

lemma run_r2_total: "ev_r2_max env \<noteq> -1 \<Longrightarrow> \<exists>w'. run_r2 env w = Some w'"
  using r2_loop_total by (auto simp: run_r2_def)

lemma run_r4_j_frame:
  "wf_r4_attempts (wk_fn (fst (run_r4_j env w))) = wf_r4_attempts (wk_fn w)" "wf_r4 (wk_fn (fst (run_r4_j env w))) = wf_r4 (wk_fn w)"
  by (auto simp: run_r4_j_def Let_def split: option.splits)

lemma run_r4_progress:
  "wf_r4 (wk_fn (run_r4_for_func env w)) = Passed \<or> wf_r4_attempts (wk_fn (run_r4_for_func env w)) = wf_r4_attempts (wk_fn w) + 1"
  by (auto simp: run_r4_for_func_def Let_def split: option.splits)

definition r4_round :: "engine_env \<Rightarrow> work \<Rightarrow> work" where
  "r4_round env w = on_fn (\<lambda>f. f\<lparr>wf_r4_j := Pending\<rparr>) (fst (run_r4_j env (run_r4_for_func env w)))"

lemma r4_loop_unfold:
  "(\<exists>v. r4_loop env w = Some (pass_r4 v)) \<or> r4_continue env R4Loop w \<and> r4_loop env w = r4_loop env (r4_round env w)"
proof (cases "run_r4_j env (run_r4_for_func env w)")
  case (Pair w1 passed)
  then show ?thesis by (subst (1 2) r4_loop.simps) (auto simp: Let_def r4_round_def)
qed

lemma r4_loop_total: "ev_r4_max env \<noteq> -1 \<Longrightarrow> \<exists>w'. r4_loop env w = Some (pass_r4 w')"
proof (induction "nat (ev_r4_max env - wf_r4_attempts (wk_fn w))" arbitrary: w rule: less_induct)
  case less
  show ?case
  proof (cases "r4_continue env R4Loop w \<and> wf_r4 (wk_fn (r4_round env w)) \<noteq> Passed")
    case True
    then have "wf_r4_attempts (wk_fn w) < ev_r4_max env" using continue_bound less.prems unfolding r4_continue_def by blast
    moreover have "wf_r4_attempts (wk_fn (r4_round env w)) = wf_r4_attempts (wk_fn w) + 1"
      using True run_r4_progress [of env w] by (auto simp: r4_round_def run_r4_j_frame)
    ultimately have "nat (ev_r4_max env - wf_r4_attempts (wk_fn (r4_round env w))) < nat (ev_r4_max env - wf_r4_attempts (wk_fn w))" by simp
    from less.hyps [OF this less.prems] show ?thesis using r4_loop_unfold [of env w] by metis
  next
    case False
    have "\<exists>v. r4_loop env (r4_round env w) = Some (pass_r4 v)" if "wf_r4 (wk_fn (r4_round env w)) = Passed"
      using that by (subst r4_loop.simps) auto
    then show ?thesis using False r4_loop_unfold [of env w] by metis
  qed
qed

lemma r5_loop_total: "ev_r5_max env \<noteq> -1 \<Longrightarrow> \<exists>w'. r5_loop env w = Some w'"
proof (induction "nat (ev_r5_max env - wf_r5_attempts (wk_fn w))" arbitrary: w rule: less_induct)
  case less
  let ?k = "wf_r5_attempts (wk_fn w)"
  let ?c = "should_continue ?k (ev_r5_max env) (ev_cancel env R5Loop ?k)"
  have again: "\<exists>w'. r5_loop env v = Some w'" if "?c" "wf_r5_attempts (wk_fn v) = ?k + 1" for v
  proof -
    have "?k < ev_r5_max env" using that(1) continue_bound less.prems by blast
    then have "nat (ev_r5_max env - wf_r5_attempts (wk_fn v)) < nat (ev_r5_max env - ?k)" using that(2) by simp
    from less.hyps [OF this less.prems] show ?thesis .
  qed
  let ?v = "on_fn (\<lambda>f. f\<lparr>wf_r5_attempts := ?k + 1, wf_r5 := Running\<rparr>) w"
  show ?case
  proof (cases ?c)
    case True
    then show ?thesis using again [of ?v] again [of "on_fn (\<lambda>f. f\<lparr>wf_r5 := Failed\<rparr>) ?v"]
      by (subst r5_loop.simps) (auto simp: Let_def split: option.splits)
  next
    case False
    then show ?thesis by (subst r5_loop.simps) (simp add: Let_def)
  qed
qed

lemma run_r4_total: "ev_r4_max env \<noteq> -1 \<Longrightarrow> \<exists>w'. run_r4 env w = Some w'"
  using r4_loop_total [of env w] by (auto simp: run_r4_def Let_def)

lemma run_r5_total: "ev_r5_max env \<noteq> -1 \<Longrightarrow> \<exists>w'. run_r5 env w = Some w'"
  using r5_loop_total [of env w] by (auto simp: run_r5_def run_report_for_func_def)

lemma func_tail_total: "ev_r4_max env \<noteq> -1 \<Longrightarrow> ev_r5_max env \<noteq> -1 \<Longrightarrow> \<exists>w'. func_tail env w = Some w'"
  using run_r4_total [of env "w\<lparr>wk_cc := fst (ev_cc env), wk_cc_passed := snd (ev_cc env)\<rparr>"] run_r5_total [of env]
  by (auto simp: func_tail_def Let_def)

text \<open>Limits other than -1, which means no limit.\<close>

definition finite_limits :: "engine_env \<Rightarrow> bool" where
  "finite_limits env \<longleftrightarrow> -1 \<notin> {ev_r2_max env, ev_r3_max env, ev_r3_j_max env, ev_r4_max env, ev_r5_max env}"

lemma func_pipeline_total: "finite_limits env \<Longrightarrow> \<exists>w'. func_pipeline env w = Some w'"
proof -
  assume "finite_limits env"
  note m = this [unfolded finite_limits_def, simplified]
  obtain w1 where w1: "(if wf_r2_j (wk_fn w) \<noteq> Passed then run_r2 env w else Some w) = Some w1"
    using run_r2_total [of env w] m by (cases "wf_r2_j (wk_fn w) = Passed") auto
  obtain w2 where "run_r3_analysis env w1 = Some w2" using run_r3_total [of env w1] m by auto
  moreover obtain w3 where "func_tail env w2 = Some w3" using func_tail_total [of env w2] m by auto
  ultimately show ?thesis using w1 by (auto simp: func_pipeline_def)
qed

section \<open>R2 lets every function through\<close>

definition no_cancel :: "engine_env \<Rightarrow> bool" where
  "no_cancel env \<longleftrightarrow> (\<forall>p k. \<not> ev_cancel env p k)"

lemmas r2_loop_induct = r2_loop.raw_induct [rotated 1, consumes 1]
lemmas r3_j_loop_induct = r3_j_loop.raw_induct [rotated 1, consumes 1]
lemmas r5_loop_induct = r5_loop.raw_induct [rotated 1, consumes 1]

lemma force_r2_passed [simp]: "wf_r2_j (wk_fn (force_r2 w)) = Passed"
  by (simp add: force_r2_def)

lemma r2_loop_passes: "r2_loop env w = Some w' \<Longrightarrow> no_cancel env \<Longrightarrow> wf_r2_j (wk_fn w') = Passed"
proof (induction rule: r2_loop_induct)
  case (1 f env w w')
  obtain w1 passed where "run_r2_j env w = (w1, passed)" by (cases "run_r2_j env w")
  with 1(2,3) show ?case by (auto simp: Let_def no_cancel_def intro: 1(1) split: if_splits)
qed

lemma run_r2_passes:
  "run_r2 env w = Some w' \<Longrightarrow> no_cancel env \<Longrightarrow> \<not> wf_incomplete (wk_fn w) \<Longrightarrow> wf_r2_j (wk_fn w') = Passed"
  using r2_loop_passes [of env w w'] by (auto simp: run_r2_def split: if_splits)

section \<open>The rows of the function\<close>

lemma find_func_upd:
  "(\<And>r. fn_hash (f r) = fn_hash r) \<Longrightarrow> find_func (upd_func h f db) h = map_option f (find_func db h)"
  by (simp add: funcs.lookup_modify)

definition row_active :: "func_row \<Rightarrow> bool" where
  "row_active r \<longleftrightarrow> (case analysis_dict r of None \<Rightarrow> False | Some a \<Rightarrow> get a ''tag'' = PStr ''A'')"

lemma active_tag_row: "find_func db h = Some r \<Longrightarrow> active_tag db h = row_active r"
  by (simp add: active_tag_def row_active_def get_function_def)

text \<open>Nothing but R3 stands between the row and the final list.\<close>

definition free_row :: "work \<Rightarrow> bool" where
  "free_row w \<longleftrightarrow> (\<exists>r. find_func (wk_db w) (wf_hash (wk_fn w)) = Some r \<and> fn_r4 r \<in> {None, Some ''keep''} \<and> fn_category r \<noteq> internal_entry)"

text \<open>Kept, in the state and in the database, and active if that is asked for.\<close>

definition kept_row :: "bool \<Rightarrow> work \<Rightarrow> bool" where
  "kept_row active w \<longleftrightarrow> wf_decision (wk_fn w) = ''keep'' \<and> wf_input (wk_fn w) = Some True \<and>
     (\<exists>r. find_func (wk_db w) (wf_hash (wk_fn w)) = Some r \<and> is_kept r \<and> (active \<longrightarrow> row_active r))"

lemma kept_row_free: "kept_row active w \<Longrightarrow> free_row w"
  by (auto simp: kept_row_def free_row_def is_kept_def)

lemma kept_row_on_fn [simp]:
  "wf_hash (f (wk_fn w)) = wf_hash (wk_fn w) \<Longrightarrow> wf_decision (f (wk_fn w)) = wf_decision (wk_fn w) \<Longrightarrow>
    wf_input (f (wk_fn w)) = wf_input (wk_fn w) \<Longrightarrow> kept_row active (on_fn f w) = kept_row active w"
  by (simp add: kept_row_def)

lemma kept_in_list:
  assumes "kept_row active w" shows "wf_hash (wk_fn w) \<in> (fn_hash \<circ> fst) ` set (get_keep_entries (wk_db w))"
proof -
  obtain r where r: "find_func (wk_db w) (wf_hash (wk_fn w)) = Some r" "is_kept r" using assms by (auto simp: kept_row_def)
  then have "r \<in> set (fdb_funcs (wk_db w)) \<and> fn_hash r = wf_hash (wk_fn w)" unfolding find_func_def by (intro find_by_key)
  then show ?thesis using r(2) by (force simp: get_keep_entries_def)
qed

section \<open>A worker that keeps the function\<close>

definition keeping :: "bool \<Rightarrow> r3w_answer option \<Rightarrow> bool" where
  "keeping active x \<longleftrightarrow> (case x of Some (Analysis a) \<Rightarrow> has_input_of a \<and> decision_text a = ''keep'' \<and> taint_details_complete a \<noteq> None
     \<and> (active \<longrightarrow> get a ''tag'' = PStr ''A'') | _ \<Rightarrow> False)"

lemma stored_get: "k \<noteq> ''entry_role'' \<Longrightarrow> get_or (analysis_stored cc h a) k x = get_or a k x"
  by (simp add: analysis_stored_def)

lemma stored_tag: "get (analysis_stored cc h a) ''tag'' = get a ''tag''"
  by (simp add: stored_get)

lemma stored_confidence:
  assumes "taint_details_complete a \<noteq> None"
  shows "compute_confidence (analysis_stored cc h a) [] [] \<noteq> None"
proof -
  have "get (analysis_stored cc h a) ''taint_details'' = get a ''taint_details''" "get (analysis_stored cc h a) ''taints'' = get a ''taints''"
    by (simp_all add: stored_get)
  then have "taint_details_complete (analysis_stored cc h a) = taint_details_complete a" unfolding taint_details_complete_def by (simp only:)
  then show ?thesis using assms by (auto simp: compute_confidence_def callchain_bonus_def Let_def split: option.splits)
qed

lemma keeping_take:
  assumes "free_row w" and "keeping active (Some x)"
  shows "\<exists>v. r3_take x w = (v, True) \<and> free_row v \<and> wf_decision (wk_fn v) = ''keep'' \<and> wf_input (wk_fn v) = Some True \<and>
    (active \<longrightarrow> (\<exists>r. find_func (wk_db v) (wf_hash (wk_fn v)) = Some r \<and> row_active r))"
proof -
  obtain a where a: "x = Analysis a" "has_input_of a" "decision_text a = ''keep''" "taint_details_complete a \<noteq> None"
    "active \<longrightarrow> get a ''tag'' = PStr ''A''" using assms(2) by (auto simp: keeping_def split: r3w_answer.splits)
  obtain c where c: "compute_confidence (analysis_stored (wk_cc w) (wf_hash (wk_fn w)) a) [] [] = Some c"
    using stored_confidence [OF a(4), of "wk_cc w" "wf_hash (wk_fn w)"] by auto
  obtain r where r: "find_func (wk_db w) (wf_hash (wk_fn w)) = Some r" "fn_r4 r \<in> {None, Some ''keep''}" "fn_category r \<noteq> internal_entry"
    using assms(1) by (auto simp: free_row_def)
  have ne: "analysis_stored (wk_cc w) (wf_hash (wk_fn w)) a \<noteq> []" if active
    using stored_tag [of "wk_cc w" "wf_hash (wk_fn w)" a] a(5) that by (auto simp: get_or_def)
  show ?thesis
    using r c a ne stored_tag [of "wk_cc w" "wf_hash (wk_fn w)" a]
    by (auto simp: r3_take_def set_analysis_def free_row_def find_func_upd decided_def row_active_def analysis_dict_def py_or_def Let_def)
qed

lemma keeping_attempt:
  assumes "free_row w" and "keeping active (ev_r3_worker env (wf_r3_w_attempts (wk_fn w) + 1))"
  shows "\<exists>v. r3_attempt env w = (v, True) \<and> kept_row active v"
proof -
  define w1 where "w1 = on_fn (\<lambda>f. f\<lparr>wf_r3_w := Running, wf_r3_w_attempts := wf_r3_w_attempts f + 1\<rparr>) w"
  define u where "u = (if wf_r3_w_attempts (wk_fn w1) = 1 then cc_note ''running'' w1 else w1)"
  have u: "free_row u" "wf_r3_w_attempts (wk_fn w1) = wf_r3_w_attempts (wk_fn w) + 1"
    using assms(1) by (simp_all add: u_def w1_def free_row_def)
  obtain x where x: "ev_r3_worker env (wf_r3_w_attempts (wk_fn w1)) = Some x" using assms(2) u(2) by (auto simp: keeping_def split: option.splits)
  obtain v where v: "r3_take x u = (v, True)" "free_row v" "wf_decision (wk_fn v) = ''keep''" "wf_input (wk_fn v) = Some True"
    "active \<longrightarrow> (\<exists>r. find_func (wk_db v) (wf_hash (wk_fn v)) = Some r \<and> row_active r)"
    using keeping_take [OF u(1), of active x] assms(2) x u(2) by auto
  have "kept_row active (r3_finish v)"
    using v(2-5) by (auto simp: kept_row_def r3_finish_def update_r3_decision_def find_func_upd free_row_def is_kept_def row_active_def
        analysis_dict_def Let_def)
  then show ?thesis using x v(1) by (simp add: r3_attempt_def Let_def w1_def [symmetric] u_def [symmetric])
qed

lemma keeping_loop:
  assumes "r3_w_loop env w = Some v" and "\<forall>k. keeping active (ev_r3_worker env k)" and "free_row w"
    and "should_continue (wf_r3_w_attempts (wk_fn w)) (ev_r3_max env) (ev_cancel env R3WLoop (wf_r3_w_attempts (wk_fn w))) \<and>
      wf_r3_w (wk_fn w) \<noteq> Passed \<or> kept_row active w"
  shows "kept_row active v"
proof -
  obtain u where u: "r3_attempt env w = (u, True)" "kept_row active u" using keeping_attempt [OF assms(3)] assms(2) by blast
  from assms(1) have "v = w \<and> \<not> (should_continue (wf_r3_w_attempts (wk_fn w)) (ev_r3_max env) (ev_cancel env R3WLoop (wf_r3_w_attempts (wk_fn w))) \<and>
      wf_r3_w (wk_fn w) \<noteq> Passed) \<or> v = u"
    using u(1) by (subst (asm) r3_w_loop.simps) (auto simp: Let_def split: if_splits)
  then show ?thesis using u(2) assms(4) by blast
qed

lemma kept_row_confidence:
  "update_confidence (wf_hash (wk_fn w)) c (wk_db w) = Some db \<Longrightarrow> kept_row active w \<Longrightarrow> kept_row active (w\<lparr>wk_db := db\<rparr>)"
  by (auto simp: kept_row_def update_confidence_def find_func_upd is_kept_def row_active_def analysis_dict_def)

lemma kept_row_rescore: "kept_row active w \<Longrightarrow> kept_row active (rescore judge role w)"
  by (auto simp: rescore_def Let_def kept_row_confidence split: option.splits)

lemma kept_row_judge: "kept_row active w \<Longrightarrow> kept_row active (fst (run_r3_j env w))"
  by (auto simp: run_r3_j_def Let_def kept_row_rescore split: option.splits)

lemma keeping_rounds:
  "r3_j_loop env w = Some v \<Longrightarrow> \<forall>k. keeping active (ev_r3_worker env k) \<Longrightarrow> kept_row active w \<Longrightarrow> kept_row active v"
proof (induction rule: r3_j_loop_induct)
  case (1 f env w v)
  obtain w1 passed where j: "run_r3_j env w = (w1, passed)" by (cases "run_r3_j env w")
  have k1: "kept_row active w1" using kept_row_judge [OF 1(4), of env] j by simp
  let ?u = "on_fn (\<lambda>f. f\<lparr>wf_r3_w := Pending\<rparr>) w1"
  have k: "kept_row active ?u" using k1 by simp
  have "kept_row active w2" if "r3_w_loop env ?u = Some w2" for w2
    using keeping_loop [OF that 1(3) kept_row_free [OF k]] k by blast
  then show ?case using 1(2-4) k1 j by (auto simp: Let_def intro: 1(1) split: if_splits option.splits)
qed

lemma kept_row_close: "kept_row active w \<Longrightarrow> kept_row active (r3_close w)"
proof -
  assume k: "kept_row active w"
  then have "wf_input (wk_fn w) = Some True" by (simp add: kept_row_def)
  with k show ?thesis by (auto simp: r3_close_def Let_def kept_row_rescore split: option.splits)
qed

lemma keeping_analysis:
  assumes "run_r3_analysis env w = Some v" and "no_cancel env" and "\<forall>k. keeping active (ev_r3_worker env k)" and "free_row w"
    and "wf_r3_w (wk_fn w) \<noteq> Passed" and "should_continue (wf_r3_w_attempts (wk_fn w)) (ev_r3_max env) False"
  shows "kept_row active v"
proof -
  obtain w1 where w1: "r3_w_loop env w = Some w1" using assms(1,2,5) by (auto simp: run_r3_analysis_def no_cancel_def split: option.splits)
  have k1: "kept_row active w1" using keeping_loop [OF w1 assms(3,4)] assms(2,5,6) by (simp add: no_cancel_def)
  obtain w2 where w2: "r3_judged env w1 = Some w2" "v = r3_close w2"
    using assms(1,2,5) w1 by (auto simp: run_r3_analysis_def no_cancel_def split: option.splits)
  have "kept_row active w2"
    using w2(1) k1 keeping_rounds [OF _ assms(3) k1, of w2] by (auto simp: r3_judged_def split: if_splits)
  then show ?thesis using w2(2) by (simp add: kept_row_close)
qed

section \<open>R4 and R5\<close>

lemma quick_path_iff: "r4_quick_path db cc h \<longleftrightarrow> active_tag db h \<or> \<not> callers_in_state ''keep'' cc h"
  by (simp add: r4_quick_path_def Let_def)

lemma kept_row_r4:
  assumes "kept_row active w" and "active \<or> \<not> callers_in_state ''keep'' (wk_cc w) (wf_hash (wk_fn w))" and "run_r4 env w = Some v"
  shows "kept_row active v"
proof -
  obtain r where r: "find_func (wk_db w) (wf_hash (wk_fn w)) = Some r" "is_kept r" "active \<longrightarrow> row_active r"
    using assms(1) by (auto simp: kept_row_def)
  have "r4_quick_path (wk_db w) (wk_cc w) (wf_hash (wk_fn w))" using assms(2) r by (auto simp: quick_path_iff active_tag_row)
  then show ?thesis using assms(1,3) r
    by (auto simp: run_r4_def Let_def kept_row_def update_r4_decision_def find_func_upd is_kept_def row_active_def analysis_dict_def split: if_splits)
qed

lemma r5_loop_frame:
  "r5_loop env w = Some v \<Longrightarrow> wk_db v = wk_db w \<and> wf_hash (wk_fn v) = wf_hash (wk_fn w) \<and> wf_decision (wk_fn v) = wf_decision (wk_fn w)
    \<and> wf_input (wk_fn v) = wf_input (wk_fn w)"
proof (induction rule: r5_loop_induct)
  case (1 f env w v)
  from 1(2) show ?case by (auto simp: Let_def dest!: 1(1) split: if_splits option.splits)
qed

lemma kept_row_r5: "kept_row active w \<Longrightarrow> run_r5 env w = Some v \<Longrightarrow> kept_row active v"
proof -
  assume k: "kept_row active w" and v: "run_r5 env w = Some v"
  have "kept_row active u" if "r5_loop env w = Some u" for u
    using r5_loop_frame [OF that] k by (simp add: kept_row_def)
  with k v show ?thesis by (auto simp: run_r5_def run_report_for_func_def split: if_splits)
qed

lemma hash_r3_w_loop: "r3_w_loop env w = Some v \<Longrightarrow> wf_hash (wk_fn v) = wf_hash (wk_fn w)"
proof (induction rule: r3_w_loop.raw_induct [rotated 1, consumes 1])
  case (1 f env w v)
  obtain w1 d where "r3_attempt env w = (w1, d)" by (cases "r3_attempt env w")
  then show ?case using 1(2) r3_attempt_frame(3) [of env w] by (auto simp: Let_def dest!: 1(1) split: if_splits)
qed

lemma hash_judge: "wf_hash (wk_fn (fst (run_r3_j env w))) = wf_hash (wk_fn w)"
  by (auto simp: run_r3_j_def rescore_def Let_def split: option.splits)

lemma hash_r3_j_loop: "r3_j_loop env w = Some v \<Longrightarrow> wf_hash (wk_fn v) = wf_hash (wk_fn w)"
proof (induction rule: r3_j_loop_induct)
  case (1 f env w v)
  obtain w1 d where "run_r3_j env w = (w1, d)" by (cases "run_r3_j env w")
  then show ?case using 1(2) hash_judge [of env w]
    by (auto simp: Let_def dest!: 1(1) hash_r3_w_loop split: if_splits option.splits)
qed

lemma hash_close: "wf_hash (wk_fn (r3_close w)) = wf_hash (wk_fn w)"
  by (auto simp: r3_close_def rescore_def Let_def split: option.splits)

lemma hash_run_r3: "run_r3_analysis env w = Some v \<Longrightarrow> wf_hash (wk_fn v) = wf_hash (wk_fn w)"
  by (auto simp: run_r3_analysis_def r3_judged_def hash_close dest!: hash_r3_w_loop hash_r3_j_loop split: if_splits option.splits)

lemma hash_tail:
  "func_tail env w = Some v \<Longrightarrow> no_cancel env \<Longrightarrow> kept_row active w \<Longrightarrow>
    active \<or> \<not> callers_in_state ''keep'' (fst (ev_cc env)) (wf_hash (wk_fn w)) \<Longrightarrow> kept_row active v \<and> wf_hash (wk_fn v) = wf_hash (wk_fn w)"
proof -
  assume v: "func_tail env w = Some v" and nc: "no_cancel env" and k: "kept_row active w"
    and c: "active \<or> \<not> callers_in_state ''keep'' (fst (ev_cc env)) (wf_hash (wk_fn w))"
  let ?w = "w\<lparr>wk_cc := fst (ev_cc env), wk_cc_passed := snd (ev_cc env)\<rparr>"
  have k1: "kept_row active ?w" using k by (simp add: kept_row_def)
  obtain u where u: "run_r4 env ?w = Some u" "run_r5 env u = Some v"
    using v nc by (auto simp: func_tail_def no_cancel_def Let_def split: option.splits)
  have ku: "kept_row active u" using kept_row_r4 [OF k1 _ u(1)] c by simp
  obtain r where r: "find_func (wk_db w) (wf_hash (wk_fn w)) = Some r" "active \<longrightarrow> row_active r"
    using k by (auto simp: kept_row_def)
  then have "r4_quick_path (wk_db ?w) (wk_cc ?w) (wf_hash (wk_fn ?w))" using c by (auto simp: quick_path_iff active_tag_row)
  then have "wf_hash (wk_fn u) = wf_hash (wk_fn w)" using u(1) by (auto simp: run_r4_def Let_def split: if_splits)
  moreover have "wf_hash (wk_fn v) = wf_hash (wk_fn u)"
    using u(2) by (auto simp: run_r5_def run_report_for_func_def dest!: r5_loop_frame split: if_splits)
  ultimately show ?thesis using kept_row_r5 [OF ku u(2)] by simp
qed

lemma keeping_pipeline:
  assumes "func_pipeline env w = Some v" and "no_cancel env" and "\<forall>k. keeping active (ev_r3_worker env k)" and "free_row w"
    and "wf_r2_j (wk_fn w) = Passed" and "wf_r3_w (wk_fn w) \<noteq> Passed" and "should_continue (wf_r3_w_attempts (wk_fn w)) (ev_r3_max env) False"
    and "active \<or> \<not> callers_in_state ''keep'' (fst (ev_cc env)) (wf_hash (wk_fn w))"
  shows "wf_hash (wk_fn w) \<in> (fn_hash \<circ> fst) ` set (get_keep_entries (wk_db v))"
proof -
  obtain u where u: "run_r3_analysis env w = Some u" "func_tail env u = Some v"
    using assms(1,2,5) by (auto simp: func_pipeline_def no_cancel_def split: option.splits)
  have "kept_row active u" by (rule keeping_analysis [OF u(1) assms(2-4,6,7)])
  then have "kept_row active v \<and> wf_hash (wk_fn v) = wf_hash (wk_fn w)"
    using hash_tail [OF u(2) assms(2), of active] hash_run_r3 [OF u(1)] assms(8) by simp
  then show ?thesis using kept_in_list [of active v] by metis
qed

section \<open>A sample\<close>

definition sample_work :: work where
  "sample_work = \<lparr>wk_fn = \<lparr>wf_hash = ''h'', wf_file = ''m'', wf_name = ''f'', wf_signature = ''int f(char *p)'', wf_start = 1, wf_end = 2,
     wf_r2_w = Pending, wf_r2_w_attempts = 0, wf_r2_j = Passed, wf_r2_j_attempts = 1, wf_incomplete = False,
     wf_r3_w = Pending, wf_r3_w_attempts = 0, wf_r3_j = Pending, wf_r3_j_attempts = 0, wf_input = None, wf_role = [], wf_decision = [],
     wf_r4 = Pending, wf_r4_attempts = 0, wf_r4_j = Pending, wf_r4_j_attempts = 0, wf_r5 = Pending, wf_r5_attempts = 0\<rparr>,
     wk_db = empty_fdb\<lparr>fdb_funcs := [new_row ''h'' ''m'' ''f'' ''int f(char *p)'' 1 2 ''int f(char *p) { }'']\<rparr>,
     wk_cc = None, wk_cc_passed = False, wk_r2w = (\<lambda>k. None)\<rparr>"

definition sample_env :: "(int \<Rightarrow> r3w_answer option) \<Rightarrow> (int \<Rightarrow> (bool \<times> string) option) \<Rightarrow> engine_env" where
  "sample_env worker judge = \<lparr>ev_cancel = (\<lambda>p k. False), ev_source = None, ev_path = ''m.c'', ev_md5 = (\<lambda>s. s), ev_r2_max = 2, ev_r3_max = 2,
     ev_r3_j_max = 2, ev_r4_max = 2, ev_r4_j_max = 2, ev_r5_max = 2, ev_r2_judge = judge, ev_r2_worker = (\<lambda>k. None),
     ev_r3_worker = worker, ev_r3_judge = judge, ev_r4_worker = (\<lambda>k. None), ev_r4_judge = judge, ev_r5_worker = (\<lambda>k. None),
     ev_r5_judge = judge, ev_cc = (None, True), ev_out = True, ev_single = False\<rparr>"

definition sample_answer :: dict where
  "sample_answer = [(''has_external_input'', PBool True), (''decision'', PStr ''keep''), (''tag'', PStr ''A'')]"

lemma sample_no_cancel [simp]: "no_cancel (sample_env worker judge)"
  by (simp add: no_cancel_def sample_env_def)

lemma sample_finite [simp]: "finite_limits (sample_env worker judge)"
  by (simp add: finite_limits_def sample_env_def)

lemma sample_keeping: "keeping True (Some (Analysis sample_answer))"
proof -
  have "decision_text sample_answer = ''keep''"
    by (simp add: decision_text_def str_or_empty_def sample_answer_def get_or_def py_or_def py_str_def py_lower_def py_strip_def lower_char_def is_space_def)
  then show ?thesis
    by (simp add: keeping_def has_input_of_def sample_answer_def get_or_def taint_details_complete_def)
qed

section \<open>Ways to lose an entry\<close>

text \<open>Filtered, in the state and in every row of the function.\<close>

definition filtered_row :: "work \<Rightarrow> bool" where
  "filtered_row w \<longleftrightarrow> wf_decision (wk_fn w) = ''filter'' \<and> list_all (\<lambda>r. fn_hash r = wf_hash (wk_fn w) \<longrightarrow> fn_r4 r = Some ''filter'') (fdb_funcs (wk_db w))"

lemma filtered_not_listed: "filtered_row w \<Longrightarrow> wf_hash (wk_fn w) \<notin> (fn_hash \<circ> fst) ` set (get_keep_entries (wk_db w))"
  by (auto simp: filtered_row_def get_keep_entries_def list_all_iff is_kept_def)

lemma filtered_row_frame:
  "filtered_row (pass_r4 w) = filtered_row w" "filtered_row (fst (run_r4_j env w)) = filtered_row w"
  "filtered_row (on_fn (\<lambda>f. f\<lparr>wf_r4_j := x\<rparr>) w) = filtered_row w"
  by (auto simp: filtered_row_def pass_r4_def run_r4_j_def Let_def split: option.splits)

lemma r4_worker_filters:
  assumes "no_cancel env" and "wf_r4 (wk_fn w) \<noteq> Passed" and "r4_continue env R4Loop w"
    and "ev_r4_worker env (wf_r4_attempts (wk_fn w) + 1) = Some file" and "r4_answer_decision file = ''filter''"
  shows "filtered_row (run_r4_for_func env w) \<and> wf_hash (wk_fn (run_r4_for_func env w)) = wf_hash (wk_fn w)"
proof -
  have "r4_continue env R4WIn w" using assms(1,3) by (simp add: r4_continue_def no_cancel_def)
  with assms(2,4,5) show ?thesis
    by (auto simp: run_r4_for_func_def filtered_row_def update_r4_decision_def upd_func_def list_all_iff Let_def)
qed

lemmas r4_loop_induct = r4_loop.raw_induct [rotated 1, consumes 1]

lemma r4_filter_aux:
  "r4_loop env w = Some v \<Longrightarrow> no_cancel env \<Longrightarrow> (\<And>k. \<exists>file. ev_r4_worker env k = Some file \<and> r4_answer_decision file = ''filter'') \<Longrightarrow>
    filtered_row w \<or> r4_continue env R4Loop w \<and> wf_r4 (wk_fn w) \<noteq> Passed \<Longrightarrow>
    filtered_row v \<and> wf_r4 (wk_fn v) = Passed \<and> wf_hash (wk_fn v) = wf_hash (wk_fn w)"
proof (induction rule: r4_loop_induct)
  case (1 f env w v)
  show ?case
  proof (cases "\<not> r4_continue env R4Loop w \<or> wf_r4 (wk_fn w) = Passed")
    case True
    then have "v = pass_r4 w" "filtered_row w" using 1(2,5) by auto
    then show ?thesis by (simp add: filtered_row_frame) (simp add: pass_r4_def)
  next
    case False
    obtain x where "ev_r4_worker env (wf_r4_attempts (wk_fn w) + 1) = Some x" "r4_answer_decision x = ''filter''" using 1(4) by blast
    then have w1: "filtered_row (run_r4_for_func env w)" "wf_hash (wk_fn (run_r4_for_func env w)) = wf_hash (wk_fn w)"
      using r4_worker_filters [OF 1(3), of w] False by auto
    obtain w2 passed where j: "run_r4_j env (run_r4_for_func env w) = (w2, passed)" by (cases "run_r4_j env (run_r4_for_func env w)")
    have w2: "filtered_row w2" "wf_hash (wk_fn w2) = wf_hash (wk_fn w)"
      using w1 filtered_row_frame(2) [of env "run_r4_for_func env w"] j by (auto simp: run_r4_j_def Let_def split: option.splits)
    let ?u = "on_fn (\<lambda>f. f\<lparr>wf_r4_j := Pending\<rparr>) w2"
    have "v = pass_r4 w2 \<or> f env ?u = Some v" using 1(2,3) False j by (auto simp: Let_def no_cancel_def split: if_splits)
    then show ?thesis
    proof
      assume "v = pass_r4 w2"
      then show ?thesis using w2 by (simp add: filtered_row_frame) (simp add: pass_r4_def)
    next
      assume "f env ?u = Some v"
      from 1(1) [OF this 1(3,4)] show ?thesis using w2 by (simp add: filtered_row_frame)
    qed
  qed
qed

text \<open>A worker that fails in a later round keeps the function in the state only; the \<open>filter\<close> of an earlier round stays in the database.\<close>

lemma failed_worker_keeps_filter:
  assumes "wf_r4 (wk_fn w) \<noteq> Passed" and "r4_continue env R4WIn w" and "ev_r4_worker env (wf_r4_attempts (wk_fn w) + 1) = None"
  shows "wf_decision (wk_fn (run_r4_for_func env w)) = ''keep'' \<and> wk_db (run_r4_for_func env w) = wk_db w"
  using assms by (simp add: run_r4_for_func_def Let_def)

text \<open>A function whose worker fails in every round is filtered.\<close>

lemma r3_all_fail:
  "r3_w_loop env w = Some v \<Longrightarrow> (\<And>k. ev_r3_worker env k = None) \<Longrightarrow> wf_r3_w (wk_fn w) \<noteq> Passed \<Longrightarrow>
    wf_r3_w (wk_fn v) \<noteq> Passed \<and> wf_input (wk_fn v) = wf_input (wk_fn w)"
proof (induction rule: r3_w_loop.raw_induct [rotated 1, consumes 1])
  case (1 f env w v)
  obtain w1 d where a: "r3_attempt env w = (w1, d)" by (cases "r3_attempt env w")
  then have "\<not> d \<and> wf_r3_w (wk_fn w1) = Failed \<and> wf_input (wk_fn w1) = wf_input (wk_fn w)"
    using 1(3) by (auto simp: r3_attempt_def Let_def)
  then show ?case using 1(1) [OF _ 1(3), of w1] 1(2,4) a by (auto simp: Let_def split: if_splits)
qed

lemma unanswered_function_is_filtered:
  assumes "run_r3_analysis env w = Some v" and "no_cancel env" and "\<And>k. ev_r3_worker env k = None"
    and "wf_r3_w (wk_fn w) \<noteq> Passed" and "wf_input (wk_fn w) = None"
  shows "wf_decision (wk_fn v) = ''filter''"
proof -
  obtain w1 where w1: "r3_w_loop env w = Some w1" using assms(1,2,4) by (auto simp: run_r3_analysis_def no_cancel_def split: option.splits)
  have "wf_r3_w (wk_fn w1) \<noteq> Passed \<and> wf_input (wk_fn w1) = None" using r3_all_fail [OF w1 assms(3,4)] assms(5) by simp
  then have "v = r3_close w1" using assms(1,2,4) w1 by (auto simp: run_r3_analysis_def r3_judged_def no_cancel_def split: option.splits)
  then show ?thesis using \<open>_ \<and> wf_input (wk_fn w1) = None\<close> by (simp add: r3_close_def Let_def)
qed

text \<open>An analysis with external input that names no decision is a \<open>filter\<close> in the database.\<close>

lemma missing_decision_is_filter:
  assumes "has_input_of a" and "decision_text a = []" and "wf_decision (wk_fn w) = []" and "r3_take (Analysis a) w = (v, True)"
  shows "wf_decision (wk_fn (r3_finish v)) = [] \<and> wf_input (wk_fn (r3_finish v)) = Some True
    \<and> wk_db (r3_finish v) = update_r3_decision (wf_hash (wk_fn v)) ''filter'' (wk_db v)"
  using assms by (auto simp: r3_take_def r3_finish_def decided_def Let_def split: option.splits)

text \<open>A function whose source is incomplete passes R2 all the same.\<close>

lemma incomplete_function_goes_on:
  assumes "r2_continue env R2Loop w" and "wf_r2_j (wk_fn w) \<noteq> Passed"
    and "r2_judgement env (on_fn (\<lambda>f. f\<lparr>wf_r2_j := Running, wf_r2_j_attempts := wf_r2_j_attempts f + 1\<rparr>) w) = Some (False, verdict_skip @ reason)"
  shows "\<exists>v. r2_loop env w = Some v \<and> wf_incomplete (wk_fn v) \<and> wf_r2_j (wk_fn v) = Passed"
proof -
  have "is_prefix verdict_skip (verdict_skip @ reason)" "\<not> is_prefix verdict_delete (verdict_skip @ reason)"
    by (simp_all add: is_prefix_iff verdict_skip_def verdict_delete_def)
  then show ?thesis using assms
    by (subst r2_loop.simps) (auto simp: run_r2_j_def Let_def force_r2_def)
qed

section \<open>A new call chain\<close>

definition all_pending :: "cc_db \<Rightarrow> bool" where
  "all_pending cc \<longleftrightarrow> list_all (\<lambda>n. nd_r3_state n = ''pending'') (db_nodes cc)"

lemma insert_many_pred: "list_all P rows \<Longrightarrow> list_all P new \<Longrightarrow> list_all P (fst (insert_many key new (rows, n)))"
  by (induction new arbitrary: rows n) (auto simp: insert_ignore_def split: if_splits)

lemma those_Some_in: "those xs = Some ys \<Longrightarrow> y \<in> set ys \<Longrightarrow> Some y \<in> set xs"
proof (induction xs arbitrary: ys)
  case (Cons x xs)
  then show ?case by (auto split: option.splits)
qed simp

lemma pending_insert_nodes: "all_pending cc \<Longrightarrow> insert_nodes ns cc = Some (cc', n) \<Longrightarrow> all_pending cc'"
proof -
  assume p: "all_pending cc" and i: "insert_nodes ns cc = Some (cc', n)"
  show ?thesis
  proof (cases "ns = []")
    case True
    with p i show ?thesis by (simp add: insert_nodes_def)
  next
    case False
    then obtain rows where r: "those (map node_of_dict ns) = Some rows" using i by (auto simp: insert_nodes_def)
    have "list_all (\<lambda>n. nd_r3_state n = ''pending'') rows"
    proof -
      have "nd_r3_state y = ''pending''" if y: "y \<in> set rows" for y
      proof -
        have "Some y \<in> set (map node_of_dict ns)" by (rule those_Some_in [OF r y])
        then obtain x where "node_of_dict x = Some y" by force
        then show ?thesis by (auto simp: node_of_dict_def)
      qed
      then show ?thesis by (simp add: list_all_iff)
    qed
    then have "list_all (\<lambda>n. nd_r3_state n = ''pending'') (fst (insert_many nd_hash rows (db_nodes cc, 0)))"
      using p insert_many_pred unfolding all_pending_def by blast
    with False i r show ?thesis by (auto simp: insert_nodes_def all_pending_def Let_def case_prod_beta)
  qed
qed

lemma pending_insert_edges: "all_pending cc \<Longrightarrow> all_pending (fst (insert_edges es cc))"
  using pending_insert_nodes by (fastforce simp: insert_edges_def all_pending_def Let_def case_prod_beta split: option.splits list.splits)

lemma pending_analysis: "all_pending cc \<Longrightarrow> all_pending (fst (run_callchain_analysis ms paths files db cc))"
proof -
  assume p: "all_pending cc"
  have built: "all_pending (mark_build_done (fst (build_closure 10 c))) = all_pending c" for c
    by (simp add: all_pending_def mark_build_done_def build_closure_def case_prod_beta Let_def)
  show ?thesis
    using p pending_insert_nodes [OF p] pending_insert_edges
    by (auto simp: run_callchain_analysis_def built split: option.splits prod.splits) (metis fst_conv)+
qed

lemma pending_no_callers: "all_pending cc \<Longrightarrow> st \<noteq> ''pending'' \<Longrightarrow> \<not> callers_in_state st (Some cc) h"
proof -
  assume p: "all_pending cc" and st: "st \<noteq> ''pending''"
  have "nd_r3_state n = ''pending''" if "node_at_hash cc x = Some n" for x n
    using p that by (auto simp: all_pending_def list_all_iff node_at_hash_def dest: find_by_key)
  with st show ?thesis by (auto simp: callers_in_state_def get_callers_r3_state_def list_ex_iff split: option.splits)
qed

text \<open>An answer of R3 that comes before the call chain is ready leaves no mark in it.\<close>

lemma early_answer_unnoted: "\<not> wk_cc_passed w \<Longrightarrow> wk_cc (cc_note st w) = wk_cc w"
  by (simp add: cc_note_def)

text \<open>A caller that is kept, and a worker that wants to drop the function although the judge rejects it.\<close>

definition sample_r4_work :: work where
  "sample_r4_work = (on_fn (\<lambda>f. f\<lparr>wf_decision := ''keep''\<rparr>) sample_work)\<lparr>wk_cc := Some (open_db\<lparr>
     db_nodes := [\<lparr>nd_hash = ''g'', nd_name = ''g'', nd_signature = [], nd_file = ''m'', nd_line = 5, nd_r3 = True, nd_external = False, nd_role = [],
       nd_confidence = PNone, nd_r3_state = ''keep'', nd_category = []\<rparr>],
     db_edges := [\<lparr>ed_caller = ''g'', ed_callee = ''h'', ed_line = 6, ed_type = ''direct''\<rparr>]\<rparr>)\<rparr>"

definition sample_filter_env :: engine_env where
  "sample_filter_env = (sample_env (\<lambda>k. None) (\<lambda>k. Some (False, [])))\<lparr>ev_r4_worker := \<lambda>k. Some (Some (PDict [(''decision'', PStr ''filter'')]))\<rparr>"

lemma sample_r4_slow: "\<not> r4_quick_path (wk_db sample_r4_work) (wk_cc sample_r4_work) (wf_hash (wk_fn sample_r4_work))"
proof -
  have "\<not> active_tag (wk_db sample_r4_work) ''h''"
    by (simp add: active_tag_def get_function_def find_func_def sample_r4_work_def sample_work_def new_row_def analysis_dict_def get_or_def)
  moreover have "callers_in_state ''keep'' (wk_cc sample_r4_work) ''h''"
    by (simp add: callers_in_state_def sample_r4_work_def get_callers_r3_state_def node_at_hash_def)
  ultimately show ?thesis by (simp add: quick_path_iff sample_r4_work_def sample_work_def)
qed

section \<open>Properties\<close>







text \<open>
  A rejected decision to drop a function stands: when every answer of the R4 worker is \<open>filter\<close>, the function is dropped from the
  state and from the final list, whatever the judge says, also when it rejects every answer up to its limit.
\<close>
theorem rejected_filter_stands:
  assumes "run_r4 env w = Some v" and "no_cancel env" and "wf_decision (wk_fn w) = ''keep''" and "wf_r4 (wk_fn w) \<noteq> Passed"
    and "\<not> r4_quick_path (wk_db w) (wk_cc w) (wf_hash (wk_fn w))" and "r4_continue env R4Loop w"
    and "\<forall>k. \<exists>file. ev_r4_worker env k = Some file \<and> r4_answer_decision file = ''filter''"
  shows "wf_r4 (wk_fn v) = Passed \<and> wf_decision (wk_fn v) = ''filter'' \<and>
    wf_hash (wk_fn w) \<notin> (fn_hash \<circ> fst) ` set (get_keep_entries (wk_db v))"
proof -
  have "r4_loop env w = Some v" using assms(1,3-5) by (simp add: run_r4_def Let_def)
  then have "filtered_row v \<and> wf_r4 (wk_fn v) = Passed \<and> wf_hash (wk_fn v) = wf_hash (wk_fn w)"
    using r4_filter_aux [of env w v] assms(2,4,6,7) by blast
  then show ?thesis using filtered_not_listed [of v] by (metis filtered_row_def)
qed

theorem rejected_filter_stands_witness:
  "\<exists>v. run_r4 sample_filter_env sample_r4_work = Some v \<and> ''h'' \<notin> (fn_hash \<circ> fst) ` set (get_keep_entries (wk_db v))"
proof -
  obtain v where v: "run_r4 sample_filter_env sample_r4_work = Some v"
    using run_r4_total [of sample_filter_env] by (auto simp: sample_filter_env_def sample_env_def)
  have "r4_answer_decision (Some (PDict [(''decision'', PStr ''filter'')])) = ''filter''"
    by (simp add: r4_answer_decision_def get_or_def py_str_def py_lower_def py_strip_def lower_char_def is_space_def)
  then have "wf_hash (wk_fn sample_r4_work) \<notin> (fn_hash \<circ> fst) ` set (get_keep_entries (wk_db v))"
    using rejected_filter_stands [OF v _ _ _ sample_r4_slow]
    by (simp add: no_cancel_def sample_filter_env_def sample_env_def sample_r4_work_def sample_work_def r4_continue_def should_continue_def)
  then show ?thesis using v by (simp add: sample_r4_work_def sample_work_def)
qed

text \<open>
  A new call chain hides what R3 has found before it was built: no node of it is kept or running, so R4 keeps every function
  without asking a worker or a judge until some function ends R3 after the construction.
\<close>
theorem new_call_chain_skips_r4:
  "r4_quick_path db' (Some (fst (run_callchain_analysis module_files paths files db open_db))) h"
proof -
  have "all_pending open_db" by (simp add: all_pending_def open_db_def)
  then show ?thesis using pending_no_callers [OF pending_analysis] by (simp add: quick_path_iff)
qed

text \<open>
  The final list does not come from the database that the stages write: it is empty as long as only that database is there, and
  in general it is the kept entries once for every other file that matches the pattern of a database per source file.
\<close>
theorem final_list_counts_files:
  "collect_entries names db = concat (replicate (length (filter per_file_db names)) (get_keep_entries db)) \<and>
   run_r6_finalize cancelled [function_db_file, ''functions.db-wal'', ''functions.db-shm''] cc db = (cc, db, [])"
proof -
  have "map (\<lambda>name. get_keep_entries db) ns = replicate (length ns) (get_keep_entries db)" for ns :: "string list"
    by (simp add: map_replicate_const)
  then show ?thesis by (simp add: collect_entries_def run_r6_finalize_def per_file_db_def function_db_file_def)
qed

end
