(* ===== verification/FastMode.thy ===== *)
theory FastMode
  imports FunctionDB PipelineState
begin

text \<open>
  The fast mode: the answers of the batch agents (\<open>app/pipeline/fast_mode_worker.py\<close>) and the batch processor
  (\<open>app/pipeline/fast_mode_engine.py\<close>), which collects functions, sends them in batches to a pool of threads and lets each
  caller of \<open>enqueue\<close> wait for the answer to its function. A step is what a thread does under the lock or between two accesses to
  shared fields; \<open>_process_batch\<close> has three: it reads the number of the batch, increments it, and stores the answer. The agents,
  \<open>json.loads\<close> and the clock are arguments. Prompts, events other than the summary of \<open>flush\<close>, and counters that only go into
  events are left out; an event is the number of the call of \<open>enqueue\<close> that made it. The data base and the state file do not fail.
\<close>

section \<open>The answers of the agents\<close>

text \<open>The first occurrence of a text: what is before it and what is after it.\<close>

fun cut_at :: "string \<Rightarrow> string \<Rightarrow> (string \<times> string) option" where
  "cut_at p s = (if is_prefix p s then Some ([], drop (length p) s)
     else case s of [] \<Rightarrow> None | c # t \<Rightarrow> map_option (apfst (Cons c)) (cut_at p t))"

definition result_text :: "string \<Rightarrow> string option" where
  "result_text s = (case cut_at ''<result>'' s of None \<Rightarrow> None | Some (_, t) \<Rightarrow> map_option fst (cut_at ''</result>'' t))"

definition fence :: string where "fence = replicate 3 (CHR 0x60)"

definition open_fence :: "string \<Rightarrow> string" where
  "open_fence t = py_strip (if is_prefix fence t
     then (let u = drop 3 t in if is_prefix ''json'' u then drop 4 u else u) else t)"

definition close_fence :: "string \<Rightarrow> string" where
  "close_fence t = py_strip (if is_prefix fence (rev t) then take (length t - 3) t else t)"

definition answer_json :: "(string \<Rightarrow> pyval option) \<Rightarrow> string \<Rightarrow> pyval option" where
  "answer_json json t = json (close_fence (open_fence (py_strip t)))"

text \<open>\<open>str\<close> is the identity on texts, so the list of texts and the converted list are one case.\<close>

definition parse_result :: "(string \<Rightarrow> pyval option) \<Rightarrow> string \<Rightarrow> string list option" where
  "parse_result json out =
     (case Option.bind (result_text out) (answer_json json) of Some (PList xs) \<Rightarrow> Some (map py_str xs) | _ \<Rightarrow> None)"

text \<open>
  Attempt \<open>k\<close> and the \<open>n - 1\<close> after it: \<open>cancel k\<close> is the event before the attempt, \<open>out k\<close> the output of its agent
  (\<open>None\<close> when the call raises). The result is \<open>None\<close> for the exception.
\<close>

fun classify_try ::
  "(string \<Rightarrow> pyval option) \<Rightarrow> (nat \<Rightarrow> bool) \<Rightarrow> (nat \<Rightarrow> string option) \<Rightarrow> string list \<Rightarrow> nat \<Rightarrow> nat \<Rightarrow> string list option" where
  "classify_try json cancel out hs k 0 = Some hs"
| "classify_try json cancel out hs k (Suc n) =
     (if cancel k then Some hs
      else case out k of
        None \<Rightarrow> None
      | Some o' \<Rightarrow> (case parse_result json o' of
          Some xs \<Rightarrow> Some (filter (\<lambda>h. h \<in> set hs) xs)
        | None \<Rightarrow> classify_try json cancel out hs (Suc k) n))"

definition max_parse_retries :: nat where "max_parse_retries = 3"

definition run_fast_mode_classification ::
  "(string \<Rightarrow> pyval option) \<Rightarrow> (nat \<Rightarrow> bool) \<Rightarrow> (nat \<Rightarrow> string option) \<Rightarrow> string list \<Rightarrow> string list option" where
  "run_fast_mode_classification json cancel out hs = classify_try json cancel out hs 1 max_parse_retries"

text \<open>\<open>[\s\S]*\<close> between brackets is greedy: from the first opening bracket to the last closing one.\<close>

definition bare_array :: "string \<Rightarrow> string option" where
  "bare_array s = (let t = rev (dropWhile (\<lambda>c. c \<noteq> CHR '']'') (rev (dropWhile (\<lambda>c. c \<noteq> CHR ''['') s)))
     in if t = [] then None else Some t)"

definition has_hash :: "pyval \<Rightarrow> dict option" where
  "has_hash v = (case v of PDict d \<Rightarrow> if truthy (get d ''func_hash'') then Some d else None | _ \<Rightarrow> None)"

definition parse_taint_result :: "(string \<Rightarrow> pyval option) \<Rightarrow> string \<Rightarrow> dict list option" where
  "parse_taint_result json out =
     (case (case result_text out of Some t \<Rightarrow> answer_json json t | None \<Rightarrow> Option.bind (bare_array out) json) of
        Some (PList xs) \<Rightarrow> (let ds = List.map_filter has_hash xs in if ds = [] then None else Some ds)
      | _ \<Rightarrow> None)"

fun taint_try ::
  "(string \<Rightarrow> pyval option) \<Rightarrow> (nat \<Rightarrow> bool) \<Rightarrow> (nat \<Rightarrow> string option) \<Rightarrow> nat \<Rightarrow> nat \<Rightarrow> dict list option" where
  "taint_try json cancel out k 0 = Some []"
| "taint_try json cancel out k (Suc n) =
     (if cancel k then Some []
      else case out k of
        None \<Rightarrow> None
      | Some o' \<Rightarrow> (case parse_taint_result json o' of Some ds \<Rightarrow> Some ds | None \<Rightarrow> taint_try json cancel out (Suc k) n))"

definition run_fast_mode_taint_batch ::
  "(string \<Rightarrow> pyval option) \<Rightarrow> (nat \<Rightarrow> bool) \<Rightarrow> (nat \<Rightarrow> string option) \<Rightarrow> dict list option" where
  "run_fast_mode_taint_batch json cancel out = taint_try json cancel out 1 max_parse_retries"

section \<open>The state of the batch processor\<close>

record batch_func =
  bf_hash :: string
  bf_file :: string

type_synonym batch = "(batch_func \<times> nat) list"

datatype flush_phase = NoFlush | FlushWaits "nat list" | FlushQuiet | FlushReported nat nat

text \<open>
  \<open>fb_queue\<close> is the queue of the executor, \<open>fb_entered\<close> the batches whose thread has read the number and not yet incremented it,
  \<open>fb_running\<close> those whose agent works, \<open>fb_events\<close> the events that are set.
\<close>

record fm_state =
  fb_taint :: bool
  fb_size :: nat
  fb_workers :: nat
  fb_tail :: int
  fb_pending :: batch
  fb_queue :: "batch list"
  fb_entered :: "(batch \<times> nat) list"
  fb_running :: "(batch \<times> nat) list"
  fb_events :: "nat list"
  fb_results :: "(string \<times> pyval) list"
  fb_seq :: nat
  fb_collected :: nat
  fb_processed :: nat
  fb_last :: int
  fb_stop :: bool
  fb_flush :: flush_phase
  fb_state :: pipeline_state
  fb_db :: func_db

definition batch_size :: "bool \<Rightarrow> int \<Rightarrow> nat" where
  "batch_size super_fast n = (if super_fast then 1000 else nat (max 10 (min n 50)))"

text \<open>The two environment variables as integers, when they are set.\<close>

definition fm_init ::
  "bool \<Rightarrow> bool \<Rightarrow> int \<Rightarrow> int option \<Rightarrow> int option \<Rightarrow> int \<Rightarrow> pipeline_state \<Rightarrow> func_db \<Rightarrow> fm_state" where
  "fm_init taint super_fast n concurrency idle now ps db =
     \<lparr>fb_taint = taint, fb_size = batch_size super_fast n,
      fb_workers = nat (max 1 (case concurrency of None \<Rightarrow> 8 | Some k \<Rightarrow> k)),
      fb_tail = max 10 (case idle of None \<Rightarrow> if super_fast then 60 else 90 | Some k \<Rightarrow> k),
      fb_pending = [], fb_queue = [], fb_entered = [], fb_running = [], fb_events = [], fb_results = [], fb_seq = 0,
      fb_collected = 0, fb_processed = 0, fb_last = now, fb_stop = False, fb_flush = NoFlush, fb_state = ps, fb_db = db\<rparr>"

section \<open>Collecting\<close>

definition submit :: "batch \<Rightarrow> fm_state \<Rightarrow> fm_state" where
  "submit b s = s\<lparr>fb_queue := fb_queue s @ [b]\<rparr>"

definition enqueue :: "batch_func \<Rightarrow> int \<Rightarrow> fm_state \<Rightarrow> fm_state" where
  "enqueue f now s =
     (let s1 = s\<lparr>fb_pending := fb_pending s @ [(f, fb_collected s)], fb_collected := fb_collected s + 1, fb_last := now\<rparr>
      in if fb_size s1 \<le> length (fb_pending s1)
         then submit (take (fb_size s1) (fb_pending s1)) (s1\<lparr>fb_pending := drop (fb_size s1) (fb_pending s1)\<rparr>)
         else s1)"

text \<open>What \<open>enqueue\<close> returns after its event is set.\<close>

definition enqueue_result :: "batch_func \<Rightarrow> fm_state \<Rightarrow> pyval" where
  "enqueue_result f s = get_or (fb_results s) (bf_hash f) (PStr ''keep'')"

text \<open>One round of the idle flusher.\<close>

definition idle_flush :: "int \<Rightarrow> bool \<Rightarrow> fm_state \<Rightarrow> fm_state" where
  "idle_flush now cancelled s =
     (if fb_pending s = [] then s
      else if \<not> cancelled \<and> now - fb_last s < fb_tail s then s
      else submit (fb_pending s) (s\<lparr>fb_pending := [], fb_last := now\<rparr>))"

definition flush_begin :: "fm_state \<Rightarrow> fm_state" where
  "flush_begin s =
     (let s1 = s\<lparr>fb_stop := True, fb_pending := []\<rparr>
      in if fb_pending s = [] then s1\<lparr>fb_flush := FlushQuiet\<rparr>
         else submit (fb_pending s) (s1\<lparr>fb_flush := FlushWaits (map snd (fb_pending s))\<rparr>))"

definition kept_in_state :: "pipeline_state \<Rightarrow> nat" where
  "kept_in_state ps = sum_list (map (\<lambda>(_, f). length (filter (\<lambda>(_, g). fs_fast_mode_result g = PStr ''keep'') (fl_functions f))) (ps_files ps))"

definition flush_end :: "fm_state \<Rightarrow> fm_state" where
  "flush_end s = s\<lparr>fb_flush := FlushReported (fb_collected s) (kept_in_state (fb_state s))\<rparr>"

section \<open>Processing a batch\<close>

definition enter_batch :: "fm_state \<Rightarrow> fm_state" where
  "enter_batch s = (case fb_queue s of [] \<Rightarrow> s
     | b # bs \<Rightarrow> s\<lparr>fb_queue := bs, fb_entered := fb_entered s @ [(b, fb_seq s)]\<rparr>)"

definition bump_seq :: "nat \<Rightarrow> fm_state \<Rightarrow> fm_state" where
  "bump_seq i s = s\<lparr>fb_seq := fb_seq s + 1, fb_entered := take i (fb_entered s) @ drop (Suc i) (fb_entered s),
     fb_running := fb_running s @ [fb_entered s ! i]\<rparr>"

definition on_function :: "string \<Rightarrow> string \<Rightarrow> (function_state \<Rightarrow> function_state) \<Rightarrow> pipeline_state \<Rightarrow> pipeline_state" where
  "on_function file h f ps = (case map_of (ps_files ps) file of
     None \<Rightarrow> ps
   | Some fs \<Rightarrow> (case map_of (fl_functions fs) h of
       None \<Rightarrow> ps
     | Some g \<Rightarrow> ps\<lparr>ps_files := dset file (fs\<lparr>fl_functions := dset h (f g) (fl_functions fs)\<rparr>) (ps_files ps)\<rparr>))"

definition lookup_function :: "string \<Rightarrow> string \<Rightarrow> pipeline_state \<Rightarrow> function_state option" where
  "lookup_function file h ps = Option.bind (map_of (ps_files ps) file) (\<lambda>fs. map_of (fl_functions fs) h)"

definition in_state :: "string \<Rightarrow> string \<Rightarrow> pipeline_state \<Rightarrow> bool" where
  "in_state file h ps \<longleftrightarrow> lookup_function file h ps \<noteq> None"

definition entry_decision :: "string list \<Rightarrow> batch_func \<Rightarrow> string" where
  "entry_decision hashes f = (if bf_hash f \<in> set hashes then ''keep'' else ''filter'')"

definition mark_entry :: "nat \<Rightarrow> string \<Rightarrow> function_state \<Rightarrow> function_state" where
  "mark_entry idx d g = g\<lparr>fs_fast_mode_state := node_val Passed, fs_fast_mode_result := PStr d, fs_fast_mode_batch := PInt (int idx),
     fs_r4_decision := PStr d, fs_has_external_input := PBool (d = ''keep'')\<rparr>"

definition store_entry :: "nat \<Rightarrow> string list \<Rightarrow> batch_func \<Rightarrow> fm_state \<Rightarrow> fm_state" where
  "store_entry idx hashes f s =
     (if bf_file f = [] then s
      else (let d = entry_decision hashes f
            in s\<lparr>fb_db := set_fast_mode_result (bf_hash f) d (d = ''keep'') (fb_db s),
                 fb_state := on_function (bf_file f) (bf_hash f) (mark_entry idx d) (fb_state s)\<rparr>))"

text \<open>Every function is kept when the processor raises.\<close>

definition kept_hashes :: "string list option \<Rightarrow> batch \<Rightarrow> string list" where
  "kept_hashes ans b = (case ans of None \<Rightarrow> map (bf_hash \<circ> fst) b | Some hs \<Rightarrow> hs)"

definition finish_entry :: "nat \<Rightarrow> string list option \<Rightarrow> batch \<Rightarrow> fm_state \<Rightarrow> fm_state" where
  "finish_entry idx ans b s =
     (let hashes = kept_hashes ans b;
          s1 = fold (\<lambda>(f, _). store_entry idx hashes f) b s
      in s1\<lparr>fb_processed := fb_processed s1 + length b,
            fb_results := fold (\<lambda>(f, _). dset (bf_hash f) (PStr (entry_decision hashes f))) b (fb_results s1),
            fb_events := fb_events s1 @ map snd b\<rparr>)"

definition taint_analysis :: "dict list \<Rightarrow> string \<Rightarrow> dict" where
  "taint_analysis ds h = (case map_of (rev (map (\<lambda>d. (py_str (get d ''func_hash''), d)) ds)) h of None \<Rightarrow> [] | Some d \<Rightarrow> d)"

definition full_analysis :: "dict \<Rightarrow> dict" where
  "full_analysis a = [(''has_external_input'', PBool True), (''decision'', PStr ''keep''), (''tag'', get a ''tag''),
     (''entry_role'', get a ''entry_role''), (''taints'', get a ''taints''), (''function_description'', get a ''function_description''),
     (''entry_reason'', get a ''entry_reason'')]"

definition mark_taint :: "dict \<Rightarrow> function_state \<Rightarrow> function_state" where
  "mark_taint a g = g\<lparr>fs_has_external_input := PBool True, fs_r4_decision := PStr ''keep'',
     fs_entry_role := (let r = text_of (get a ''entry_role'') in if r = [] then PNone else PStr r)\<rparr>"

definition store_taint :: "dict list \<Rightarrow> batch_func \<Rightarrow> fm_state \<Rightarrow> fm_state" where
  "store_taint ds f s =
     (let a = taint_analysis ds (bf_hash f); s1 = s\<lparr>fb_results := dset (bf_hash f) (PDict a) (fb_results s)\<rparr>
      in if bf_file f \<noteq> [] \<and> in_state (bf_file f) (bf_hash f) (fb_state s) \<and> truthy (get a ''taints'')
         then s1\<lparr>fb_state := on_function (bf_file f) (bf_hash f) (mark_taint a) (fb_state s),
                 fb_db := (case set_analysis (bf_hash f) (full_analysis a) (fb_db s) of None \<Rightarrow> fb_db s | Some db \<Rightarrow> db)\<rparr>
         else s1)"

definition finish_taint :: "dict list option \<Rightarrow> batch \<Rightarrow> fm_state \<Rightarrow> fm_state" where
  "finish_taint ans b s =
     (let ds = (case ans of None \<Rightarrow> [] | Some ds \<Rightarrow> ds); s1 = fold (\<lambda>(f, _). store_taint ds f) b s
      in s1\<lparr>fb_events := fb_events s1 @ map snd b\<rparr>)"

definition leave :: "nat \<Rightarrow> fm_state \<Rightarrow> fm_state" where
  "leave i s = s\<lparr>fb_running := take i (fb_running s) @ drop (Suc i) (fb_running s)\<rparr>"

datatype batch_answer = EntryAnswer "string list option" | TaintAnswer "dict list option"

definition finish_batch :: "nat \<Rightarrow> batch_answer \<Rightarrow> fm_state \<Rightarrow> fm_state" where
  "finish_batch i ans s = (let (b, idx) = fb_running s ! i in
     case ans of EntryAnswer hs \<Rightarrow> finish_entry idx hs b (leave i s) | TaintAnswer ds \<Rightarrow> finish_taint ds b (leave i s))"

section \<open>The threads\<close>

fun answer_fits :: "bool \<Rightarrow> batch_answer \<Rightarrow> bool" where
  "answer_fits taint (EntryAnswer _) = (\<not> taint)"
| "answer_fits taint (TaintAnswer _) = taint"

definition busy :: "fm_state \<Rightarrow> nat" where
  "busy s = length (fb_entered s) + length (fb_running s)"

inductive fm_step :: "fm_state \<Rightarrow> fm_state \<Rightarrow> bool" where
  fm_enqueue: "fm_step s (enqueue f now s)"
| fm_idle: "\<not> fb_stop s \<Longrightarrow> fm_step s (idle_flush now cancelled s)"
| fm_flush: "fb_flush s = NoFlush \<Longrightarrow> fm_step s (flush_begin s)"
| fm_flushed: "fb_flush s = FlushWaits es \<Longrightarrow> set es \<subseteq> set (fb_events s) \<Longrightarrow> fm_step s (flush_end s)"
| fm_enter: "fb_queue s \<noteq> [] \<Longrightarrow> busy s < fb_workers s \<Longrightarrow> fm_step s (enter_batch s)"
| fm_bump: "i < length (fb_entered s) \<Longrightarrow> fm_step s (bump_seq i s)"
| fm_finish: "i < length (fb_running s) \<Longrightarrow> answer_fits (fb_taint s) ans \<Longrightarrow> fm_step s (finish_batch i ans s)"

inductive_cases fm_stepE: "fm_step s t"

inductive fm_start :: "fm_state \<Rightarrow> bool" where
  "fm_start (fm_init taint super_fast n concurrency idle now ps db)"

end
