(* ===== verification/FastModeSafety.thy ===== *)
theory FastModeSafety
  imports FastMode "HOL-Library.Multiset"
begin

text \<open>
  The batch processor keeps every function: the functions it has been given are pending, queued, with an agent or answered, in
  batches of at most the configured size that are consecutive runs of arrivals, and every caller is answered in the end. A function
  is filtered only by a well-formed answer that leaves it out.
\<close>

section \<open>The invariant\<close>

definition with_agent :: "fm_state \<Rightarrow> nat list" where
  "with_agent s = map snd (concat (map fst (fb_entered s @ fb_running s)))"

definition batch_ok :: "nat \<Rightarrow> batch \<Rightarrow> bool" where
  "batch_ok n b \<longleftrightarrow> b \<noteq> [] \<and> length b \<le> n"

definition all_batches :: "fm_state \<Rightarrow> batch list" where
  "all_batches s = fb_queue s @ map fst (fb_entered s @ fb_running s)"

definition fm_inv :: "fm_state \<Rightarrow> bool" where
  "fm_inv s \<longleftrightarrow> 0 < fb_size s \<and> 0 < fb_workers s \<and> length (fb_pending s) < fb_size s \<and> list_all (batch_ok (fb_size s)) (all_batches s)
     \<and> (\<exists>k. k \<le> fb_collected s \<and> map snd (concat (fb_queue s) @ fb_pending s) = [k..<fb_collected s]
          \<and> mset (with_agent s) + mset (fb_events s) = mset [0..<k])
     \<and> busy s \<le> fb_workers s \<and> (\<forall>es e. fb_flush s = FlushWaits es \<longrightarrow> e \<in> set es \<longrightarrow> e < fb_collected s)"

lemma fold_store_entry: "\<exists>db ps. fold (\<lambda>(f, _). store_entry idx hs f) b s = s\<lparr>fb_db := db, fb_state := ps\<rparr>"
proof (induction b arbitrary: s)
  case Nil
  show ?case by (intro exI [of _ "fb_db s"] exI [of _ "fb_state s"]) simp
next
  case (Cons x b)
  obtain f e where x: "x = (f, e)" by fastforce
  obtain db ps where one: "store_entry idx hs f s = s\<lparr>fb_db := db, fb_state := ps\<rparr>"
    by (cases "bf_file f = []") (auto simp: store_entry_def Let_def intro: that [of "fb_state s" "fb_db s"])
  obtain db' ps' where "fold (\<lambda>(f, _). store_entry idx hs f) b (s\<lparr>fb_db := db, fb_state := ps\<rparr>) =
      s\<lparr>fb_db := db, fb_state := ps, fb_db := db', fb_state := ps'\<rparr>"
    using Cons.IH by blast
  then show ?case by (auto simp: x one)
qed

lemma fold_store_taint:
  "\<exists>db ps. fold (\<lambda>(f, _). store_taint ds f) b s = s\<lparr>fb_db := db, fb_state := ps,
     fb_results := fold (\<lambda>(f, _). dset (bf_hash f) (PDict (taint_analysis ds (bf_hash f)))) b (fb_results s)\<rparr>"
proof (induction b arbitrary: s)
  case Nil
  show ?case by (intro exI [of _ "fb_db s"] exI [of _ "fb_state s"]) simp
next
  case (Cons x b)
  obtain f e where x: "x = (f, e)" by fastforce
  define a where "a = taint_analysis ds (bf_hash f)"
  define C where "C \<longleftrightarrow> bf_file f \<noteq> [] \<and> in_state (bf_file f) (bf_hash f) (fb_state s) \<and> truthy (get a ''taints'')"
  obtain db ps where one: "store_taint ds f s = s\<lparr>fb_db := db, fb_state := ps, fb_results := dset (bf_hash f) (PDict a) (fb_results s)\<rparr>"
  proof (rule that)
    show "store_taint ds f s = s\<lparr>fb_db := if C then (case set_analysis (bf_hash f) (full_analysis a) (fb_db s) of None \<Rightarrow> fb_db s | Some db \<Rightarrow> db) else fb_db s,
        fb_state := if C then on_function (bf_file f) (bf_hash f) (mark_taint a) (fb_state s) else fb_state s,
        fb_results := dset (bf_hash f) (PDict a) (fb_results s)\<rparr>"
      unfolding store_taint_def Let_def a_def [symmetric] C_def [symmetric] by (cases C) simp_all
  qed
  obtain db' ps' where "fold (\<lambda>(f, _). store_taint ds f) b (store_taint ds f s) =
      (store_taint ds f s)\<lparr>fb_db := db', fb_state := ps',
        fb_results := fold (\<lambda>(f, _). dset (bf_hash f) (PDict (taint_analysis ds (bf_hash f)))) b (fb_results (store_taint ds f s))\<rparr>"
    using Cons.IH by blast
  then show ?case by (auto simp: x one a_def)
qed

lemma finish_batch_frame:
  "\<exists>db ps rs n. finish_batch i ans s = (leave i s)\<lparr>fb_db := db, fb_state := ps, fb_processed := n, fb_results := rs,
     fb_events := fb_events s @ map snd (fst (fb_running s ! i))\<rparr>"
proof -
  obtain b idx where at: "fb_running s ! i = (b, idx)" by fastforce
  show ?thesis
  proof (cases ans)
    case (EntryAnswer hs)
    obtain db ps where "fold (\<lambda>(f, _). store_entry idx (kept_hashes hs b) f) b (leave i s) = (leave i s)\<lparr>fb_db := db, fb_state := ps\<rparr>"
      using fold_store_entry by blast
    then show ?thesis by (auto simp: EntryAnswer finish_batch_def at finish_entry_def Let_def leave_def)
  next
    case (TaintAnswer ds)
    let ?ds = "case ds of None \<Rightarrow> [] | Some ds \<Rightarrow> ds"
    obtain db ps where "fold (\<lambda>(f, _). store_taint ?ds f) b (leave i s) = (leave i s)\<lparr>fb_db := db, fb_state := ps,
        fb_results := fold (\<lambda>(f, _). dset (bf_hash f) (PDict (taint_analysis ?ds (bf_hash f)))) b (fb_results (leave i s))\<rparr>"
      using fold_store_taint by blast
    then show ?thesis
      by (intro exI [of _ db] exI [of _ ps] exI [of _ "fold (\<lambda>(f, _). dset (bf_hash f) (PDict (taint_analysis ?ds (bf_hash f)))) b (fb_results s)"]
          exI [of _ "fb_processed s"])
        (simp add: TaintAnswer finish_batch_def at finish_taint_def Let_def leave_def)
  qed
qed

lemma split_nth: "i < length xs \<Longrightarrow> xs = take i xs @ xs ! i # drop (Suc i) xs"
  by (rule id_take_nth_drop)

lemma mset_cut: "i < length xs \<Longrightarrow> mset (take i xs @ drop (Suc i) xs) = mset xs - {#xs ! i#}"
proof -
  assume "i < length xs"
  then have "mset xs = mset (take i xs @ drop (Suc i) xs) + {#xs ! i#}"
    by (subst split_nth [of i xs]) simp_all
  then show ?thesis by simp
qed

lemma mset_concat_cut:
  assumes "i < length xs"
  shows "mset (concat (map g (take i xs @ drop (Suc i) xs))) + mset (g (xs ! i)) = mset (concat (map g xs))"
proof -
  have "map g xs = map g (take i xs) @ g (xs ! i) # map g (drop (Suc i) xs)"
    using split_nth [OF assms] by (metis list.simps(9) map_append)
  then show ?thesis by simp
qed

lemma list_all_cut: "i < length xs \<Longrightarrow> list_all P xs \<longleftrightarrow> list_all P (take i xs @ drop (Suc i) xs) \<and> P (xs ! i)"
  by (subst (1) split_nth [of i xs]) auto

lemma fm_inv_init: "fm_start s \<Longrightarrow> fm_inv s"
  by (auto simp: fm_start.simps fm_init_def fm_inv_def batch_size_def all_batches_def with_agent_def busy_def)


lemma fm_inv_enqueue:
  assumes "fm_inv s"
  shows "fm_inv (enqueue f now s)"
proof -
  let ?p = "fb_pending s @ [(f, fb_collected s)]"
  obtain k where k: "k \<le> fb_collected s" "map snd (concat (fb_queue s) @ fb_pending s) = [k..<fb_collected s]"
    "mset (with_agent s) + mset (fb_events s) = mset [0..<k]" using assms by (auto simp: fm_inv_def)
  have all: "map snd (concat (fb_queue s) @ ?p) = [k..<Suc (fb_collected s)]" using k(1,2) by simp
  have len: "length ?p \<le> fb_size s" using assms by (simp add: fm_inv_def)
  show ?thesis
  proof (cases "fb_size s \<le> length ?p")
    case False
    then have "enqueue f now s = s\<lparr>fb_pending := ?p, fb_collected := Suc (fb_collected s), fb_last := now\<rparr>"
      by (simp add: enqueue_def Let_def)
    then show ?thesis using assms False all k
      by (auto simp: fm_inv_def all_batches_def with_agent_def busy_def less_Suc_eq intro!: exI [of _ k])
  next
    case True
    with len have "fb_size s = length ?p" by simp
    then have "enqueue f now s = submit ?p (s\<lparr>fb_pending := [], fb_collected := Suc (fb_collected s), fb_last := now\<rparr>)"
      by (simp add: enqueue_def Let_def submit_def)
    then show ?thesis using assms len all k
      by (auto simp: fm_inv_def all_batches_def with_agent_def busy_def submit_def batch_ok_def less_Suc_eq intro!: exI [of _ k])
  qed
qed

lemma fm_inv_submit_pending:
  assumes "fm_inv s" and "fb_pending s \<noteq> []"
  shows "fm_inv (submit (fb_pending s) (s\<lparr>fb_pending := []\<rparr>))"
  using assms by (auto simp: fm_inv_def all_batches_def with_agent_def busy_def submit_def batch_ok_def)

lemma fm_inv_idle: "fm_inv s \<Longrightarrow> fm_inv (idle_flush now cancelled s)"
  using fm_inv_submit_pending [of s] by (auto simp: idle_flush_def fm_inv_def all_batches_def with_agent_def busy_def submit_def)

lemma pending_events: "fm_inv s \<Longrightarrow> e \<in> snd ` set (fb_pending s) \<Longrightarrow> e < fb_collected s"
proof -
  assume e: "e \<in> snd ` set (fb_pending s)" and "fm_inv s"
  then obtain k where "map snd (concat (fb_queue s) @ fb_pending s) = [k..<fb_collected s]" by (auto simp: fm_inv_def)
  then have "set (map snd (concat (fb_queue s) @ fb_pending s)) = {k..<fb_collected s}" by (metis set_upt)
  then have "snd ` set (fb_pending s) \<subseteq> {k..<fb_collected s}" unfolding set_map set_append image_Un by blast
  then show ?thesis using e by auto
qed

lemma fm_inv_flush: "fm_inv s \<Longrightarrow> fm_inv (flush_begin s)"
proof (cases "fb_pending s = []")
  case True
  assume "fm_inv s"
  with True show ?thesis by (auto simp: flush_begin_def Let_def fm_inv_def all_batches_def with_agent_def busy_def)
next
  case False
  assume "fm_inv s"
  with fm_inv_submit_pending [OF this False] pending_events [OF this] False show ?thesis
    by (auto simp: flush_begin_def Let_def fm_inv_def all_batches_def with_agent_def busy_def submit_def)
qed

lemma fm_inv_enter:
  assumes "fm_inv s" and "fb_queue s \<noteq> []" and "busy s < fb_workers s"
  shows "fm_inv (enter_batch s)"
proof -
  obtain b bs where q: "fb_queue s = b # bs" using assms(2) by (cases "fb_queue s") auto
  obtain k where k: "k \<le> fb_collected s" "map snd (concat (fb_queue s) @ fb_pending s) = [k..<fb_collected s]"
    "mset (with_agent s) + mset (fb_events s) = mset [0..<k]" using assms by (auto simp: fm_inv_def)
  let ?n = "length b"
  have le: "k + ?n \<le> fb_collected s" using arg_cong [OF k(2), of length] k(1) q by simp
  have split: "[k..<fb_collected s] = [k..<k + ?n] @ [k + ?n..<fb_collected s]"
    using upt_add_eq_append [of k "k + ?n" "fb_collected s - (k + ?n)"] le by simp
  have "map snd b = [k..<k + ?n]" "map snd (concat bs @ fb_pending s) = [k + ?n..<fb_collected s]"
    using k(2) q split append_eq_append_conv [of "map snd b" "[k..<k + ?n]"] by simp_all
  moreover have "[0..<k + ?n] = [0..<k] @ [k..<k + ?n]" using upt_add_eq_append [of 0 k ?n] by simp
  ultimately show ?thesis
    using assms k(3) q le by (auto simp: enter_batch_def fm_inv_def all_batches_def with_agent_def busy_def ac_simps simp del: mset_upt intro!: exI [of _ "k + ?n"])
qed

lemma fm_inv_bump:
  assumes "fm_inv s" and "i < length (fb_entered s)"
  shows "fm_inv (bump_seq i s)"
proof -
  have "list_all (batch_ok (fb_size s)) (map fst (fb_entered s)) \<longleftrightarrow>
      list_all (batch_ok (fb_size s)) (map fst (take i (fb_entered s) @ drop (Suc i) (fb_entered s)))
      \<and> batch_ok (fb_size s) (fst (fb_entered s ! i))"
    using list_all_cut [OF assms(2), of "\<lambda>x. batch_ok (fb_size s) (fst x)"] by (simp add: list.pred_map comp_def)
  moreover have "mset (map snd (concat (map fst (take i (fb_entered s) @ drop (Suc i) (fb_entered s))))) + mset (map snd (fst (fb_entered s ! i)))
      = mset (map snd (concat (map fst (fb_entered s))))"
    using mset_concat_cut [OF assms(2), of "\<lambda>x. map snd (fst x)"] by (simp add: map_concat comp_def)
  moreover have "length (take i (fb_entered s) @ drop (Suc i) (fb_entered s)) + 1 = length (fb_entered s)" using assms(2) by simp
  ultimately show ?thesis
    using assms by (auto simp: bump_seq_def fm_inv_def all_batches_def with_agent_def busy_def ac_simps)
qed

lemma fm_inv_finish:
  assumes "fm_inv s" and "i < length (fb_running s)"
  shows "fm_inv (finish_batch i ans s)"
proof -
  obtain db ps rs n where f: "finish_batch i ans s = (leave i s)\<lparr>fb_db := db, fb_state := ps, fb_processed := n, fb_results := rs,
     fb_events := fb_events s @ map snd (fst (fb_running s ! i))\<rparr>" using finish_batch_frame by blast
  have "list_all (batch_ok (fb_size s)) (map fst (fb_running s)) \<longleftrightarrow>
      list_all (batch_ok (fb_size s)) (map fst (take i (fb_running s) @ drop (Suc i) (fb_running s)))
      \<and> batch_ok (fb_size s) (fst (fb_running s ! i))"
    using list_all_cut [OF assms(2), of "\<lambda>x. batch_ok (fb_size s) (fst x)"] by (simp add: list.pred_map comp_def)
  moreover have "mset (map snd (concat (map fst (take i (fb_running s) @ drop (Suc i) (fb_running s))))) + mset (map snd (fst (fb_running s ! i)))
      = mset (map snd (concat (map fst (fb_running s))))"
    using mset_concat_cut [OF assms(2), of "\<lambda>x. map snd (fst x)"] by (simp add: map_concat comp_def)
  moreover have "length (take i (fb_running s) @ drop (Suc i) (fb_running s)) + 1 = length (fb_running s)" using assms(2) by simp
  ultimately show ?thesis
    using assms unfolding f by (auto simp: leave_def fm_inv_def all_batches_def with_agent_def busy_def ac_simps)
qed

lemma fm_inv_flushed: "fm_inv s \<Longrightarrow> fm_inv (flush_end s)"
  by (auto simp: flush_end_def fm_inv_def all_batches_def with_agent_def busy_def)

lemma fm_inv_step: "fm_inv s \<Longrightarrow> fm_step s t \<Longrightarrow> fm_inv t"
  by (erule fm_stepE)
    (simp_all add: fm_inv_enqueue fm_inv_idle fm_inv_flush fm_inv_flushed fm_inv_enter fm_inv_bump fm_inv_finish)

interpretation batches: invariant_system fm_start fm_step fm_inv
  by unfold_locales (rule fm_inv_init, assumption, rule fm_inv_step)


section \<open>Where a function is\<close>

text \<open>
  Every batch has between one function and the configured number, fewer than that number wait for a batch, and every call of
  \<open>enqueue\<close> is in one place: pending, in a queued batch, with an agent or answered. What is queued and pending is a run of arrivals in
  order.
\<close>
theorem batches_partition_the_arrivals:
  assumes "reach fm_start fm_step s"
  shows "list_all (\<lambda>b. 0 < length b \<and> length b \<le> fb_size s) (all_batches s) \<and> length (fb_pending s) < fb_size s
    \<and> (\<exists>k. map snd (concat (fb_queue s) @ fb_pending s) = [k..<fb_collected s])
    \<and> mset (map snd (concat (fb_queue s) @ fb_pending s)) + mset (with_agent s) + mset (fb_events s) = mset [0..<fb_collected s]"
proof -
  have inv: "fm_inv s" by (rule batches.reach_inv [OF assms])
  then obtain k where k: "k \<le> fb_collected s" "map snd (concat (fb_queue s) @ fb_pending s) = [k..<fb_collected s]"
    "mset (with_agent s) + mset (fb_events s) = mset [0..<k]" by (auto simp: fm_inv_def)
  have "[0..<fb_collected s] = [0..<k] @ [k..<fb_collected s]" using upt_add_eq_append [of 0 k "fb_collected s - k"] k(1) by simp
  then have "mset (map snd (concat (fb_queue s) @ fb_pending s)) + mset (with_agent s) + mset (fb_events s) = mset [0..<fb_collected s]"
    unfolding k(2) using k(3) by (simp add: ac_simps del: mset_upt)
  moreover have "list_all (\<lambda>b. 0 < length b \<and> length b \<le> fb_size s) (all_batches s)"
    using inv by (simp add: fm_inv_def batch_ok_def [abs_def])
  ultimately show ?thesis using inv k(2) unfolding fm_inv_def by blast
qed

section \<open>Everybody is answered\<close>

text \<open>The steps of the processor itself, without new functions and without rounds of the flusher that find nothing to do.\<close>

inductive own_step :: "fm_state \<Rightarrow> fm_state \<Rightarrow> bool" where
  own_idle: "\<not> fb_stop s \<Longrightarrow> fb_pending s \<noteq> [] \<Longrightarrow> cancelled \<or> fb_tail s \<le> now - fb_last s \<Longrightarrow> own_step s (idle_flush now cancelled s)"
| own_enter: "fb_queue s \<noteq> [] \<Longrightarrow> busy s < fb_workers s \<Longrightarrow> own_step s (enter_batch s)"
| own_bump: "i < length (fb_entered s) \<Longrightarrow> own_step s (bump_seq i s)"
| own_finish: "i < length (fb_running s) \<Longrightarrow> answer_fits (fb_taint s) ans \<Longrightarrow> own_step s (finish_batch i ans s)"

lemma own_is_step: "own_step s t \<Longrightarrow> fm_step s t"
  by (erule own_step.cases) (auto intro: fm_step.intros)

definition fm_rank :: "fm_state \<Rightarrow> nat" where
  "fm_rank s = 4 * length (fb_pending s) + 3 * length (fb_queue s) + 2 * length (fb_entered s) + length (fb_running s)"

lemma own_step_rank: "own_step s t \<Longrightarrow> fm_rank t < fm_rank s"
proof (induction rule: own_step.induct)
  case (own_idle s cancelled now)
  then show ?case by (cases "fb_pending s") (auto simp: idle_flush_def submit_def fm_rank_def)
next
  case (own_enter s)
  then show ?case by (cases "fb_queue s") (auto simp: enter_batch_def fm_rank_def)
next
  case (own_bump i s)
  then show ?case by (auto simp: bump_seq_def fm_rank_def)
next
  case (own_finish i s ans)
  obtain db ps rs n where f: "finish_batch i ans s = (leave i s)\<lparr>fb_db := db, fb_state := ps, fb_processed := n, fb_results := rs,
     fb_events := fb_events s @ map snd (fst (fb_running s ! i))\<rparr>" using finish_batch_frame by blast
  show ?case unfolding f using own_finish by (auto simp: leave_def fm_rank_def)
qed

lemma own_steps_wf: "wf {(t, s). own_step s t}"
  by (rule wf_subset [OF wf_measure [of fm_rank]]) (auto dest: own_step_rank)

lemma some_answer: "\<exists>ans. answer_fits t ans"
  by (cases t) (auto intro: exI [of _ "TaintAnswer None"] exI [of _ "EntryAnswer None"])

lemma own_progress:
  assumes "fm_inv s" and "\<not> fb_stop s" and "e < fb_collected s" and "e \<notin> set (fb_events s)"
  shows "\<exists>t. own_step s t"
proof (cases "fb_running s = [] \<and> fb_entered s = []")
  case False
  then show ?thesis using some_answer [of "fb_taint s"] own_bump [of 0 s] own_finish [of 0 s] by fastforce
next
  case idle: True
  show ?thesis
  proof (cases "fb_queue s = []")
    case False
    have "busy s < fb_workers s" using idle assms(1) by (simp add: busy_def fm_inv_def)
    then show ?thesis using False own_enter by blast
  next
    case True
    obtain k where k: "map snd (concat (fb_queue s) @ fb_pending s) = [k..<fb_collected s]"
      "mset (with_agent s) + mset (fb_events s) = mset [0..<k]" using assms(1) by (auto simp: fm_inv_def)
    have "set (fb_events s) = {0..<k}" using k(2) idle mset_eq_setD [of "fb_events s" "[0..<k]"] by (simp add: with_agent_def)
    then have "k < fb_collected s" using assms(3,4) by auto
    then have "fb_pending s \<noteq> []" using arg_cong [OF k(1), of length] True by auto
    then show ?thesis using own_idle [of s True] assms(2) by blast
  qed
qed

lemma own_step_stop: "own_step s t \<Longrightarrow> fb_stop t = fb_stop s \<and> fb_collected t = fb_collected s"
proof (induction rule: own_step.induct)
  case (own_finish i s ans)
  obtain db ps rs n where f: "finish_batch i ans s = (leave i s)\<lparr>fb_db := db, fb_state := ps, fb_processed := n, fb_results := rs,
     fb_events := fb_events s @ map snd (fst (fb_running s ! i))\<rparr>" using finish_batch_frame by blast
  show ?case unfolding f by (simp add: leave_def)
qed (auto simp: idle_flush_def submit_def enter_batch_def bump_seq_def split: list.splits)

text \<open>
  C16: No caller of \<open>enqueue\<close> waits for ever before \<open>flush\<close> is called: the steps of the processor end, and they can only end when every
  event is set. A batch that stays incomplete is sent by the idle flusher, also when the run is cancelled.
\<close>
theorem every_caller_is_answered:
  assumes "reach fm_start fm_step s" and "\<not> fb_stop s"
  shows "wf {(t, s). own_step s t} \<and> (\<exists>t. own_step\<^sup>*\<^sup>* s t \<and> (\<nexists>u. own_step t u))
    \<and> (\<forall>t. own_step\<^sup>*\<^sup>* s t \<longrightarrow> (\<nexists>u. own_step t u) \<longrightarrow> set (fb_events t) = {0..<fb_collected s})"
proof (intro conjI allI impI own_steps_wf)
  show "\<exists>t. own_step\<^sup>*\<^sup>* s t \<and> (\<nexists>u. own_step t u)"
    using own_steps_wf
  proof (induction s rule: wf_induct_rule)
    case (less s)
    show ?case
    proof (cases "\<exists>u. own_step s u")
      case True
      then obtain u where u: "own_step s u" by blast
      then obtain t where "own_step\<^sup>*\<^sup>* u t" "\<nexists>v. own_step t v" using less [of u] by blast
      then show ?thesis using u by (meson converse_rtranclp_into_rtranclp)
    qed auto
  qed
next
  fix t
  assume run: "own_step\<^sup>*\<^sup>* s t" and stuck: "\<nexists>u. own_step t u"
  have "reach fm_start fm_step t \<and> \<not> fb_stop t \<and> fb_collected t = fb_collected s"
    using run by induction (use assms own_step_stop own_is_step in \<open>auto intro: reach_step\<close>)
  then have inv: "fm_inv t" and going: "\<not> fb_stop t" and n: "fb_collected t = fb_collected s" using batches.reach_inv by blast+
  from inv obtain k where k: "k \<le> fb_collected t" "mset (with_agent t) + mset (fb_events t) = mset [0..<k]" by (auto simp: fm_inv_def)
  have "set (fb_events t) \<subseteq> set_mset (mset (with_agent t) + mset (fb_events t))" by simp
  then have "set (fb_events t) \<subseteq> {0..<k}" unfolding k(2) by simp
  moreover have "{0..<fb_collected t} \<subseteq> set (fb_events t)" using own_progress [OF inv going] stuck by (metis atLeastLessThan_iff subsetI)
  ultimately show "set (fb_events t) = {0..<fb_collected s}" using k(1) n by auto
qed


section \<open>Who is filtered\<close>

text \<open>The \<open>k\<close>th attempt is the first whose answer can be read, nobody has cancelled before, and it lists \<open>xs\<close>.\<close>

definition first_answer ::
  "(string \<Rightarrow> pyval option) \<Rightarrow> (nat \<Rightarrow> bool) \<Rightarrow> (nat \<Rightarrow> string option) \<Rightarrow> nat \<Rightarrow> nat \<Rightarrow> string list \<Rightarrow> bool" where
  "first_answer json cancel out i k xs \<longleftrightarrow> list_all (\<lambda>j. \<not> cancel j) [i..<Suc k]
     \<and> list_all (\<lambda>j. map_option (parse_result json) (out j) = Some None) [i..<k]
     \<and> map_option (parse_result json) (out k) = Some (Some xs)"

lemma first_answer_next:
  "i < k \<Longrightarrow> first_answer json cancel out i k xs \<longleftrightarrow>
    \<not> cancel i \<and> map_option (parse_result json) (out i) = Some None \<and> first_answer json cancel out (Suc i) k xs"
  by (auto simp: first_answer_def upt_conv_Cons)

lemma first_answer_now:
  "first_answer json cancel out i i xs \<longleftrightarrow> \<not> cancel i \<and> map_option (parse_result json) (out i) = Some (Some xs)"
  by (simp add: first_answer_def)

lemma classify_drops:
  assumes "h \<in> set hs"
  shows "(\<exists>ys. classify_try json cancel out hs i n = Some ys \<and> h \<notin> set ys) \<longleftrightarrow>
    (\<exists>k xs. i \<le> k \<and> k < i + n \<and> first_answer json cancel out i k xs \<and> h \<notin> set xs)"
proof (induction n arbitrary: i)
  case 0
  then show ?case using assms by auto
next
  case (Suc n)
  have split: "(\<exists>k xs. i \<le> k \<and> k < i + Suc n \<and> first_answer json cancel out i k xs \<and> h \<notin> set xs) \<longleftrightarrow>
      (\<exists>xs. first_answer json cancel out i i xs \<and> h \<notin> set xs) \<or>
      (\<exists>k xs. Suc i \<le> k \<and> k < Suc i + n \<and> first_answer json cancel out i k xs \<and> h \<notin> set xs)" (is "?L = ?R")
  proof
    assume ?L
    then obtain k xs where k: "i \<le> k" "k < i + Suc n" "first_answer json cancel out i k xs" "h \<notin> set xs" by blast
    show ?R
    proof (cases "k = i")
      case False
      then have "Suc i \<le> k" "k < Suc i + n" using k(1,2) by simp_all
      then show ?thesis using k(3,4) by blast
    qed (use k in blast)
  next
    assume ?R
    then show ?L
    proof (elim disjE exE conjE)
      fix k xs
      assume k: "Suc i \<le> k" "k < Suc i + n" "first_answer json cancel out i k xs" "h \<notin> set xs"
      then show ?L by (intro exI [of _ k] exI [of _ xs]) simp
    qed force
  qed
  show ?case
  proof (cases "cancel i")
    case True
    then show ?thesis unfolding split using assms by (auto simp: first_answer_next first_answer_now)
  next
    case go: False
    show ?thesis
    proof (cases "map_option (parse_result json) (out i)")
      case None
      then show ?thesis unfolding split using go by (auto simp: first_answer_next first_answer_now)
    next
      case (Some p)
      then obtain a where a: "out i = Some a" "p = parse_result json a" by (cases "out i") auto
      show ?thesis
      proof (cases p)
        case None
        with go a Some have "classify_try json cancel out hs i (Suc n) = classify_try json cancel out hs (Suc i) n" by simp
        moreover have "first_answer json cancel out i k xs \<longleftrightarrow> first_answer json cancel out (Suc i) k xs" if "Suc i \<le> k" for k xs
          using that go Some None by (simp add: first_answer_next)
        ultimately show ?thesis unfolding split using Suc.IH [of "Suc i"] Some None by (auto simp: first_answer_now)
      next
        case (Some xs)
        then show ?thesis unfolding split using go a assms by (auto simp: first_answer_next first_answer_now)
      qed
    qed
  qed
qed

lemma fold_dset_hash:
  "map_of (fold (\<lambda>(f, _). dset (bf_hash f) (g (bf_hash f))) b r) h = (if h \<in> bf_hash ` fst ` set b then Some (g h) else map_of r h)"
  by (induction b arbitrary: r) auto

lemma finish_entry_results:
  "fb_results (finish_entry idx ans b s) = fold (\<lambda>(f, _). dset (bf_hash f) (PStr (entry_decision (kept_hashes ans b) f))) b (fb_results s)"
  using fold_store_entry [of idx "kept_hashes ans b" b s] by (auto simp: finish_entry_def Let_def)

lemma enqueue_result_finish:
  assumes "bf_hash f \<in> bf_hash ` fst ` set b"
  shows "enqueue_result f (finish_entry idx ans b s) = PStr (entry_decision (kept_hashes ans b) f)"
  using fold_dset_hash [of "\<lambda>h. PStr (if h \<in> set (kept_hashes ans b) then ''keep'' else ''filter'')" b "fb_results s" "bf_hash f"] assms
  by (simp add: enqueue_result_def finish_entry_results get_or_def entry_decision_def)


section \<open>What a batch writes\<close>

lemma lookup_on_function:
  "lookup_function file' h' (on_function file h f ps) =
    (if file' = file \<and> h' = h then map_option f (lookup_function file h ps) else lookup_function file' h' ps)"
  by (auto simp: lookup_function_def on_function_def split: option.splits)


definition stored_keys :: "batch \<Rightarrow> (string \<times> string) set" where
  "stored_keys b = {(bf_file f, bf_hash f) | f. f \<in> fst ` set b \<and> bf_file f \<noteq> []}"

lemma stored_keys_simps [simp]:
  "stored_keys [] = {}"
  "stored_keys ((f, e) # b) = (if bf_file f = [] then stored_keys b else insert (bf_file f, bf_hash f) (stored_keys b))"
  by (auto simp: stored_keys_def)

lemma mark_entry_idem [simp]: "mark_entry idx d (mark_entry idx d g) = mark_entry idx d g"
  by (simp add: mark_entry_def)

definition hash_decision :: "string list \<Rightarrow> string \<Rightarrow> string" where
  "hash_decision hs h = (if h \<in> set hs then ''keep'' else ''filter'')"

lemma entry_decision_hash: "entry_decision hs f = hash_decision hs (bf_hash f)"
  by (simp add: entry_decision_def hash_decision_def)

lemma fold_store_state:
  "lookup_function file h (fb_state (fold (\<lambda>(f, _). store_entry idx hs f) b s)) =
    (if (file, h) \<in> stored_keys b then map_option (mark_entry idx (hash_decision hs h)) (lookup_function file h (fb_state s))
     else lookup_function file h (fb_state s))"
proof (induction b arbitrary: s)
  case (Cons x b)
  then show ?case
    by (cases x) (auto simp: store_entry_def Let_def lookup_on_function entry_decision_hash option.map_comp comp_def)
qed simp

definition decided_row :: "string list \<Rightarrow> func_row \<Rightarrow> func_row" where
  "decided_row hs r = r\<lparr>fn_r3 := Some (hash_decision hs (fn_hash r)), fn_input := Some (hash_decision hs (fn_hash r) = ''keep'')\<rparr>"

lemma decided_row_idem [simp]: "decided_row hs (decided_row hs r) = decided_row hs r" "fn_hash (decided_row hs r) = fn_hash r"
  by (simp_all add: decided_row_def)

lemma store_entry_rows:
  "fdb_funcs (fb_db (store_entry idx hs f s)) =
    (if bf_file f = [] then fdb_funcs (fb_db s) else map (\<lambda>r. if fn_hash r = bf_hash f then decided_row hs r else r) (fdb_funcs (fb_db s)))"
  by (auto simp: store_entry_def Let_def set_fast_mode_result_def upd_func_def decided_row_def entry_decision_hash)

lemma fold_store_rows:
  "fdb_funcs (fb_db (fold (\<lambda>(f, _). store_entry idx hs f) b s)) =
    map (\<lambda>r. if fn_hash r \<in> snd ` stored_keys b then decided_row hs r else r) (fdb_funcs (fb_db s))"
proof (induction b arbitrary: s)
  case (Cons x b)
  then show ?case by (cases x) (auto simp: store_entry_rows)
qed simp

text \<open>
  A finished batch writes one decision per function to all three places, the results the callers read, the state file and the
  database: that of the answer, with the number of the batch, and touches no other function.
\<close>
theorem batch_writes_decisions:
  assumes "reach fm_start fm_step s" and "i < length (fb_running s)" and "fb_running s ! i = (b, idx)" and "\<not> fb_taint s"
    and "t = finish_batch i (EntryAnswer ans) s"
  shows "fm_step s t \<and> (\<forall>h. map_of (fb_results t) h = (if h \<in> bf_hash ` fst ` set b then Some (PStr (hash_decision (kept_hashes ans b) h)) else map_of (fb_results s) h))
    \<and> (\<forall>file h. lookup_function file h (fb_state t) =
        (if (file, h) \<in> stored_keys b then map_option (mark_entry idx (hash_decision (kept_hashes ans b) h)) (lookup_function file h (fb_state s))
         else lookup_function file h (fb_state s)))
    \<and> fdb_funcs (fb_db t) = map (\<lambda>r. if fn_hash r \<in> snd ` stored_keys b then decided_row (kept_hashes ans b) r else r) (fdb_funcs (fb_db s))"
proof (intro conjI allI)
  let ?hs = "kept_hashes ans b"
  have t: "t = finish_entry idx ans b (leave i s)" using assms(3,5) by (simp add: finish_batch_def)
  obtain db ps where f: "fold (\<lambda>(f, _). store_entry idx ?hs f) b (leave i s) = (leave i s)\<lparr>fb_db := db, fb_state := ps\<rparr>"
    using fold_store_entry by blast
  have db: "fb_db t = fb_db (fold (\<lambda>(f, _). store_entry idx ?hs f) b (leave i s))"
    and ps: "fb_state t = fb_state (fold (\<lambda>(f, _). store_entry idx ?hs f) b (leave i s))"
    unfolding t finish_entry_def Let_def f by simp_all
  have same: "fb_db (leave i s) = fb_db s" "fb_state (leave i s) = fb_state s" "fb_results (leave i s) = fb_results s"
    by (simp_all add: leave_def)
  show "fm_step s t" using fm_finish assms(2,4,5) by simp
  show "map_of (fb_results t) h = (if h \<in> bf_hash ` fst ` set b then Some (PStr (hash_decision ?hs h)) else map_of (fb_results s) h)" for h
    unfolding t finish_entry_results entry_decision_hash same(3)
    by (rule fold_dset_hash [of "\<lambda>h. PStr (hash_decision ?hs h)"])
  show "lookup_function fl h (fb_state t) =
      (if (fl, h) \<in> stored_keys b then map_option (mark_entry idx (hash_decision ?hs h)) (lookup_function fl h (fb_state s))
       else lookup_function fl h (fb_state s))" for fl h
    unfolding ps fold_store_state same ..
  show "fdb_funcs (fb_db t) = map (\<lambda>r. if fn_hash r \<in> snd ` stored_keys b then decided_row ?hs r else r) (fdb_funcs (fb_db s))"
    unfolding db fold_store_rows same ..
qed

section \<open>Two defects\<close>

text \<open>
  When every caller has been answered, which is when the engine calls \<open>flush\<close>, no function is pending: \<open>flush\<close> returns at once and
  the summary of the fast mode is never reported.
\<close>
theorem summary_never_reported:
  assumes "reach fm_start fm_step s" and "fb_flush s = NoFlush" and "{0..<fb_collected s} \<subseteq> set (fb_events s)"
    and "fm_step\<^sup>*\<^sup>* (flush_begin s) t"
  shows "fb_flush t = FlushQuiet"
proof -
  have "fm_inv s" by (rule batches.reach_inv [OF assms(1)])
  then obtain k where k: "k \<le> fb_collected s" "map snd (concat (fb_queue s) @ fb_pending s) = [k..<fb_collected s]"
    "mset (with_agent s) + mset (fb_events s) = mset [0..<k]" by (auto simp: fm_inv_def)
  have "set (fb_events s) \<subseteq> set_mset (mset (with_agent s) + mset (fb_events s))" by simp
  then have "fb_collected s \<le> k" using assms(3) unfolding k(3) by (cases "fb_collected s") (auto simp: subset_iff)
  then have "fb_pending s = []" using k(2) by simp
  then have start: "fb_flush (flush_begin s) = FlushQuiet" by (simp add: flush_begin_def Let_def)
  show ?thesis using assms(4)
  proof induction
    case (step u v)
    from step(2) show ?case
    proof (cases rule: fm_step.cases)
      case (fm_finish i ans)
      obtain db ps rs n where "finish_batch i ans u = (leave i u)\<lparr>fb_db := db, fb_state := ps, fb_processed := n, fb_results := rs,
         fb_events := fb_events u @ map snd (fst (fb_running u ! i))\<rparr>" using finish_batch_frame by blast
      then show ?thesis using step(3) fm_finish(1) by (simp add: leave_def)
    qed (use step(3) in \<open>auto simp: enqueue_def idle_flush_def enter_batch_def bump_seq_def submit_def Let_def split: list.splits\<close>)
  qed (rule start)
qed

text \<open>
  The number of a batch is read and incremented without the lock: two threads that start together can give the same number, and
  with it the same session file and directory, to two batches.
\<close>
theorem batch_number_shared:
  assumes "fb_queue s = b1 # b2 # bs" and "fb_entered s = []" and "Suc (busy s) < fb_workers s"
  shows "\<exists>t. fm_step\<^sup>*\<^sup>* s t \<and> (b1, fb_seq s) \<in> set (fb_running t) \<and> (b2, fb_seq s) \<in> set (fb_running t)"
proof -
  define s1 where "s1 = enter_batch s"
  define s2 where "s2 = enter_batch s1"
  define s3 where "s3 = bump_seq 0 s2"
  have s1: "fb_queue s1 = b2 # bs" "fb_entered s1 = [(b1, fb_seq s)]" "fb_seq s1 = fb_seq s" "busy s1 = Suc (busy s)" "fb_workers s1 = fb_workers s"
    using assms by (simp_all add: s1_def enter_batch_def busy_def)
  have s2: "fb_entered s2 = [(b1, fb_seq s), (b2, fb_seq s)]" using s1 by (simp add: s2_def enter_batch_def)
  have s3: "fb_entered s3 = [(b2, fb_seq s)]" "(b1, fb_seq s) \<in> set (fb_running s3)" using s2 by (simp_all add: s3_def bump_seq_def)
  have "fm_step s s1" "fm_step s1 s2" "fm_step s2 s3" "fm_step s3 (bump_seq 0 s3)"
    using assms s1 s2 s3 unfolding s1_def s2_def s3_def by (auto intro!: fm_enter fm_bump)
  then have "fm_step\<^sup>*\<^sup>* s (bump_seq 0 s3)" by (meson r_into_rtranclp rtranclp_trans)
  moreover have "(b1, fb_seq s) \<in> set (fb_running (bump_seq 0 s3))" "(b2, fb_seq s) \<in> set (fb_running (bump_seq 0 s3))"
    using s3 by (simp_all add: bump_seq_def)
  ultimately show ?thesis by blast
qed


section \<open>An example\<close>

definition sample_batch_func :: batch_func where
  "sample_batch_func = \<lparr>bf_hash = ''h'', bf_file = ''x''\<rparr>"

definition sample_fm_start :: fm_state where
  "sample_fm_start = fm_init False False 10 None None 0 (new_pipeline 0 ''t'') empty_fdb"

definition sample_fm_waiting :: fm_state where
  "sample_fm_waiting = enqueue sample_batch_func 0 sample_fm_start"

definition sample_fm_running :: fm_state where
  "sample_fm_running = bump_seq 0 (enter_batch (idle_flush 100 False sample_fm_waiting))"

lemmas sample_fm_defs = sample_fm_running_def sample_fm_waiting_def sample_fm_start_def fm_init_def enqueue_def idle_flush_def
  submit_def enter_batch_def bump_seq_def batch_size_def Let_def

lemma sample_fm_reach:
  "reach fm_start fm_step sample_fm_waiting" "reach fm_start fm_step sample_fm_running"
  "\<not> fb_stop sample_fm_waiting" "fb_collected sample_fm_waiting = 1"
  "fb_running sample_fm_running = [([(sample_batch_func, 0)], 0)]" "\<not> fb_taint sample_fm_running"
proof -
  have "reach fm_start fm_step sample_fm_start" unfolding sample_fm_start_def by (intro reach_init fm_start.intros)
  then show waiting: "reach fm_start fm_step sample_fm_waiting" unfolding sample_fm_waiting_def by (rule reach_step) (rule fm_enqueue)
  have open_flusher: "\<not> fb_stop sample_fm_waiting"
    and queued: "fb_queue (idle_flush 100 False sample_fm_waiting) \<noteq> []"
      "busy (idle_flush 100 False sample_fm_waiting) < fb_workers (idle_flush 100 False sample_fm_waiting)"
    and entered: "0 < length (fb_entered (enter_batch (idle_flush 100 False sample_fm_waiting)))"
    by (simp_all add: sample_fm_defs busy_def)
  show "reach fm_start fm_step sample_fm_running" unfolding sample_fm_running_def
    by (rule reach_step [OF reach_step [OF reach_step [OF waiting fm_idle [OF open_flusher]] fm_enter [OF queued]] fm_bump [OF entered]])
qed (simp_all add: sample_fm_defs)

theorem batches_partition_the_arrivals_witness:
  "mset (with_agent sample_fm_running) + mset (fb_events sample_fm_running) = mset [0..<fb_collected sample_fm_running] \<and>
   fb_collected sample_fm_running = 1"
  using batches_partition_the_arrivals [OF sample_fm_reach(2)] by (simp add: sample_fm_defs)

theorem every_caller_is_answered_witness:
  "\<exists>t. own_step\<^sup>*\<^sup>* sample_fm_waiting t \<and> set (fb_events t) = {0}"
  using every_caller_is_answered [OF sample_fm_reach(1,3)] by (auto simp: sample_fm_reach(4))

definition sample_list_json :: "string \<Rightarrow> pyval option" where
  "sample_list_json s = (if s = ''[]'' then Some (PList []) else None)"

definition sample_fast_out :: "nat \<Rightarrow> string option" where
  "sample_fast_out k = Some (if k = 1 then ''no list'' else ''<result> [] </result>'')"

lemma sample_first_answer: "first_answer sample_list_json (\<lambda>_. False) sample_fast_out 1 2 []"
proof -
  have "parse_result sample_list_json ''no list'' = None" "parse_result sample_list_json ''<result> [] </result>'' = Some []" by code_simp+
  then show ?thesis by (simp add: first_answer_def sample_fast_out_def upt_conv_Cons)
qed


theorem batch_writes_decisions_witness:
  "map_of (fb_results (finish_batch 0 (EntryAnswer None) sample_fm_running)) ''h'' = Some (PStr ''keep'')"
  using batch_writes_decisions [OF sample_fm_reach(2), of 0 "[(sample_batch_func, 0)]" 0 "finish_batch 0 (EntryAnswer None) sample_fm_running" None]
  by (simp add: sample_fm_reach(5,6) sample_batch_func_def kept_hashes_def hash_decision_def)

end
