(* ===== verification/SuperFast.thy ===== *)
theory SuperFast
  imports FastMode StageQueue EngineStages
begin

text \<open>
  The engine of the super fast mode (\<open>app/pipeline/super_fast_engine.py\<close>) from the end of its set-up to the final list: the
  five processors R1, signature filter, body filter, taints and R4 over the state, the function database and the call chain; the thread
  that builds the call chain; and their composition with the staged pipeline of \<open>StageQueue\<close>. A call of a processor is one step, so
  the semaphore of the agents, which only delays calls, is left out, as are events, session files and the copies to the network
  drive. The extractor, the answers of the agents and the paths are arguments; a state is always fresh, so that counters are integers.
\<close>

section \<open>State and environment\<close>

datatype sf_item = FileItem string string | FuncItem string string string

record sf_state =
  sf_ps :: pipeline_state
  sf_db :: func_db
  sf_cc :: cc_db

text \<open>
  \<open>se_fast\<close> is \<open>fast_mode or super_fast_mode\<close>; the extractor returns \<open>None\<close> when it raises; \<open>se_files\<close> gives the text of a
  module file when it can be read.
\<close>

record sf_env =
  se_fast :: bool
  se_r1_max :: int
  se_r4_max :: int
  se_extract :: "string \<Rightarrow> func_extract list option"
  se_md5 :: "string \<Rightarrow> string"
  se_abs :: "string \<Rightarrow> string"
  se_rel :: "string \<Rightarrow> string"
  se_now :: micros
  se_modules :: "string list"
  se_paths :: "(string \<times> string) list"
  se_files :: "string \<Rightarrow> string option"

text \<open>What the agent of a call answers: the kept hashes, the analyses, or the result file of R4; \<open>None\<close> is an exception.\<close>

record sf_answer =
  an_keep :: "string list option"
  an_taints :: "dict list option"
  an_r4 :: "pyval option option"

section \<open>R1\<close>

definition set_file_state :: "string \<Rightarrow> file_state \<Rightarrow> sf_state \<Rightarrow> sf_state" where
  "set_file_state fl f s = s\<lparr>sf_ps := (sf_ps s)\<lparr>ps_files := dset fl f (ps_files (sf_ps s))\<rparr>\<rparr>"

definition fresh_functions :: "sf_env \<Rightarrow> func_extract list \<Rightarrow> string list \<Rightarrow> (string \<times> function_state) list \<Rightarrow> (string \<times> function_state) list" where
  "fresh_functions env fes hs fns =
     fold (\<lambda>(fe, h). dset h (new_function (se_now env) h (fe_name fe) (fe_signature fe) (fe_start fe) (fe_end fe))) (zip fes hs) fns"

text \<open>\<open>None\<close> is the exception for a file that is not registered.\<close>

definition sf_run_r1 :: "sf_env \<Rightarrow> string \<Rightarrow> string \<Rightarrow> sf_state \<Rightarrow> sf_state option" where
  "sf_run_r1 env fl path s =
     (case map_of (ps_files (sf_ps s)) fl of
        None \<Rightarrow> None
      | Some f \<Rightarrow>
          if fl_r1_j_state f = Failed then Some s
          else if se_r1_max env = 0 then Some (set_file_state fl (f\<lparr>fl_r1_w_state := Passed, fl_r1_j_state := Passed\<rparr>) s)
          else (case se_extract env path of
              None \<Rightarrow> Some (set_file_state fl (f\<lparr>fl_r1_w_state := Failed, fl_r1_j_state := Failed\<rparr>) s)
            | Some fes \<Rightarrow>
                (let hs = map (\<lambda>fe. compute_func_hash (se_md5 env) (se_abs env path) (fe_name fe) (fe_start fe)) fes
                 in Some ((set_file_state fl (f\<lparr>fl_functions := fresh_functions env fes hs (fl_functions f),
                       fl_r1_w_state := Passed, fl_r1_j_state := Passed\<rparr>) s)
                     \<lparr>sf_db := write_functions fl path fes hs (se_rel env path) (sf_db s)\<rparr>))))"

definition sf_r1_processor :: "sf_env \<Rightarrow> string \<Rightarrow> string \<Rightarrow> sf_state \<Rightarrow> sf_state \<times> sf_item list" where
  "sf_r1_processor env fl path s =
     (case sf_run_r1 env fl path s of
        None \<Rightarrow> (s, [])
      | Some s1 \<Rightarrow> (case map_of (ps_files (sf_ps s1)) fl of
            None \<Rightarrow> (s1, [])
          | Some f \<Rightarrow>
              (let fns = map (\<lambda>(h, g). (h, if se_fast env then g\<lparr>fs_r2_j_state := Passed\<rparr> else g)) (fl_functions f)
               in (set_file_state fl (f\<lparr>fl_functions := fns\<rparr>) s1,
                   map (\<lambda>(h, g). FuncItem h fl path) (filter (\<lambda>(h, g). fs_r2_j_state g = Passed) fns)))))"

section \<open>The filters\<close>

text \<open>The batch as the loops of the processors unpack it; items of the first stage do not get here.\<close>

fun func_items :: "sf_item list \<Rightarrow> (string \<times> string) list" where
  "func_items [] = []"
| "func_items (FuncItem h fl path # b) = (h, fl) # func_items b"
| "func_items (FileItem fl path # b) = func_items b"

fun item_hash :: "sf_item \<Rightarrow> string" where
  "item_hash (FuncItem h fl path) = h"
| "item_hash (FileItem fl path) = fl"

definition known_items :: "sf_item list \<Rightarrow> sf_state \<Rightarrow> string list" where
  "known_items b s = map fst (filter (\<lambda>(h, fl). in_state fl h (sf_ps s)) (func_items b))"

definition sf_api_filter_processor :: "string list option \<Rightarrow> sf_item list \<Rightarrow> sf_state \<Rightarrow> sf_state \<times> sf_item list" where
  "sf_api_filter_processor ans b s =
     (if known_items b s = [] then (s, [])
      else case ans of
        None \<Rightarrow> (s, b)
      | Some hs \<Rightarrow>
          (s\<lparr>sf_db := fold (\<lambda>(h, fl). set_fast_mode_result h (if h \<in> set hs then ''keep'' else ''filter'') (h \<in> set hs))
               (func_items b) (sf_db s)\<rparr>,
           filter (\<lambda>x. item_hash x \<in> set hs) b))"

definition sf_phase1_processor :: "string list option \<Rightarrow> sf_item list \<Rightarrow> sf_state \<Rightarrow> sf_state \<times> sf_item list" where
  "sf_phase1_processor ans b s =
     (case ans of
        None \<Rightarrow> (s, b)
      | Some hs \<Rightarrow>
          (s\<lparr>sf_ps := fold (\<lambda>(h, fl) ps. if h \<in> set hs
                then on_function fl h (\<lambda>g. g\<lparr>fs_r4_decision := PStr ''keep'', fs_has_external_input := PBool True\<rparr>) ps else ps)
               (func_items b) (sf_ps s)\<rparr>,
           filter (\<lambda>x. item_hash x \<in> set hs) b))"

section \<open>R3 and R4\<close>

definition has_taints :: "dict list \<Rightarrow> string \<Rightarrow> bool" where
  "has_taints ds h \<longleftrightarrow> truthy (get (taint_analysis ds h) ''taints'')"

definition role_value :: "dict \<Rightarrow> pyval" where
  "role_value a = (let r = text_of (get a ''entry_role'') in if r = [] then PNone else PStr r)"

definition store_analysis :: "dict list \<Rightarrow> string \<Rightarrow> string \<Rightarrow> sf_state \<Rightarrow> sf_state" where
  "store_analysis ds h fl s =
     (if has_taints ds h \<and> in_state fl h (sf_ps s)
      then s\<lparr>sf_ps := on_function fl h (\<lambda>g. g\<lparr>fs_entry_role := role_value (taint_analysis ds h)\<rparr>) (sf_ps s),
             sf_db := (case set_analysis h (full_analysis (taint_analysis ds h)) (sf_db s) of None \<Rightarrow> sf_db s | Some db \<Rightarrow> db)\<rparr>
      else s)"

definition sf_r3_processor :: "dict list option \<Rightarrow> sf_item list \<Rightarrow> sf_state \<Rightarrow> sf_state \<times> sf_item list" where
  "sf_r3_processor ans b s =
     (case ans of
        None \<Rightarrow> (s, b)
      | Some ds \<Rightarrow> (fold (\<lambda>(h, fl). store_analysis ds h fl) (func_items b) s, filter (\<lambda>x. has_taints ds (item_hash x)) b))"

text \<open>The first file that has the function.\<close>

definition file_with :: "string \<Rightarrow> pipeline_state \<Rightarrow> string option" where
  "file_with h ps = map_option fst (find (\<lambda>(fl, f). map_of (fl_functions f) h \<noteq> None) (ps_files ps))"

definition r4_attempts_of :: "function_state \<Rightarrow> int" where
  "r4_attempts_of g = (case fs_r4_attempts g of PInt n \<Rightarrow> n | _ \<Rightarrow> 0)"

definition sf_run_r4 :: "int \<Rightarrow> bool \<Rightarrow> pyval option option \<Rightarrow> string \<Rightarrow> sf_state \<Rightarrow> sf_state" where
  "sf_run_r4 r4_max cancelled ans h s =
     (case file_with h (sf_ps s) of
        None \<Rightarrow> s
      | Some fl \<Rightarrow> (case lookup_function fl h (sf_ps s) of
            None \<Rightarrow> s
          | Some g \<Rightarrow>
              (let upd = (\<lambda>f. s\<lparr>sf_ps := on_function fl h f (sf_ps s)\<rparr>);
                   kept_as_is = (\<lambda>g. g\<lparr>fs_r4_state := Passed, fs_r4_decision := PStr ''keep''\<rparr>);
                   started = (\<lambda>g. g\<lparr>fs_r4_state := Running, fs_r4_attempts := PInt (r4_attempts_of g + 1)\<rparr>)
               in if h = [] \<or> fs_r4_state g = Passed then s
                  else if \<not> should_continue (r4_attempts_of g) r4_max cancelled then upd kept_as_is
                  else (case ans of
                      None \<Rightarrow> upd (kept_as_is \<circ> started)
                    | Some out \<Rightarrow>
                        (let d = r4_answer_decision out; s1 = upd (\<lambda>g. (started g)\<lparr>fs_r4_decision := PStr d\<rparr>)
                         in if fl = [] then s1 else s1\<lparr>sf_db := update_r4_decision h d (sf_db s1)\<rparr>)))))"

section \<open>The call chain\<close>

definition sf_callchain :: "sf_env \<Rightarrow> sf_state \<Rightarrow> sf_state" where
  "sf_callchain env s =
     (if ps_cc_state (sf_ps s) = Passed then s
      else (let (cc, passed) = run_callchain_analysis (se_modules env) (se_paths env) (se_files env) (sf_db s) (sf_cc s)
            in s\<lparr>sf_cc := cc, sf_ps := (sf_ps s)\<lparr>ps_cc_state := if passed then Passed else Failed,
                   ps_cc_attempts := PInt ((case ps_cc_attempts (sf_ps s) of PInt n \<Rightarrow> n | _ \<Rightarrow> 0) + 1)\<rparr>\<rparr>))"

section \<open>The threads\<close>

text \<open>
  The stages with their workers and batch sizes. With a batch size of 1 the pipeline passes the item itself: the signature filter
  wraps it, the next two processors fail on it.
\<close>

definition sf_stages :: "nat \<Rightarrow> nat \<Rightarrow> bool \<Rightarrow> nat \<Rightarrow> (nat \<times> nat) list" where
  "sf_stages r1_workers slots super_fast n =
     [(r1_workers, 1), (slots, if super_fast then 300 else n), (slots, n), (slots, n), (slots, 1)]"

definition sf_proc :: "sf_env \<Rightarrow> sf_answer \<Rightarrow> bool \<Rightarrow> bool \<Rightarrow> nat \<Rightarrow> sf_item list \<Rightarrow> sf_state \<Rightarrow> (sf_state \<times> sf_item list) option" where
  "sf_proc env ans cancelled single i b s =
     (if i = 0 then (case b of FileItem fl path # _ \<Rightarrow> Some (sf_r1_processor env fl path s) | _ \<Rightarrow> Some (s, []))
      else if i = 1 then Some (sf_api_filter_processor (an_keep ans) b s)
      else if i = 2 then (if single then None else Some (sf_phase1_processor (an_keep ans) b s))
      else if i = 3 then (if single then None else Some (sf_r3_processor (an_taints ans) b s))
      else (case b of FuncItem h _ _ # _ \<Rightarrow> Some (sf_run_r4 (se_r4_max env) cancelled (an_r4 ans) h s, []) | _ \<Rightarrow> Some (s, [])))"

datatype cc_thread = CCPoll | CCCount | CCBuild | CCEnd

record sf_run =
  sr_q :: "sf_item sq_state"
  sr_s :: sf_state
  sr_cc :: cc_thread

text \<open>The processor of a thread that is about to call it; in R4 it waits for the call chain.\<close>

definition calls_processor :: "sf_run \<Rightarrow> nat \<Rightarrow> nat \<Rightarrow> sf_item list option" where
  "calls_processor r i j = (case st_threads (sq_stages (sr_q r) ! i) ! j of Processing b e \<Rightarrow> Some b | _ \<Rightarrow> None)"

definition waits_for_cc :: "sf_run \<Rightarrow> nat \<Rightarrow> nat \<Rightarrow> bool" where
  "waits_for_cc r i j \<longleftrightarrow> i = 4 \<and> calls_processor r i j \<noteq> None \<and> sr_cc r \<noteq> CCEnd"

definition call_result :: "sf_env \<Rightarrow> sf_answer \<Rightarrow> sf_run \<Rightarrow> nat \<Rightarrow> sf_item list \<Rightarrow> (sf_state \<times> sf_item list) option" where
  "call_result env ans r i b = sf_proc env ans (sq_cancel (sr_q r)) (st_batch (sq_stages (sr_q r) ! i) = 1) i b (sr_s r)"

definition sf_worker :: "sf_env \<Rightarrow> sf_answer \<Rightarrow> nat \<Rightarrow> nat \<Rightarrow> bool \<Rightarrow> sf_run \<Rightarrow> sf_run option" where
  "sf_worker env ans i j timeout r =
     (if waits_for_cc r i j then None
      else map_option (\<lambda>q. r\<lparr>sr_q := q,
            sr_s := (case Option.bind (calls_processor r i j) (call_result env ans r i) of None \<Rightarrow> sr_s r | Some (s, _) \<Rightarrow> s)\<rparr>)
          (worker_step (\<lambda>k b. map_option snd (call_result env ans r k b)) i j timeout (sr_q r)))"

definition sf_main :: "sf_run \<Rightarrow> sf_run option" where
  "sf_main r = map_option (\<lambda>q. r\<lparr>sr_q := q\<rparr>) (main_step (sr_q r))"

text \<open>One round of the thread \<open>sq-cc\<close>: it polls until the queue of R1 is not empty, counts until R1 is done, and builds.\<close>

definition cc_round :: "sf_env \<Rightarrow> sf_run \<Rightarrow> sf_run" where
  "cc_round env r =
     (let st = sq_stages (sr_q r) ! 0; cancelled = sq_cancel (sr_q r)
      in case sr_cc r of
           CCPoll \<Rightarrow> if st_items st \<noteq> [] \<or> cancelled then r\<lparr>sr_cc := CCCount\<rparr> else r
         | CCCount \<Rightarrow> if cancelled \<or> length (se_paths env) \<le> st_done st then r\<lparr>sr_cc := CCBuild\<rparr> else r
         | CCBuild \<Rightarrow> r\<lparr>sr_cc := CCEnd, sr_s := if cancelled then sr_s r else sf_callchain env (sr_s r)\<rparr>
         | CCEnd \<Rightarrow> r)"

inductive sf_step :: "sf_env \<Rightarrow> sf_run \<Rightarrow> sf_run \<Rightarrow> bool" for env where
  sf_work: "sf_worker env ans i j timeout r = Some r' \<Longrightarrow> sf_step env r r'"
| sf_go: "sf_main r = Some r' \<Longrightarrow> sf_step env r r'"
| sf_cancel: "sf_step env r (r\<lparr>sr_q := (sr_q r)\<lparr>sq_cancel := True\<rparr>\<rparr>)"
| sf_chain: "sf_step env r (cc_round env r)"

inductive_cases sf_stepE: "sf_step env r r'"

definition sf_start :: "sf_env \<Rightarrow> nat \<Rightarrow> nat \<Rightarrow> bool \<Rightarrow> nat \<Rightarrow> sf_state \<Rightarrow> sf_run \<Rightarrow> bool" where
  "sf_start env r1_workers slots super_fast n s0 r \<longleftrightarrow>
     (\<exists>q. sq_init (sf_stages r1_workers slots super_fast n) (map (\<lambda>(fl, path). FileItem fl path) (se_paths env)) q
       \<and> r = \<lparr>sr_q = q, sr_s = s0, sr_cc = CCPoll\<rparr>)"

section \<open>The final list\<close>

text \<open>\<open>_run_r6_finalize\<close> and the files it reads are those of the other engine.\<close>

end
