(* ===== verification/SuperFastSafety.thy ===== *)
theory SuperFastSafety
  imports SuperFast FastModeSafety
begin

text \<open>
  The super fast run: it waits for ever when the workers of R1 have emptied their queue before the thread of the call chain looks
  at it, and is never stuck otherwise; and what its stages leave in the function database, which is where the final list comes from.
\<close>

section \<open>The staged pipeline inside the run\<close>

lemma sf_worker_step:
  assumes "sf_worker env ans i j timeout r = Some r'"
  shows "\<exists>proc. (\<forall>b. proc 0 b \<noteq> None) \<and> worker_step proc i j timeout (sr_q r) = Some (sr_q r')" "sr_cc r' = sr_cc r" "\<not> waits_for_cc r i j"
proof -
  have "call_result env ans r 0 b \<noteq> None" for b
    by (auto simp: call_result_def sf_proc_def split: list.splits sf_item.splits)
  then show "\<exists>proc. (\<forall>b. proc 0 b \<noteq> None) \<and> worker_step proc i j timeout (sr_q r) = Some (sr_q r')"
    using assms by (intro exI [of _ "\<lambda>k b. map_option snd (call_result env ans r k b)"]) (auto simp: sf_worker_def split: if_splits)
  show "sr_cc r' = sr_cc r" "\<not> waits_for_cc r i j" using assms by (auto simp: sf_worker_def split: if_splits)
qed

lemma cc_round_q [simp]: "sr_q (cc_round env r) = sr_q r"
  by (cases "sr_cc r") (simp_all add: cc_round_def Let_def)

text \<open>A step of the run is a step of the staged pipeline, for some processor that does not fail in R1, or none.\<close>

lemma sf_step_sq:
  assumes "sf_step env r r'"
  shows "sr_q r' = sr_q r \<or> (\<exists>proc. (\<forall>b. proc 0 b \<noteq> None) \<and> sq_step proc (sr_q r) (sr_q r'))"
  using assms
proof (cases rule: sf_step.cases)
  case (sf_work ans i j timeout)
  then show ?thesis using sf_worker_step(1) sq_worker by blast
next
  case sf_go
  then have "main_step (sr_q r) = Some (sr_q r')" by (auto simp: sf_main_def)
  then have "sq_step (\<lambda>i b. Some []) (sr_q r) (sr_q r')" by (rule sq_main)
  then show ?thesis by (intro disjI2 exI [of _ "\<lambda>i b. Some []"]) simp
next
  case sf_cancel
  have "sq_step (\<lambda>i b. Some []) (sr_q r) ((sr_q r)\<lparr>sq_cancel := True\<rparr>)" by (rule sq_cancel)
  then show ?thesis using sf_cancel by (intro disjI2 exI [of _ "\<lambda>i b. Some []"]) simp
next
  case sf_chain
  then show ?thesis by simp
qed

section \<open>An invariant of the run\<close>

fun before_answer :: "'a wst \<Rightarrow> bool" where
  "before_answer (Emitting rs b e) = False"
| "before_answer (Finishing b e) = False"
| "before_answer _ = True"

definition r4_untouched :: "sf_run \<Rightarrow> bool" where
  "r4_untouched r \<longleftrightarrow> (let st = sq_stages (sr_q r) ! 4 in st_done st = 0 \<and> st_failed st = 0 \<and> list_all before_answer (st_threads st))"

definition sf_inv :: "sf_env \<Rightarrow> sf_run \<Rightarrow> bool" where
  "sf_inv env r \<longleftrightarrow> sq_inv (sr_q r) \<and> sent_inv (sr_q r) \<and> length (sq_stages (sr_q r)) = 5 \<and> sq_total (sr_q r) = length (se_paths env)
     \<and> st_failed (sq_stages (sr_q r) ! 0) = 0 \<and> (sr_cc r \<noteq> CCEnd \<longrightarrow> r4_untouched r)"

lemma local_step_failed:
  "local_step proc n c tm st t = Some (st', t', out) \<Longrightarrow> \<forall>b. proc b \<noteq> None \<Longrightarrow> st_failed st' = st_failed st"
  by (erule local_step.elims) (auto split: option.splits list.splits if_splits, metis option.discI)

lemma local_step_before:
  "local_step proc n c tm st t = Some (st', t', out) \<Longrightarrow> before_answer t \<Longrightarrow> (\<forall>b e. t \<noteq> Processing b e) \<Longrightarrow>
    before_answer t' \<and> st_done st' = st_done st \<and> st_failed st' = st_failed st"
  by (erule local_step.elims) (auto split: option.splits list.splits if_splits)

lemma sf_inv_init:
  assumes "sf_start env w slots super n s0 r"
  shows "sf_inv env r"
proof -
  obtain q where q: "sq_init (sf_stages w slots super n) (map (\<lambda>(fl, path). FileItem fl path) (se_paths env)) q"
    "r = \<lparr>sr_q = q, sr_s = s0, sr_cc = CCPoll\<rparr>" using assms by (auto simp: sf_start_def)
  have len: "length (sq_stages q) = 5"
  proof -
    have "length (foldl (\<lambda>ss x. put_at 0 (Some x) ss) sts xs) = length sts" for sts :: "sf_item stage list" and xs
      by (induction xs arbitrary: sts) auto
    then show ?thesis using q(1) by (simp add: sq_init_def sq_start_def sf_stages_def)
  qed
  obtain w0 b0 where s0: "sq_stages q ! 0 = foldl (\<lambda>a x. q_put (Some x) a) (new_stage w0 b0) (map (\<lambda>(fl, path). FileItem fl path) (se_paths env))"
    using sq_init_nth(6) [OF q(1), of 0] len by auto
  have f0: "st_failed (foldl (\<lambda>a x. q_put (Some x) a) st xs) = st_failed st" for st :: "sf_item stage" and xs
    by (induction xs arbitrary: st) (auto simp: q_put_def)
  obtain w4 b4 where s4: "sq_stages q ! 4 = new_stage w4 b4" using sq_init_nth(6) [OF q(1), of 4] len by auto
  show ?thesis
    using sq_inv_init [OF q(1)] sent_inv_init [OF q(1)] len sq_init_nth(3) [OF q(1)]
    by (simp add: q(2) sf_inv_def s0 f0 r4_untouched_def s4 list_all_iff)
qed

lemma r4_untouched_worker:
  assumes "r4_untouched r" and "worker_step proc i j timeout (sr_q r) = Some (sr_q r')" and "\<not> waits_for_cc r i j" and "sr_cc r \<noteq> CCEnd"
    and "length (sq_stages (sr_q r)) = 5"
  shows "r4_untouched r'"
  using assms(2)
proof (cases rule: worker_stepE)
  case (1 st' t' out)
  show ?thesis
  proof (cases "i = 4")
    case True
    let ?st = "sq_stages (sr_q r) ! 4"
    let ?t = "st_threads ?st ! j"
    have "before_answer ?t" using assms(1) 1(2) True by (auto simp: r4_untouched_def Let_def list_all_length)
    moreover have "\<forall>b e. ?t \<noteq> Processing b e"
      using assms(3,4) True by (auto simp: waits_for_cc_def calls_processor_def)
    ultimately have "before_answer t' \<and> st_done st' = st_done ?st \<and> st_failed st' = st_failed ?st"
      using local_step_before 1(3) True by blast
    moreover have "st_threads st' = st_threads ?st" using local_step_threads [OF 1(3)] True by simp
    moreover have "sq_stages (sr_q r') ! 4 = st'\<lparr>st_threads := (st_threads st')[j := t']\<rparr>" using 1(1,5) True by auto
    ultimately show ?thesis using assms(1) 1(2) True
      by (auto simp: r4_untouched_def Let_def list_all_length nth_list_update)
  next
    case False
    then have "sq_stages (sr_q r') ! 4 = sq_stages (sr_q r) ! 4 \<or> (\<exists>x. sq_stages (sr_q r') ! 4 = q_put x (sq_stages (sr_q r) ! 4))"
      using 1(5) [of 4] assms(5) by auto
    then show ?thesis using assms(1) by (auto simp: r4_untouched_def Let_def q_put_def)
  qed
qed

lemma r4_untouched_main:
  assumes "r4_untouched r" and "main_step (sr_q r) = Some q'" and "length (sq_stages (sr_q r)) = 5"
  shows "r4_untouched (r\<lparr>sr_q := q'\<rparr>)"
proof -
  have "sq_stages q' ! 4 = sq_stages (sr_q r) ! 4 \<or> (\<exists>x. sq_stages q' ! 4 = q_put x (sq_stages (sr_q r) ! 4))"
    using assms(2,3) by (auto simp: main_step.simps put_at_nth split: main_pc.splits if_splits nat.splits)
  then show ?thesis using assms(1) by (auto simp: r4_untouched_def Let_def q_put_def)
qed

lemma sq_step_length: "sq_step proc s t \<Longrightarrow> length (sq_stages t) = length (sq_stages s)"
proof (cases rule: sq_step.cases, assumption)
  fix i j timeout
  assume "worker_step proc i j timeout s = Some t"
  then show ?thesis by (cases rule: worker_stepE) simp
qed (auto simp: main_step.simps split: main_pc.splits if_splits nat.splits)

lemma sq_step_failed:
  assumes "sq_step proc s t" and "\<forall>b. proc 0 b \<noteq> None"
  shows "st_failed (sq_stages t ! 0) = st_failed (sq_stages s ! 0)"
  using assms(1)
proof (cases rule: sq_step.cases)
  case (sq_worker i j timeout)
  from sq_worker show ?thesis
  proof (cases rule: worker_stepE)
    case (1 st' t' out)
    have "0 < length (sq_stages s)" using 1(1) by linarith
    then show ?thesis using local_step_failed [OF 1(3)] assms(2) 1(5) [of 0] by (cases "i = 0") (auto simp: q_put_def)
  qed
next
  case sq_main
  then show ?thesis using main_step_stage0(1) by metis
next
  case sq_cancel
  then show ?thesis by simp
qed

lemma sf_inv_step:
  assumes "sf_inv env r" and "sf_step env r r'"
  shows "sf_inv env r'"
proof -
  have q: "sq_inv (sr_q r') \<and> sent_inv (sr_q r') \<and> length (sq_stages (sr_q r')) = 5 \<and> sq_total (sr_q r') = length (se_paths env)
      \<and> st_failed (sq_stages (sr_q r') ! 0) = 0"
    using sf_step_sq [OF assms(2)]
  proof (elim disjE exE conjE)
    fix proc :: "nat \<Rightarrow> sf_item list \<Rightarrow> sf_item list option"
    assume step: "sq_step proc (sr_q r) (sr_q r')" and total: "\<forall>b. proc 0 b \<noteq> None"
    have "sq_inv (sr_q r') \<and> sent_inv (sr_q r')" using stage_queue.inv_step [OF _ step] assms(1) by (simp add: sf_inv_def)
    then show ?thesis
      using sq_step_length [OF step] step_stage0(3) [OF step] sq_step_failed [OF step total] assms(1) by (simp add: sf_inv_def)
  qed (use assms(1) in \<open>simp add: sf_inv_def\<close>)
  moreover have "sr_cc r' \<noteq> CCEnd \<longrightarrow> r4_untouched r'"
    using assms(2)
  proof (cases rule: sf_step.cases)
    case (sf_work ans i j timeout)
    then show ?thesis using sf_worker_step [OF sf_work] r4_untouched_worker [of r _ i j timeout r'] assms(1) by (auto simp: sf_inv_def)
  next
    case sf_go
    then show ?thesis using r4_untouched_main [of r "sr_q r'"] assms(1) by (auto simp: sf_main_def sf_inv_def)
  next
    case sf_cancel
    then show ?thesis using assms(1) by (simp add: sf_inv_def r4_untouched_def)
  next
    case sf_chain
    then show ?thesis using assms(1) by (cases "sr_cc r") (auto simp: sf_inv_def r4_untouched_def cc_round_def Let_def split: if_splits)
  qed
  ultimately show ?thesis by (simp add: sf_inv_def)
qed

interpretation super_fast: invariant_system "sf_start env w slots super n s0" "sf_step env" "sf_inv env"
  by unfold_locales (rule sf_inv_init, assumption, rule sf_inv_step)


section \<open>The call chain that is never built\<close>

lemma local_step_empty:
  "local_step proc n c tm st t = Some (st', t', out) \<Longrightarrow> st_got st' = st_got st \<and> (st_items st = [] \<longrightarrow> st_items st' = [])"
  by (erule local_step.elims) (auto split: option.splits list.splits if_splits)

lemma sq_step_queues:
  assumes "sq_step proc s t" and "length (sq_stages s) = 5"
  shows "st_items (sq_stages s ! 0) = [] \<Longrightarrow> st_items (sq_stages t ! 0) = []"
    and "st_got (sq_stages s ! 4) \<le> st_got (sq_stages t ! 4)" and "sq_cancel s \<Longrightarrow> sq_cancel t"
proof -
  have "(st_items (sq_stages s ! 0) = [] \<longrightarrow> st_items (sq_stages t ! 0) = []) \<and> st_got (sq_stages s ! 4) \<le> st_got (sq_stages t ! 4)
      \<and> (sq_cancel s \<longrightarrow> sq_cancel t)"
    using assms(1)
  proof (cases rule: sq_step.cases)
    case (sq_worker i j timeout)
    from sq_worker show ?thesis
    proof (cases rule: worker_stepE)
      case (1 st' t' out)
      then show ?thesis using local_step_empty [OF 1(3)] 1(5) [of 0] 1(5) [of 4] assms(2) by (cases "i = 0") auto
    qed
  next
    case sq_main
    then show ?thesis using assms(2) by (auto simp: main_step.simps put_at_nth split: main_pc.splits if_splits nat.splits)
  qed simp
  then show "st_items (sq_stages s ! 0) = [] \<Longrightarrow> st_items (sq_stages t ! 0) = []"
    and "st_got (sq_stages s ! 4) \<le> st_got (sq_stages t ! 4)" and "sq_cancel s \<Longrightarrow> sq_cancel t" by blast+
qed

lemma sf_step_queues:
  assumes "sf_step env r r'" and "sf_inv env r"
  shows "st_items (sq_stages (sr_q r) ! 0) = [] \<Longrightarrow> st_items (sq_stages (sr_q r') ! 0) = []"
    and "st_got (sq_stages (sr_q r) ! 4) \<le> st_got (sq_stages (sr_q r') ! 4)" and "sq_cancel (sr_q r) \<Longrightarrow> sq_cancel (sr_q r')"
  using sf_step_sq [OF assms(1)] sq_step_queues [of _ "sr_q r" "sr_q r'"] assms(2) by (auto simp: sf_inv_def)

definition chain_lost :: "sf_run \<Rightarrow> bool" where
  "chain_lost r \<longleftrightarrow> sr_cc r = CCPoll \<and> st_items (sq_stages (sr_q r) ! 0) = [] \<and> 0 < st_got (sq_stages (sr_q r) ! 4)"

lemma chain_lost_step:
  assumes "sf_step env r r'" and "sf_inv env r" and "chain_lost r" and "\<not> sq_cancel (sr_q r')"
  shows "chain_lost r'"
proof -
  have "sr_cc r' = CCPoll"
    using assms(1)
  proof (cases rule: sf_step.cases)
    case (sf_work ans i j timeout)
    then show ?thesis using sf_worker_step(2) assms(3) by (simp add: chain_lost_def)
  next
    case sf_chain
    then show ?thesis using assms(3,4) by (auto simp: chain_lost_def cc_round_def Let_def split: if_splits)
  qed (use assms(3) in \<open>auto simp: chain_lost_def sf_main_def\<close>)
  then show ?thesis using sf_step_queues [OF assms(1,2)] assms(3) by (auto simp: chain_lost_def)
qed

lemma chain_lost_open:
  assumes "sf_inv env r" and "chain_lost r"
  shows "sq_main (sr_q r) \<noteq> MFin"
proof
  assume "sq_main (sr_q r) = MFin"
  then have "quiet (sq_stages (sr_q r) ! 4)" "stage_ok (sq_stages (sr_q r) ! 4)" using assms(1) by (auto simp: sf_inv_def sq_inv_def front_def)
  moreover have "r4_untouched r" using assms by (simp add: sf_inv_def chain_lost_def)
  ultimately show False using assms(2) by (simp add: quiet_def stage_ok_def r4_untouched_def Let_def chain_lost_def)
qed

text \<open>
  C14: The thread of the call chain starts to count only after it has seen an item in the queue of R1, and nothing is put into that queue
  after the start. When the workers of R1 have emptied the queue first, as they do for a module with no more files than workers,
  and a function reaches R4, the call chain is never built, R4 waits for it, and the run never returns unless it is cancelled.
\<close>
theorem small_module_hangs:
  assumes "reach (sf_start env w slots super n s0) (sf_step env) r" and "sr_cc r = CCPoll"
    and "st_items (sq_stages (sr_q r) ! 0) = []" and "0 < st_got (sq_stages (sr_q r) ! 4)"
    and "(sf_step env)\<^sup>*\<^sup>* r t" and "\<not> sq_cancel (sr_q t)"
  shows "sr_cc t = CCPoll \<and> sq_main (sr_q t) \<noteq> MFin"
proof -
  have "sf_inv env t \<and> (\<not> sq_cancel (sr_q t) \<longrightarrow> chain_lost t)"
    using assms(5)
  proof induction
    case base
    show ?case using super_fast.reach_inv [OF assms(1)] assms(2-4) by (simp add: chain_lost_def)
  next
    case (step u v)
    then show ?case using sf_inv_step chain_lost_step sf_step_queues(3) by blast
  qed
  then have "sf_inv env t" "chain_lost t" using assms(6) by simp_all
  then show ?thesis using chain_lost_open by (simp add: chain_lost_def)
qed

section \<open>Otherwise the run goes on\<close>

text \<open>
  C15: Once the thread has left its polling, and nobody cancels, the run is never stuck: until it returns, the main thread can go on, or
  the thread of the call chain can, or a worker that does not wait for the call chain has something to do.
\<close>
theorem super_fast_never_stuck:
  assumes "reach (sf_start env w slots super n s0) (sf_step env) r" and "sr_cc r \<noteq> CCPoll"
    and "\<not> sq_cancel (sr_q r)" and "sq_main (sr_q r) \<noteq> MFin"
  shows "sf_main r \<noteq> None \<or> cc_round env r \<noteq> r \<or>
    (\<exists>i j. i < length (sq_stages (sr_q r)) \<and> j < length (st_threads (sq_stages (sr_q r) ! i)) \<and> \<not> waits_for_cc r i j
       \<and> can_work (sq_stages (sr_q r) ! i) (st_threads (sq_stages (sr_q r) ! i) ! j))"
proof (cases "main_step (sr_q r)")
  case None
  have inv: "sf_inv env r" using super_fast.reach_inv [OF assms(1)] .
  then have "sq_inv (sr_q r)" "sent_inv (sr_q r)" "st_failed (sq_stages (sr_q r) ! 0) = 0" by (simp_all add: sf_inv_def)
  then obtain m t where m: "sq_main (sr_q r) = MWait m" "m < length (sq_stages (sr_q r))" "\<not> wait_over m (sr_q r)"
    "t \<in> set (st_threads (sq_stages (sr_q r) ! m))" "can_work (sq_stages (sr_q r) ! m) t"
    using waiting_stage_can_work [OF _ _ assms(3,4) _ None] by metis
  then obtain j where j: "j < length (st_threads (sq_stages (sr_q r) ! m))" "st_threads (sq_stages (sr_q r) ! m) ! j = t"
    by (auto simp: in_set_conv_nth)
  show ?thesis
  proof (cases "waits_for_cc r m j")
    case False
    then show ?thesis using m j by blast
  next
    case True
    then have at: "m = 4" "sr_cc r = CCCount \<or> sr_cc r = CCBuild" using assms(2) by (cases "sr_cc r"; simp add: waits_for_cc_def)+
    have "quiet (sq_stages (sr_q r) ! 0)" "stage_ok (sq_stages (sr_q r) ! 0)" "st_got (sq_stages (sr_q r) ! 0) = sq_total (sr_q r)"
      using inv m(1) at(1) by (auto simp: sf_inv_def sq_inv_def front_def)
    then have "length (se_paths env) \<le> st_done (sq_stages (sr_q r) ! 0)" using inv by (simp add: sf_inv_def quiet_def stage_ok_def)
    then have "sr_cc (cc_round env r) \<noteq> sr_cc r" using at(2) by (auto simp: cc_round_def Let_def)
    then show ?thesis by metis
  qed
qed (simp add: sf_main_def)


section \<open>An example\<close>

fun sf_exec :: "sf_env \<Rightarrow> sf_answer \<Rightarrow> (nat \<times> bool) list \<Rightarrow> sf_run \<Rightarrow> sf_run option" where
  "sf_exec env ans [] r = Some r"
| "sf_exec env ans ((i, timeout) # sch) r = Option.bind (sf_worker env ans i 0 timeout r) (sf_exec env ans sch)"

lemma sf_exec_reach:
  "sf_exec env ans sch r = Some r' \<Longrightarrow> reach init (sf_step env) r \<Longrightarrow> reach init (sf_step env) r'"
proof (induction env ans sch r rule: sf_exec.induct)
  case (2 env ans i timeout sch r)
  then obtain y where "sf_worker env ans i 0 timeout r = Some y" "sf_exec env ans sch y = Some r'" by (auto simp: bind_eq_Some_conv)
  then show ?case using 2 reach_step [OF 2(3) sf_work] by blast
qed simp

text \<open>One file with one function, one worker per stage, and agents that fail: every stage lets the function through.\<close>

definition sample_sf_env :: sf_env where
  "sample_sf_env = \<lparr>se_fast = True, se_r1_max = -1, se_r4_max = -1,
     se_extract = (\<lambda>_. Some [\<lparr>fe_name = ''f'', fe_signature = ''void f(char *s)'', fe_start = 1, fe_end = 1, fe_body = ''x''\<rparr>]),
     se_md5 = (\<lambda>_. ''h''), se_abs = (\<lambda>p. p), se_rel = (\<lambda>p. p), se_now = 0, se_modules = [''a''], se_paths = [(''a'', ''a'')], se_files = (\<lambda>_. None)\<rparr>"

definition failing_agents :: sf_answer where
  "failing_agents = \<lparr>an_keep = None, an_taints = None, an_r4 = None\<rparr>"

definition sample_sf_run :: sf_run where
  "sample_sf_run = \<lparr>sr_q = sq_start (map (\<lambda>(w, b). new_stage w b) (sf_stages 1 1 False 2)) [FileItem ''a'' ''a''],
     sr_s = \<lparr>sf_ps = (new_pipeline 0 ''t'')\<lparr>ps_files := [(''a'', new_file 0 ''a'' ''a'')]\<rparr>, sf_db = empty_fdb, sf_cc = open_db\<rparr>, sr_cc = CCPoll\<rparr>"

definition sample_schedule :: "(nat \<times> bool) list" where
  "sample_schedule = replicate 6 (0, False) @ concat (map (\<lambda>i. [(i, False), (i, False), (i, True), (i, False), (i, False), (i, False)]) [1, 2, 3])"

lemma sample_sf_exec:
  "map_option (\<lambda>r. (sr_cc r = CCPoll, st_items (sq_stages (sr_q r) ! 0) = [], st_got (sq_stages (sr_q r) ! 4), sq_cancel (sr_q r)))
     (sf_exec sample_sf_env failing_agents sample_schedule sample_sf_run) = Some (True, True, 1, False)"
  by code_simp


lemma sample_sf_start: "sf_start sample_sf_env 1 1 False 2 (sr_s sample_sf_run) sample_sf_run"
  by (auto simp: sf_start_def sample_sf_run_def sample_sf_env_def sq_init_def sf_stages_def)

lemma sample_sf_reach: "reach (sf_start sample_sf_env 1 1 False 2 (sr_s sample_sf_run)) (sf_step sample_sf_env) sample_sf_run"
  by (rule reach_init) (rule sample_sf_start)

theorem small_module_hangs_witness:
  "\<exists>r. sf_exec sample_sf_env failing_agents sample_schedule sample_sf_run = Some r
     \<and> (\<forall>t. (sf_step sample_sf_env)\<^sup>*\<^sup>* r t \<longrightarrow> \<not> sq_cancel (sr_q t) \<longrightarrow> sq_main (sr_q t) \<noteq> MFin)"
proof -
  obtain r where r: "sf_exec sample_sf_env failing_agents sample_schedule sample_sf_run = Some r" "sr_cc r = CCPoll"
    "st_items (sq_stages (sr_q r) ! 0) = []" "0 < st_got (sq_stages (sr_q r) ! 4)" using sample_sf_exec by auto
  then show ?thesis using small_module_hangs [OF sf_exec_reach [OF r(1) sample_sf_reach] r(2-4)] by blast
qed

theorem super_fast_never_stuck_witness:
  "let r = cc_round sample_sf_env sample_sf_run in sf_main r = None \<and> cc_round sample_sf_env r = r
     \<and> (\<exists>i j. \<not> waits_for_cc r i j \<and> can_work (sq_stages (sr_q r) ! i) (st_threads (sq_stages (sr_q r) ! i) ! j))"
proof -
  let ?r = "cc_round sample_sf_env sample_sf_run"
  let ?q = "sr_q sample_sf_run"
  have q0: "sq_stages ?q ! 0 = q_put (Some (FileItem ''a'' ''a'')) (new_stage 1 1)" "sq_main ?q = MWait 0"
    "sq_total ?q = 1" "\<not> sq_cancel ?q" "sr_cc sample_sf_run = CCPoll"
    by (simp_all add: sample_sf_run_def sq_start_def put_at_def sf_stages_def)
  have cc: "sr_cc ?r = CCCount" using q0 by (simp add: cc_round_def Let_def q_put_def)
  have q: "sq_stages (sr_q ?r) ! 0 = q_put (Some (FileItem ''a'' ''a'')) (new_stage 1 1)" "sq_main (sr_q ?r) = MWait 0"
    "sq_total (sr_q ?r) = 1" "\<not> sq_cancel (sr_q ?r)" using q0 by simp_all
  have main: "sf_main ?r = None" using q by (simp add: sf_main_def main_step.simps wait_over_def q_put_def new_stage_def)
  have round: "cc_round sample_sf_env ?r = ?r"
    using q(1,4) cc by (subst cc_round_def) (simp add: Let_def q_put_def new_stage_def sample_sf_env_def del: cc_round_q)
  have "reach (sf_start sample_sf_env 1 1 False 2 (sr_s sample_sf_run)) (sf_step sample_sf_env) ?r"
    using sample_sf_reach sf_chain by (rule reach_step)
  from super_fast_never_stuck [OF this] q(2,4) cc main round show ?thesis unfolding Let_def by auto
qed


section \<open>Who gets into the final list\<close>

text \<open>What decides whether a row is among the kept entries.\<close>

definition row_verdict :: "func_row \<Rightarrow> string \<times> string option \<times> string option \<times> string" where
  "row_verdict x = (fn_hash x, fn_r3 x, fn_r4 x, fn_category x)"

definition verdicts :: "sf_state \<Rightarrow> (string \<times> string option \<times> string option \<times> string) list" where
  "verdicts s = map row_verdict (fdb_funcs (sf_db s))"

definition listed :: "sf_state \<Rightarrow> string set" where
  "listed s = (\<lambda>(x, _). fn_hash x) ` set (get_keep_entries (sf_db s))"

lemma listed_iff: "h \<in> listed s \<longleftrightarrow> (\<exists>r4 c. (h, Some ''keep'', r4, c) \<in> set (verdicts s) \<and> r4 \<in> {None, Some ''keep''} \<and> c \<noteq> internal_entry)"
proof -
  have "h \<in> listed s \<longleftrightarrow> (\<exists>x \<in> set (fdb_funcs (sf_db s)). fn_hash x = h \<and> is_kept x)"
    by (auto simp: listed_def get_keep_entries_def image_iff)
  then show ?thesis by (fastforce simp: verdicts_def row_verdict_def is_kept_def image_iff)
qed

lemma verdicts_upd:
  assumes "\<And>x. row_verdict (f x) = g (row_verdict x)"
  shows "map row_verdict (fdb_funcs (upd_func h f db)) = map (\<lambda>v. if fst v = h then g v else v) (map row_verdict (fdb_funcs db))"
  by (auto simp: upd_func_def assms) (auto simp: row_verdict_def)

lemma verdicts_fast:
  "map row_verdict (fdb_funcs (set_fast_mode_result h d i db)) =
    map (\<lambda>v. if fst v = h then (case v of (k, _, r4, c) \<Rightarrow> (k, Some d, r4, c)) else v) (map row_verdict (fdb_funcs db))"
  unfolding set_fast_mode_result_def by (rule verdicts_upd) (simp add: row_verdict_def)

lemma verdicts_r4:
  "map row_verdict (fdb_funcs (update_r4_decision h d db)) =
    map (\<lambda>v. if fst v = h then (case v of (k, r3, _, c) \<Rightarrow> (k, r3, Some d, c)) else v) (map row_verdict (fdb_funcs db))"
  unfolding update_r4_decision_def by (rule verdicts_upd) (simp add: row_verdict_def)

lemma verdicts_analysis: "set_analysis h a db = Some db' \<Longrightarrow> map row_verdict (fdb_funcs db') = map row_verdict (fdb_funcs db)"
proof -
  assume "set_analysis h a db = Some db'"
  then obtain f where f: "db' = upd_func h f db" "\<And>x. row_verdict (f x) = row_verdict x"
    by (auto simp: set_analysis_def row_verdict_def)
  then show ?thesis using verdicts_upd [of f id h db] by (simp add: map_idI)
qed

text \<open>The signature filter writes its decision, the body filter and the taint stage write none, R4 writes its own.\<close>

lemma api_filter_verdicts:
  assumes "known_items b s \<noteq> []"
  shows "verdicts (fst (sf_api_filter_processor (Some hs) b s)) = map (\<lambda>v. if fst v \<in> fst ` set (func_items b)
      then (case v of (k, _, r4, c) \<Rightarrow> (k, Some (if k \<in> set hs then ''keep'' else ''filter''), r4, c)) else v) (verdicts s)"
proof -
  have "map row_verdict (fdb_funcs (fold (\<lambda>(h, fl). set_fast_mode_result h (if h \<in> set hs then ''keep'' else ''filter'') (h \<in> set hs)) its db)) =
      map (\<lambda>v. if fst v \<in> fst ` set its
        then (case v of (k, _, r4, c) \<Rightarrow> (k, Some (if k \<in> set hs then ''keep'' else ''filter''), r4, c)) else v) (map row_verdict (fdb_funcs db))"
    for its :: "(string \<times> string) list" and db
  proof (induction its arbitrary: db)
    case (Cons it its)
    obtain a fl where it: "it = (a, fl)" by fastforce
    show ?case unfolding it by (simp only: fold_simps prod.case Cons.IH verdicts_fast map_map) (rule map_cong, auto simp: row_verdict_def)
  qed simp
  then show ?thesis using assms by (simp add: sf_api_filter_processor_def verdicts_def del: map_map)
qed

lemma phase1_verdicts [simp]: "verdicts (fst (sf_phase1_processor ans b s)) = verdicts s"
  by (simp add: sf_phase1_processor_def verdicts_def split: option.split)

lemma r3_verdicts [simp]: "verdicts (fst (sf_r3_processor ans b s)) = verdicts s"
proof -
  have one: "verdicts (store_analysis ds h fl s) = verdicts s" for ds h fl s
    by (auto simp: store_analysis_def verdicts_def verdicts_analysis split: option.split)
  have "verdicts (fold (\<lambda>(h, fl). store_analysis ds h fl) its s) = verdicts s" for ds its s
    by (induction its arbitrary: s) (auto simp: one)
  then show ?thesis by (simp add: sf_r3_processor_def split: option.split)
qed


lemma sf_run_r4_verdicts:
  "verdicts (sf_run_r4 m c ans h s) = verdicts s \<or> (\<exists>out. ans = Some out \<and> verdicts (sf_run_r4 m c ans h s) =
     map (\<lambda>v. if fst v = h then (case v of (k, r3, _, cat) \<Rightarrow> (k, r3, Some (r4_answer_decision out), cat)) else v) (verdicts s))"
  by (auto simp: sf_run_r4_def Let_def verdicts_def verdicts_r4 simp del: map_map split: option.split)

text \<open>One batch on its way: signature filter, body filter, taints, and R4 for every function that is left.\<close>

definition through_r3 :: "string list option \<Rightarrow> string list option \<Rightarrow> dict list option \<Rightarrow> sf_item list \<Rightarrow> sf_state \<Rightarrow> sf_state \<times> sf_item list" where
  "through_r3 af p1 r3 b s =
     (let (s1, b1) = sf_api_filter_processor af b s; (s2, b2) = sf_phase1_processor p1 b1 s1 in sf_r3_processor r3 b2 s2)"

definition through_r4 :: "int \<Rightarrow> (string \<Rightarrow> pyval option option) \<Rightarrow> sf_item list \<Rightarrow> sf_state \<Rightarrow> sf_state" where
  "through_r4 m r4 b s = fold (\<lambda>x. sf_run_r4 m False (r4 (item_hash x)) (item_hash x)) b s"

definition r4_open :: "string \<Rightarrow> sf_state \<Rightarrow> bool" where
  "r4_open h s \<longleftrightarrow> list_all (\<lambda>(k, _, r4, _). k = h \<longrightarrow> r4 \<in> {None, Some ''keep''}) (verdicts s)"

lemma run_r4_listed:
  assumes "k = h \<Longrightarrow> (\<forall>out. ans = Some out \<longrightarrow> r4_answer_decision out = ''keep'')" and "r4_open h s"
  shows "r4_open h (sf_run_r4 m c ans k s)" and "h \<in> listed (sf_run_r4 m c ans k s) \<longleftrightarrow> h \<in> listed s"
proof -
  let ?s = "sf_run_r4 m c ans k s"
  have "r4_open h ?s \<and> (h \<in> listed ?s \<longleftrightarrow> h \<in> listed s)"
    using sf_run_r4_verdicts [of m c ans k s]
  proof (elim disjE exE conjE)
    assume "verdicts ?s = verdicts s"
    then show ?thesis using assms(2) by (simp add: listed_iff r4_open_def)
  next
    fix out
    assume out: "ans = Some out" and v: "verdicts ?s = map (\<lambda>v. if fst v = k
        then (case v of (j, r3, _, cat) \<Rightarrow> (j, r3, Some (r4_answer_decision out), cat)) else v) (verdicts s)"
    show ?thesis
    proof (cases "k = h")
      case True
      then have d: "r4_answer_decision out = ''keep''" using assms(1) out by simp
      have "(h, Some ''keep'', r, cat) \<in> set (verdicts ?s) \<longleftrightarrow> r = Some ''keep'' \<and> (\<exists>r0. (h, Some ''keep'', r0, cat) \<in> set (verdicts s))"
        for r cat unfolding v using True d by (auto simp: image_iff split: prod.splits if_splits)
      then have "h \<in> listed ?s \<longleftrightarrow> (\<exists>r0 cat. (h, Some ''keep'', r0, cat) \<in> set (verdicts s) \<and> cat \<noteq> internal_entry)"
        unfolding listed_iff by auto
      moreover have "h \<in> listed s \<longleftrightarrow> (\<exists>r0 cat. (h, Some ''keep'', r0, cat) \<in> set (verdicts s) \<and> cat \<noteq> internal_entry)"
        using assms(2) unfolding listed_iff r4_open_def list_all_iff by fastforce
      moreover have "r4_open h ?s" using True d unfolding r4_open_def v by (auto simp: list_all_iff)
      ultimately show ?thesis by simp
    next
      case False
      then have "(h, Some ''keep'', r, cat) \<in> set (verdicts ?s) \<longleftrightarrow> (h, Some ''keep'', r, cat) \<in> set (verdicts s)" for r cat
        unfolding v by (auto simp: image_iff split: prod.splits if_splits)
      moreover have "r4_open h ?s" using False assms(2) unfolding r4_open_def v by (auto simp: list_all_iff)
      ultimately show ?thesis unfolding listed_iff by auto
    qed
  qed
  then show "r4_open h ?s" "h \<in> listed ?s \<longleftrightarrow> h \<in> listed s" by simp_all
qed

lemma through_r4_listed:
  assumes "h \<in> item_hash ` set b \<Longrightarrow> (\<forall>out. r4 h = Some out \<longrightarrow> r4_answer_decision out = ''keep'')" and "r4_open h s"
  shows "h \<in> listed (through_r4 m r4 b s) \<longleftrightarrow> h \<in> listed s"
  using assms
proof (induction b arbitrary: s)
  case Nil
  then show ?case by (simp add: through_r4_def)
next
  case (Cons x b)
  have one: "item_hash x = h \<Longrightarrow> (\<forall>out. r4 (item_hash x) = Some out \<longrightarrow> r4_answer_decision out = ''keep'')" using Cons.prems(1) by auto
  show ?case
    using Cons.IH [OF _ run_r4_listed(1) [OF one Cons.prems(2)]] run_r4_listed(2) [OF one Cons.prems(2)] Cons.prems(1)
    by (simp add: through_r4_def)
qed



definition sample_after_r1 :: sf_state where
  "sample_after_r1 = fst (sf_r1_processor sample_sf_env ''a'' ''a'' (sr_s sample_sf_run))"

definition rejected_by_body :: "sf_state \<times> sf_item list" where
  "rejected_by_body = through_r3 (Some [''h'']) (Some []) None [FuncItem ''h'' ''a'' ''a''] sample_after_r1"


end
