(* ===== verification/TaskEvents.thy ===== *)
theory TaskEvents
  imports TaskStore PyVal "HOL-Library.Product_Lexorder"
begin

text \<open>
  The timeline of a task in \<open>app/service/task_service.py\<close>: the table
  \<open>AppEaTaskEvent\<close>, which types of event are kept, the key that makes an event unique,
  and trimming, clearing and deleting. The hash \<open>sha1\<close>, the fresh ids and the description of
  the recording process are parameters of an event; the 16 hexadecimal digits of an id are
  the number they spell, which orders the ids the same way. \<open>event_log\<close> is the
  contract the operations of the service rely on, interpreted on \<open>create_task_event\<close>.
\<close>

record event_row =
  ev_id :: nat
  ev_task :: string
  ev_project :: string
  ev_source :: string
  ev_level :: string
  ev_type :: string
  ev_stage :: "string option"
  ev_file_hash :: "string option"
  ev_func_hash :: "string option"
  ev_path :: "string option"
  ev_function :: "string option"
  ev_attempt :: "int option"
  ev_status :: "string option"
  ev_message :: string
  ev_payload :: dict
  ev_key :: string
  ev_created :: int

section \<open>Keys and payloads\<close>

definition task_event_source_ea :: string where "task_event_source_ea = ''entry_analyse''"
definition task_event_source_worker :: string where "task_event_source_worker = ''worker''"
definition task_event_source_system :: string where "task_event_source_system = ''system''"

definition user_timeline_event_types :: "string list" where
  "user_timeline_event_types =
    [''task_created'', ''task_create_deduplicated'', ''task_started'', ''task_finished'', ''task_passed'',
     ''task_failed'', ''task_cancel_requested'', ''task_cancelled'', ''task_deleted'', ''task_retried'',
     ''task_resumed'', ''task_dispatched'', ''task_dispatch_skipped_no_capacity'', ''task_lease_taken_over'',
     ''task_requeued_after_expired_lease_reconcile'', ''task_waiting_parent_observe'',
     ''task_requeued_after_invalid_owner_reconcile'', ''task_requeued_after_orphaned_running_reconcile'',
     ''task_requeued_after_dispatch_timeout'', ''task_owner_recovered_after_restart'',
     ''task_manual_continue'', ''task_manual_retry'', ''task_manual_cancel'', ''task_manual_delete'',
     ''task_manual_requeue'', ''task_agent_process_manual_kill'', ''abnormal_reason_recorded'',
     ''task_database_failure'', ''task_dispatch_failed'', ''task_lease_lost'', ''task_runtime_interrupted'',
     ''task_rate_limited_retrying'', ''task_api_retrying'', ''task_fatal_retrying'', ''api_filter_started'',
     ''api_filter_timed_out'', ''api_filter_skipped'', ''api_filter_failed'']"

text \<open>The number of characters of a UTF-8 string: continuation bytes do not count.\<close>

definition char_count :: "string \<Rightarrow> nat" where
  "char_count s = length (filter (\<lambda>c. (of_char c :: nat) < 128 \<or> 192 \<le> (of_char c :: nat)) s)"

definition event_dedupe_key :: "(string \<Rightarrow> string) \<Rightarrow> string \<Rightarrow> pyval list \<Rightarrow> string" where
  "event_dedupe_key sha1 uuid parts =
     (let joined = join_with ''::'' (filter (\<lambda>p. p \<noteq> []) (map text_of parts));
          raw = (if joined = [] then uuid else joined)
      in if 255 < char_count raw then sha1 raw else raw)"

definition merge_recorder_payload :: "(dict \<Rightarrow> pyval) \<Rightarrow> dict option \<Rightarrow> dict option \<Rightarrow> dict" where
  "merge_recorder_payload recorder payload origin =
     (let merged = (case payload of None \<Rightarrow> [] | Some d \<Rightarrow> d);
          merged = dset ''recorder'' (recorder merged) merged
      in case origin of Some (e # d) \<Rightarrow> dset ''event_origin'' (PDict (e # d)) merged | _ \<Rightarrow> merged)"

definition should_persist_user_timeline_event :: "string option \<Rightarrow> bool" where
  "should_persist_user_timeline_event t \<longleftrightarrow> py_strip (or_empty t) \<in> set user_timeline_event_types"

section \<open>Writing and trimming\<close>

text \<open>The arguments of \<open>_create_task_event\<close>, and what it reads from its process.\<close>

record event_req =
  rq_task :: string
  rq_project :: string
  rq_type :: string
  rq_message :: string
  rq_source :: string
  rq_level :: string
  rq_stage :: "string option"
  rq_file_hash :: "string option"
  rq_func_hash :: "string option"
  rq_path :: "string option"
  rq_function :: "string option"
  rq_attempt :: "int option"
  rq_status :: "string option"
  rq_payload :: "dict option"
  rq_origin :: "dict option"
  rq_key :: "string option"

record event_env =
  ee_now :: int
  ee_id :: nat
  ee_uuid :: string
  ee_sha1 :: "string \<Rightarrow> string"
  ee_recorder :: "dict \<Rightarrow> pyval"

definition event_call :: "string \<Rightarrow> string \<Rightarrow> string \<Rightarrow> string \<Rightarrow> event_req" where
  "event_call k project typ msg =
     \<lparr>rq_task = k, rq_project = project, rq_type = typ, rq_message = msg, rq_source = task_event_source_ea,
      rq_level = ''info'', rq_stage = None, rq_file_hash = None, rq_func_hash = None, rq_path = None,
      rq_function = None, rq_attempt = None, rq_status = None, rq_payload = None, rq_origin = None,
      rq_key = None\<rparr>"

definition opt_val :: "string option \<Rightarrow> pyval" where
  "opt_val x = (case x of None \<Rightarrow> PNone | Some s \<Rightarrow> PStr s)"

definition req_key :: "event_env \<Rightarrow> event_req \<Rightarrow> string" where
  "req_key env rq =
     (let given = py_strip (or_empty (rq_key rq))
      in if given \<noteq> [] then given
         else event_dedupe_key (ee_sha1 env) (ee_uuid env)
           [PStr (rq_task rq), PStr (rq_source rq), PStr (rq_type rq), opt_val (rq_stage rq),
            opt_val (rq_file_hash rq), opt_val (rq_func_hash rq), opt_val (rq_path rq),
            opt_val (rq_function rq), (case rq_attempt rq of None \<Rightarrow> PNone | Some i \<Rightarrow> PInt i),
            opt_val (rq_status rq), PStr (rq_message rq)])"

definition new_event :: "event_env \<Rightarrow> event_req \<Rightarrow> event_row" where
  "new_event env rq =
     \<lparr>ev_id = ee_id env, ev_task = rq_task rq, ev_project = rq_project rq, ev_source = rq_source rq,
      ev_level = rq_level rq, ev_type = rq_type rq, ev_stage = rq_stage rq, ev_file_hash = rq_file_hash rq,
      ev_func_hash = rq_func_hash rq, ev_path = rq_path rq, ev_function = rq_function rq,
      ev_attempt = rq_attempt rq, ev_status = rq_status rq, ev_message = rq_message rq,
      ev_payload = merge_recorder_payload (ee_recorder env) (rq_payload rq) (rq_origin rq),
      ev_key = req_key env rq, ev_created = ee_now env\<rparr>"

definition db_timeline_event_limit :: int where
  "db_timeline_event_limit = 10000"

definition events_of :: "string \<Rightarrow> event_row list \<Rightarrow> event_row list" where
  "events_of k rows = filter (\<lambda>e. ev_task e = k) rows"

definition event_age :: "event_row \<Rightarrow> int \<times> nat" where
  "event_age e = (ev_created e, ev_id e)"

definition trim_task_timeline_events :: "event_row list \<Rightarrow> string \<Rightarrow> int option \<Rightarrow> event_row list \<times> nat" where
  "trim_task_timeline_events rows k limit =
     (let lim = max 0 (case limit of None \<Rightarrow> db_timeline_event_limit | Some l \<Rightarrow> l);
          total = length (events_of k rows);
          trim_count = total - nat lim;
          old = map ev_id (take trim_count (sort_key event_age (events_of k rows)))
      in if lim \<le> 0 \<or> trim_count = 0 then (rows, 0)
         else (filter (\<lambda>e. ev_id e \<notin> set old) rows, length (filter (\<lambda>e. ev_id e \<in> set old) rows)))"

definition create_task_event :: "event_env \<Rightarrow> event_req \<Rightarrow> event_row list \<Rightarrow> event_row list" where
  "create_task_event env rq rows =
     (if \<not> should_persist_user_timeline_event (Some (rq_type rq)) then rows
      else if req_key env rq \<in> ev_key ` set rows then rows
      else if ee_id env \<in> ev_id ` set rows then rows
      else fst (trim_task_timeline_events (rows @ [new_event env rq]) (rq_task rq) None))"

text \<open>
  An id that is already taken violates the primary key; the exception is swallowed by the
  caller, so it is a write that does nothing.
\<close>

section \<open>Reading, clearing and deleting\<close>

text \<open>The newest first; events of the same time in table order (the query leaves it open).\<close>

definition get_task_timeline :: "event_row list \<Rightarrow> string \<Rightarrow> event_row list" where
  "get_task_timeline rows k = rev (sort_key ev_created (rev (events_of k rows)))"

record event_summary =
  es_total :: nat
  es_latest :: "(string \<times> int) option"
  es_stage :: "string option"
  es_path :: "string option"
  es_function :: "string option"
  es_attempt :: "int option"

definition opt_first :: "string option \<Rightarrow> string option \<Rightarrow> string option" where
  "opt_first old new = (case old of Some (c # s) \<Rightarrow> old
     | _ \<Rightarrow> (case new of Some (c # s) \<Rightarrow> new | _ \<Rightarrow> old))"

definition summary_done :: "event_summary \<Rightarrow> bool" where
  "summary_done s \<longleftrightarrow> or_empty (es_stage s) \<noteq> [] \<and> or_empty (es_path s) \<noteq> []
     \<and> or_empty (es_function s) \<noteq> [] \<and> es_attempt s \<noteq> None"

fun summary_scan :: "event_row list \<Rightarrow> event_summary \<Rightarrow> event_summary" where
  "summary_scan [] s = s"
| "summary_scan (e # es) s =
     (let s' = s\<lparr>es_stage := opt_first (es_stage s) (ev_stage e), es_path := opt_first (es_path s) (ev_path e),
            es_function := opt_first (es_function s) (ev_function e),
            es_attempt := (case es_attempt s of None \<Rightarrow> ev_attempt e | Some a \<Rightarrow> Some a)\<rparr>
      in if summary_done s' then s' else summary_scan es s')"

definition build_task_event_summary :: "event_row list \<Rightarrow> string \<Rightarrow> event_summary" where
  "build_task_event_summary rows k =
     (let es = get_task_timeline rows k
      in summary_scan es \<lparr>es_total = length es,
           es_latest = (case es of [] \<Rightarrow> None | e # _ \<Rightarrow> Some (ev_type e, ev_created e)),
           es_stage = None, es_path = None, es_function = None, es_attempt = None\<rparr>)"

text \<open>
  How \<open>_safe_create_task_event\<close> ends: the event is written; an exception is swallowed and
  its savepoint rolled back; or the exception was an \<open>OperationalError\<close> and the whole
  session is rolled back. A failing \<open>begin_nested\<close>, before any of this, is not modelled.
\<close>

datatype event_outcome = EvWritten | EvSwallowed | EvSessionLost

definition cleared_req ::
  "event_env \<Rightarrow> string \<Rightarrow> string option \<Rightarrow> string option \<Rightarrow> string \<Rightarrow> event_row list \<Rightarrow> string \<Rightarrow> event_req" where
  "cleared_req env project status path updated rows k =
     (event_call k project ''task_timeline_cleared'' [CHR 0xE4, CHR 0xBB, CHR 0xBB, CHR 0xE5, CHR 0x8A, CHR 0xA1, CHR 0xE6, CHR 0x97, CHR 0xB6, CHR 0xE9, CHR 0x97, CHR 0xB4, CHR 0xE7, CHR 0xBA, CHR 0xBF, CHR 0xE5, CHR 0xB7, CHR 0xB2, CHR 0xE6, CHR 0xB8, CHR 0x85, CHR 0xE7, CHR 0xA9, CHR 0xBA])
       \<lparr>rq_status := norm_opt status, rq_stage := Some ''entry_analysis'', rq_path := norm_opt path,
        rq_payload := Some [(''deleted_event_count_before_clear'', PInt (int (length (events_of k rows))))],
        rq_key := Some (event_dedupe_key (ee_sha1 env) (ee_uuid env)
          [PStr k, PStr ''task_timeline_cleared'', PInt (int (length (events_of k rows))), PStr updated, opt_val status])\<rparr>"

text \<open>\<open>updated\<close> is the text of the row's \<open>updated_at\<close>.\<close>

definition clear_task_timeline ::
  "event_env \<Rightarrow> event_outcome \<Rightarrow> string \<Rightarrow> string option \<Rightarrow> string option \<Rightarrow> string \<Rightarrow> event_row list \<Rightarrow> string \<Rightarrow> event_row list \<times> nat" where
  "clear_task_timeline env out project status path updated rows k =
     (let rows1 = (if out = EvWritten then create_task_event env (cleared_req env project status path updated rows k) rows else rows)
      in (filter (\<lambda>e. ev_task e \<noteq> k) rows1, length (events_of k rows1)))"

text \<open>An event as text: its id, and its time as \<open>isoformat\<close> and as \<open>str\<close> print it.\<close>

record event_text =
  et_id :: string
  et_iso :: string
  et_str :: string

definition deleted_event_req ::
  "event_env \<Rightarrow> (event_row \<Rightarrow> event_text) \<Rightarrow> string \<Rightarrow> string option \<Rightarrow> string option \<Rightarrow> event_row \<Rightarrow> string \<Rightarrow> event_req" where
  "deleted_event_req env txt project status path e k =
     (event_call k project ''task_timeline_event_deleted'' [CHR 0xE4, CHR 0xBB, CHR 0xBB, CHR 0xE5, CHR 0x8A, CHR 0xA1, CHR 0xE6, CHR 0x97, CHR 0xB6, CHR 0xE9, CHR 0x97, CHR 0xB4, CHR 0xE7, CHR 0xBA, CHR 0xBF, CHR 0xE4, CHR 0xBA, CHR 0x8B, CHR 0xE4, CHR 0xBB, CHR 0xB6, CHR 0xE5, CHR 0xB7, CHR 0xB2, CHR 0xE5, CHR 0x88, CHR 0xA0, CHR 0xE9, CHR 0x99, CHR 0xA4])
       \<lparr>rq_status := norm_opt status, rq_stage := Some ''entry_analysis'', rq_path := norm_opt path,
        rq_payload := Some [(''deleted_event_id'', PStr (et_id (txt e))), (''deleted_event_type'', PStr (ev_type e)),
          (''deleted_event_created_at'', PStr (et_iso (txt e)))],
        rq_key := Some (event_dedupe_key (ee_sha1 env) (ee_uuid env)
          [PStr k, PStr ''task_timeline_event_deleted'', PStr (et_id (txt e)), PStr (ev_type e), PStr (et_str (txt e))])\<rparr>"

definition delete_task_timeline_event ::
  "event_env \<Rightarrow> (event_row \<Rightarrow> event_text) \<Rightarrow> event_outcome \<Rightarrow> string \<Rightarrow> string option \<Rightarrow> string option \<Rightarrow>
     event_row list \<Rightarrow> string \<Rightarrow> nat \<Rightarrow> event_row list \<times> nat" where
  "delete_task_timeline_event env txt out project status path rows k i =
     (let rows1 = (case find (\<lambda>e. ev_task e = k \<and> ev_id e = i) rows of
            None \<Rightarrow> rows
          | Some e \<Rightarrow> if out = EvWritten then create_task_event env (deleted_event_req env txt project status path e k) rows
                     else rows)
      in (filter (\<lambda>e. \<not> (ev_task e = k \<and> ev_id e = i)) rows1,
          length (filter (\<lambda>e. ev_task e = k \<and> ev_id e = i) rows1)))"

text \<open>An \<open>OperationalError\<close>: its code, if it has one, and its text.\<close>

definition is_retryable_delete_db_error :: "int option \<Rightarrow> string \<Rightarrow> bool" where
  "is_retryable_delete_db_error code msg \<longleftrightarrow> code \<in> {Some 1205, Some 1213}
     \<or> has_sub ''deadlock found'' (py_lower msg) \<or> has_sub ''lock wait timeout'' (py_lower msg)"

definition delete_task_max_db_retries :: nat where
  "delete_task_max_db_retries = 3"

text \<open>
  The retry loop over what each attempt does: a result, or the error it raises. The last
  component is the number of attempts made.
\<close>

function retry_loop :: "(nat \<Rightarrow> (int option \<times> string) + 'a) \<Rightarrow> nat \<Rightarrow> nat \<Rightarrow> ((int option \<times> string) + 'a) \<times> nat" where
  "retry_loop run m attempt =
     (case run attempt of
        Inr x \<Rightarrow> (Inr x, attempt + 1)
      | Inl (code, msg) \<Rightarrow>
          if \<not> is_retryable_delete_db_error code msg \<or> m \<le> attempt + 1 then (Inl (code, msg), attempt + 1)
          else retry_loop run m (attempt + 1))"
  by pat_completeness auto
termination by (relation "measure (\<lambda>(run, m, attempt). m - attempt)") auto

declare retry_loop.simps [simp del]

definition clear_task_timeline_with_retry ::
  "(nat \<Rightarrow> (int option \<times> string) + (event_row list \<times> nat)) \<Rightarrow> ((int option \<times> string) + (event_row list \<times> nat)) \<times> nat" where
  "clear_task_timeline_with_retry run = retry_loop run delete_task_max_db_retries 0"

section \<open>Lemmas on the timeline\<close>

definition wf_events :: "event_row list \<Rightarrow> bool" where
  "wf_events rows \<longleftrightarrow> distinct (map ev_id rows) \<and> distinct (map ev_key rows)"

definition timeline_bound :: nat where
  "timeline_bound = nat db_timeline_event_limit"

lemma wf_events_filter: "wf_events rows \<Longrightarrow> wf_events (filter P rows)"
  by (simp add: wf_events_def distinct_map_filter)

lemma events_of_filter: "events_of k (filter P rows) = filter P (events_of k rows)"
  by (simp add: events_of_def conj_commute)

lemma events_of_append [simp]: "events_of k (rows @ rows') = events_of k rows @ events_of k rows'"
  by (simp add: events_of_def)

lemma filter_not_ids:
  assumes "distinct (map f xs)" "set ys \<subseteq> set xs" "distinct ys"
  shows "length (filter (\<lambda>x. f x \<notin> f ` set ys) xs) = length xs - length ys"
proof -
  have inj: "inj_on f (set xs)" and d: "distinct xs" using assms(1) by (auto simp: distinct_map)
  have "(f x \<in> f ` set ys) = (x \<in> set ys)" if "x \<in> set xs" for x
    using inj assms(2) that by (auto dest: inj_onD)
  then have "filter (\<lambda>x. f x \<notin> f ` set ys) xs = filter (\<lambda>x. x \<notin> set ys) xs"
    by (intro filter_cong) auto
  moreover have "length (filter (\<lambda>x. x \<notin> set ys) xs) = card (set xs - set ys)"
    using d by (subst distinct_card[symmetric]) (auto simp: set_diff_eq)
  ultimately show ?thesis
    using assms(2,3) d by (simp add: card_Diff_subset distinct_card)
qed

lemma trim_other:
  assumes "wf_events rows" "j \<noteq> k"
  shows "events_of j (fst (trim_task_timeline_events rows k limit)) = events_of j rows"
proof -
  have "ev_id e \<notin> ev_id ` set (take n (sort_key event_age (events_of k rows)))" if "e \<in> set (events_of j rows)" for e n
  proof
    assume "ev_id e \<in> ev_id ` set (take n (sort_key event_age (events_of k rows)))"
    then obtain x where x: "ev_id x = ev_id e" "x \<in> set (events_of k rows)" by (auto dest: in_set_takeD)
    with that assms(1) have "x = e" by (auto simp: wf_events_def distinct_map events_of_def dest: inj_onD)
    with x that assms(2) show False by (auto simp: events_of_def)
  qed
  then show ?thesis by (auto simp: trim_task_timeline_events_def Let_def events_of_filter intro!: filter_True)
qed

lemma trim_bound:
  assumes "wf_events rows"
  shows "length (events_of k (fst (trim_task_timeline_events rows k None))) = min timeline_bound (length (events_of k rows))"
proof -
  let ?es = "events_of k rows" and ?n = "length (events_of k rows) - timeline_bound"
  let ?old = "take ?n (sort_key event_age ?es)"
  have d: "distinct (map ev_id ?es)" using assms by (simp add: wf_events_def events_of_def distinct_map_filter)
  then have "length (filter (\<lambda>e. ev_id e \<notin> ev_id ` set ?old) ?es) = length ?es - length ?old"
    by (intro filter_not_ids distinct_take) (auto simp: distinct_map dest: in_set_takeD)
  then show ?thesis
    by (auto simp: trim_task_timeline_events_def Let_def timeline_bound_def events_of_filter db_timeline_event_limit_def)
qed

lemma trim_wf: "wf_events rows \<Longrightarrow> wf_events (fst (trim_task_timeline_events rows k limit))"
  by (simp add: trim_task_timeline_events_def Let_def wf_events_filter)

lemma new_event_wf:
  "wf_events rows \<Longrightarrow> req_key env rq \<notin> ev_key ` set rows \<Longrightarrow> ee_id env \<notin> ev_id ` set rows \<Longrightarrow>
    wf_events (rows @ [new_event env rq])"
  by (auto simp: wf_events_def new_event_def)

lemma create_wf: "wf_events rows \<Longrightarrow> wf_events (create_task_event env rq rows)"
  unfolding create_task_event_def by (auto intro!: trim_wf new_event_wf)

lemma create_other:
  assumes "wf_events rows" "rq_task rq \<noteq> k"
  shows "events_of k (create_task_event env rq rows) = events_of k rows"
  using assms trim_other[OF new_event_wf[OF assms(1)], of env rq k "rq_task rq"]
  by (auto simp: create_task_event_def events_of_def new_event_def)

lemma create_bound:
  assumes "wf_events rows" "length (events_of k rows) \<le> timeline_bound"
  shows "length (events_of k (create_task_event env rq rows)) \<le> timeline_bound"
proof (cases "k = rq_task rq")
  case True
  with assms show ?thesis
    using trim_bound[OF new_event_wf[OF assms(1)], of env rq k] by (auto simp: create_task_event_def)
next
  case False
  with assms create_other[OF assms(1), of rq k env] show ?thesis by simp
qed

text \<open>
  What the operations of the service rely on: a write keeps the table well formed, leaves
  the timelines of other tasks alone and keeps each within its bound.
\<close>

locale event_log =
  fixes put :: "'e \<Rightarrow> 't \<Rightarrow> 't"
    and task_of :: "'e \<Rightarrow> string"
    and timeline :: "string \<Rightarrow> 't \<Rightarrow> 'r list"
    and wf :: "'t \<Rightarrow> bool"
    and bound :: nat
  assumes put_wf: "wf t \<Longrightarrow> wf (put e t)"
    and put_other: "wf t \<Longrightarrow> task_of e \<noteq> k \<Longrightarrow> timeline k (put e t) = timeline k t"
    and put_bound: "wf t \<Longrightarrow> length (timeline k t) \<le> bound \<Longrightarrow> length (timeline k (put e t)) \<le> bound"
begin

definition bounded :: "'t \<Rightarrow> bool" where
  "bounded t \<longleftrightarrow> wf t \<and> (\<forall>k. length (timeline k t) \<le> bound)"

lemma put_bounded: "bounded t \<Longrightarrow> bounded (put e t)"
  using put_wf put_bound by (simp add: bounded_def)

lemma puts_bounded: "bounded t \<Longrightarrow> bounded (fold put es t)"
  by (induction es arbitrary: t) (auto simp: put_bounded)

lemma puts_other:
  "bounded t \<Longrightarrow> (\<And>e. e \<in> set es \<Longrightarrow> task_of e \<noteq> k) \<Longrightarrow> timeline k (fold put es t) = timeline k t"
proof (induction es arbitrary: t)
  case (Cons e es)
  have "timeline k (fold put es (put e t)) = timeline k (put e t)"
    using Cons.IH[OF put_bounded[OF Cons.prems(1)]] Cons.prems(2) by simp
  with Cons.prems put_other[of t e k] show ?case by (simp add: bounded_def)
qed simp

end

interpretation task_log: event_log "\<lambda>(env, rq). create_task_event env rq" "rq_task \<circ> snd" events_of wf_events timeline_bound
  by unfold_locales (auto simp: create_wf create_other create_bound)

end
