(* ===== verification/TaskService.thy ===== *)
theory TaskService
  imports Dispatcher TaskEvents
begin

text \<open>
  The life cycle of a task in \<open>app/service/task_service.py\<close> (create, restart, resume,
  cancel, delete, and why a task ended abnormally) and what \<open>app/task_runner.py\<close> writes
  to the database while it runs one. A row has the columns these operations read or
  write, over the dispatch columns of \<open>TaskStore\<close>. A database session has what is
  committed and what is pending; \<open>se_event\<close> is \<open>_safe_create_task_event\<close>, which may
  roll the pending part back. \<open>life_env\<close> holds what an operation reads from outside: the
  clock, how times print, fresh ids, the result file, and how each write of an event and
  the revocation end. The clock readings within one operation are one, and each
  transaction is atomic. The processes the operations kill and the prompt text are left out.
\<close>

record life_row = task_row +
  tl_origin :: "string option"
  tl_parent_project :: "string option"
  tl_parent_task :: "string option"
  tl_parent_type :: "string option"
  tl_stage :: "string option"
  tl_item :: "string option"
  tl_item_key :: "string option"
  tl_input :: string
  tl_source :: "string option"
  tl_module :: "string option"
  tl_output :: "string option"
  tl_config :: pyval
  tl_result :: pyval
  tl_stages :: pyval
  tl_reason :: pyval
  tl_cancel_ack :: bool
  tl_cancel_cleaned :: bool
  tl_cancel_final :: bool
  tl_cancel_owner :: "string option"
  tl_cancel_req_at :: "int option"
  tl_cancel_ack_at :: "int option"
  tl_cancel_clean_at :: "int option"
  tl_cancel_final_at :: "int option"
  tl_created_by :: "string option"

record life_db =
  lb_tasks :: "life_row list"
  lb_events :: "event_row list"
  lb_reports :: "report_row list"
  lb_index :: "string list"
  lb_commands :: "string list"

record life_env =
  le_now :: int
  le_iso :: "int \<Rightarrow> string"
  le_str :: "int \<Rightarrow> string"
  le_updated :: int
  le_clock :: pyval
  le_abn_id :: string
  le_ev :: "string \<Rightarrow> event_env"
  le_out :: "string \<Rightarrow> event_outcome"
  le_revoke_ok :: bool
  le_result :: "string \<Rightarrow> dict option"

datatype http_error =
    NotFound string
  | Conflict run_status
  | MissingFields "string list"
  | InputPathDiffers
  | SourcePathDiffers

section \<open>Sessions\<close>

record life_session =
  ss_saved :: life_db
  ss_work :: life_db
  ss_revoked :: "string list"

definition se_begin :: "life_db \<Rightarrow> life_session" where
  "se_begin db = \<lparr>ss_saved = db, ss_work = db, ss_revoked = []\<rparr>"

definition se_commit :: "life_session \<Rightarrow> life_session" where
  "se_commit s = s\<lparr>ss_saved := ss_work s\<rparr>"

definition se_set :: "string \<Rightarrow> (life_row \<Rightarrow> life_row) \<Rightarrow> life_session \<Rightarrow> life_session" where
  "se_set k f s = s\<lparr>ss_work := (ss_work s)\<lparr>lb_tasks := upd_where (\<lambda>r. dr_key r = k) f (lb_tasks (ss_work s))\<rparr>\<rparr>"

definition se_row :: "string \<Rightarrow> life_session \<Rightarrow> life_row option" where
  "se_row k s = row_of (lb_tasks (ss_work s)) k"

definition se_event :: "life_env \<Rightarrow> event_req \<Rightarrow> life_session \<Rightarrow> life_session" where
  "se_event env rq s =
     (case le_out env (rq_type rq) of
        EvWritten \<Rightarrow> s\<lparr>ss_work := (ss_work s)\<lparr>lb_events :=
          create_task_event (le_ev env (rq_type rq)) rq (lb_events (ss_work s))\<rparr>\<rparr>
      | EvSwallowed \<Rightarrow> s
      | EvSessionLost \<Rightarrow> s\<lparr>ss_work := ss_saved s\<rparr>)"

definition revoke_celery_task :: "life_env \<Rightarrow> 'x dispatch_row_scheme \<Rightarrow> life_session \<Rightarrow> life_session" where
  "revoke_celery_task env r s =
     (case dr_celery r of
        Some (c # cs) \<Rightarrow> if le_revoke_ok env then s\<lparr>ss_revoked := ss_revoked s @ [c # cs]\<rparr> else s
      | _ \<Rightarrow> s)"

definition get_or_404 :: "life_row list \<Rightarrow> string \<Rightarrow> life_row option" where
  "get_or_404 rows k = find (\<lambda>r. dr_key r = k \<and> \<not> dr_deleted r) rows"

definition dedupe_key :: "life_env \<Rightarrow> string \<Rightarrow> pyval list \<Rightarrow> string" where
  "dedupe_key env typ parts = event_dedupe_key (ee_sha1 (le_ev env typ)) (ee_uuid (le_ev env typ)) parts"

fun status_str :: "run_status \<Rightarrow> string" where
  "status_str StPending = ''pending''"
| "status_str StRunning = ''running''"
| "status_str StPassed = ''passed''"
| "status_str StFailed = ''failed''"
| "status_str StError = ''error''"
| "status_str StCancelled = ''cancelled''"

section \<open>Why a task ended abnormally\<close>

definition abnormal_evidence :: "string \<Rightarrow> string \<Rightarrow> pyval \<Rightarrow> pyval list" where
  "abnormal_evidence key label v =
     (if text_of v = [] then []
      else [PDict [(''key'', PStr key), (''label'', PStr label), (''value'', PStr (text_of v))]])"

definition load_task_result_json :: "life_env \<Rightarrow> life_row \<Rightarrow> dict option" where
  "load_task_result_json env r =
     (case (if or_empty (tl_output r) = [] then None else le_result env (dr_key r)) of
        Some d \<Rightarrow> Some d
      | None \<Rightarrow> (case tl_result r of PDict d \<Rightarrow> Some d | _ \<Rightarrow> None))"

definition as_dict :: "pyval \<Rightarrow> dict" where
  "as_dict v = (case v of PDict d \<Rightarrow> d | _ \<Rightarrow> [])"

definition stage_events :: "pyval \<Rightarrow> pyval list" where
  "stage_events v = (case get (as_dict v) ''events'' of PList es \<Rightarrow> es | _ \<Rightarrow> [])"

definition latest_stage_event :: "pyval \<Rightarrow> dict" where
  "latest_stage_event v =
     (case find (\<lambda>e. case e of PDict d \<Rightarrow> truthy (get d ''error'') \<or> truthy (get d ''event'') | _ \<Rightarrow> False)
        (rev (stage_events v)) of
        None \<Rightarrow> [] | Some e \<Rightarrow> as_dict e)"

definition abnormal_message :: "life_env \<Rightarrow> life_row \<Rightarrow> string" where
  "abnormal_message env r =
     (let res = (case load_task_result_json env r of None \<Rightarrow> [] | Some d \<Rightarrow> d);
          ev = latest_stage_event (tl_stages r)
      in text_of (py_or (opt_val (dr_error r)) (py_or (get res ''error'') (py_or (get res ''completion_reason'')
           (py_or (get ev ''error'') (get ev ''message''))))))"

definition abnormal_status :: "run_status \<Rightarrow> bool" where
  "abnormal_status st \<longleftrightarrow> st \<in> {StFailed, StError, StCancelled}"

text \<open>Code, category and title.\<close>

definition classify_abnormal :: "run_status \<Rightarrow> bool \<Rightarrow> string \<Rightarrow> string \<times> string \<times> string" where
  "classify_abnormal st cancel_requested msg =
     (let low = py_lower msg
      in if st = StCancelled \<or> cancel_requested then (''user_cancelled'', ''cancel'', [CHR 0xE4, CHR 0xBB, CHR 0xBB, CHR 0xE5, CHR 0x8A, CHR 0xA1, CHR 0xE5, CHR 0xB7, CHR 0xB2, CHR 0xE5, CHR 0x8F, CHR 0x96, CHR 0xE6, CHR 0xB6, CHR 0x88])
         else if has_sub ''lease'' low \<or> has_sub [CHR 0xE7, CHR 0xA7, CHR 0x9F, CHR 0xE7, CHR 0xBA, CHR 0xA6] msg then (''lease_lost'', ''runtime'', [CHR 0xE4, CHR 0xBB, CHR 0xBB, CHR 0xE5, CHR 0x8A, CHR 0xA1, CHR 0xE7, CHR 0xA7, CHR 0x9F, CHR 0xE7, CHR 0xBA, CHR 0xA6, CHR 0xE4, CHR 0xB8, CHR 0xA2, CHR 0xE5, CHR 0xA4, CHR 0xB1])
         else if has_sub ''cancel'' low \<or> has_sub [CHR 0xE5, CHR 0x8F, CHR 0x96, CHR 0xE6, CHR 0xB6, CHR 0x88] msg then (''runtime_interrupted'', ''runtime'', [CHR 0xE8, CHR 0xBF, CHR 0x90, CHR 0xE8, CHR 0xA1, CHR 0x8C, CHR 0xE6, CHR 0x97, CHR 0xB6, CHR 0xE4, CHR 0xB8, CHR 0xAD, CHR 0xE6, CHR 0x96, CHR 0xAD])
         else if has_sub ''dispatch'' low \<or> has_sub [CHR 0xE8, CHR 0xB0, CHR 0x83, CHR 0xE5, CHR 0xBA, CHR 0xA6] msg then (''dispatch_failed'', ''runtime'', [CHR 0xE8, CHR 0xB0, CHR 0x83, CHR 0xE5, CHR 0xBA, CHR 0xA6, CHR 0xE5, CHR 0xA4, CHR 0xB1, CHR 0xE8, CHR 0xB4, CHR 0xA5])
         else if has_sub [CHR 0xE6, CHR 0x89, CHR 0xBE, CHR 0xE4, CHR 0xB8, CHR 0x8D, CHR 0xE5, CHR 0x88, CHR 0xB0, CHR 0xE6, CHR 0xA8, CHR 0xA1, CHR 0xE5, CHR 0x9D, CHR 0x97] msg \<or> has_sub ''files.list'' low
           then (''module_descriptor_missing'', ''input'', [CHR 0xE6, CHR 0xA8, CHR 0xA1, CHR 0xE5, CHR 0x9D, CHR 0x97, CHR 0xE6, CHR 0x8F, CHR 0x8F, CHR 0xE8, CHR 0xBF, CHR 0xB0, CHR 0xE6, CHR 0x96, CHR 0x87, CHR 0xE4, CHR 0xBB, CHR 0xB6, CHR 0xE7, CHR 0xBC, CHR 0xBA, CHR 0xE5, CHR 0xA4, CHR 0xB1])
         else (if st = StError then ''unknown_abnormal'' else ''orchestration_failed'', ''orchestration'', [CHR 0xE4, CHR 0xBB, CHR 0xBB, CHR 0xE5, CHR 0x8A, CHR 0xA1, CHR 0xE5, CHR 0xBC, CHR 0x82, CHR 0xE5, CHR 0xB8, CHR 0xB8, CHR 0xE7, CHR 0xBB, CHR 0x93, CHR 0xE6, CHR 0x9D, CHR 0x9F]))"

definition iso_opt :: "life_env \<Rightarrow> int option \<Rightarrow> pyval" where
  "iso_opt env t = (case t of None \<Rightarrow> PNone | Some i \<Rightarrow> PStr (le_iso env i))"

definition task_abnormal_reason :: "life_env \<Rightarrow> life_row \<Rightarrow> dict option" where
  "task_abnormal_reason env r =
     (if \<not> abnormal_status (dr_status r) then None
      else case tl_reason r of
        PDict d \<Rightarrow> Some d
      | _ \<Rightarrow>
        (let msg = abnormal_message env r; ev = latest_stage_event (tl_stages r);
             (code, category, title) = classify_abnormal (dr_status r) (tr_cancel_requested r) msg;
             stage = text_of (py_or (get ev ''stage'') (get ev ''stage_name''))
         in Some [(''is_abnormal'', PBool True), (''category'', PStr category), (''code'', PStr code),
              (''title'', PStr title), (''message'', PStr (if msg = [] then [CHR 0xE4, CHR 0xBB, CHR 0xBB, CHR 0xE5, CHR 0x8A, CHR 0xA1, CHR 0xE4, CHR 0xBB, CHR 0xA5, CHR 0xE9, CHR 0x9D, CHR 0x9E, CHR 0xE6, CHR 0xAD, CHR 0xA3, CHR 0xE5, CHR 0xB8, CHR 0xB8, CHR 0xE7, CHR 0x8A, CHR 0xB6, CHR 0xE6, CHR 0x80, CHR 0x81, CHR 0xE7, CHR 0xBB, CHR 0x93, CHR 0xE6, CHR 0x9D, CHR 0x9F, CHR 0xE3, CHR 0x80, CHR 0x82] else msg)),
              (''terminal'', PBool True), (''source_layer'', PStr ''task''), (''status'', PStr (status_str (dr_status r))),
              (''service'', PStr ''entry-analysis''), (''stage_name'', if stage = [] then PNone else PStr stage),
              (''item_key'', opt_val (tl_module r)), (''downstream_task_id'', PNone), (''downstream_service'', PNone),
              (''first_seen_at'', iso_opt env (dr_started r)),
              (''last_seen_at'', iso_opt env (case dr_finished r of None \<Rightarrow> Some (le_updated env) | Some t \<Rightarrow> Some t)),
              (''evidence'', PList (abnormal_evidence ''status'' [CHR 0xE7, CHR 0x8A, CHR 0xB6, CHR 0xE6, CHR 0x80, CHR 0x81] (PStr (status_str (dr_status r)))
                 @ abnormal_evidence ''module_name'' [CHR 0xE6, CHR 0xA8, CHR 0xA1, CHR 0xE5, CHR 0x9D, CHR 0x97] (opt_val (tl_module r))
                 @ abnormal_evidence ''error'' [CHR 0xE5, CHR 0x8E, CHR 0x9F, CHR 0xE5, CHR 0xA7, CHR 0x8B, CHR 0xE9, CHR 0x94, CHR 0x99, CHR 0xE8, CHR 0xAF, CHR 0xAF] (opt_val (dr_error r)))),
              (''recommended_action'', PStr ([CHR 0xE6, CHR 0x9F, CHR 0xA5, CHR 0xE7, CHR 0x9C, CHR 0x8B, CHR 0xE7, CHR 0xBB, CHR 0x93, CHR 0xE6, CHR 0x9E, CHR 0x9C, CHR 0xE6, CHR 0x96, CHR 0x87, CHR 0xE4, CHR 0xBB, CHR 0xB6, CHR 0xE3, CHR 0x80, CHR 0x81] @ ''stages_json '' @ [CHR 0xE5, CHR 0x92, CHR 0x8C, CHR 0xE4, CHR 0xBC, CHR 0x9A, CHR 0xE8, CHR 0xAF, CHR 0x9D, CHR 0xE7, CHR 0xB4, CHR 0xA2, CHR 0xE5, CHR 0xBC, CHR 0x95, CHR 0xEF, CHR 0xBC, CHR 0x8C, CHR 0xE7, CHR 0xA1, CHR 0xAE, CHR 0xE8, CHR 0xAE, CHR 0xA4, CHR 0xE5, CHR 0xA4, CHR 0xB1, CHR 0xE8, CHR 0xB4, CHR 0xA5, CHR 0xE9, CHR 0xA6, CHR 0x96, CHR 0xE5, CHR 0x85, CHR 0x88, CHR 0xE5, CHR 0x8F, CHR 0x91, CHR 0xE7, CHR 0x94, CHR 0x9F, CHR 0xE5, CHR 0x9C, CHR 0xA8, CHR 0xE5, CHR 0x93, CHR 0xAA, CHR 0xE4, CHR 0xB8, CHR 0x80, CHR 0xE8, CHR 0xBD, CHR 0xAE, CHR 0xE6, CHR 0x88, CHR 0x96, CHR 0xE5, CHR 0x93, CHR 0xAA, CHR 0xE4, CHR 0xB8, CHR 0x80, CHR 0xE6, CHR 0xAD, CHR 0xA5, CHR 0xE3, CHR 0x80, CHR 0x82])),
              (''related_event_ids'', PList [])]))"

text \<open>The reason shown in lists, which does not read the result file.\<close>

definition task_abnormal_reason_light :: "life_row \<Rightarrow> dict option" where
  "task_abnormal_reason_light r =
     (if \<not> abnormal_status (dr_status r) then None
      else case tl_reason r of
        PDict d \<Rightarrow> Some d
      | _ \<Rightarrow>
        (let st = PStr (status_str (dr_status r)); msg = text_of (opt_val (dr_error r)); low = py_lower msg
         in Some (if dr_status r = StCancelled \<or> tr_cancel_requested r
              then [(''code'', PStr ''user_cancelled''), (''category'', PStr ''cancel''), (''title'', PStr [CHR 0xE4, CHR 0xBB, CHR 0xBB, CHR 0xE5, CHR 0x8A, CHR 0xA1, CHR 0xE5, CHR 0xB7, CHR 0xB2, CHR 0xE5, CHR 0x8F, CHR 0x96, CHR 0xE6, CHR 0xB6, CHR 0x88]), (''status'', st)]
            else if has_sub ''lease'' low \<or> has_sub [CHR 0xE7, CHR 0xA7, CHR 0x9F, CHR 0xE7, CHR 0xBA, CHR 0xA6] msg
              then [(''code'', PStr ''lease_lost''), (''category'', PStr ''runtime''), (''title'', PStr [CHR 0xE4, CHR 0xBB, CHR 0xBB, CHR 0xE5, CHR 0x8A, CHR 0xA1, CHR 0xE7, CHR 0xA7, CHR 0x9F, CHR 0xE7, CHR 0xBA, CHR 0xA6, CHR 0xE4, CHR 0xB8, CHR 0xA2, CHR 0xE5, CHR 0xA4, CHR 0xB1]), (''status'', st)]
            else if has_sub ''cancel'' low \<or> has_sub [CHR 0xE5, CHR 0x8F, CHR 0x96, CHR 0xE6, CHR 0xB6, CHR 0x88] msg
              then [(''code'', PStr ''runtime_interrupted''), (''category'', PStr ''runtime''), (''title'', PStr [CHR 0xE8, CHR 0xBF, CHR 0x90, CHR 0xE8, CHR 0xA1, CHR 0x8C, CHR 0xE6, CHR 0x97, CHR 0xB6, CHR 0xE4, CHR 0xB8, CHR 0xAD, CHR 0xE6, CHR 0x96, CHR 0xAD]), (''status'', st)]
            else if msg \<noteq> []
              then [(''code'', PStr ''task_failed''), (''category'', PStr ''runtime''), (''title'', PStr [CHR 0xE4, CHR 0xBB, CHR 0xBB, CHR 0xE5, CHR 0x8A, CHR 0xA1, CHR 0xE6, CHR 0x89, CHR 0xA7, CHR 0xE8, CHR 0xA1, CHR 0x8C, CHR 0xE5, CHR 0xA4, CHR 0xB1, CHR 0xE8, CHR 0xB4, CHR 0xA5]),
                    (''message'', PStr msg), (''status'', st)]
            else [(''code'', PStr ''task_failed''), (''category'', PStr ''runtime''), (''title'', PStr [CHR 0xE4, CHR 0xBB, CHR 0xBB, CHR 0xE5, CHR 0x8A, CHR 0xA1, CHR 0xE6, CHR 0x89, CHR 0xA7, CHR 0xE8, CHR 0xA1, CHR 0x8C, CHR 0xE5, CHR 0xA4, CHR 0xB1, CHR 0xE8, CHR 0xB4, CHR 0xA5]), (''status'', st)])))"

definition abnormal_reason_event :: "life_env \<Rightarrow> dict \<Rightarrow> pyval" where
  "abnormal_reason_event env d =
     PDict [(''ts'', le_clock env),
       (''timestamp'', PStr (py_str (py_or (get d ''last_seen_at'') (PStr (le_iso env (le_now env)))))),
       (''event'', PStr ''abnormal_reason_recorded''), (''type'', PStr ''abnormal_reason_recorded''),
       (''event_id'', PStr (''abn-'' @ le_abn_id env)),
       (''message'', PStr (py_str (py_or (get d ''title'') (PStr [CHR 0xE4, CHR 0xBB, CHR 0xBB, CHR 0xE5, CHR 0x8A, CHR 0xA1, CHR 0xE5, CHR 0xBC, CHR 0x82, CHR 0xE5, CHR 0xB8, CHR 0xB8, CHR 0xE7, CHR 0xBB, CHR 0x93, CHR 0xE6, CHR 0x9D, CHR 0x9F])))),
       (''level'', PStr (if get d ''status'' = PStr ''cancelled'' then ''warning'' else ''error'')),
       (''data'', PDict [(''reason'', PDict d)])]"

definition reason_val :: "dict option \<Rightarrow> pyval" where
  "reason_val x = (case x of None \<Rightarrow> PNone | Some d \<Rightarrow> PDict d)"

definition reason_changed :: "life_env \<Rightarrow> life_row \<Rightarrow> bool" where
  "reason_changed env r \<longleftrightarrow> tl_reason r \<noteq> reason_val (task_abnormal_reason env r)"

definition sync_task_abnormal_reason :: "life_env \<Rightarrow> life_row \<Rightarrow> life_row" where
  "sync_task_abnormal_reason env r =
     (if reason_changed env r then r\<lparr>tl_reason := reason_val (task_abnormal_reason env r)\<rparr> else r)"

definition record_abnormal_reason :: "life_env \<Rightarrow> dict option \<Rightarrow> bool \<Rightarrow> life_row \<Rightarrow> life_row" where
  "record_abnormal_reason env reason changed r =
     (case reason of
        Some d \<Rightarrow> if \<not> changed then r
          else (let payload = as_dict (tl_stages r)
                in r\<lparr>tl_stages := PDict (dset ''final'' (PBool (truthy (get payload ''final'')))
                     (dset ''events'' (PList (stage_events (tl_stages r) @ [abnormal_reason_event env d])) payload))\<rparr>)
      | None \<Rightarrow> r)"

text \<open>\<open>_sync_task_abnormal_reason\<close> followed by \<open>_record_abnormal_reason\<close>.\<close>

definition note_abnormal_reason :: "life_env \<Rightarrow> life_row \<Rightarrow> life_row" where
  "note_abnormal_reason env r =
     record_abnormal_reason env (task_abnormal_reason env r) (reason_changed env r) (sync_task_abnormal_reason env r)"

section \<open>Cancel state\<close>

definition reset_cancel_state :: "life_row \<Rightarrow> life_row" where
  "reset_cancel_state r = r\<lparr>tr_cancel_requested := False, tl_cancel_ack := False, tl_cancel_cleaned := False,
     tl_cancel_final := False, tl_cancel_owner := None, tl_cancel_req_at := None, tl_cancel_ack_at := None,
     tl_cancel_clean_at := None, tl_cancel_final_at := None\<rparr>"

definition cancel_phase :: "life_row \<Rightarrow> string option" where
  "cancel_phase r =
     (if tl_cancel_final r then Some ''finalized'' else if tl_cancel_cleaned r then Some ''process_cleanup_done''
      else if tl_cancel_ack r then Some ''acknowledged'' else if tr_cancel_requested r then Some ''requested''
      else None)"

section \<open>Restart and resume\<close>

definition reset_for_run :: "life_row \<Rightarrow> life_row" where
  "reset_for_run r = reset_cancel_state (r\<lparr>dr_status := StPending, dr_celery := None, dr_owner := None,
     tr_owner_ip := None, dr_lease := None, dr_epoch := 0, dr_heartbeat := None, dr_started := None,
     dr_finished := None, dr_error := None\<rparr>)"

definition restart_cancel_req :: "life_env \<Rightarrow> life_row \<Rightarrow> event_req" where
  "restart_cancel_req env r =
     (event_call (dr_key r) (tr_project r) ''task_cancelled'' [CHR 0xE9, CHR 0x87, CHR 0x8D, CHR 0xE5, CHR 0x90, CHR 0xAF, CHR 0xE4, CHR 0xBB, CHR 0xBB, CHR 0xE5, CHR 0x8A, CHR 0xA1, CHR 0xEF, CHR 0xBC, CHR 0x9A, CHR 0xE8, CHR 0x87, CHR 0xAA, CHR 0xE5, CHR 0x8A, CHR 0xA8, CHR 0xE5, CHR 0x8F, CHR 0x96, CHR 0xE6, CHR 0xB6, CHR 0x88, CHR 0xE8, CHR 0xBF, CHR 0x90, CHR 0xE8, CHR 0xA1, CHR 0x8C, CHR 0xE4, CHR 0xB8, CHR 0xAD, CHR 0xE4, CHR 0xBB, CHR 0xBB, CHR 0xE5, CHR 0x8A, CHR 0xA1])
       \<lparr>rq_status := Some ''cancelled'', rq_payload := Some [(''reason'', PStr ''restart_auto_cancel'')],
        rq_key := Some (dedupe_key env ''task_cancelled'' [PStr (dr_key r), PStr ''task_cancelled'', PStr ''restart''])\<rparr>"

definition again_req :: "life_env \<Rightarrow> string \<Rightarrow> string \<Rightarrow> string \<Rightarrow> life_row \<Rightarrow> event_req" where
  "again_req env typ msg code r =
     (event_call (dr_key r) (tr_project r) typ msg)
       \<lparr>rq_status := Some ''pending'',
        rq_payload := Some [(''operator'', PStr ''api''), (''restart_mode'', PStr ''fresh_start''), (''reason_code'', PStr code)],
        rq_key := Some (dedupe_key env typ [PStr (dr_key r), PStr typ, PStr (le_str env (le_updated env)), PStr ''pending''])\<rparr>"

text \<open>The database, the Celery ids revoked and the answer: an error, or the row as it then is.\<close>

type_synonym api_result = "life_db \<times> string list \<times> (http_error + life_row option)"

definition api_done :: "string \<Rightarrow> life_session \<Rightarrow> api_result" where
  "api_done k s = (ss_saved s, ss_revoked s, Inr (se_row k s))"

definition restart_task :: "life_env \<Rightarrow> string \<Rightarrow> life_db \<Rightarrow> api_result" where
  "restart_task env k db =
     (case get_or_404 (lb_tasks db) k of
        None \<Rightarrow> (db, [], Inl (NotFound k))
      | Some r \<Rightarrow>
          (let s = se_begin db;
               s = (if dr_status r \<in> {StRunning, StPending}
                    then se_commit (se_event env (restart_cancel_req env r)
                      (se_set k (\<lambda>r. r\<lparr>dr_status := StCancelled, dr_finished := Some (le_now env), tr_cancel_requested := True\<rparr>)
                        (revoke_celery_task env r s)))
                    else s);
               s = se_set k reset_for_run s;
               s = se_event env (again_req env ''task_retried'' [CHR 0xE4, CHR 0xBB, CHR 0xBB, CHR 0xE5, CHR 0x8A, CHR 0xA1, CHR 0xE5, CHR 0xB7, CHR 0xB2, CHR 0xE9, CHR 0x87, CHR 0x8D, CHR 0xE8, CHR 0xAF, CHR 0x95, CHR 0xEF, CHR 0xBC, CHR 0x8C, CHR 0xE7, CHR 0xAD, CHR 0x89, CHR 0xE5, CHR 0xBE, CHR 0x85, CHR 0xE9, CHR 0x87, CHR 0x8D, CHR 0xE6, CHR 0x96, CHR 0xB0, CHR 0xE8, CHR 0xB0, CHR 0x83, CHR 0xE5, CHR 0xBA, CHR 0xA6] ''manual_retry'' r) s
           in api_done k (se_commit s)))"

definition resume_task :: "life_env \<Rightarrow> string \<Rightarrow> life_db \<Rightarrow> api_result" where
  "resume_task env k db =
     (case get_or_404 (lb_tasks db) k of
        None \<Rightarrow> (db, [], Inl (NotFound k))
      | Some r \<Rightarrow>
          (let s = se_begin db;
               s = (if dr_status r \<in> {StRunning, StPending}
                    then se_commit (se_set k (\<lambda>r. r\<lparr>dr_status := StCancelled, dr_finished := Some (le_now env)\<rparr>)
                      (revoke_celery_task env r s))
                    else s);
               s = se_set k reset_for_run s;
               s = se_event env (again_req env ''task_resumed'' [CHR 0xE4, CHR 0xBB, CHR 0xBB, CHR 0xE5, CHR 0x8A, CHR 0xA1, CHR 0xE5, CHR 0xB7, CHR 0xB2, CHR 0xE6, CHR 0x81, CHR 0xA2, CHR 0xE5, CHR 0xA4, CHR 0x8D, CHR 0xEF, CHR 0xBC, CHR 0x8C, CHR 0xE7, CHR 0xAD, CHR 0x89, CHR 0xE5, CHR 0xBE, CHR 0x85, CHR 0xE9, CHR 0x87, CHR 0x8D, CHR 0xE6, CHR 0x96, CHR 0xB0, CHR 0xE8, CHR 0xB0, CHR 0x83, CHR 0xE5, CHR 0xBA, CHR 0xA6] ''manual_resume'' r) s
           in api_done k (se_commit s)))"

section \<open>Cancel\<close>

definition cancel_mark :: "life_env \<Rightarrow> life_row \<Rightarrow> life_row" where
  "cancel_mark env r = r\<lparr>tr_cancel_requested := True,
     tl_cancel_req_at := (case tl_cancel_req_at r of None \<Rightarrow> Some (le_now env) | Some t \<Rightarrow> Some t),
     tl_cancel_ack := False, tl_cancel_cleaned := False, tl_cancel_final := False,
     tl_cancel_owner := dr_owner r, tl_cancel_ack_at := None, tl_cancel_clean_at := None, tl_cancel_final_at := None\<rparr>"

definition cancel_pending_row :: "life_env \<Rightarrow> life_row \<Rightarrow> life_row" where
  "cancel_pending_row env r = r\<lparr>dr_status := StCancelled, dr_finished := Some (le_now env), dr_owner := None,
     tr_owner_ip := None, dr_lease := None, tl_cancel_ack := True, tl_cancel_cleaned := True, tl_cancel_final := True,
     tl_cancel_ack_at := (case tl_cancel_req_at r of None \<Rightarrow> Some (le_now env) | Some t \<Rightarrow> Some t),
     tl_cancel_clean_at := Some (le_now env), tl_cancel_final_at := Some (le_now env)\<rparr>"

definition cancel_running_row :: "life_env \<Rightarrow> life_row \<Rightarrow> life_row" where
  "cancel_running_row env r = r\<lparr>dr_status := StCancelled, dr_finished := Some (le_now env), dr_celery := None,
     dr_owner := None, tr_owner_ip := None, dr_lease := None, dr_epoch := 0, tl_cancel_ack := True,
     tl_cancel_cleaned := True, tl_cancel_final := True, tl_cancel_clean_at := Some (le_now env),
     tl_cancel_final_at := Some (le_now env)\<rparr>"

definition cancel_request_req :: "life_env \<Rightarrow> life_row \<Rightarrow> event_req" where
  "cancel_request_req env r =
     (event_call (dr_key r) (tr_project r) ''task_cancel_requested'' [CHR 0xE4, CHR 0xBB, CHR 0xBB, CHR 0xE5, CHR 0x8A, CHR 0xA1, CHR 0xE5, CHR 0xB7, CHR 0xB2, CHR 0xE8, CHR 0xAF, CHR 0xB7, CHR 0xE6, CHR 0xB1, CHR 0x82, CHR 0xE5, CHR 0x8F, CHR 0x96, CHR 0xE6, CHR 0xB6, CHR 0x88])
       \<lparr>rq_status := Some (status_str (dr_status r)),
        rq_payload := Some [(''owner_pod_ip'', opt_val (tr_owner_ip r)), (''cancel_phase'', PStr ''requested'')],
        rq_key := Some (dedupe_key env ''task_cancel_requested'' [PStr (dr_key r), PStr ''task_cancel_requested'',
          PStr (le_str env (le_updated env)), PStr (status_str (dr_status r))])\<rparr>"

definition cancelled_req :: "life_env \<Rightarrow> string \<Rightarrow> string \<Rightarrow> string \<Rightarrow> life_row \<Rightarrow> event_req" where
  "cancelled_req env msg reason part r =
     (event_call (dr_key r) (tr_project r) ''task_cancelled'' msg)
       \<lparr>rq_status := Some ''cancelled'',
        rq_payload := Some [(''reason'', PStr reason), (''cancel_phase'', PStr ''finalized'')],
        rq_key := Some (dedupe_key env ''task_cancelled'' [PStr (dr_key r), PStr ''task_cancelled'', PStr part])\<rparr>"

definition reason_req :: "life_env \<Rightarrow> life_row \<Rightarrow> dict \<Rightarrow> event_req" where
  "reason_req env r d =
     (let stage = text_of (get d ''stage_name''); st = py_str (py_or (get d ''status'') (PStr []))
      in (event_call (dr_key r) (tr_project r) ''abnormal_reason_recorded'' (py_str (py_or (get d ''title'') (PStr [CHR 0xE4, CHR 0xBB, CHR 0xBB, CHR 0xE5, CHR 0x8A, CHR 0xA1, CHR 0xE5, CHR 0xBC, CHR 0x82, CHR 0xE5, CHR 0xB8, CHR 0xB8]))))
       \<lparr>rq_level := (if st = ''cancelled'' then ''warning'' else ''error''),
        rq_status := Some (if st = [] then status_str (dr_status r) else st),
        rq_stage := (if stage = [] then None else Some stage), rq_path := Some (tl_input r),
        rq_payload := Some [(''reason'', PDict d)],
        rq_key := Some (dedupe_key env ''abnormal_reason_recorded''
          [PStr (dr_key r), PStr ''abnormal_reason_recorded'', get d ''code'', get d ''message''])\<rparr>)"

definition cancel_note_reason :: "life_env \<Rightarrow> string \<Rightarrow> life_session \<Rightarrow> life_session" where
  "cancel_note_reason env k s =
     (case se_row k s of
        None \<Rightarrow> s
      | Some r \<Rightarrow>
          (let s' = se_set k (note_abnormal_reason env) s
           in case (reason_changed env r, task_abnormal_reason env r) of
                (True, Some d) \<Rightarrow> se_event env (reason_req env r d) s'
              | _ \<Rightarrow> s'))"

definition cancel_if :: "run_status \<Rightarrow> string \<Rightarrow> (life_row \<Rightarrow> life_session \<Rightarrow> life_session) \<Rightarrow> life_session \<Rightarrow> life_session" where
  "cancel_if st k act s =
     (case se_row k s of None \<Rightarrow> s | Some r \<Rightarrow> if dr_status r = st then act r s else s)"

definition cancel_pending_act :: "life_env \<Rightarrow> string \<Rightarrow> life_row \<Rightarrow> life_session \<Rightarrow> life_session" where
  "cancel_pending_act env k r s =
     se_event env (cancelled_req env [CHR 0xE4, CHR 0xBB, CHR 0xBB, CHR 0xE5, CHR 0x8A, CHR 0xA1, CHR 0xE5, CHR 0xB7, CHR 0xB2, CHR 0xE5, CHR 0x9C, CHR 0xA8, CHR 0xE6, CHR 0x8E, CHR 0x92, CHR 0xE9, CHR 0x98, CHR 0x9F, CHR 0xE9, CHR 0x98, CHR 0xB6, CHR 0xE6, CHR 0xAE, CHR 0xB5, CHR 0xE5, CHR 0x8F, CHR 0x96, CHR 0xE6, CHR 0xB6, CHR 0x88] ''pending_cancel'' ''pending'' r) (se_set k (cancel_pending_row env) s)"

definition cancel_running_act :: "life_env \<Rightarrow> string \<Rightarrow> life_row \<Rightarrow> life_session \<Rightarrow> life_session" where
  "cancel_running_act env k r s =
     se_commit (se_event env (cancelled_req env ([CHR 0xE4, CHR 0xBB, CHR 0xBB, CHR 0xE5, CHR 0x8A, CHR 0xA1, CHR 0xE5, CHR 0xB7, CHR 0xB2, CHR 0xE5, CHR 0x8F, CHR 0x96, CHR 0xE6, CHR 0xB6, CHR 0x88, CHR 0xEF, CHR 0xBC, CHR 0x88] @ ''revoke'' @ [CHR 0xEF, CHR 0xBC, CHR 0x89]) ''running_cancel'' ''running'' r)
       (se_set k (cancel_running_row env) (revoke_celery_task env r s)))"

definition cancel_task :: "life_env \<Rightarrow> string \<Rightarrow> life_db \<Rightarrow> api_result" where
  "cancel_task env k db =
     (case get_or_404 (lb_tasks db) k of
        None \<Rightarrow> (db, [], Inl (NotFound k))
      | Some r \<Rightarrow>
          if terminal (dr_status r) then (db, [], Inl (Conflict (dr_status r)))
          else (let s = se_event env (cancel_request_req env r) (se_set k (cancel_mark env) (se_begin db));
                    s = cancel_if StPending k (cancel_pending_act env k) s;
                    s = se_commit (cancel_note_reason env k s);
                    s = cancel_if StRunning k (cancel_running_act env k) s
                in api_done k s))"

definition cancel_answer_phase :: "life_row \<Rightarrow> string" where
  "cancel_answer_phase r = (if dr_status r = StCancelled then ''finalized'' else ''requested'')"

section \<open>Delete\<close>

datatype file_cleanup = FilesSkipped | FilesDeleted | FilesFailed

record delete_report =
  dl_events :: nat
  dl_files :: file_cleanup
  dl_db_ok :: bool

definition revoke_reports :: "life_env \<Rightarrow> report_row list \<Rightarrow> life_session \<Rightarrow> life_session" where
  "revoke_reports env rs s = fold (revoke_celery_task env) rs s"

text \<open>
  \<open>files\<close> is what removing the task's directory did, \<open>db_ok\<close> whether the deletions and
  their commit succeeded; when they did not, the session is rolled back.
\<close>

definition delete_task ::
  "life_env \<Rightarrow> file_cleanup \<Rightarrow> bool \<Rightarrow> string \<Rightarrow> life_db \<Rightarrow> life_db \<times> string list \<times> delete_report option" where
  "delete_task env files db_ok k db =
     (case row_of (lb_tasks db) k of
        None \<Rightarrow> (db, [], None)
      | Some r \<Rightarrow>
          (let s = se_begin db;
               s = (if dr_status r = StRunning then revoke_celery_task env r s else s);
               s = revoke_reports env (filter (\<lambda>x. rr_task_id x = k) (lb_reports db)) s
           in if db_ok
              then (\<lparr>lb_tasks = filter (\<lambda>x. dr_key x \<noteq> k) (lb_tasks db), lb_events = filter (\<lambda>e. ev_task e \<noteq> k) (lb_events db),
                     lb_reports = filter (\<lambda>x. rr_task_id x \<noteq> k) (lb_reports db), lb_index = filter (\<lambda>x. x \<noteq> k) (lb_index db),
                     lb_commands = filter (\<lambda>x. x \<noteq> k) (lb_commands db)\<rparr>, ss_revoked s,
                    Some \<lparr>dl_events = length (events_of k (lb_events db)), dl_files = files, dl_db_ok = True\<rparr>)
              else (db, ss_revoked s, Some \<lparr>dl_events = 0, dl_files = files, dl_db_ok = False\<rparr>)))"

section \<open>Create\<close>

record create_req =
  cq_project :: string
  cq_name :: string
  cq_input :: string
  cq_source :: "string option"
  cq_module :: string
  cq_contract :: pyval
  cq_output :: "string option"
  cq_config :: "dict option"
  cq_created_by :: "string option"
  cq_origin :: "string option"
  cq_parent_project :: "string option"
  cq_parent_task :: "string option"
  cq_parent_type :: "string option"
  cq_stage :: "string option"
  cq_item :: "string option"
  cq_item_key :: "string option"

definition field_of :: "dict \<Rightarrow> string list \<Rightarrow> string" where
  "field_of d ks = text_of (foldr (\<lambda>k v. py_or (get d k) v) ks (PStr []))"

definition validate_binary_security_contract ::
  "dict \<Rightarrow> string \<Rightarrow> string \<Rightarrow> http_error + (string \<times> string \<times> string)" where
  "validate_binary_security_contract d input_path source_path =
     (let module_dir = field_of d [''module_dir'', ''source_dir''];
          files_list = field_of d [''files_list_path'', ''entry_files_list'', ''files_list''];
          source_root = field_of d [''source_root'', ''source_root_path'', ''source_dir''];
          missing = map fst (filter (\<lambda>(f, v). v = [])
            [(''module_dir'', module_dir), (''files_list_path'', files_list), (''source_root'', source_root)]);
          inp = py_strip input_path; src = py_strip source_path
      in if missing \<noteq> [] then Inl (MissingFields missing)
         else if inp \<noteq> [] \<and> inp \<noteq> module_dir then Inl InputPathDiffers
         else if src \<noteq> [] \<and> src \<noteq> source_root then Inl SourcePathDiffers
         else Inr (module_dir, source_root, files_list))"

definition create_paths :: "create_req \<Rightarrow> http_error + (string \<times> string option)" where
  "create_paths q =
     (if py_strip (or_empty (cq_origin q)) = ''binary_security''
      then (case validate_binary_security_contract (as_dict (cq_contract q)) (py_strip (cq_input q)) (py_strip (or_empty (cq_source q))) of
              Inl e \<Rightarrow> Inl e | Inr (m, sr, fl) \<Rightarrow> Inr (m, Some sr))
      else Inr (py_strip (cq_input q), norm_opt (cq_source q)))"

definition reusable_status :: "run_status \<Rightarrow> bool" where
  "reusable_status st \<longleftrightarrow> st \<in> {StPending, StRunning, StPassed}"

text \<open>The row is found under the stripped values of the request, which a row stores as given.\<close>

definition dedup_applies :: "create_req \<Rightarrow> bool" where
  "dedup_applies q \<longleftrightarrow> norm_opt (cq_parent_task q) \<noteq> None \<and> norm_opt (cq_stage q) \<noteq> None
     \<and> (norm_opt (cq_item q) \<noteq> None \<or> norm_opt (cq_item_key q) \<noteq> None)"

definition dedup_match :: "create_req \<Rightarrow> life_row \<Rightarrow> bool" where
  "dedup_match q r \<longleftrightarrow> tr_project r = cq_project q \<and> \<not> dr_deleted r
     \<and> tl_parent_task r = norm_opt (cq_parent_task q) \<and> tl_stage r = norm_opt (cq_stage q)
     \<and> reusable_status (dr_status r)
     \<and> (if norm_opt (cq_item q) \<noteq> None then tl_item r = norm_opt (cq_item q)
        else tl_item_key r = norm_opt (cq_item_key q))"

definition newest_first :: "life_row list \<Rightarrow> life_row list" where
  "newest_first rows = rev (sort_key (\<lambda>r. (dr_created r, dr_id r)) rows)"

definition reusable_row :: "create_req \<Rightarrow> life_row list \<Rightarrow> life_row option" where
  "reusable_row q rows =
     (if dedup_applies q then (case newest_first (filter (dedup_match q) rows) of [] \<Rightarrow> None | r # _ \<Rightarrow> Some r) else None)"

definition dedup_req :: "life_env \<Rightarrow> create_req \<Rightarrow> life_row \<Rightarrow> event_req" where
  "dedup_req env q r =
     (let item = or_empty (norm_opt (cq_item q)); key = or_empty (norm_opt (cq_item_key q))
      in (event_call (dr_key r) (tr_project r) ''task_create_deduplicated'' [CHR 0xE5, CHR 0xA4, CHR 0x8D, CHR 0xE7, CHR 0x94, CHR 0xA8, CHR 0xE5, CHR 0xB7, CHR 0xB2, CHR 0xE6, CHR 0x9C, CHR 0x89, CHR 0xE5, CHR 0x85, CHR 0xA5, CHR 0xE5, CHR 0x8F, CHR 0xA3, CHR 0xE5, CHR 0x88, CHR 0x86, CHR 0xE6, CHR 0x9E, CHR 0x90, CHR 0xE4, CHR 0xBB, CHR 0xBB, CHR 0xE5, CHR 0x8A, CHR 0xA1])
       \<lparr>rq_source := task_event_source_system, rq_status := Some (status_str (dr_status r)),
        rq_payload := Some [(''parent_task_id'', PStr (or_empty (norm_opt (cq_parent_task q)))),
          (''parent_stage_name'', PStr (or_empty (norm_opt (cq_stage q)))),
          (''parent_stage_item_id'', opt_val (norm_opt (cq_item q))), (''parent_stage_item_key'', opt_val (norm_opt (cq_item_key q)))],
        rq_key := Some (dedupe_key env ''task_create_deduplicated'' [PStr (dr_key r), PStr ''task_create_deduplicated'',
          PStr (or_empty (norm_opt (cq_parent_task q))), PStr (or_empty (norm_opt (cq_stage q))),
          PStr (if item \<noteq> [] then item else key)])\<rparr>)"

text \<open>
  The configuration stored with the task: the caller's, the contract, and the snapshot
  of the global configuration (\<open>None\<close> when reading it raised).
\<close>

definition create_config :: "dict option \<Rightarrow> create_req \<Rightarrow> pyval" where
  "create_config snapshot q =
     (let cfg = (case cq_config q of None \<Rightarrow> [] | Some d \<Rightarrow> d);
          contract = as_dict (cq_contract q);
          cfg = (if contract = [] then cfg else dset ''input_contract'' (PDict contract) cfg);
          snap = dpop ''project_id'' (dpop ''updated_at'' (case snapshot of None \<Rightarrow> [] | Some d \<Rightarrow> d));
          cfg = (if snap = [] then cfg else dset ''project_config_snapshot'' (PDict snap) cfg)
      in if cfg = [] then PNone else PDict cfg)"

definition new_task ::
  "life_env \<Rightarrow> string \<Rightarrow> dict option \<Rightarrow> nat \<Rightarrow> string \<Rightarrow> string \<Rightarrow> string option \<Rightarrow> create_req \<Rightarrow> life_row" where
  "new_task env base snapshot i k input src q =
     \<lparr>dr_id = i, dr_key = k, dr_status = StPending, dr_owner = None, dr_celery = None, dr_epoch = 0,
      dr_heartbeat = None, dr_lease = None, dr_started = None, dr_finished = None, dr_error = None,
      dr_created = le_now env, dr_deleted = False, tr_project = cq_project q, tr_name = cq_name q,
      tr_owner_ip = None, tr_cancel_requested = False,
      tl_origin = Some (let t = py_strip (or_empty (cq_origin q)) in if t = [] then ''manual'' else t),
      tl_parent_project = cq_parent_project q, tl_parent_task = cq_parent_task q, tl_parent_type = cq_parent_type q,
      tl_stage = cq_stage q, tl_item = cq_item q, tl_item_key = cq_item_key q, tl_input = input, tl_source = src,
      tl_module = (if cq_module q = [] then None else Some (cq_module q)),
      tl_output = Some (if or_empty (cq_output q) \<noteq> [] then or_empty (cq_output q)
        else base @ ''/'' @ cq_project q @ ''/app/secflow-app-entry-analyse''),
      tl_config = create_config snapshot q, tl_result = PNone, tl_stages = PNone, tl_reason = PNone,
      tl_cancel_ack = False, tl_cancel_cleaned = False, tl_cancel_final = False, tl_cancel_owner = None,
      tl_cancel_req_at = None, tl_cancel_ack_at = None, tl_cancel_clean_at = None, tl_cancel_final_at = None,
      tl_created_by = cq_created_by q\<rparr>"

definition created_req :: "life_env \<Rightarrow> life_row \<Rightarrow> event_req" where
  "created_req env r =
     (event_call (dr_key r) (tr_project r) ''task_created'' (([CHR 0xE4, CHR 0xBB, CHR 0xBB, CHR 0xE5, CHR 0x8A, CHR 0xA1, CHR 0xE5, CHR 0xB7, CHR 0xB2, CHR 0xE5, CHR 0x88, CHR 0x9B, CHR 0xE5, CHR 0xBB, CHR 0xBA] @ '': '') @ tr_name r))
       \<lparr>rq_status := Some (status_str (dr_status r)),
        rq_payload := Some [(''task_name'', PStr (tr_name r)), (''module_name'', opt_val (tl_module r)),
          (''input_path'', PStr (tl_input r)), (''source_path'', opt_val (tl_source r)), (''output_path'', opt_val (tl_output r))],
        rq_key := Some (dedupe_key env ''task_created'' [PStr (dr_key r), PStr ''task_created''])\<rparr>"

text \<open>\<open>i\<close> and \<open>k\<close> are the auto-increment id and the fresh \<open>eat_<uuid>\<close> key.\<close>

definition create_task ::
  "life_env \<Rightarrow> string \<Rightarrow> dict option \<Rightarrow> nat \<Rightarrow> string \<Rightarrow> create_req \<Rightarrow> life_db \<Rightarrow> api_result" where
  "create_task env base snapshot i k q db =
     (case create_paths q of
        Inl e \<Rightarrow> (db, [], Inl e)
      | Inr (input, src) \<Rightarrow>
          (case reusable_row q (lb_tasks db) of
             Some r \<Rightarrow> api_done (dr_key r) (se_commit (se_event env (dedup_req env q r) (se_begin db)))
           | None \<Rightarrow>
               (let r = new_task env base snapshot i k input src q;
                    s = se_commit ((se_begin db)\<lparr>ss_work := db\<lparr>lb_tasks := lb_tasks db @ [r]\<rparr>\<rparr>)
                in api_done k (se_commit (se_event env (created_req env r) s)))))"

end
