(* ===== verification/TaskRunner.thy ===== *)
theory TaskRunner
  imports TaskService
begin

text \<open>
  \<open>run_task\<close> of \<open>app/task_runner.py\<close>, one task from the claim of its row to the final
  status, as the transactions it makes; between them other processes may write, which is
  the argument \<open>during\<close>. The preparation of the model access and the pipeline are the
  argument \<open>pl\<close>: what they ended with. \<open>serve_message\<close> is \<open>run_ea_task\<close> of
  \<open>app/celery_tasks.py\<close> with this runner as its body. \<open>life_op\<close> collects every
  transaction on a task, so that an interleaving is a list of operations; a row whose id or
  key is taken is refused by the table.
\<close>

section \<open>Events of the pipeline in the timeline\<close>

definition first_text :: "pyval list \<Rightarrow> string option" where
  "first_text vs = (let s = text_of (foldr py_or vs (PStr [])) in if s = [] then None else Some s)"

definition normalize_timeline_event :: "string \<Rightarrow> string \<Rightarrow> (dict \<Rightarrow> pyval) \<Rightarrow> dict \<Rightarrow> event_req" where
  "normalize_timeline_event k project recorder evt =
     (let data = as_dict (get evt ''data'');
          level = py_strip (py_str (py_or (get evt ''level'') (PStr (if truthy (get evt ''error'') then ''error'' else ''info''))));
          typ = py_strip (py_str (py_or (get evt ''event'') (py_or (get evt ''type'') (PStr ''stage_event''))))
      in \<lparr>rq_task = k, rq_project = project, rq_type = (if typ = [] then ''stage_event'' else typ),
          rq_message = py_strip (py_str (py_or (get evt ''message'') (py_or (get data ''message'') (py_or (get data ''summary'')
            (py_or (get data ''text'') (py_or (get data ''output'') (py_or (get evt ''event'') (py_or (get evt ''type'')
              (PStr ''stage event''))))))))),
          rq_source = task_event_source_ea, rq_level = (if level = [] then ''info'' else level),
          rq_stage = first_text [get evt ''stage'', get evt ''stage_key'', get data ''stage'', get data ''stage_key''],
          rq_file_hash = first_text [get data ''file_hash''], rq_func_hash = first_text [get data ''func_hash''],
          rq_path = first_text [get data ''file'', get data ''original_path'', get data ''source_path'', get data ''file_path''],
          rq_function = first_text [get data ''function'', get data ''name'', get data ''function_name''],
          rq_attempt = py_int (get data ''attempt''),
          rq_status = first_text [get data ''status'', get evt ''status''],
          rq_payload = Some (merge_recorder_payload recorder (Some [(''timestamp'', get evt ''timestamp''), (''ts'', get evt ''ts''),
            (''data'', PDict data)]) None),
          rq_origin = None, rq_key = None\<rparr>)"

definition stage_event_req :: "life_env \<Rightarrow> string \<Rightarrow> string \<Rightarrow> dict \<Rightarrow> event_req" where
  "stage_event_req env k project evt =
     (let rq = normalize_timeline_event k project (ee_recorder (le_ev env [])) evt
      in rq\<lparr>rq_key := Some (dedupe_key env (rq_type rq) [PStr k, PStr (rq_type rq), opt_val (rq_stage rq),
        opt_val (rq_file_hash rq), opt_val (rq_func_hash rq), (case rq_attempt rq of None \<Rightarrow> PNone | Some i \<Rightarrow> PInt i),
        opt_val (rq_status rq), PStr (rq_message rq), get evt ''ts''])\<rparr>)"

definition sync_stage_events :: "life_env \<Rightarrow> string \<Rightarrow> string \<Rightarrow> dict list \<Rightarrow> life_session \<Rightarrow> life_session" where
  "sync_stage_events env k project evts s =
     fold (\<lambda>evt s. let rq = stage_event_req env k project evt
       in if should_persist_user_timeline_event (Some (rq_type rq)) then se_event env rq s else s) evts s"

section \<open>The transactions of a run\<close>

text \<open>Step 0; \<open>None\<close> is the early return.\<close>

definition runner_claim :: "life_env \<Rightarrow> string \<Rightarrow> string option \<Rightarrow> string \<Rightarrow> life_db \<Rightarrow> life_db option" where
  "runner_claim env pod ip k db =
     (case row_of (lb_tasks db) k of
        None \<Rightarrow> None
      | Some r \<Rightarrow>
          if dr_status r = StCancelled \<or> tr_cancel_requested r then None
          else Some (db\<lparr>lb_tasks := upd_where (\<lambda>r. dr_key r = k)
            (\<lambda>r. r\<lparr>dr_status := StRunning, dr_owner := Some pod, tr_owner_ip := ip, dr_started := Some (le_now env)\<rparr>)
            (lb_tasks db)\<rparr>))"

definition runner_reset :: "string \<Rightarrow> life_db \<Rightarrow> life_db" where
  "runner_reset k db = db\<lparr>lb_tasks := upd_where (\<lambda>r. dr_key r = k)
     (\<lambda>r. r\<lparr>tl_result := PNone, dr_error := None, dr_finished := None\<rparr>) (lb_tasks db),
     lb_index := filter (\<lambda>x. x \<noteq> k) (lb_index db)\<rparr>"

definition owned_row :: "string \<Rightarrow> string \<Rightarrow> life_db \<Rightarrow> life_row option" where
  "owned_row pod k db = find (\<lambda>r. dr_key r = k \<and> dr_owner r = Some pod) (lb_tasks db)"

definition started_req :: "life_env \<Rightarrow> string \<Rightarrow> life_row \<Rightarrow> event_req" where
  "started_req env pod r =
     (event_call (dr_key r) (tr_project r) ''task_started'' [CHR 0xE4, CHR 0xBB, CHR 0xBB, CHR 0xE5, CHR 0x8A, CHR 0xA1, CHR 0xE5, CHR 0xB7, CHR 0xB2, CHR 0xE5, CHR 0xBC, CHR 0x80, CHR 0xE5, CHR 0xA7, CHR 0x8B, CHR 0xE6, CHR 0x89, CHR 0xA7, CHR 0xE8, CHR 0xA1, CHR 0x8C])
       \<lparr>rq_source := task_event_source_worker, rq_status := Some (status_str (dr_status r)),
        rq_payload := Some [(''owner_pod'', PStr pod)],
        rq_key := Some (dedupe_key env ''task_started'' [PStr (dr_key r), PStr ''task_started'', PStr pod])\<rparr>"

definition runner_started :: "life_env \<Rightarrow> string \<Rightarrow> string \<Rightarrow> life_db \<Rightarrow> life_db" where
  "runner_started env pod k db =
     (case owned_row pod k db of
        None \<Rightarrow> db
      | Some r \<Rightarrow> if dr_status r = StRunning then ss_saved (se_commit (se_event env (started_req env pod r) (se_begin db))) else db)"

text \<open>The configuration of the run, \<open>snap\<close>, over the one stored with the task.\<close>

definition runner_store_config :: "dict \<Rightarrow> string \<Rightarrow> string \<Rightarrow> life_db \<Rightarrow> life_db" where
  "runner_store_config snap pod k db =
     (case owned_row pod k db of
        None \<Rightarrow> db
      | Some r \<Rightarrow> if dr_status r = StRunning
          then db\<lparr>lb_tasks := upd_where (\<lambda>r. dr_key r = k)
            (\<lambda>r. r\<lparr>tl_config := PDict (fold (\<lambda>(j, v). dset j v) snap (as_dict (tl_config r)))\<rparr>) (lb_tasks db)\<rparr>
          else db)"

definition llm_error :: "string \<Rightarrow> string" where
  "llm_error e = (''LLM '' @ [CHR 0xE8, CHR 0xBF, CHR 0x90, CHR 0xE8, CHR 0xA1, CHR 0x8C, CHR 0xE6, CHR 0x97, CHR 0xB6, CHR 0xE5, CHR 0x87, CHR 0x86, CHR 0xE5, CHR 0xA4, CHR 0x87, CHR 0xE5, CHR 0xA4, CHR 0xB1, CHR 0xE8, CHR 0xB4, CHR 0xA5] @ '': '') @ utf_take 400 e"

definition llm_failed_req :: "life_env \<Rightarrow> string \<Rightarrow> string \<Rightarrow> life_row \<Rightarrow> event_req" where
  "llm_failed_req env pod e r =
     (event_call (dr_key r) (tr_project r) ''task_failed'' (llm_error e))
       \<lparr>rq_source := task_event_source_worker, rq_level := ''error'', rq_status := Some ''failed'',
        rq_payload := Some [(''owner_pod'', PStr pod)],
        rq_key := Some (dedupe_key env ''task_failed'' [PStr (dr_key r), PStr ''task_failed'',
          PStr (le_str env (le_now env)), PStr ''llm_runtime''])\<rparr>"

text \<open>The final write when the model access could not be prepared: whatever the row's status is.\<close>

definition runner_llm_failed :: "life_env \<Rightarrow> string \<Rightarrow> string \<Rightarrow> string \<Rightarrow> life_db \<Rightarrow> life_db" where
  "runner_llm_failed env pod k e db =
     (case row_of (lb_tasks db) k of
        None \<Rightarrow> db
      | Some r \<Rightarrow> ss_saved (se_commit (se_event env (llm_failed_req env pod e r)
          (se_set k (\<lambda>r. r\<lparr>dr_status := StFailed, dr_error := Some (llm_error e), dr_finished := Some (le_now env), dr_owner := None\<rparr>)
            (se_begin db)))))"

text \<open>Step 10.\<close>

definition final_row :: "life_env \<Rightarrow> run_status \<Rightarrow> string option \<Rightarrow> life_row \<Rightarrow> life_row" where
  "final_row env st err r = r\<lparr>dr_status := st, dr_error := err, dr_finished := Some (le_now env), dr_owner := None,
     tr_owner_ip := None, dr_lease := None, dr_heartbeat := None, dr_celery := None, tr_cancel_requested := False\<rparr>"

definition final_req :: "life_env \<Rightarrow> string \<Rightarrow> life_row \<Rightarrow> event_req" where
  "final_req env pod r =
     (let typ = (if dr_status r = StPassed then ''task_passed'' else ''task_failed'')
      in (event_call (dr_key r) (tr_project r) typ
            (if dr_status r = StPassed then [CHR 0xE4, CHR 0xBB, CHR 0xBB, CHR 0xE5, CHR 0x8A, CHR 0xA1, CHR 0xE6, CHR 0x89, CHR 0xA7, CHR 0xE8, CHR 0xA1, CHR 0x8C, CHR 0xE5, CHR 0xAE, CHR 0x8C, CHR 0xE6, CHR 0x88, CHR 0x90]
             else if or_empty (dr_error r) = [] then [CHR 0xE4, CHR 0xBB, CHR 0xBB, CHR 0xE5, CHR 0x8A, CHR 0xA1, CHR 0xE6, CHR 0x89, CHR 0xA7, CHR 0xE8, CHR 0xA1, CHR 0x8C, CHR 0xE5, CHR 0xA4, CHR 0xB1, CHR 0xE8, CHR 0xB4, CHR 0xA5] else or_empty (dr_error r)))
       \<lparr>rq_source := task_event_source_worker,
        rq_level := (if dr_status r \<in> {StFailed, StError} then ''error'' else ''info''),
        rq_payload := Some [(''owner_pod'', PStr pod)],
        rq_key := Some (dedupe_key env typ [PStr (dr_key r), PStr (status_str (dr_status r)),
          (case dr_finished r of None \<Rightarrow> PNone | Some t \<Rightarrow> PStr (le_str env t)), PStr ''terminal''])\<rparr>)"

definition final_event :: "life_env \<Rightarrow> string \<Rightarrow> string \<Rightarrow> life_session \<Rightarrow> life_session" where
  "final_event env pod k s = (case se_row k s of None \<Rightarrow> s | Some r \<Rightarrow> se_event env (final_req env pod r) s)"

definition runner_finalize ::
  "life_env \<Rightarrow> string \<Rightarrow> string \<Rightarrow> run_status \<Rightarrow> string option \<Rightarrow> dict list \<Rightarrow> life_db \<Rightarrow> life_db" where
  "runner_finalize env pod k st err evts db =
     (case owned_row pod k db of
        None \<Rightarrow> db
      | Some r \<Rightarrow>
          if dr_status r \<noteq> StRunning then db
          else ss_saved (se_commit (final_event env pod k (se_set k (note_abnormal_reason env)
            (sync_stage_events env k (tr_project r) evts
              (se_set k (final_row env st err) (se_begin db)))))))"

text \<open>What the preparation and the pipeline ended with; the events are those of the callback.\<close>

datatype pipeline_end =
    LlmFailed string
  | PipelineDone run_status "string option" "dict list"
  | PipelineRaised "dict list"
  | SetupRaised string

text \<open>The database, and the exception that leaves the run.\<close>

definition run_task ::
  "life_env \<Rightarrow> string \<Rightarrow> string option \<Rightarrow> dict \<Rightarrow> (life_db \<Rightarrow> life_db) \<Rightarrow> pipeline_end \<Rightarrow> string \<Rightarrow> life_db \<Rightarrow> life_db \<times> string option" where
  "run_task env pod ip snap during pl k db =
     (case runner_claim env pod ip k db of
        None \<Rightarrow> (db, None)
      | Some db1 \<Rightarrow>
          (let db2 = runner_started env pod k (runner_reset k db1);
               db3 = during (runner_store_config snap pod k db2)
           in case pl of
                SetupRaised e \<Rightarrow> (during db2, Some e)
              | LlmFailed e \<Rightarrow> (runner_llm_failed env pod k e (during db2), None)
              | PipelineDone st err evts \<Rightarrow> (runner_finalize env pod k st err evts db3, None)
              | PipelineRaised evts \<Rightarrow> (runner_finalize env pod k StError (Some ''pipeline returned None'') evts db3, None)))"

text \<open>The handler of a crash when the runner is its own process.\<close>

definition runner_crashed :: "life_env \<Rightarrow> string \<Rightarrow> string \<Rightarrow> string \<Rightarrow> life_db \<Rightarrow> life_db" where
  "runner_crashed env pod k e db =
     (case owned_row pod k db of
        None \<Rightarrow> db
      | Some r \<Rightarrow> if dr_status r = StRunning
          then db\<lparr>lb_tasks := upd_where (\<lambda>r. dr_key r = k)
            (\<lambda>r. r\<lparr>dr_status := StError, dr_error := Some (''task_runner crashed: '' @ utf_take 200 e),
               dr_finished := Some (le_now env), dr_owner := None\<rparr>) (lb_tasks db)\<rparr>
          else db)"

text \<open>A Celery message: claim, run, clear the dispatch columns, ask for a debug report.\<close>

definition serve_message ::
  "life_env \<Rightarrow> string \<Rightarrow> string option \<Rightarrow> dict \<Rightarrow> (life_db \<Rightarrow> life_db) \<Rightarrow> pipeline_end \<Rightarrow> nat \<Rightarrow> string \<Rightarrow> string \<Rightarrow> life_db \<Rightarrow> life_db" where
  "serve_message env pod ip snap during pl i rid k db =
     (case claim_specific_task ip (lb_tasks db) k pod (le_now env) of
        None \<Rightarrow> db
      | Some (rows, epoch) \<Rightarrow>
          (case run_task env pod ip snap during pl k (db\<lparr>lb_tasks := rows\<rparr>) of
             (db1, exc) \<Rightarrow>
               (let rows1 = (case exc of None \<Rightarrow> lb_tasks db1 | Some e \<Rightarrow> ensure_terminal_error k e (le_now env) (lb_tasks db1));
                    rows2 = clear_running_dispatch_fields rows1 k
                in db1\<lparr>lb_tasks := rows2,
                     lb_reports := maybe_trigger_debug i rid (le_now env) rows2 k (lb_reports db1)\<rparr>)))"

section \<open>Interleavings\<close>

datatype life_op =
    OpCreate nat string create_req
  | OpRestart string
  | OpResume string
  | OpCancel string
  | OpDelete string
  | OpPump "string \<Rightarrow> publish_result"
  | OpStale inspect_reply
  | OpStartup
  | OpClaim string string
  | OpRenew string string int
  | OpRunnerClaim string string
  | OpRunnerReset string
  | OpRunnerStarted string string
  | OpRunnerConfig string string dict
  | OpRunnerFinal string string run_status "string option" "dict list"
  | OpRunnerLlmFailed string string string
  | OpRunnerCrashed string string string
  | OpEnsureError string string
  | OpClear string

definition with_tasks :: "life_db \<Rightarrow> life_row list \<Rightarrow> life_db" where
  "with_tasks db rows = db\<lparr>lb_tasks := rows\<rparr>"

fun life_apply :: "life_env \<Rightarrow> life_op \<Rightarrow> life_db \<Rightarrow> life_db" where
  "life_apply env (OpCreate i k q) db =
     (if i \<in> dr_id ` set (lb_tasks db) \<or> k \<in> dr_key ` set (lb_tasks db) then db
      else fst (create_task env ''/data/files'' None i k q db))"
| "life_apply env (OpRestart k) db = fst (restart_task env k db)"
| "life_apply env (OpResume k) db = fst (resume_task env k db)"
| "life_apply env (OpCancel k) db = fst (cancel_task env k db)"
| "life_apply env (OpDelete k) db = fst (delete_task env FilesDeleted True k db)"
| "life_apply env (OpPump pub) db = with_tasks db (fst (pump_once pub (lb_tasks db)))"
| "life_apply env (OpStale reply) db = with_tasks db (fst (stale_once reply (le_now env) (lb_tasks db)))"
| "life_apply env OpStartup db = with_tasks db (startup_reset_tasks (lb_tasks db))"
| "life_apply env (OpClaim k w) db =
     (case claim_specific_task None (lb_tasks db) k w (le_now env) of None \<Rightarrow> db | Some (rows, e) \<Rightarrow> with_tasks db rows)"
| "life_apply env (OpRenew k w e) db = with_tasks db (fst (renew_lease (lb_tasks db) k w e (le_now env)))"
| "life_apply env (OpRunnerClaim pod k) db = (case runner_claim env pod None k db of None \<Rightarrow> db | Some db' \<Rightarrow> db')"
| "life_apply env (OpRunnerReset k) db = runner_reset k db"
| "life_apply env (OpRunnerStarted pod k) db = runner_started env pod k db"
| "life_apply env (OpRunnerConfig pod k snap) db = runner_store_config snap pod k db"
| "life_apply env (OpRunnerFinal pod k st err evts) db = runner_finalize env pod k st err evts db"
| "life_apply env (OpRunnerLlmFailed pod k e) db = runner_llm_failed env pod k e db"
| "life_apply env (OpRunnerCrashed pod k e) db = runner_crashed env pod k e db"
| "life_apply env (OpEnsureError k e) db = with_tasks db (ensure_terminal_error k e (le_now env) (lb_tasks db))"
| "life_apply env (OpClear k) db = with_tasks db (clear_running_dispatch_fields (lb_tasks db) k)"

definition life_run :: "(life_env \<times> life_op) list \<Rightarrow> life_db \<Rightarrow> life_db" where
  "life_run ops db = fold (\<lambda>(env, op). life_apply env op) ops db"

end
