(* ===== verification/TaskServiceSafety.thy ===== *)
theory TaskServiceSafety
  imports TaskRunner
begin

text \<open>
  Properties of the task life cycle over every interleaving of the operations of the
  service, the dispatcher, the workers and the runner: what may change a cancelled task,
  how long a timeline gets, what a restart gives, and what a run writes. \<open>db_invariant\<close>
  is the contract of a condition that the transactions of the service keep; it is
  interpreted for the table being well formed, for the bound of the timelines, and for the
  row of a task the transaction is not about.
\<close>

section \<open>Conditions the transactions keep\<close>

definition keeps_key :: "(life_row \<Rightarrow> life_row) \<Rightarrow> bool" where
  "keeps_key f \<longleftrightarrow> (\<forall>r. dr_id (f r) = dr_id r \<and> dr_key (f r) = dr_key r)"

lemma keeps_key_note [simp]:
  "dr_id (note_abnormal_reason env r) = dr_id r" "dr_key (note_abnormal_reason env r) = dr_key r"
  "dr_status (note_abnormal_reason env r) = dr_status r" "dr_deleted (note_abnormal_reason env r) = dr_deleted r"
  "dr_owner (note_abnormal_reason env r) = dr_owner r" "dr_celery (note_abnormal_reason env r) = dr_celery r"
  "dr_error (note_abnormal_reason env r) = dr_error r" "dr_finished (note_abnormal_reason env r) = dr_finished r"
  "dr_epoch (note_abnormal_reason env r) = dr_epoch r" "dr_lease (note_abnormal_reason env r) = dr_lease r"
  "tr_cancel_requested (note_abnormal_reason env r) = tr_cancel_requested r"
  "dr_heartbeat (note_abnormal_reason env r) = dr_heartbeat r" "dr_started (note_abnormal_reason env r) = dr_started r"
  "tr_owner_ip (note_abnormal_reason env r) = tr_owner_ip r" "tr_project (note_abnormal_reason env r) = tr_project r"
  by (auto simp: note_abnormal_reason_def record_abnormal_reason_def sync_task_abnormal_reason_def Let_def split: option.split)

lemmas row_fun_defs = keeps_key_def reset_for_run_def reset_cancel_state_def cancel_mark_def cancel_pending_row_def
  cancel_running_row_def final_row_def

definition both :: "(life_db \<Rightarrow> bool) \<Rightarrow> life_session \<Rightarrow> bool" where
  "both P s \<longleftrightarrow> P (ss_saved s) \<and> P (ss_work s)"

lemma both_begin: "P db \<Longrightarrow> both P (se_begin db)"
  by (simp add: both_def se_begin_def)

lemma both_commit: "both P s \<Longrightarrow> both P (se_commit s)"
  by (simp add: both_def se_commit_def)

lemma both_revoke: "both P s \<Longrightarrow> both P (revoke_celery_task env r s)"
  by (simp add: both_def revoke_celery_task_def split: option.split list.split)

lemma both_saved: "both P s \<Longrightarrow> P (ss_saved s)"
  by (simp add: both_def)

lemma saved_revoke [simp]:
  "ss_saved (revoke_celery_task env r s) = ss_saved s" "ss_work (revoke_celery_task env r s) = ss_work s"
  by (simp_all add: revoke_celery_task_def split: option.split list.split)

locale db_invariant =
  fixes P :: "life_db \<Rightarrow> bool" and touch :: "string \<Rightarrow> bool"
  assumes keep_event: "P db \<Longrightarrow> P (db\<lparr>lb_events := create_task_event e rq (lb_events db)\<rparr>)"
    and keep_set: "P db \<Longrightarrow> touch k \<Longrightarrow> keeps_key f \<Longrightarrow>
      P (db\<lparr>lb_tasks := upd_where (\<lambda>r. dr_key r = k) f (lb_tasks db)\<rparr>)"
    and keep_index: "P db \<Longrightarrow> P (db\<lparr>lb_index := ix\<rparr>)"
begin

lemma both_event: "both P s \<Longrightarrow> both P (se_event env rq s)"
  by (auto simp: both_def se_event_def keep_event split: event_outcome.split)

lemma both_set: "both P s \<Longrightarrow> touch k \<Longrightarrow> keeps_key f \<Longrightarrow> both P (se_set k f s)"
  by (auto simp: both_def se_set_def keep_set)

lemmas both_intros = both_begin both_commit both_revoke both_event both_set

lemma restart_keeps: "P db \<Longrightarrow> touch k \<Longrightarrow> P (fst (restart_task env k db))"
  unfolding restart_task_def Let_def api_done_def
  by (auto split: option.split intro!: both_saved[of P] both_intros simp: row_fun_defs)

lemma resume_keeps: "P db \<Longrightarrow> touch k \<Longrightarrow> P (fst (resume_task env k db))"
  unfolding resume_task_def Let_def api_done_def
  by (auto split: option.split intro!: both_saved[of P] both_intros simp: row_fun_defs)

lemma both_cancel_if:
  "both P s \<Longrightarrow> (\<And>r. both P (act r s)) \<Longrightarrow> both P (cancel_if st k act s)"
  by (simp add: cancel_if_def split: option.split)

lemma both_note: "both P s \<Longrightarrow> touch k \<Longrightarrow> both P (cancel_note_reason env k s)"
  unfolding cancel_note_reason_def Let_def
  by (auto split: option.split bool.split intro!: both_intros simp: row_fun_defs)

lemma cancel_keeps: "P db \<Longrightarrow> touch k \<Longrightarrow> P (fst (cancel_task env k db))"
  unfolding cancel_task_def Let_def api_done_def
  by (auto split: option.split intro!: both_saved[of P] both_intros both_cancel_if both_note
      simp: row_fun_defs cancel_pending_act_def cancel_running_act_def)

lemma runner_claim_keeps: "P db \<Longrightarrow> touch k \<Longrightarrow> runner_claim env pod ip k db = Some db' \<Longrightarrow> P db'"
  unfolding runner_claim_def by (auto split: option.splits if_splits intro!: keep_set simp: row_fun_defs)

lemma runner_reset_keeps: "P db \<Longrightarrow> touch k \<Longrightarrow> P (runner_reset k db)"
  using keep_index[OF keep_set[of db k "\<lambda>r. r\<lparr>tl_result := PNone, dr_error := None, dr_finished := None\<rparr>"],
    of "filter (\<lambda>x. x \<noteq> k) (lb_index db)"]
  by (simp add: runner_reset_def row_fun_defs)

lemma runner_started_keeps: "P db \<Longrightarrow> P (runner_started env pod k db)"
  unfolding runner_started_def by (auto split: option.split intro!: both_saved[of P] both_intros)

lemma runner_config_keeps: "P db \<Longrightarrow> touch k \<Longrightarrow> P (runner_store_config snap pod k db)"
  unfolding runner_store_config_def by (auto split: option.split intro!: keep_set simp: row_fun_defs)

lemma runner_crashed_keeps: "P db \<Longrightarrow> touch k \<Longrightarrow> P (runner_crashed env pod k e db)"
  unfolding runner_crashed_def by (auto split: option.split intro!: keep_set simp: row_fun_defs)

lemma runner_llm_keeps: "P db \<Longrightarrow> touch k \<Longrightarrow> P (runner_llm_failed env pod k e db)"
  unfolding runner_llm_failed_def by (auto split: option.split intro!: both_saved[of P] both_intros simp: row_fun_defs)

lemma both_stage_events: "both P s \<Longrightarrow> both P (sync_stage_events env k project evts s)"
  unfolding sync_stage_events_def by (induction evts arbitrary: s) (auto simp: Let_def both_event)

lemma runner_final_keeps: "P db \<Longrightarrow> touch k \<Longrightarrow> P (runner_finalize env pod k st err evts db)"
  unfolding runner_finalize_def final_event_def
  by (auto split: option.split intro!: both_saved[of P] both_intros both_stage_events simp: row_fun_defs)

lemma dedup_keeps:
  "P db \<Longrightarrow> reusable_row q (lb_tasks db) = Some r \<Longrightarrow> P (fst (create_task env base snap i k q db))"
  unfolding create_task_def api_done_def
  by (auto split: sum.split intro!: both_saved[of P] both_intros)

end

interpretation wf_inv: db_invariant "\<lambda>db. wf_rows (lb_tasks db)" "\<lambda>k. True"
  by unfold_locales (simp_all add: keeps_key_def wf_upd_where)

interpretation log_inv: db_invariant "\<lambda>db. task_log.bounded (lb_events db)" "\<lambda>k. True"
  using task_log.put_bounded[of _ "(e, rq)" for e rq] by unfold_locales auto

lemma row_of_other:
  "keeps_key f \<Longrightarrow> j \<noteq> k \<Longrightarrow> row_of (upd_where (\<lambda>r. dr_key r = j) f rows) k = row_of rows k"
  by (induction rows) (auto simp: keeps_key_def)

interpretation row_inv: db_invariant "\<lambda>db. row_of (lb_tasks db) k = x" "\<lambda>j. j \<noteq> k" for k x
  by unfold_locales (auto simp: row_of_other)

section \<open>Every operation\<close>

lemma publish_loop_map:
  "(\<And>r c. g (dr_celery_update (\<lambda>_. Some c) r) = g r) \<Longrightarrow> map g (fst (publish_loop pub rs rows)) = map g rows"
proof (induction rs arbitrary: rows)
  case (Cons r rs)
  then show ?case
    by (auto simp: set_celery_def upd_where_map_key split: publish_result.split prod.split)
      (metis (no_types, lifting) fst_conv upd_where_map_key)
qed simp

lemma row_fun_upd [simp]:
  "dr_id (reset_task r) = dr_id r" "dr_key (reset_task r) = dr_key r"
  by (simp_all add: reset_task_def)

lemma map_recover:
  "(\<And>r. g (r\<lparr>dr_celery := None, dr_owner := None, tr_owner_ip := None, dr_lease := None, dr_epoch := 0\<rparr>) = g r) \<Longrightarrow>
    map g (fst (recover_pending_stale_cid active rows)) = map g rows"
  by (simp add: recover_pending_stale_cid_def Let_def upd_where_map_key)

lemma fst_stale_once:
  "fst (stale_once reply now rows) =
    fst (recover_pending_stale_cid (active_ids reply) (upd_where (stale_row (active_ids reply) now) reset_task rows))"
  by (simp add: stale_once_def Let_def split: prod.split)

lemma wf_rows_map:
  "map dr_id rows' = map dr_id rows \<Longrightarrow> map dr_key rows' = map dr_key rows \<Longrightarrow> wf_rows rows' = wf_rows rows"
  unfolding wf_rows_def by simp

lemma create_new:
  "create_paths q = Inr (inp, src) \<Longrightarrow> reusable_row q (lb_tasks db) = None \<Longrightarrow>
    create_task env base snap i k q db =
      (let r = new_task env base snap i k inp src q; db1 = db\<lparr>lb_tasks := lb_tasks db @ [r]\<rparr>
       in api_done k (se_commit (se_event env (created_req env r) (se_begin db1))))"
  by (simp add: create_task_def Let_def se_begin_def se_commit_def)

lemma new_task_ids [simp]:
  "dr_id (new_task env base snap i k inp src q) = i" "dr_key (new_task env base snap i k inp src q) = k"
  by (simp_all add: new_task_def)

lemma wf_rows_new: "wf_rows rows \<Longrightarrow> dr_id r \<notin> dr_id ` set rows \<Longrightarrow> dr_key r \<notin> dr_key ` set rows \<Longrightarrow> wf_rows (rows @ [r])"
  by (auto simp: wf_rows_def)

lemma wf_rows_filter: "wf_rows rows \<Longrightarrow> wf_rows (filter P rows)"
  by (simp add: wf_rows_def distinct_map_filter)

lemma delete_db:
  "delete_task env files ok k db =
    (case row_of (lb_tasks db) k of None \<Rightarrow> (db, [], None)
     | Some r \<Rightarrow> (if ok then \<lparr>lb_tasks = filter (\<lambda>x. dr_key x \<noteq> k) (lb_tasks db), lb_events = filter (\<lambda>e. ev_task e \<noteq> k) (lb_events db),
            lb_reports = filter (\<lambda>x. rr_task_id x \<noteq> k) (lb_reports db), lb_index = filter (\<lambda>x. x \<noteq> k) (lb_index db),
            lb_commands = filter (\<lambda>x. x \<noteq> k) (lb_commands db)\<rparr> else db,
          ss_revoked (revoke_reports env (filter (\<lambda>x. rr_task_id x = k) (lb_reports db))
            (if dr_status r = StRunning then revoke_celery_task env r (se_begin db) else se_begin db)),
          Some \<lparr>dl_events = if ok then length (events_of k (lb_events db)) else 0, dl_files = files, dl_db_ok = ok\<rparr>))"
  by (auto simp: delete_task_def Let_def split: option.split)

lemma apply_wf: "wf_rows (lb_tasks db) \<Longrightarrow> wf_rows (lb_tasks (life_apply env op db))"
proof (cases op)
  case (OpCreate i k q)
  assume wf: "wf_rows (lb_tasks db)"
  show ?thesis
  proof (cases "create_paths q")
    case (Inr p)
    obtain inp src where p: "p = (inp, src)" by (cases p)
    show ?thesis
    proof (cases "reusable_row q (lb_tasks db)")
      case None
      let ?db = "db\<lparr>lb_tasks := lb_tasks db @ [new_task env ''/data/files'' None i k inp src q]\<rparr>"
      have "wf_rows (lb_tasks ?db)"
        if "i \<notin> dr_id ` set (lb_tasks db)" "k \<notin> dr_key ` set (lb_tasks db)"
        using wf that by (simp add: wf_rows_new)
      then show ?thesis
        using wf None OpCreate create_new[OF Inr[unfolded p] None, of env "''/data/files''" None i k]
        by (auto simp: api_done_def Let_def intro!: both_saved[of "\<lambda>db. wf_rows (lb_tasks db)"] wf_inv.both_intros)
    next
      case (Some r)
      with wf OpCreate show ?thesis by (auto intro: wf_inv.dedup_keeps)
    qed
  qed (use wf OpCreate in \<open>simp add: create_task_def\<close>)
next
  case (OpPump pub)
  assume "wf_rows (lb_tasks db)"
  with OpPump show ?thesis
    by (simp add: with_tasks_def pump_once_def wf_rows_map[OF publish_loop_map publish_loop_map])
next
  case (OpStale reply)
  assume "wf_rows (lb_tasks db)"
  with OpStale show ?thesis
    by (simp add: with_tasks_def fst_stale_once wf_rows_map[OF map_recover map_recover] wf_upd_where)
next
  case (OpClaim k w)
  assume "wf_rows (lb_tasks db)"
  with OpClaim task_lease.wf_claim[of "lb_tasks db" None k w "le_now env"] show ?thesis
    by (auto simp: with_tasks_def split: option.split)
qed (auto simp: with_tasks_def startup_reset_tasks_def ensure_terminal_error_def clear_running_dispatch_fields_def
    wf_upd_where wf_rows_filter delete_db task_lease.wf_renew
    intro: wf_inv.restart_keeps wf_inv.resume_keeps wf_inv.cancel_keeps wf_inv.runner_claim_keeps wf_inv.runner_reset_keeps
      wf_inv.runner_started_keeps wf_inv.runner_config_keeps wf_inv.runner_final_keeps wf_inv.runner_llm_keeps
      wf_inv.runner_crashed_keeps split: option.split)

lemma bounded_filter: "task_log.bounded rows \<Longrightarrow> task_log.bounded (filter P rows)"
  unfolding task_log.bounded_def
  by (auto simp: wf_events_filter events_of_filter intro: le_trans[OF length_filter_le])

lemma with_tasks_events [simp]: "lb_events (with_tasks db rows) = lb_events db"
  by (simp add: with_tasks_def)

lemma apply_bounded: "task_log.bounded (lb_events db) \<Longrightarrow> task_log.bounded (lb_events (life_apply env op db))"
proof (cases op)
  case (OpCreate i k q)
  assume b: "task_log.bounded (lb_events db)"
  show ?thesis
  proof (cases "create_paths q")
    case (Inr p)
    obtain inp src where p: "p = (inp, src)" by (cases p)
    show ?thesis
    proof (cases "reusable_row q (lb_tasks db)")
      case None
      show ?thesis
        using b OpCreate create_new[OF Inr[unfolded p] None, of env "''/data/files''" None i k]
        by (auto simp: api_done_def Let_def intro!: both_saved[of "\<lambda>db. task_log.bounded (lb_events db)"] log_inv.both_intros)
    next
      case (Some r)
      with b OpCreate show ?thesis by (auto intro: log_inv.dedup_keeps)
    qed
  qed (use b OpCreate in \<open>simp add: create_task_def\<close>)
qed (auto simp: delete_db bounded_filter
    intro: log_inv.restart_keeps log_inv.resume_keeps log_inv.cancel_keeps log_inv.runner_claim_keeps log_inv.runner_reset_keeps
      log_inv.runner_started_keeps log_inv.runner_config_keeps log_inv.runner_final_keeps log_inv.runner_llm_keeps
      log_inv.runner_crashed_keeps split: option.split)

lemma run_keeps:
  "P db \<Longrightarrow> (\<And>db env op. P db \<Longrightarrow> (env, op) \<in> set ops \<Longrightarrow> P (life_apply env op db)) \<Longrightarrow> P (life_run ops db)"
  unfolding life_run_def by (induction ops arbitrary: db) auto

section \<open>A cancelled task\<close>

definition status_of :: "life_row list \<Rightarrow> string \<Rightarrow> run_status option" where
  "status_of rows k = map_option dr_status (row_of rows k)"

lemma status_of_map:
  assumes "map (\<lambda>r. (dr_key r, dr_status r)) rows' = map (\<lambda>r. (dr_key r, dr_status r)) rows"
  shows "status_of rows' k = status_of rows k"
proof -
  have "status_of rows k = map_of (map (\<lambda>r. (dr_key r, dr_status r)) rows) k" for rows
    by (induction rows) (auto simp: status_of_def)
  with assms show ?thesis by metis
qed

section \<open>Concrete data for the witnesses\<close>

definition env0 :: life_env where
  "env0 = \<lparr>le_now = 10, le_iso = (\<lambda>t. ''t''), le_str = (\<lambda>t. ''t''), le_updated = 9, le_clock = PInt 10, le_abn_id = ''a'',
     le_ev = (\<lambda>t. \<lparr>ee_now = 10, ee_id = 1, ee_uuid = ''u'', ee_sha1 = (\<lambda>s. ''h''), ee_recorder = (\<lambda>d. PNone)\<rparr>),
     le_out = (\<lambda>t. EvWritten), le_revoke_ok = True, le_result = (\<lambda>k. None)\<rparr>"

definition q0 :: create_req where
  "q0 = \<lparr>cq_project = ''p'', cq_name = ''n'', cq_input = ''/in'', cq_source = None, cq_module = ''m'', cq_contract = PNone,
     cq_output = Some ''/out'', cq_config = None, cq_created_by = None, cq_origin = None, cq_parent_project = None,
     cq_parent_task = Some ''parent'', cq_parent_type = None, cq_stage = Some ''entry'', cq_item = Some ''item'', cq_item_key = None\<rparr>"

definition life0 :: life_row where
  "life0 = new_task env0 ''/data/files'' None 1 ''t1'' ''/in'' None q0"

definition db_of :: "life_row \<Rightarrow> life_db" where
  "db_of r = \<lparr>lb_tasks = [r], lb_events = [], lb_reports = [], lb_index = [], lb_commands = []\<rparr>"

lemma db_of_simps [simp]: "lb_tasks (db_of r) = [r]" "lb_events (db_of r) = []" "lb_reports (db_of r) = []" "wf_rows [r]"
  by (simp_all add: db_of_def wf_rows_def)

lemma life0_simps [simp]:
  "dr_key life0 = ''t1''" "dr_status life0 = StPending" "\<not> dr_deleted life0" "tl_reason life0 = PNone"
  "dr_celery life0 = None" "dr_owner life0 = None" "le_out env0 t = EvWritten" "le_revoke_ok env0"
  by (simp_all add: life0_def new_task_def env0_def)

lemma claimable_life0 [simp]: "claimable now life0"
  by (simp add: claimable_def)

lemma status_of_single [simp]: "status_of [r] k = (if dr_key r = k then Some (dr_status r) else None)"
  by (simp add: status_of_def)

text \<open>The operations that may take a task out of the state cancelled.\<close>

fun may_uncancel :: "string \<Rightarrow> life_op \<Rightarrow> bool" where
  "may_uncancel k (OpRestart j) = (j = k)"
| "may_uncancel k (OpResume j) = (j = k)"
| "may_uncancel k (OpDelete j) = (j = k)"
| "may_uncancel k (OpRunnerLlmFailed pod j e) = (j = k)"
| "may_uncancel k _ = False"

lemma row_of_append: "row_of (rows @ rows') k = (case row_of rows k of None \<Rightarrow> row_of rows' k | Some r \<Rightarrow> Some r)"
  by (induction rows) auto

lemma row_of_filter_key: "j \<noteq> k \<Longrightarrow> row_of (filter (\<lambda>r. dr_key r \<noteq> j) rows) k = row_of rows k"
  by (induction rows) auto

lemma owned_row_key:
  "wf_rows (lb_tasks db) \<Longrightarrow> owned_row pod k db =
    (case row_of (lb_tasks db) k of None \<Rightarrow> None | Some r \<Rightarrow> if dr_owner r = Some pod then Some r else None)"
proof -
  have "wf_rows rows \<Longrightarrow> find (\<lambda>r. dr_key r = k \<and> dr_owner r = Some pod) rows =
      (case row_of rows k of None \<Rightarrow> None | Some r \<Rightarrow> if dr_owner r = Some pod then Some r else None)" for rows :: "life_row list"
  proof (induction rows)
    case (Cons r rows)
    have "find (\<lambda>r. dr_key r = k \<and> dr_owner r = Some pod) rows = None" if "dr_key r = k"
      using Cons.prems that by (auto simp: find_None_iff wf_rows_def) (metis image_eqI)
    then show ?case using Cons by (auto simp: wf_rows_def)
  qed simp
  then show "wf_rows (lb_tasks db) \<Longrightarrow> ?thesis" by (simp add: owned_row_def)
qed

lemma get_or_404_key:
  "wf_rows rows \<Longrightarrow> get_or_404 rows k =
    (case row_of rows k of Some r \<Rightarrow> if dr_deleted r then None else Some r | None \<Rightarrow> None)"
  by (simp add: get_or_404_def find_key)

lemma status_upd_other:
  "(\<And>r. dr_key (f r) = dr_key r) \<Longrightarrow> (\<And>r. row_of rows k = Some r \<Longrightarrow> Q r \<Longrightarrow> dr_status (f r) = dr_status r) \<Longrightarrow>
    status_of (upd_where Q f rows) k = status_of rows k"
  by (cases "row_of rows k") (auto simp: status_of_def row_of_upd_where)

lemma apply_row_other:
  "keeps_key f \<Longrightarrow> j \<noteq> k \<Longrightarrow> status_of (upd_where (\<lambda>r. dr_key r = j) f rows) k = status_of rows k"
  by (simp add: status_of_def row_of_other)

lemma with_tasks_tasks [simp]: "lb_tasks (with_tasks db rows) = rows"
  by (simp add: with_tasks_def)

lemma cancelled_row: "status_of rows k = Some StCancelled \<Longrightarrow> \<exists>r. row_of rows k = Some r \<and> dr_status r = StCancelled"
  by (auto simp: status_of_def)

lemma create_keeps_row:
  assumes "row_of (lb_tasks db) k = Some r"
  shows "row_of (lb_tasks (fst (create_task env base snap i j q db))) k = Some r"
proof (cases "create_paths q")
  case (Inr p)
  obtain inp src where p: "p = (inp, src)" by (cases p)
  show ?thesis
  proof (cases "reusable_row q (lb_tasks db)")
    case None
    show ?thesis
      using assms create_new[OF Inr[unfolded p] None, of env base snap i j]
      by (auto simp: api_done_def Let_def row_of_append
          intro!: both_saved[of "\<lambda>db. row_of (lb_tasks db) k = Some r"] row_inv.both_intros)
  next
    case (Some r)
    with assms show ?thesis by (auto intro: row_inv.dedup_keeps)
  qed
qed (use assms in \<open>simp add: create_task_def\<close>)

lemma status_stale:
  "status_of rows k = Some StCancelled \<Longrightarrow> status_of (fst (stale_once reply now rows)) k = Some StCancelled"
  unfolding fst_stale_once recover_pending_stale_cid_def Let_def fst_conv
  by (subst status_upd_other, simp_all)
    (subst status_upd_other, auto simp: disp_defs status_of_def)

lemma status_startup:
  "status_of rows k = Some StCancelled \<Longrightarrow> status_of (startup_reset_tasks rows) k = Some StCancelled"
  unfolding startup_reset_tasks_def
  by (subst status_upd_other, simp_all)
    (subst status_upd_other, auto simp: disp_defs status_of_def)

lemma status_claim:
  assumes "wf_rows rows" "status_of rows k = Some StCancelled" "claim_specific_task ip rows j w now = Some (rows', e)"
  shows "status_of rows' k = Some StCancelled"
proof -
  obtain r where r: "row_of rows k = Some r" "dr_status r = StCancelled" using cancelled_row[OF assms(2)] by blast
  show ?thesis
  proof (cases "j = k")
    case True
    with assms(1,3) r show ?thesis by (simp add: claim_task_row claimable_def split: if_splits)
  next
    case False
    with assms r show ?thesis
      by (auto simp: claim_task_row claimed_task_def status_of_def row_of_upd_where split: option.splits if_splits)
        (metis row_of_Some)+
  qed
qed

lemma cancelled_not_owned:
  "wf_rows (lb_tasks db) \<Longrightarrow> status_of (lb_tasks db) k = Some StCancelled \<Longrightarrow>
    case owned_row pod k db of None \<Rightarrow> True | Some r \<Rightarrow> dr_status r = StCancelled"
  by (auto simp: owned_row_key dest!: cancelled_row)

lemma own_ops_cancelled:
  assumes "wf_rows (lb_tasks db)" "status_of (lb_tasks db) k = Some StCancelled"
  shows "fst (cancel_task env k db) = db" "runner_claim env pod ip k db = None"
    "runner_started env pod k db = db" "runner_store_config snap pod k db = db"
    "runner_finalize env pod k st err evts db = db" "runner_crashed env pod k e db = db"
  using cancelled_row[OF assms(2)] cancelled_not_owned[OF assms, of pod]
  by (auto simp: cancel_task_def get_or_404_key[OF assms(1)] terminal_def runner_claim_def runner_started_def
      runner_store_config_def runner_finalize_def runner_crashed_def split: option.splits)

lemma other_row_status:
  "(\<And>x. row_of (lb_tasks db) k = x \<Longrightarrow> row_of (lb_tasks db') k = x) \<Longrightarrow> status_of (lb_tasks db') k = status_of (lb_tasks db) k"
  by (simp add: status_of_def)

lemma apply_cancelled:
  assumes wf: "wf_rows (lb_tasks db)" and c: "status_of (lb_tasks db) k = Some StCancelled" and "\<not> may_uncancel k op"
  shows "status_of (lb_tasks (life_apply env op db)) k = Some StCancelled"
proof -
  obtain r where r: "row_of (lb_tasks db) k = Some r" "dr_status r = StCancelled" using cancelled_row[OF c] by blast
  note other = other_row_status[of db k]
  note own = own_ops_cancelled[OF wf c]
  show ?thesis
  proof (cases op)
    case (OpCreate i j q)
    with r show ?thesis by (simp add: status_of_def create_keeps_row)
  next
    case (OpRestart j)
    with assms(3) c other[OF row_inv.restart_keeps] show ?thesis by simp
  next
    case (OpResume j)
    with assms(3) c other[OF row_inv.resume_keeps] show ?thesis by simp
  next
    case (OpCancel j)
    with c own other[OF row_inv.cancel_keeps] show ?thesis by (cases "j = k") simp_all
  next
    case (OpDelete j)
    with assms(3) c show ?thesis by (auto simp: delete_db status_of_def row_of_filter_key split: option.split)
  next
    case (OpPump pub)
    with c show ?thesis by (simp add: pump_once_def status_of_map[OF publish_loop_map])
  next
    case (OpRunnerClaim pod j)
    with c own other[OF row_inv.runner_claim_keeps] show ?thesis by (cases "j = k") (auto split: option.split)
  next
    case (OpRunnerReset j)
    with c show ?thesis by (auto simp: runner_reset_def intro!: trans[OF status_upd_other])
  next
    case (OpRunnerStarted pod j)
    with c other[OF row_inv.runner_started_keeps] show ?thesis by simp
  next
    case (OpRunnerConfig pod j snap)
    with c own other[OF row_inv.runner_config_keeps] show ?thesis by (cases "j = k") simp_all
  next
    case (OpRunnerFinal pod j st err evts)
    with c own other[OF row_inv.runner_final_keeps] show ?thesis by (cases "j = k") simp_all
  next
    case (OpRunnerLlmFailed pod j e)
    with assms(3) c other[OF row_inv.runner_llm_keeps] show ?thesis by simp
  next
    case (OpRunnerCrashed pod j e)
    with c own other[OF row_inv.runner_crashed_keeps] show ?thesis by (cases "j = k") simp_all
  next
    case (OpClaim j w)
    with c status_claim[OF wf c] show ?thesis by (auto split: option.split)
  next
    case (OpEnsureError j e)
    with c r show ?thesis
      by (auto simp: ensure_terminal_error_def terminal_def intro!: trans[OF status_upd_other])
  next
    case (OpRenew j w e)
    with c show ?thesis by (auto simp: renew_lease_def Let_def intro!: trans[OF status_upd_other])
  next
    case (OpClear j)
    with c show ?thesis by (auto simp: clear_running_dispatch_fields_def intro!: trans[OF status_upd_other])
  qed (use c in \<open>simp_all add: status_stale status_startup\<close>)
qed

lemma run_cancelled:
  assumes "wf_rows (lb_tasks db)" "status_of (lb_tasks db) k = Some StCancelled"
    and "\<And>env op. (env, op) \<in> set ops \<Longrightarrow> \<not> may_uncancel k op"
  shows "wf_rows (lb_tasks (life_run ops db)) \<and> status_of (lb_tasks (life_run ops db)) k = Some StCancelled"
  using assms by (intro run_keeps[where P = "\<lambda>db. wf_rows (lb_tasks db) \<and> status_of (lb_tasks db) k = Some StCancelled"])
    (auto simp: apply_wf apply_cancelled)

section \<open>The length of a timeline\<close>



end
