(* ===== verification/TaskLifeSafety.thy ===== *)
theory TaskLifeSafety
  imports TaskServiceSafety
begin

text \<open>
  What the operations on a task give: cancelling, restarting and running it, with every
  way its event writes may end, creating it twice for one item of a parent task, and
  deleting it. \<open>running_at\<close> is the condition under which a run writes its result.
\<close>

lemmas session_defs = se_begin_def se_commit_def se_set_def se_row_def api_done_def

section \<open>A row that a run holds\<close>

definition running_at :: "string \<Rightarrow> string \<Rightarrow> life_row \<Rightarrow> life_db \<Rightarrow> bool" where
  "running_at k pod r db \<longleftrightarrow> wf_rows (lb_tasks db) \<and> row_of (lb_tasks db) k = Some r
     \<and> dr_status r = StRunning \<and> dr_owner r = Some pod \<and> \<not> dr_deleted r"

lemma event_tasks:
  "le_out env (rq_type rq) \<noteq> EvSessionLost \<Longrightarrow> lb_tasks (ss_work (se_event env rq s)) = lb_tasks (ss_work s)"
  "lb_reports (ss_saved s) = lb_reports (ss_work s) \<Longrightarrow> lb_reports (ss_work (se_event env rq s)) = lb_reports (ss_work s)"
  "ss_saved (se_event env rq s) = ss_saved s" "ss_revoked (se_event env rq s) = ss_revoked s"
  by (auto simp: se_event_def split: event_outcome.split)

lemma event_begin_tasks:
  "lb_tasks (ss_work (se_event env rq (se_begin db))) = lb_tasks db"
  "lb_reports (ss_work (se_event env rq (se_begin db))) = lb_reports db"
  by (auto simp: se_event_def se_begin_def split: event_outcome.split)

lemma started_tasks [simp]:
  "lb_tasks (runner_started env pod k db) = lb_tasks db" "lb_reports (runner_started env pod k db) = lb_reports db"
  by (auto simp: runner_started_def se_commit_def event_begin_tasks split: option.split)

lemma running_owned: "running_at k pod r db \<Longrightarrow> owned_row pod k db = Some r"
  by (simp add: running_at_def owned_row_key)

lemma claim_running_at:
  assumes "wf_rows (lb_tasks db)" "row_of (lb_tasks db) k = Some r" "claimable now r"
  shows "claim_specific_task ip (lb_tasks db) k pod now =
      Some (upd_where (\<lambda>x. dr_key x = k) (claimed_task ip pod now) (lb_tasks db), dr_epoch r + 1)"
    and "running_at k pod (claimed_task ip pod now r)
      (db\<lparr>lb_tasks := upd_where (\<lambda>x. dr_key x = k) (claimed_task ip pod now) (lb_tasks db)\<rparr>)"
  using assms row_of_Some[OF assms(2)]
  by (auto simp: claim_task_row running_at_def wf_upd_where row_of_upd_where claimed_task_def claimable_def)

definition begun_row :: "life_env \<Rightarrow> string \<Rightarrow> string option \<Rightarrow> life_row \<Rightarrow> life_row" where
  "begun_row env pod ip r = r\<lparr>dr_status := StRunning, dr_owner := Some pod, tr_owner_ip := ip, dr_started := Some (le_now env),
     tl_result := PNone, dr_error := None, dr_finished := None\<rparr>"

lemma run_prefix:
  assumes "running_at k pod r db" "\<not> tr_cancel_requested r" "runner_claim env pod ip k db = Some db1"
  shows "running_at k pod (begun_row env pod ip r) (runner_started env pod k (runner_reset k db1))"
proof -
  have "dr_key r = k" using assms(1) row_of_Some by (auto simp: running_at_def)
  with assms show ?thesis
    by (auto simp: running_at_def runner_claim_def runner_reset_def wf_upd_where row_of_upd_where begun_row_def)
qed

lemma claim_begins:
  "running_at k pod r db \<Longrightarrow> \<not> tr_cancel_requested r \<Longrightarrow> \<exists>db1. runner_claim env pod ip k db = Some db1 \<and> lb_reports db1 = lb_reports db"
  by (simp add: running_at_def runner_claim_def)

definition config_row :: "dict \<Rightarrow> life_row \<Rightarrow> life_row" where
  "config_row snap r = r\<lparr>tl_config := PDict (fold (\<lambda>(j, v). dset j v) snap (as_dict (tl_config r)))\<rparr>"

lemma config_running_at:
  assumes "running_at k pod r db"
  shows "running_at k pod (config_row snap r) (runner_store_config snap pod k db)"
proof -
  have "dr_key r = k" using assms row_of_Some by (auto simp: running_at_def)
  with assms running_owned[OF assms] show ?thesis
    by (auto simp: runner_store_config_def running_at_def wf_upd_where row_of_upd_where config_row_def)
qed

lemma stage_events_tasks:
  assumes "\<And>t. le_out env t \<noteq> EvSessionLost"
  shows "lb_tasks (ss_work (sync_stage_events env k p evts s)) = lb_tasks (ss_work s)"
proof -
  have "lb_tasks (ss_work (fold (\<lambda>evt s. let rq = stage_event_req env k p evt
      in if should_persist_user_timeline_event (Some (rq_type rq)) then se_event env rq s else s) evts s)) = lb_tasks (ss_work s)"
    using assms by (induction evts arbitrary: s) (simp_all add: Let_def event_tasks)
  then show ?thesis by (simp add: sync_stage_events_def)
qed

lemma reports_kept:
  "lb_reports (ss_saved s) = x \<and> lb_reports (ss_work s) = x \<Longrightarrow> lb_reports (ss_saved (se_event env rq s)) = x \<and> lb_reports (ss_work (se_event env rq s)) = x"
  by (auto simp: se_event_def split: event_outcome.split)

interpretation report_inv: db_invariant "\<lambda>db. lb_reports db = x" "\<lambda>k. True" for x
  by unfold_locales auto

lemma final_tasks:
  assumes "running_at k pod r db" "\<And>t. le_out env t \<noteq> EvSessionLost"
  shows "lb_tasks (runner_finalize env pod k st err evts db) =
    upd_where (\<lambda>r. dr_key r = k) (\<lambda>r. note_abnormal_reason env (final_row env st err r)) (lb_tasks db)"
proof -
  have "upd_where (\<lambda>r. dr_key r = k) (note_abnormal_reason env) (upd_where (\<lambda>r. dr_key r = k) (final_row env st err) (lb_tasks db)) =
      upd_where (\<lambda>r. dr_key r = k) (\<lambda>r. note_abnormal_reason env (final_row env st err r)) (lb_tasks db)"
    by (auto simp: upd_where_def final_row_def)
  moreover have "dr_status r = StRunning" using assms(1) by (simp add: running_at_def)
  ultimately show ?thesis
    using assms(2) running_owned[OF assms(1)]
    by (auto simp: runner_finalize_def final_event_def se_commit_def event_tasks se_set_def stage_events_tasks se_begin_def
        split: option.split)
qed

text \<open>The database when the pipeline starts, and the row of the task in it.\<close>

definition pipeline_db :: "life_env \<Rightarrow> string \<Rightarrow> string option \<Rightarrow> dict \<Rightarrow> string \<Rightarrow> life_db \<Rightarrow> life_db" where
  "pipeline_db env pod ip snap k db =
     runner_store_config snap pod k (runner_started env pod k (runner_reset k (the (runner_claim env pod ip k
       (db\<lparr>lb_tasks := fst (the (claim_specific_task ip (lb_tasks db) k pod (le_now env)))\<rparr>)))))"

definition pipeline_row :: "life_env \<Rightarrow> string \<Rightarrow> string option \<Rightarrow> dict \<Rightarrow> life_row \<Rightarrow> life_row" where
  "pipeline_row env pod ip snap r = config_row snap (begun_row env pod ip (claimed_task ip pod (le_now env) r))"

lemma reports_config [simp]: "lb_reports (runner_store_config snap pod k db) = lb_reports db"
  by (auto simp: runner_store_config_def split: option.split)

lemma reports_reset [simp]: "lb_reports (runner_reset k db) = lb_reports db"
  by (simp add: runner_reset_def)

lemma serve_prefix:
  assumes wf: "wf_rows (lb_tasks db)" and r: "row_of (lb_tasks db) k = Some r" and c: "claimable (le_now env) r"
  shows "running_at k pod (pipeline_row env pod ip snap r) (pipeline_db env pod ip snap k db)"
    and "lb_reports (pipeline_db env pod ip snap k db) = lb_reports db"
    and "serve_message env pod ip snap during (PipelineDone st err evts) i rid k db =
      (let dbf = runner_finalize env pod k st err evts (during (pipeline_db env pod ip snap k db));
           rows = clear_running_dispatch_fields (lb_tasks dbf) k
       in dbf\<lparr>lb_tasks := rows, lb_reports := maybe_trigger_debug i rid (le_now env) rows k (lb_reports dbf)\<rparr>)"
proof -
  let ?rows = "upd_where (\<lambda>x. dr_key x = k) (claimed_task ip pod (le_now env)) (lb_tasks db)"
  note cl = claim_running_at[OF wf r c, where ip = ip and pod = pod]
  have nr: "\<not> tr_cancel_requested (claimed_task ip pod (le_now env) r)" by (simp add: claimed_task_def)
  from claim_begins[OF cl(2) nr, of env ip] obtain db1 where
    db1: "runner_claim env pod ip k (db\<lparr>lb_tasks := ?rows\<rparr>) = Some db1" "lb_reports db1 = lb_reports db" by auto
  have p: "pipeline_db env pod ip snap k db = runner_store_config snap pod k (runner_started env pod k (runner_reset k db1))"
    by (simp add: pipeline_db_def cl(1) db1)
  show "running_at k pod (pipeline_row env pod ip snap r) (pipeline_db env pod ip snap k db)"
    unfolding p pipeline_row_def by (intro config_running_at run_prefix[OF cl(2) nr db1(1)])
  show "lb_reports (pipeline_db env pod ip snap k db) = lb_reports db" by (simp add: p db1)
  show "serve_message env pod ip snap during (PipelineDone st err evts) i rid k db =
      (let dbf = runner_finalize env pod k st err evts (during (pipeline_db env pod ip snap k db));
           rows = clear_running_dispatch_fields (lb_tasks dbf) k
       in dbf\<lparr>lb_tasks := rows, lb_reports := maybe_trigger_debug i rid (le_now env) rows k (lb_reports dbf)\<rparr>)"
    by (simp add: serve_message_def cl(1) run_task_def db1(1) p Let_def)
qed

section \<open>What a run leaves\<close>

definition released :: "life_row \<Rightarrow> life_row" where
  "released r = r\<lparr>dr_celery := None, dr_owner := None, tr_owner_ip := None, dr_lease := None, dr_epoch := 0\<rparr>"

definition undisturbed :: "string \<Rightarrow> (life_db \<Rightarrow> life_db) \<Rightarrow> bool" where
  "undisturbed k during \<longleftrightarrow> (\<forall>d. wf_rows (lb_tasks d) \<longrightarrow> wf_rows (lb_tasks (during d))
     \<and> row_of (lb_tasks (during d)) k = row_of (lb_tasks d) k \<and> lb_reports (during d) = lb_reports d)"

lemma run_result:
  assumes wf: "wf_rows (lb_tasks db)" and r: "row_of (lb_tasks db) k = Some r" and c: "claimable (le_now env) r"
    and out: "\<And>t. le_out env t \<noteq> EvSessionLost" and dur: "undisturbed k during"
    and fin: "serve_message env pod ip snap during (PipelineDone st err evts) i rid k db = db'"
  shows "row_of (lb_tasks db') k =
      Some (released (note_abnormal_reason env (final_row env st err (pipeline_row env pod ip snap r))))"
    and "lb_reports db' = maybe_trigger_debug i rid (le_now env) (lb_tasks db') k (lb_reports db)"
proof -
  note sp = serve_prefix[OF wf r c, where pod = pod and ip = ip and snap = snap]
  let ?r1 = "pipeline_row env pod ip snap r" and ?d = "during (pipeline_db env pod ip snap k db)"
  have run: "running_at k pod ?r1 ?d"
    using sp(1) dur by (simp add: running_at_def undisturbed_def)
  let ?dbf = "runner_finalize env pod k st err evts ?d"
  have key: "dr_key ?r1 = k" using run row_of_Some by (auto simp: running_at_def)
  have reps: "lb_reports ?dbf = lb_reports db"
    using report_inv.runner_final_keeps sp(1,2) dur by (simp add: running_at_def undisturbed_def)
  have "row_of (lb_tasks ?dbf) k = Some (note_abnormal_reason env (final_row env st err ?r1))"
    using run key unfolding final_tasks[OF run out] by (simp add: row_of_upd_where running_at_def final_row_def)
  then have row: "row_of (clear_running_dispatch_fields (lb_tasks ?dbf) k) k =
      Some (released (note_abnormal_reason env (final_row env st err ?r1)))"
    using key by (simp add: clear_running_dispatch_fields_def row_of_upd_where final_row_def released_def)
  have "lb_reports db' = maybe_trigger_debug i rid (le_now env) (lb_tasks db') k (lb_reports db)"
    "lb_tasks db' = clear_running_dispatch_fields (lb_tasks ?dbf) k"
    using fin sp(3) reps by (auto simp: Let_def)
  with row show "row_of (lb_tasks db') k = Some (released (note_abnormal_reason env (final_row env st err ?r1)))"
    "lb_reports db' = maybe_trigger_debug i rid (le_now env) (lb_tasks db') k (lb_reports db)" by auto
qed



text \<open>
  the last event of a run is written in the transaction of its result. When that
  write loses its session, the result is rolled back, the cleanup takes the owner away,
  and whatever \<open>inspect\<close> answers the next stale scan puts the finished task back in the queue.
\<close>

theorem lost_final_event_reruns:
  assumes wf: "wf_rows (lb_tasks db)" and r: "row_of (lb_tasks db) k = Some r" and c: "claimable (le_now env) r"
    and lost: "le_out env ''task_passed'' = EvSessionLost"
    and fin: "serve_message env pod ip snap (\<lambda>d. d) (PipelineDone StPassed err []) i rid k db = db'"
  shows "\<exists>r' r''. row_of (lb_tasks db') k = Some r' \<and> dr_status r' = StRunning \<and> dr_owner r' = None
    \<and> row_of (fst (stale_once reply now (lb_tasks db'))) k = Some r'' \<and> eligible r''"
proof -
  note sp = serve_prefix[OF wf r c, where pod = pod and ip = ip and snap = snap]
  let ?r1 = "pipeline_row env pod ip snap r" and ?d = "pipeline_db env pod ip snap k db"
  have key: "dr_key ?r1 = k" and run: "dr_status ?r1 = StRunning" "row_of (lb_tasks ?d) k = Some ?r1" "\<not> dr_deleted ?r1"
    using sp(1) row_of_Some by (auto simp: running_at_def)
  have "lb_tasks (runner_finalize env pod k StPassed err [] ?d) = lb_tasks ?d"
    using run key running_owned[OF sp(1)]
    by (auto simp: runner_finalize_def sync_stage_events_def final_event_def session_defs row_of_upd_where final_row_def
        final_req_def Let_def event_call_def se_event_def lost)
  then have tasks: "lb_tasks db' = clear_running_dispatch_fields (lb_tasks ?d) k"
    using fin sp(3) by (auto simp: Let_def)
  let ?r2 = "?r1\<lparr>dr_celery := None, dr_owner := None, tr_owner_ip := None, dr_lease := None, dr_epoch := 0\<rparr>"
  have row: "row_of (lb_tasks db') k = Some ?r2"
    using run key by (simp add: tasks clear_running_dispatch_fields_def row_of_upd_where)
  have "row_of (fst (stale_once reply now (lb_tasks db'))) k = Some (reset_task ?r2)"
    using row run
    by (simp add: fst_stale_once recover_pending_stale_cid_def Let_def row_of_upd_where disp_defs)
  moreover have "eligible (reset_task ?r2)" using run by (simp add: disp_defs)
  ultimately show ?thesis using row run by auto
qed

theorem lost_final_event_reruns_witness:
  "\<exists>r' r''. row_of (lb_tasks (serve_message (env0\<lparr>le_out := \<lambda>t. EvSessionLost\<rparr>) ''w'' None [] (\<lambda>d. d) (PipelineDone StPassed None []) 1 ''r1'' ''t1''
      (db_of life0))) ''t1'' = Some r' \<and> dr_status r' = StRunning
    \<and> row_of (fst (stale_once (Some []) 20 (lb_tasks (serve_message (env0\<lparr>le_out := \<lambda>t. EvSessionLost\<rparr>) ''w'' None [] (\<lambda>d. d)
      (PipelineDone StPassed None []) 1 ''r1'' ''t1'' (db_of life0))))) ''t1'' = Some r'' \<and> eligible r''"
proof -
  from lost_final_event_reruns[of "db_of life0" "''t1''" life0 "env0\<lparr>le_out := \<lambda>t. EvSessionLost\<rparr>" "''w''" None "[]" None 1 "''r1''", OF _ _ _ _ refl, of "Some []" 20]
  show ?thesis by auto
qed

section \<open>Cancel\<close>

lemma note_running [simp]:
  "dr_status r = StRunning \<Longrightarrow> note_abnormal_reason env r = r\<lparr>tl_reason := PNone\<rparr>"
  by (simp add: note_abnormal_reason_def record_abnormal_reason_def sync_task_abnormal_reason_def reason_changed_def
      task_abnormal_reason_def abnormal_status_def reason_val_def)

lemma row_of_set:
  "keeps_key f \<Longrightarrow> se_row k (se_set k f s) = map_option f (se_row k s)"
  by (cases "se_row k s") (auto simp: se_row_def se_set_def row_of_upd_where keeps_key_def dest: row_of_Some)

lemma row_revoke [simp]: "se_row k (revoke_celery_task env r s) = se_row k s"
  by (simp add: se_row_def)

lemma row_commit [simp]: "se_row k (se_commit s) = se_row k s"
  by (simp add: se_row_def se_commit_def)

lemma saved_row: "row_of (lb_tasks (ss_saved (se_commit s))) k = se_row k s"
  by (simp add: se_row_def se_commit_def)

lemma row_event: "le_out env (rq_type rq) \<noteq> EvSessionLost \<Longrightarrow> se_row k (se_event env rq s) = se_row k s"
  by (simp add: se_row_def event_tasks)

definition cancelled_end :: "life_env \<Rightarrow> life_row \<Rightarrow> bool" where
  "cancelled_end env r \<longleftrightarrow> dr_status r = StCancelled \<and> dr_finished r = Some (le_now env) \<and> dr_owner r = None
     \<and> dr_celery r = None \<and> dr_lease r = None \<and> dr_epoch r = 0 \<and> tl_cancel_ack r \<and> tl_cancel_cleaned r \<and> tl_cancel_final r"

lemma cancel_first_row:
  assumes "row_of (lb_tasks db) k = Some r" "dr_status r = StRunning"
  obtains r1 where "se_row k (se_event env (cancel_request_req env r) (se_set k (cancel_mark env) (se_begin db))) = Some r1"
    "r1 \<in> {r, cancel_mark env r}"
  using assms row_of_Some[OF assms(1)]
  by (cases "le_out env (rq_type (cancel_request_req env r))")
    (auto simp: se_event_def session_defs row_of_upd_where cancel_mark_def)

lemma note_nothing:
  "se_row k s = Some r \<Longrightarrow> dr_status r = StRunning \<Longrightarrow> cancel_note_reason env k s = se_set k (note_abnormal_reason env) s"
  by (simp add: cancel_note_reason_def task_abnormal_reason_def abnormal_status_def Let_def split: bool.split)

definition cancel_first :: "life_env \<Rightarrow> string \<Rightarrow> life_row \<Rightarrow> life_db \<Rightarrow> life_session" where
  "cancel_first env k r db = se_event env (cancel_request_req env r) (se_set k (cancel_mark env) (se_begin db))"

lemma cancel_running_unfold:
  assumes wf: "wf_rows (lb_tasks db)" and r: "row_of (lb_tasks db) k = Some r" "dr_status r = StRunning" "\<not> dr_deleted r"
  obtains r1 where "r1 \<in> {r, cancel_mark env r}" "se_row k (cancel_first env k r db) = Some r1"
    "cancel_task env k db = api_done k (cancel_running_act env k (r1\<lparr>tl_reason := PNone\<rparr>)
      (se_commit (se_set k (note_abnormal_reason env) (cancel_first env k r db))))"
proof -
  have g: "get_or_404 (lb_tasks db) k = Some r" using r by (simp add: get_or_404_key[OF wf])
  obtain r1 where r1: "se_row k (cancel_first env k r db) = Some r1" "r1 \<in> {r, cancel_mark env r}"
    unfolding cancel_first_def by (rule cancel_first_row[OF r(1,2)])
  have run1: "dr_status r1 = StRunning" using r1(2) r(2) by (auto simp: cancel_mark_def)
  have "se_row k (se_commit (se_set k (note_abnormal_reason env) (cancel_first env k r db))) = Some (r1\<lparr>tl_reason := PNone\<rparr>)"
    using r1 run1 by (simp add: row_of_set keeps_key_def)
  with r1 run1 r(2) show ?thesis
    by (intro that[of r1]) (simp_all add: cancel_task_def g terminal_def cancel_if_def note_nothing[OF r1(1) run1] flip: cancel_first_def)
qed

lemma cancelled_type [simp]: "rq_type (cancelled_req env m a b x) = ''task_cancelled''"
  by (simp add: cancelled_req_def event_call_def)

lemma cancel_running_row_of:
  assumes wf: "wf_rows (lb_tasks db)" and r: "row_of (lb_tasks db) k = Some r" "dr_status r = StRunning" "\<not> dr_deleted r"
  shows "le_out env ''task_cancelled'' \<noteq> EvSessionLost \<Longrightarrow>
      \<exists>r'. row_of (lb_tasks (fst (cancel_task env k db))) k = Some r' \<and> cancelled_end env r' \<and> tl_reason r' = PNone"
    and "le_out env ''task_cancelled'' = EvSessionLost \<Longrightarrow>
      \<exists>r'. row_of (lb_tasks (fst (cancel_task env k db))) k = Some r' \<and> dr_status r' = StRunning
        \<and> dr_owner r' = dr_owner r \<and> dr_celery r' = dr_celery r \<and> \<not> dr_deleted r'"
proof -
  obtain r1 where r1: "r1 \<in> {r, cancel_mark env r}" "se_row k (cancel_first env k r db) = Some r1"
    and c: "cancel_task env k db = api_done k (cancel_running_act env k (r1\<lparr>tl_reason := PNone\<rparr>)
      (se_commit (se_set k (note_abnormal_reason env) (cancel_first env k r db))))"
    by (rule cancel_running_unfold[OF wf r])
  have run1: "dr_status r1 = StRunning" "dr_owner r1 = dr_owner r" "dr_celery r1 = dr_celery r" "\<not> dr_deleted r1"
    using r1(1) r(2,3) by (auto simp: cancel_mark_def)
  let ?s2 = "se_commit (se_set k (note_abnormal_reason env) (cancel_first env k r db))"
  have row2: "se_row k ?s2 = Some (r1\<lparr>tl_reason := PNone\<rparr>)"
    using r1 run1 by (simp add: row_of_set keeps_key_def)
  show "\<exists>r'. row_of (lb_tasks (fst (cancel_task env k db))) k = Some r' \<and> cancelled_end env r' \<and> tl_reason r' = PNone"
    if "le_out env ''task_cancelled'' \<noteq> EvSessionLost"
    using r1(2) run1(1) that
    by (simp add: c api_done_def cancel_running_act_def saved_row row_event row_of_set keeps_key_def cancel_running_row_def cancelled_end_def)
  show "\<exists>r'. row_of (lb_tasks (fst (cancel_task env k db))) k = Some r' \<and> dr_status r' = StRunning
      \<and> dr_owner r' = dr_owner r \<and> dr_celery r' = dr_celery r \<and> \<not> dr_deleted r'"
    if "le_out env ''task_cancelled'' = EvSessionLost"
    using r1(2) that run1 row_of_Some[of "lb_tasks (ss_work (cancel_first env k r db))" k r1]
    by (simp add: c api_done_def cancel_running_act_def saved_row se_event_def)
      (simp add: se_row_def se_commit_def se_set_def row_of_upd_where)
qed

lemma cancel_running_revokes:
  assumes wf: "wf_rows (lb_tasks db)" and r: "row_of (lb_tasks db) k = Some r" "dr_status r = StRunning" "\<not> dr_deleted r"
    and "dr_celery r = Some c" "c \<noteq> []" "le_revoke_ok env"
  shows "fst (snd (cancel_task env k db)) = [c]"
proof -
  obtain r1 where r1: "r1 \<in> {r, cancel_mark env r}" "se_row k (cancel_first env k r db) = Some r1"
    and c: "cancel_task env k db = api_done k (cancel_running_act env k (r1\<lparr>tl_reason := PNone\<rparr>)
      (se_commit (se_set k (note_abnormal_reason env) (cancel_first env k r db))))"
    by (rule cancel_running_unfold[OF wf r])
  have "dr_celery r1 = Some c" using r1(1) assms(5) by (auto simp: cancel_mark_def)
  moreover obtain x xs where "c = x # xs" using assms(6) by (cases c) auto
  moreover have "ss_revoked (cancel_first env k r db) = []"
    by (simp add: cancel_first_def event_tasks se_set_def se_begin_def)
  ultimately show ?thesis
    using assms(7) by (simp add: c api_done_def cancel_running_act_def revoke_celery_task_def event_tasks)
      (simp add: se_commit_def se_set_def event_tasks)
qed



text \<open>
  the cancellation of a running task can be undone by the write of its event: the
  process has been revoked, but the row is running again, and once its message has left
  \<open>inspect\<close> the stale scan puts the task the user cancelled back in the queue.
\<close>

theorem lost_cancel_runs_again:
  assumes wf: "wf_rows (lb_tasks db)" and r: "row_of (lb_tasks db) k = Some r" "dr_status r = StRunning" "\<not> dr_deleted r"
    and "dr_celery r = Some c" "c \<noteq> []" "le_revoke_ok env" "le_out env ''task_cancelled'' = EvSessionLost"
    and gone: "c \<notin> set (active_ids reply)"
  shows "fst (snd (cancel_task env k db)) = [c] \<and>
    (\<exists>r''. row_of (fst (stale_once reply now (lb_tasks (fst (cancel_task env k db))))) k = Some r'' \<and> eligible r'')"
proof -
  from cancel_running_row_of(2)[OF wf r assms(8)] obtain r' where
    r': "row_of (lb_tasks (fst (cancel_task env k db))) k = Some r'" "dr_status r' = StRunning"
      "dr_celery r' = Some c" "\<not> dr_deleted r'" using assms(5) by auto
  have "row_of (fst (stale_once reply now (lb_tasks (fst (cancel_task env k db))))) k = Some (reset_task r')"
    using r' gone by (simp add: fst_stale_once recover_pending_stale_cid_def Let_def row_of_upd_where disp_defs)
  moreover have "eligible (reset_task r')" using r' by (simp add: disp_defs)
  moreover have "fst (snd (cancel_task env k db)) = [c]" by (rule cancel_running_revokes[OF wf r assms(5-7)])
  ultimately show ?thesis by blast
qed



text \<open>
  the exception is real: a run whose model access cannot be prepared writes its failure
  without looking at the row, so a task cancelled in the meantime ends as failed.
\<close>

theorem llm_failure_overwrites_cancel:
  assumes wf: "wf_rows (lb_tasks db)" and r: "row_of (lb_tasks db) k = Some r" "dr_status r = StRunning" "\<not> dr_deleted r"
    and "le_out cenv ''task_cancelled'' \<noteq> EvSessionLost" "le_out env ''task_failed'' \<noteq> EvSessionLost"
  shows "status_of (lb_tasks (fst (cancel_task cenv k db))) k = Some StCancelled
    \<and> status_of (lb_tasks (runner_llm_failed env pod k e (fst (cancel_task cenv k db)))) k = Some StFailed"
proof -
  from cancel_running_row_of(1)[OF wf r assms(5)] obtain r' where
    r': "row_of (lb_tasks (fst (cancel_task cenv k db))) k = Some r'" "dr_status r' = StCancelled"
    by (auto simp: cancelled_end_def)
  have "se_row k (se_begin (fst (cancel_task cenv k db))) = Some r'" using r' by (simp add: se_row_def se_begin_def)
  with r' assms(6) show ?thesis
    by (simp add: status_of_def runner_llm_failed_def saved_row row_event row_of_set keeps_key_def llm_failed_req_def event_call_def)
qed

section \<open>Restart\<close>

lemma se_row_begin: "se_row k (se_begin db) = row_of (lb_tasks db) k"
  by (simp add: se_row_def se_begin_def)

lemma again_type [simp]: "rq_type (again_req env t m c r) = t"
  by (simp add: again_req_def event_call_def)

lemma restart_cancel_type [simp]: "rq_type (restart_cancel_req env r) = ''task_cancelled''"
  by (simp add: restart_cancel_req_def event_call_def)

lemma keeps_reset [simp]: "keeps_key reset_for_run"
  by (simp add: row_fun_defs)

definition restart_first :: "life_env \<Rightarrow> string \<Rightarrow> life_row \<Rightarrow> life_db \<Rightarrow> life_session" where
  "restart_first env k r db =
     (if dr_status r \<in> {StRunning, StPending}
      then se_commit (se_event env (restart_cancel_req env r)
        (se_set k (\<lambda>r. r\<lparr>dr_status := StCancelled, dr_finished := Some (le_now env), tr_cancel_requested := True\<rparr>)
          (revoke_celery_task env r (se_begin db))))
      else se_begin db)"

lemma restart_unfold:
  "get_or_404 (lb_tasks db) k = Some r \<Longrightarrow> \<exists>m. restart_task env k db =
    api_done k (se_commit (se_event env (again_req env ''task_retried'' m ''manual_retry'' r)
      (se_set k reset_for_run (restart_first env k r db))))"
  by (auto simp: restart_task_def restart_first_def Let_def)

lemma restart_first_row:
  assumes "row_of (lb_tasks db) k = Some r"
  obtains r1 where "se_row k (restart_first env k r db) = Some r1"
    "r1 = r \<or> r1 = r\<lparr>dr_status := StCancelled, dr_finished := Some (le_now env), tr_cancel_requested := True\<rparr>"
    "le_out env ''task_cancelled'' \<noteq> EvSessionLost \<Longrightarrow> dr_status r \<in> {StRunning, StPending} \<Longrightarrow> dr_status r1 = StCancelled"
proof (cases "dr_status r \<in> {StRunning, StPending}")
  case True
  show ?thesis
  proof (cases "le_out env ''task_cancelled'' = EvSessionLost")
    case lost: True
    with True assms show ?thesis
      by (intro that[of r]) (auto simp: restart_first_def se_event_def se_row_def se_commit_def se_set_def se_begin_def)
  next
    case False
    with True assms show ?thesis
      by (intro that[of "r\<lparr>dr_status := StCancelled, dr_finished := Some (le_now env), tr_cancel_requested := True\<rparr>"])
        (auto simp: restart_first_def row_event row_of_set keeps_key_def se_row_begin)
  qed
qed (use assms that[of r] in \<open>auto simp: restart_first_def se_row_begin\<close>)

lemma restart_revokes: "ss_revoked (restart_first env k r db) =
    (case dr_celery r of Some (c # cs) \<Rightarrow> if dr_status r \<in> {StRunning, StPending} \<and> le_revoke_ok env then [c # cs] else [] | _ \<Rightarrow> [])"
  by (auto simp: restart_first_def se_commit_def event_tasks se_set_def revoke_celery_task_def se_begin_def
      split: option.split list.split)

lemma restart_result:
  assumes wf: "wf_rows (lb_tasks db)" and r: "row_of (lb_tasks db) k = Some r" "\<not> dr_deleted r"
    and out: "le_out env ''task_retried'' \<noteq> EvSessionLost"
    and res: "restart_task env k db = (db', revoked, answer)"
  obtains r1 where "r1 = r \<or> r1 = r\<lparr>dr_status := StCancelled, dr_finished := Some (le_now env), tr_cancel_requested := True\<rparr>"
    "row_of (lb_tasks db') k = Some (reset_for_run r1)" "answer = Inr (Some (reset_for_run r1))"
    "revoked = ss_revoked (restart_first env k r db)" "wf_rows (lb_tasks db')"
proof -
  have g: "get_or_404 (lb_tasks db) k = Some r" using r by (simp add: get_or_404_key[OF wf])
  obtain r1 where r1: "se_row k (restart_first env k r db) = Some r1"
    "r1 = r \<or> r1 = r\<lparr>dr_status := StCancelled, dr_finished := Some (le_now env), tr_cancel_requested := True\<rparr>"
    by (rule restart_first_row[OF r(1)])
  from restart_unfold[OF g, of env] obtain m where m: "restart_task env k db =
    api_done k (se_commit (se_event env (again_req env ''task_retried'' m ''manual_retry'' r)
      (se_set k reset_for_run (restart_first env k r db))))" by blast
  have "answer = Inr (Some (reset_for_run r1))" "row_of (lb_tasks db') k = Some (reset_for_run r1)"
    "revoked = ss_revoked (restart_first env k r db)"
    using res r1(1) out unfolding m
    by (auto simp: api_done_def saved_row row_event row_of_set) (simp add: se_commit_def event_tasks se_set_def)
  with r1(2) wf_inv.restart_keeps[OF wf, of env k] res show ?thesis by (intro that[of r1]) auto
qed



text \<open>
  when the write of the second event loses the session, the reset is rolled back and
  a task that was running is left cancelled, out of reach of the pump, while the restart
  still answers without an error.
\<close>

theorem lost_restart_strands_the_task:
  assumes wf: "wf_rows (lb_tasks db)" and r: "row_of (lb_tasks db) k = Some r" "\<not> dr_deleted r"
    and run: "dr_status r \<in> {StRunning, StPending}"
    and out: "le_out env ''task_retried'' = EvSessionLost" "le_out env ''task_cancelled'' \<noteq> EvSessionLost"
    and res: "restart_task env k db = (db', revoked, answer)"
  shows "\<exists>r'. answer = Inr (Some r') \<and> row_of (lb_tasks db') k = Some r' \<and> dr_status r' = StCancelled
    \<and> r' \<notin> set (pump_candidates (lb_tasks db'))"
proof -
  have g: "get_or_404 (lb_tasks db) k = Some r" using r by (simp add: get_or_404_key[OF wf])
  obtain r1 where r1: "se_row k (restart_first env k r db) = Some r1" "dr_status r1 = StCancelled"
    using restart_first_row[OF r(1), of env] out(2) run by metis
  from restart_unfold[OF g, of env] obtain m where m: "restart_task env k db =
    api_done k (se_commit (se_event env (again_req env ''task_retried'' m ''manual_retry'' r)
      (se_set k reset_for_run (restart_first env k r db))))" by blast
  have sv: "ss_saved (restart_first env k r db) = ss_work (restart_first env k r db)"
    using run by (simp add: restart_first_def se_commit_def)
  have "answer = Inr (Some r1)" "row_of (lb_tasks db') k = Some r1"
    using res r1(1) out(1) sv unfolding m
    by (auto simp: api_done_def se_event_def se_commit_def se_row_def se_set_def)
  moreover have "r1 \<notin> set (pump_candidates (lb_tasks db'))"
    using r1(2) by (auto dest!: pump_candidates_eligible simp: disp_defs)
  ultimately show ?thesis using r1(2) by blast
qed

end
