(* ===== verification/TaskRecordSafety.thy ===== *)
theory TaskRecordSafety
  imports TaskLifeSafety
begin

text \<open>
  What the records of a task show over several runs: the reason given for a failure, the
  cancellations in the timeline, the runs that share a row, the one task for an item of a
  parent task, and what a deletion leaves.
\<close>

section \<open>The reason of a failure\<close>

lemma reason_note: "tl_reason (note_abnormal_reason env r) = reason_val (task_abnormal_reason env r)"
  by (auto simp: note_abnormal_reason_def record_abnormal_reason_def sync_task_abnormal_reason_def reason_changed_def Let_def
      split: option.split)

lemma pipeline_reason [simp]: "tl_reason (pipeline_row env pod ip snap r) = tl_reason r"
  by (simp add: pipeline_row_def config_row_def begun_row_def claimed_task_def)

text \<open>
  the reason stored for a failure survives a restart, and a later failure reports it
  again: whatever error the new run ends with, the reason shown for the task is the first
  one.
\<close>

theorem stale_reason_is_reported:
  assumes wf: "wf_rows (lb_tasks db)" and r: "row_of (lb_tasks db) k = Some r" "\<not> dr_deleted r" "tl_reason r = PDict d"
    and "le_out env1 ''task_retried'' \<noteq> EvSessionLost" "\<And>t. le_out env2 t \<noteq> EvSessionLost" "st \<in> {StFailed, StError}"
    and res: "restart_task env1 k db = (db1, revoked, answer)"
    and fin: "serve_message env2 pod ip snap (\<lambda>d. d) (PipelineDone st err evts) i rid k db1 = db2"
  shows "\<exists>r2. row_of (lb_tasks db2) k = Some r2 \<and> dr_error r2 = err \<and> task_abnormal_reason env3 r2 = Some d
    \<and> task_abnormal_reason_light r2 = Some d"
proof -
  obtain r1 where r1: "r1 = r \<or> r1 = r\<lparr>dr_status := StCancelled, dr_finished := Some (le_now env1), tr_cancel_requested := True\<rparr>"
    "row_of (lb_tasks db1) k = Some (reset_for_run r1)" "wf_rows (lb_tasks db1)"
    by (rule restart_result[OF wf r(1,2) assms(5) res])
  have c: "claimable (le_now env2) (reset_for_run r1)" and p: "tl_reason (reset_for_run r1) = PDict d"
    using r1(1) r by (auto simp: row_fun_defs claimable_def)
  have "undisturbed k (\<lambda>d. d)" by (simp add: undisturbed_def)
  from run_result(1)[OF r1(3,2) c assms(6) this fin] show ?thesis
    using assms(7) p
    by (auto simp: released_def reason_note task_abnormal_reason_def task_abnormal_reason_light_def abnormal_status_def
        final_row_def reason_val_def)
qed

section \<open>Two runs of one row\<close>

text \<open>
  a restart does not fence the run it replaces. When the same worker pod claims the
  task again, the result the old run still writes is taken for the result of the new one.
\<close>

theorem superseded_run_finishes_the_new_one:
  assumes wf: "wf_rows (lb_tasks db)" and r: "row_of (lb_tasks db) k = Some r" "\<not> dr_deleted r" "dr_owner r = Some pod"
    and out: "le_out env1 ''task_retried'' \<noteq> EvSessionLost" "\<And>t. le_out env2 t \<noteq> EvSessionLost"
    and res: "restart_task env1 k db = (db1, revoked, answer)"
    and cl: "claim_specific_task ip (lb_tasks db1) k pod now = Some (rows, e)"
  shows "status_of rows k = Some StRunning
    \<and> status_of (lb_tasks (runner_finalize env2 pod k st err evts (db1\<lparr>lb_tasks := rows\<rparr>))) k = Some st"
proof -
  obtain r1 where r1: "r1 = r \<or> r1 = r\<lparr>dr_status := StCancelled, dr_finished := Some (le_now env1), tr_cancel_requested := True\<rparr>"
    "row_of (lb_tasks db1) k = Some (reset_for_run r1)" "wf_rows (lb_tasks db1)"
    by (rule restart_result[OF wf r(1,2) out(1) res])
  have "claimable now (reset_for_run r1)" using r1(1) r by (auto simp: row_fun_defs claimable_def)
  note c = claim_running_at[OF r1(3,2) this, where ip = ip and pod = pod]
  let ?r2 = "claimed_task ip pod now (reset_for_run r1)"
  have run: "running_at k pod ?r2 (db1\<lparr>lb_tasks := rows\<rparr>)" using c cl by simp
  have "dr_key ?r2 = k" using run row_of_Some by (auto simp: running_at_def)
  then show ?thesis
    using run unfolding final_tasks[OF run out(2)]
    by (simp add: status_of_def row_of_upd_where running_at_def final_row_def)
qed

section \<open>Cancellations in the timeline\<close>

lemma create_small:
  assumes "length (events_of (rq_task rq) rows) < timeline_bound"
  shows "create_task_event env rq rows \<in> {rows, rows @ [new_event env rq]}"
  using assms
  by (auto simp: create_task_event_def trim_task_timeline_events_def Let_def timeline_bound_def db_timeline_event_limit_def
      events_of_def new_event_def)

lemma create_known: "req_key env rq \<in> ev_key ` set rows \<Longrightarrow> create_task_event env rq rows = rows"
  by (simp add: create_task_event_def)

definition of_type :: "string \<Rightarrow> event_row list \<Rightarrow> event_row list" where
  "of_type t rows = filter (\<lambda>e. ev_type e = t) rows"

lemma se_event_log: "lb_events (ss_work (se_event env rq s)) =
    (case le_out env (rq_type rq) of
       EvWritten \<Rightarrow> create_task_event (le_ev env (rq_type rq)) rq (lb_events (ss_work s))
     | EvSwallowed \<Rightarrow> lb_events (ss_work s) | EvSessionLost \<Rightarrow> lb_events (ss_saved s))"
  by (simp add: se_event_def split: event_outcome.split)

lemma log_simps [simp]:
  "lb_events (ss_work (se_set k f s)) = lb_events (ss_work s)" "ss_saved (se_set k f s) = ss_saved s"
  "ss_work (se_commit s) = ss_work s" "ss_saved (se_commit s) = ss_work s"
  "ss_work (se_begin db) = db" "ss_saved (se_begin db) = db"
  by (simp_all add: se_set_def se_commit_def se_begin_def)

lemma stripped_key: "rq_key rq = Some key \<Longrightarrow> py_strip key = key \<Longrightarrow> key \<noteq> [] \<Longrightarrow> req_key env rq = key"
  by (simp add: req_key_def or_empty_def)

lemma request_log:
  assumes "row_of (lb_tasks db) k = Some r" "length (events_of k (lb_events db)) < timeline_bound"
  shows "\<exists>es. lb_events (ss_work (se_event env (cancel_request_req env r) (se_set k (cancel_mark env) (se_begin db)))) = lb_events db @ es
    \<and> of_type ''task_cancelled'' es = []"
proof -
  have k: "dr_key r = k" using row_of_Some[OF assms(1)] by simp
  then have "rq_task (cancel_request_req env r) = k" "rq_type (cancel_request_req env r) = ''task_cancel_requested''"
    by (simp_all add: cancel_request_req_def event_call_def)
  with assms(2) create_small[of "cancel_request_req env r" "lb_events db" "le_ev env ''task_cancel_requested''"] show ?thesis
    by (auto simp: se_event_log of_type_def new_event_def split: event_outcome.split)
qed

text \<open>
  the key of the event that records a cancellation does not name the run. Once a
  running task has been cancelled, cancelling it again after a restart changes its row
  but adds no such event to the timeline.
\<close>

theorem second_cancel_is_not_recorded:
  assumes wf: "wf_rows (lb_tasks db)" and r: "row_of (lb_tasks db) k = Some r" "dr_status r = StRunning" "\<not> dr_deleted r"
    and room: "length (events_of k (lb_events db)) < timeline_bound"
    and out: "le_out env ''task_cancelled'' \<noteq> EvSessionLost"
    and key: "dedupe_key env ''task_cancelled'' [PStr k, PStr ''task_cancelled'', PStr ''running''] = key"
      "py_strip key = key" "key \<noteq> []" "key \<in> ev_key ` set (lb_events db)"
    and res: "cancel_task env k db = (db', revoked, answer)"
  shows "status_of (lb_tasks db') k = Some StCancelled
    \<and> of_type ''task_cancelled'' (lb_events db') = of_type ''task_cancelled'' (lb_events db)"
proof -
  from cancel_running_row_of(1)[OF wf r out] res have st: "status_of (lb_tasks db') k = Some StCancelled"
    by (auto simp: status_of_def cancelled_end_def)
  obtain r1 where r1: "r1 \<in> {r, cancel_mark env r}"
    and c: "cancel_task env k db = api_done k (cancel_running_act env k (r1\<lparr>tl_reason := PNone\<rparr>)
      (se_commit (se_set k (note_abnormal_reason env) (cancel_first env k r db))))"
    by (rule cancel_running_unfold[OF wf r])
  have k: "dr_key r1 = k" using r1 row_of_Some[OF r(1)] by (auto simp: cancel_mark_def)
  obtain es where es: "lb_events (ss_work (cancel_first env k r db)) = lb_events db @ es" "of_type ''task_cancelled'' es = []"
    using request_log[OF r(1) room, of env] by (auto simp: cancel_first_def)
  have "req_key e (cancelled_req env m ''running_cancel'' ''running'' (r1\<lparr>tl_reason := PNone\<rparr>)) = key" for e m
    using key(1-3) k by (intro stripped_key) (simp_all add: cancelled_req_def)
  then have known: "create_task_event e (cancelled_req env m ''running_cancel'' ''running'' (r1\<lparr>tl_reason := PNone\<rparr>))
      (lb_events db @ es) = lb_events db @ es" for e m
    using key(4) by (intro create_known) auto
  have "lb_events db' = lb_events db @ es"
    using res out known es(1)
    by (cases "le_out env ''task_cancelled''") (auto simp: c api_done_def cancel_running_act_def se_event_log)
  with st es(2) show ?thesis by (simp add: of_type_def)
qed

section \<open>One task for an item of a parent task\<close>

text \<open>A request whose parent fields have no surrounding blanks, so that what is stored is what is looked up.\<close>

definition clean_request :: "create_req \<Rightarrow> bool" where
  "clean_request q \<longleftrightarrow> dedup_applies q \<and> cq_parent_task q = norm_opt (cq_parent_task q) \<and> cq_stage q = norm_opt (cq_stage q)
     \<and> (if norm_opt (cq_item q) \<noteq> None then cq_item q = norm_opt (cq_item q) else cq_item_key q = norm_opt (cq_item_key q))"

lemma new_task_matches: "clean_request q \<Longrightarrow> dedup_match q (new_task env base snap i k inp src q)"
  by (auto simp: clean_request_def dedup_match_def new_task_def reusable_status_def)

lemma newest_first_set: "set (newest_first rows) = set rows"
  by (simp add: newest_first_def)

lemma newest_first_Nil: "newest_first rows = [] \<longleftrightarrow> rows = []"
  using newest_first_set[of rows] by (cases "newest_first rows"; cases rows) simp_all

lemma reusable_None:
  assumes "dedup_applies q"
  shows "reusable_row q rows = None \<longleftrightarrow> filter (dedup_match q) rows = []"
proof -
  have "reusable_row q rows = None \<longleftrightarrow> newest_first (filter (dedup_match q) rows) = []"
    using assms by (cases "newest_first (filter (dedup_match q) rows)") (simp_all add: reusable_row_def)
  then show ?thesis by (simp only: newest_first_Nil)
qed

lemma reusable_Some: "reusable_row q rows = Some r \<Longrightarrow> r \<in> set rows \<and> dedup_match q r"
proof -
  assume "reusable_row q rows = Some r"
  then obtain rs where "newest_first (filter (dedup_match q) rows) = r # rs"
    by (auto simp: reusable_row_def split: list.splits if_splits)
  then have "r \<in> set (newest_first (filter (dedup_match q) rows))" by simp
  then show ?thesis by (simp add: newest_first_set)
qed

lemma api_done_event:
  "fst (api_done k (se_commit (se_event env rq (se_begin db)))) = ss_work (se_event env rq (se_begin db))"
  "snd (snd (api_done k (se_commit (se_event env rq (se_begin db))))) = Inr (row_of (lb_tasks db) k)"
  by (simp_all add: api_done_def se_row_def event_begin_tasks)

lemma create_reuses:
  assumes "create_paths q = Inr p" "reusable_row q (lb_tasks db) = Some r"
  shows "lb_tasks (fst (create_task env base snap i k q db)) = lb_tasks db"
    and "snd (snd (create_task env base snap i k q db)) = Inr (row_of (lb_tasks db) (dr_key r))"
proof -
  obtain inp src where "p = (inp, src)" by (cases p)
  with assms show "lb_tasks (fst (create_task env base snap i k q db)) = lb_tasks db"
    "snd (snd (create_task env base snap i k q db)) = Inr (row_of (lb_tasks db) (dr_key r))"
    by (simp_all add: create_task_def api_done_event event_begin_tasks)
qed



text \<open>
  the uniqueness is only that of creation. When a task failed, another was created for
  its item, and the first is then restarted, two live tasks work on the same item.
\<close>

theorem restart_duplicates_the_item:
  assumes wf: "wf_rows (lb_tasks db)" and r: "row_of (lb_tasks db) k = Some r" "\<not> dr_deleted r"
    and m: "dedup_match q (r\<lparr>dr_status := StPending\<rparr>)" and r2: "r2 \<in> set (lb_tasks db)" "dr_key r2 \<noteq> k" "dedup_match q r2"
    and out: "le_out env ''task_retried'' \<noteq> EvSessionLost" and res: "restart_task env k db = (db', revoked, answer)"
  shows "2 \<le> length (filter (dedup_match q) (lb_tasks db'))"
proof -
  obtain r1 where r1: "r1 = r \<or> r1 = r\<lparr>dr_status := StCancelled, dr_finished := Some (le_now env), tr_cancel_requested := True\<rparr>"
    "row_of (lb_tasks db') k = Some (reset_for_run r1)" by (rule restart_result[OF wf r out res])
  let ?r1 = "reset_for_run r1"
  have "dedup_match q ?r1" using m r1(1) by (auto simp: dedup_match_def row_fun_defs reusable_status_def)
  moreover have "row_of (lb_tasks db') (dr_key r2) = row_of (lb_tasks db) (dr_key r2)"
    using row_inv.restart_keeps[of db "dr_key r2" "row_of (lb_tasks db) (dr_key r2)" k env] r2(2) res by simp
  then have "row_of (lb_tasks db') (dr_key r2) = Some r2" using row_of_unique[OF wf r2(1)] by simp
  ultimately have "{?r1, r2} \<subseteq> set (filter (dedup_match q) (lb_tasks db'))"
    using r2(3) row_of_Some r1(2) by fastforce
  moreover have "?r1 \<noteq> r2" using row_of_Some[OF r1(2)] r2(2) by auto
  ultimately have "card {?r1, r2} \<le> card (set (filter (dedup_match q) (lb_tasks db')))" by (intro card_mono) auto
  with \<open>?r1 \<noteq> r2\<close> show ?thesis using card_length[of "filter (dedup_match q) (lb_tasks db')"] by simp
qed

section \<open>Deletion\<close>

lemma row_of_filtered: "row_of (filter (\<lambda>r. dr_key r \<noteq> k) rows) k = None"
  by (auto simp: row_of_None)

text \<open>
  a deletion that succeeds leaves no row, event or debug report of the task, reports
  the number of events it removed and touches nothing of other tasks; a message of the
  task that is still queued then does nothing.
\<close>

theorem delete_leaves_nothing:
  assumes wf: "wf_rows (lb_tasks db)" and r: "row_of (lb_tasks db) k = Some r"
    and res: "delete_task env files True k db = (db', revoked, rep)"
  shows "row_of (lb_tasks db') k = None \<and> events_of k (lb_events db') = [] \<and> (\<forall>x \<in> set (lb_reports db'). rr_task_id x \<noteq> k)
    \<and> rep = Some \<lparr>dl_events = length (events_of k (lb_events db)), dl_files = files, dl_db_ok = True\<rparr>
    \<and> (\<forall>j. j \<noteq> k \<longrightarrow> row_of (lb_tasks db') j = row_of (lb_tasks db) j \<and> events_of j (lb_events db') = events_of j (lb_events db))
    \<and> serve_message menv pod ip snap during pl i rid k db' = db'"
proof -
  have db': "lb_tasks db' = filter (\<lambda>x. dr_key x \<noteq> k) (lb_tasks db)" "lb_events db' = filter (\<lambda>e. ev_task e \<noteq> k) (lb_events db)"
    "lb_reports db' = filter (\<lambda>x. rr_task_id x \<noteq> k) (lb_reports db)"
    and rep: "rep = Some \<lparr>dl_events = length (events_of k (lb_events db)), dl_files = files, dl_db_ok = True\<rparr>"
    using res r by (auto simp: delete_db)
  have wf': "wf_rows (lb_tasks db')" using wf by (simp add: db' wf_rows_filter)
  have gone: "row_of (lb_tasks db') k = None" by (simp add: db' row_of_filtered)
  then have "serve_message menv pod ip snap during pl i rid k db' = db'"
    by (simp add: serve_message_def claim_task_row[OF wf'])
  moreover have "events_of j (lb_events db') = (if j = k then [] else events_of j (lb_events db))" for j
    by (auto simp: db' events_of_def intro!: filter_cong)
  ultimately show ?thesis
    using gone rep by (auto simp: db' row_of_filter_key)
qed

text \<open>
  when the deletions fail the session is rolled back and every row is as before, but a
  running task has already been revoked: it stays running without a process until the
  stale scan runs it again.
\<close>

theorem failed_delete_revokes:
  assumes wf: "wf_rows (lb_tasks db)" and r: "row_of (lb_tasks db) k = Some r" "dr_status r = StRunning" "\<not> dr_deleted r"
    "dr_celery r = Some c" "c \<noteq> []" "le_revoke_ok env"
    and res: "delete_task env files False k db = (db', revoked, rep)" and gone: "c \<notin> set (active_ids reply)"
  shows "db' = db \<and> c \<in> set revoked \<and>
    (\<exists>r'. row_of (fst (stale_once reply now (lb_tasks db'))) k = Some r' \<and> eligible r')"
proof -
  have kept: "c \<in> set (ss_revoked s) \<Longrightarrow> c \<in> set (ss_revoked (revoke_reports env rs s))" for rs s
    unfolding revoke_reports_def
    by (induction rs arbitrary: s) (auto simp: revoke_celery_task_def split: option.split list.split)
  obtain x xs where "c = x # xs" using r(5) by (cases c) auto
  then have "c \<in> set (ss_revoked (revoke_celery_task env r (se_begin db)))" using r by (simp add: revoke_celery_task_def)
  with kept res r have "db' = db" "c \<in> set revoked" by (auto simp: delete_db)
  moreover have "row_of (fst (stale_once reply now (lb_tasks db))) k = Some (reset_task r)"
    using r gone by (simp add: fst_stale_once recover_pending_stale_cid_def Let_def row_of_upd_where disp_defs)
  moreover have "eligible (reset_task r)" using r by (simp add: disp_defs)
  ultimately show ?thesis by auto
qed

end
