(* ===== verification/ModuleLoader.thy ===== *)
theory ModuleLoader
  imports FunctionsList SourceText
begin

text \<open>
  \<open>app/module_loader.py\<close>: finding the files of a module under a target directory, keeping
  the sources among them and resolving each to a file that exists. An absolute path is the
  list of its components; the file system is a map from paths to contents (only regular
  files are in it). What \<open>os.walk\<close> and \<open>rglob\<close> enumerate, in an order the file
  system chooses, are the parameters \<open>walk\<close> and \<open>rglob\<close>; \<open>js\<close> is \<open>json.loads\<close>. An
  operating-system error other than a missing file is not modelled, and \<open>\\w\<close> is the
  ASCII word characters and every byte outside ASCII.
\<close>

section \<open>Paths\<close>

type_synonym path = "string list"

definition components :: "string \<Rightarrow> path" where
  "components s = filter (\<lambda>c. c \<noteq> [] \<and> c \<noteq> ''.'') (split_on (CHR ''/'') s)"

definition is_abs :: "string \<Rightarrow> bool" where
  "is_abs s \<longleftrightarrow> is_prefix ''/'' s"

definition path_join :: "path \<Rightarrow> string \<Rightarrow> path" where
  "path_join p s = (if is_abs s then components s else p @ components s)"

definition last_component :: "path \<Rightarrow> string" where
  "last_component p = (if p = [] then [] else last p)"

definition os_basename :: "string \<Rightarrow> string" where
  "os_basename s = last (split_on (CHR ''/'') s)"

text \<open>\<open>os.path.splitext(name)[1]\<close>: from the last dot, unless only dots come before it.\<close>

definition ext_of :: "string \<Rightarrow> string" where
  "ext_of name =
     (let tail = rev (takeWhile (\<lambda>c. c \<noteq> CHR ''.'') (rev name));
          stem = take (length name - length tail - 1) name
      in if CHR ''.'' \<notin> set name \<or> list_all (\<lambda>c. c = CHR ''.'') stem then [] else CHR ''.'' # tail)"

record fs_env =
  fs_files :: "path \<Rightarrow> string option"
  fs_walk :: "path \<Rightarrow> path list"
  fs_rglob :: "path \<Rightarrow> string \<Rightarrow> path list"
  fs_json :: "string \<Rightarrow> pyval option"
  fs_default_target :: string

definition is_file :: "fs_env \<Rightarrow> path \<Rightarrow> bool" where
  "is_file fs p \<longleftrightarrow> fs_files fs p \<noteq> None"

section \<open>Which files are sources\<close>

definition known_extensions :: "string list" where
  "known_extensions = [''.c'', ''.h'', ''.cc'', ''.cpp'', ''.cxx'', ''.c++'', ''.hh'', ''.hpp'', ''.hxx'', ''.h++'']"

definition is_source_name :: "string \<Rightarrow> bool" where
  "is_source_name s \<longleftrightarrow> py_lower (ext_of (os_basename s)) \<in> set known_extensions"

definition filter_source_files :: "string list \<Rightarrow> string list \<times> string list" where
  "filter_source_files files = (filter is_source_name files, filter (\<lambda>s. \<not> is_source_name s) files)"

section \<open>The formats of a module description\<close>

definition list_lines :: "string \<Rightarrow> string list" where
  "list_lines text = map py_strip (filter (\<lambda>l. py_strip l \<noteq> [] \<and> \<not> is_prefix ''#'' (py_strip l)) (split_lines text))"

definition is_word :: "char \<Rightarrow> bool" where
  "is_word c \<longleftrightarrow> (let n = of_char c :: nat in (48 \<le> n \<and> n \<le> 57) \<or> (65 \<le> n \<and> n \<le> 90) \<or> n = 95 \<or> (97 \<le> n \<and> n \<le> 122) \<or> 128 \<le> n)"

text \<open>\<open>.+\.\w+\<close> up to the end of the text.\<close>

definition file_pattern :: "string \<Rightarrow> bool" where
  "file_pattern s =
     (let tail = rev (takeWhile (\<lambda>c. c \<noteq> CHR ''.'') (rev s))
      in CHR ''.'' \<in> set s \<and> tail \<noteq> [] \<and> list_all is_word tail \<and> length tail + 1 < length s)"

text \<open>
  The first match of \<open>^[-*]?\s*(.+\.\w+)\s*$\<close>: with the bullet and as much space as can
  be skipped, then less, then without the bullet.
\<close>

definition bullet_tries :: "string \<Rightarrow> string list" where
  "bullet_tries s =
     (let tries = (\<lambda>t. map (\<lambda>n. drop n t) (rev [0..<length (takeWhile is_space t) + 1]))
      in case s of
           c # t \<Rightarrow> (if c \<in> {CHR ''-'', CHR ''*''} then tries t else []) @ tries s
         | [] \<Rightarrow> tries s)"

definition listed_file :: "string \<Rightarrow> string option" where
  "listed_file s = map_option py_strip (find file_pattern (bullet_tries s))"

definition hashes_of :: "string \<Rightarrow> nat" where
  "hashes_of s = length (takeWhile (\<lambda>c. c = CHR ''#'') s)"

definition blank_text :: "string \<Rightarrow> bool" where
  "blank_text s \<longleftrightarrow> list_all is_space s"

definition after_prefix :: "string \<Rightarrow> string \<Rightarrow> string option" where
  "after_prefix p s = (if is_prefix p s then Some (drop (length p) s) else None)"

definition bracket_section :: "string \<Rightarrow> string \<Rightarrow> bool" where
  "bracket_section name s \<longleftrightarrow> (case after_prefix (''['' @ name @ '']'') s of None \<Rightarrow> False | Some r \<Rightarrow> blank_text r)"

definition heading_section :: "string \<Rightarrow> string \<Rightarrow> bool" where
  "heading_section name s \<longleftrightarrow>
     list_ex (\<lambda>k. k \<le> hashes_of s \<and>
       (let r = drop k s in list_ex (\<lambda>j. case after_prefix name (drop j r) of None \<Rightarrow> False | Some x \<Rightarrow> blank_text x)
          [1..<length (takeWhile is_space r) + 1])) [1, 2, 3]"

definition new_section :: "string \<Rightarrow> bool" where
  "new_section s \<longleftrightarrow> (is_prefix ''['' s \<and> CHR '']'' \<in> set (drop 2 s))
     \<or> list_ex (\<lambda>k. k \<le> hashes_of s \<and>
         (let r = drop k s in takeWhile is_space r \<noteq> [] \<and> dropWhile is_space r \<noteq> [])) [1, 2, 3]"

fun parse_sections :: "string \<Rightarrow> bool \<Rightarrow> string list \<Rightarrow> string list" where
  "parse_sections name inside [] = []"
| "parse_sections name inside (l # ls) =
     (let s = py_strip l in
      if bracket_section name s \<or> heading_section name s then parse_sections name True ls
      else if inside \<and> new_section s then []
      else if inside \<and> s \<noteq> [] then
        (case listed_file s of None \<Rightarrow> parse_sections name inside ls | Some f \<Rightarrow> f # parse_sections name inside ls)
      else parse_sections name inside ls)"

definition parse_multi_module_file :: "string \<Rightarrow> string \<Rightarrow> string list" where
  "parse_multi_module_file content name = parse_sections name False (split_lines content)"

section \<open>Loading\<close>

text \<open>A found module has the value under \<open>files\<close>, which need not be a list of texts.\<close>

datatype load_result = Found pyval | NoModule | LoadRaised

definition text_list :: "string list \<Rightarrow> pyval" where
  "text_list xs = PList (map PStr xs)"

text \<open>\<open>name in data\<close> and \<open>data[name]\<close> on what the JSON file holds.\<close>

definition map_entry :: "string \<Rightarrow> pyval \<Rightarrow> load_result" where
  "map_entry name data =
     (case data of
        PDict d \<Rightarrow> (case map_of d name of
            None \<Rightarrow> NoModule
          | Some (PDict e) \<Rightarrow> Found (get_or e ''files'' (PList []))
          | Some (PList xs) \<Rightarrow> Found (PList xs)
          | Some _ \<Rightarrow> Found (PList []))
      | PList xs \<Rightarrow> if PStr name \<in> set xs then LoadRaised else NoModule
      | PStr s \<Rightarrow> if has_sub name s then LoadRaised else NoModule
      | _ \<Rightarrow> LoadRaised)"

definition from_map :: "fs_env \<Rightarrow> path \<Rightarrow> string \<Rightarrow> load_result" where
  "from_map fs p name =
     (case fs_files fs p of
        None \<Rightarrow> NoModule
      | Some text \<Rightarrow> (case fs_json fs text of None \<Rightarrow> LoadRaised | Some data \<Rightarrow> map_entry name data))"

definition from_list :: "fs_env \<Rightarrow> path \<Rightarrow> load_result" where
  "from_list fs p = (case fs_files fs p of None \<Rightarrow> NoModule | Some text \<Rightarrow> Found (text_list (list_lines text)))"

definition from_module_json :: "fs_env \<Rightarrow> path \<Rightarrow> load_result" where
  "from_module_json fs p =
     (case fs_files fs p of
        None \<Rightarrow> NoModule
      | Some text \<Rightarrow>
          (case fs_json fs text of
             None \<Rightarrow> LoadRaised
           | Some (PDict e) \<Rightarrow> (case get_or e ''files'' (PDict e) of PList xs \<Rightarrow> Found (PList xs) | _ \<Rightarrow> Found (PList []))
           | Some (PList xs) \<Rightarrow> Found (PList xs)
           | Some _ \<Rightarrow> Found (PList [])))"

definition from_sections :: "fs_env \<Rightarrow> path \<Rightarrow> string \<Rightarrow> load_result" where
  "from_sections fs p name =
     (case fs_files fs p of
        None \<Rightarrow> NoModule
      | Some text \<Rightarrow> (let fl = parse_multi_module_file text name in if fl = [] then NoModule else Found (text_list fl)))"

definition scan_dirs :: "fs_env \<Rightarrow> path \<Rightarrow> string \<Rightarrow> load_result" where
  "scan_dirs fs t name =
     (case find (\<lambda>rel. length rel \<le> 3 \<and> is_file fs (t @ rel @ [''files.list''])
          \<and> (if rel = [] then name = last_component t else last rel = name)) (fs_walk fs t) of
        None \<Rightarrow> NoModule
      | Some rel \<Rightarrow> from_list fs (t @ rel @ [''files.list'']))"

text \<open>The first source that does not answer \<open>NoModule\<close>.\<close>

fun first_found :: "load_result list \<Rightarrow> load_result" where
  "first_found [] = NoModule"
| "first_found (NoModule # rs) = first_found rs"
| "first_found (r # rs) = r"

definition load_sources :: "fs_env \<Rightarrow> path \<Rightarrow> string \<Rightarrow> load_result list" where
  "load_sources fs t name =
     [from_list fs (path_join (path_join (path_join t ''modules'') name) ''files.list''),
      from_map fs (path_join t ''module_map.json'') name,
      from_map fs (path_join t ''modules.json'') name,
      from_module_json fs (path_join (path_join t ''modules'') (name @ ''.json'')),
      from_list fs (path_join (path_join t ''modules'') (name @ ''.txt'')),
      from_sections fs (path_join t ''modules.txt'') name,
      from_sections fs (path_join t ''modules.md'') name,
      from_list fs (path_join (path_join t name) ''files.list''),
      (if name = last_component t then from_list fs (path_join t ''files.list'') else NoModule),
      scan_dirs fs t name]"

definition load_module :: "fs_env \<Rightarrow> path \<Rightarrow> string \<Rightarrow> load_result" where
  "load_module fs t name = first_found (load_sources fs t name)"

section \<open>Resolving a path\<close>

definition target_prefixes :: "fs_env \<Rightarrow> string list" where
  "target_prefixes fs = [fs_default_target fs @ ''/'', fs_default_target fs, ''/data/target/'', ''/data/target'']"

definition mapped_file :: "fs_env \<Rightarrow> path \<Rightarrow> string \<Rightarrow> path option" where
  "mapped_file fs t s =
     (case find (\<lambda>p. is_prefix p s) (target_prefixes fs) of
        None \<Rightarrow> None
      | Some p \<Rightarrow> (let c = path_join t (drop (length p) s) in if is_file fs c then Some c else None))"

definition resolve_file_path :: "fs_env \<Rightarrow> string \<Rightarrow> path \<Rightarrow> path option" where
  "resolve_file_path fs given t =
     (let s = py_strip given in
      if is_abs s \<and> is_file fs (components s) then Some (components s)
      else case (if is_abs s then mapped_file fs t s else None) of
             Some c \<Rightarrow> Some c
           | None \<Rightarrow>
               if is_file fs (path_join t s) then Some (path_join t s)
               else (case fs_rglob fs t (os_basename s) of [] \<Rightarrow> None | p # _ \<Rightarrow> Some p))"

text \<open>
  The files the pipeline gets: the sources among the listed ones, each resolved in the
  source directory or else in the target, and the result made absolute. \<open>None\<close> is an exception on an item that is no
  text.
\<close>

definition texts_of :: "pyval \<Rightarrow> string list option" where
  "texts_of v = Option.bind (py_iter v) (\<lambda>xs. those (map (\<lambda>x. case x of PStr s \<Rightarrow> Some s | _ \<Rightarrow> None) xs))"

definition abspath :: "path \<Rightarrow> path" where
  "abspath p = foldl (\<lambda>acc c. if c = ''..'' then butlast acc else acc @ [c]) [] p"

definition resolve_module_files :: "fs_env \<Rightarrow> path \<Rightarrow> path \<Rightarrow> pyval \<Rightarrow> path list option" where
  "resolve_module_files fs src t v =
     map_option (\<lambda>files. map abspath (List.map_filter (\<lambda>s. case resolve_file_path fs s src of Some p \<Rightarrow> Some p | None \<Rightarrow> resolve_file_path fs s t)
       (fst (filter_source_files files)))) (texts_of v)"

section \<open>Lemmas on loading\<close>

lemma filter_source_partition:
  "filter_source_files files = (ks, ds) \<Longrightarrow> length ks + length ds = length files \<and> list_all is_source_name ks
    \<and> (\<forall>s \<in> set files. (s \<in> set ks) = is_source_name s)"
  by (auto simp: filter_source_files_def list_all_iff sum_length_filter_compl)

lemma list_lines_clean: "s \<in> set (list_lines text) \<Longrightarrow> s \<noteq> [] \<and> \<not> is_prefix ''#'' s"
  by (auto simp: list_lines_def)

lemma first_found_append: "first_found (rs @ rs') = (if first_found rs = NoModule then first_found rs' else first_found rs)"
  by (induction rs rule: first_found.induct) auto

text \<open>
  What \<open>rglob\<close> finds exists, but may be a directory; every other way to resolve a path
  ends in a regular file.
\<close>

lemma resolved_exists:
  assumes "resolve_file_path fs s t = Some p"
  shows "is_file fs p \<or> p \<in> set (fs_rglob fs t (os_basename (py_strip s)))"
  using assms
  by (auto simp: resolve_file_path_def mapped_file_def Let_def split: if_splits option.splits list.splits)

end
