(* ===== verification/Orchestrator.thy ===== *)
theory Orchestrator
  imports FunctionsListSafety EngineStages ModuleLoader
begin

text \<open>
  \<open>app/orchestrator.py\<close>: one run of a task, from the module to the files it hands on. The engine,
  the database directory at the end of the run and the state of the cancel event at the two
  places that look at it are fields of the environment. A list in a file is the list of its
  dictionaries. Left out: \<open>result.json\<close>, the report, the events before the products, and the
  texts of errors, which are constructors. Confidences \<open>nan\<close> and \<open>inf\<close> do not occur.
\<close>

section \<open>The flat form of an entry\<close>

definition passes_through :: "dict \<Rightarrow> bool" where
  "passes_through e \<longleftrightarrow> get e ''tag'' \<in> {PStr ''P'', PStr ''A''} \<and> (case get e ''taints'' of PList ts \<Rightarrow> True | _ \<Rightarrow> False)"

definition with_file :: "dict \<Rightarrow> dict" where
  "with_file e = (if truthy (get e ''file'') then e
     else dset ''file'' (py_or (get e ''file_path'') (py_or (get e ''original_path'') (PStr []))) e)"

text \<open>The nested analysis; \<open>None\<close> is the \<open>AttributeError\<close> of a value without \<open>get\<close>.\<close>

definition analysis_of :: "(string \<Rightarrow> pyval option) \<Rightarrow> dict \<Rightarrow> dict option" where
  "analysis_of js e =
     (case py_or (get e ''analysis'') (PDict []) of
        PDict a \<Rightarrow> Some a
      | PStr s \<Rightarrow> (case js s of None \<Rightarrow> Some [] | Some (PDict a) \<Rightarrow> Some a | Some _ \<Rightarrow> None)
      | _ \<Rightarrow> None)"

definition flat_fields :: "dict \<Rightarrow> dict \<Rightarrow> dict" where
  "flat_fields e a =
     [(''tag'', py_or (get a ''tag'') (PStr ''P'')),
      (''file'', py_or (get e ''file'') (py_or (get e ''file_path'') (PStr []))),
      (''line'', py_or (get e ''start_line'') (PInt 0)),
      (''function'', py_or (get e ''name'') (PStr [])),
      (''taints'', py_or (get a ''taints'') (PList [])),
      (''function_description'', py_or (get a ''function_description'') (PStr [])),
      (''entry_reason'', py_or (get a ''entry_reason'') (PStr [])),
      (''taint_details'', py_or (get a ''taint_details'') (PList [])),
      (''func_hash'', py_or (get e ''func_hash'') (PStr [])),
      (''signature'', py_or (get e ''signature'') (PStr [])),
      (''start_line'', py_or (get e ''start_line'') (PInt 0)),
      (''end_line'', py_or (get e ''end_line'') (PInt 0)),
      (''body_lines'', py_or (get e ''body_lines'') (PInt 0)),
      (''entry_category'', py_or (get e ''entry_category'') (PStr []))]"

definition flat_role :: "dict \<Rightarrow> dict \<Rightarrow> dict" where
  "flat_role e a =
     (let r = py_or (get a ''entry_role'') (py_or (get e ''entry_role'') (PStr []))
      in if truthy r then [(''entry_role'', r)] else [])"

definition given_confidence :: "dict \<Rightarrow> dict \<Rightarrow> pyval" where
  "given_confidence e a = py_or (get a ''entry_confidence'') (get e ''entry_confidence'')"

text \<open>\<open>None\<close> is the exception of \<open>float()\<close>.\<close>

definition flat_confidence :: "dict \<Rightarrow> dict \<Rightarrow> dict option" where
  "flat_confidence e a =
     (let c = given_confidence e a in
      if c = PNone then Some []
      else map_option (\<lambda>q. [(''entry_confidence'', flt_hundredths (round_even (100 * q)))]) (py_float c))"

definition flat_entry :: "dict \<Rightarrow> dict \<Rightarrow> dict option" where
  "flat_entry e a = map_option (\<lambda>c. flat_fields e a @ flat_role e a @ c) (flat_confidence e a)"

text \<open>What an item adds to the list: an exception, or at most one dictionary.\<close>

fun flatten_item :: "(string \<Rightarrow> pyval option) \<Rightarrow> pyval \<Rightarrow> dict list option" where
  "flatten_item js (PDict e) =
     (if passes_through e then Some [with_file e]
      else Option.bind (analysis_of js e) (\<lambda>a. map_option (\<lambda>d. [d]) (flat_entry e a)))"
| "flatten_item js _ = Some []"

definition flatten_r4_entries :: "(string \<Rightarrow> pyval option) \<Rightarrow> pyval list \<Rightarrow> dict list option" where
  "flatten_r4_entries js es = map_option concat (those (map (flatten_item js) es))"

text \<open>A row of \<open>get_keep_entries\<close> as the dictionary it returns.\<close>

definition null_or :: "('a \<Rightarrow> pyval) \<Rightarrow> 'a option \<Rightarrow> pyval" where
  "null_or f v = (case v of None \<Rightarrow> PNone | Some x \<Rightarrow> f x)"

fun keep_dict :: "func_row \<times> file_row option \<times> pyval \<Rightarrow> dict" where
  "keep_dict (r, f, tag) =
     [(''func_hash'', PStr (fn_hash r)), (''file_hash'', PStr (fn_file r)), (''name'', PStr (fn_name r)),
      (''signature'', PStr (fn_signature r)), (''start_line'', PInt (fn_start r)), (''end_line'', PInt (fn_end r)),
      (''body_lines'', PInt (int (fn_body_lines r))),
      (''has_external_input'', null_or (\<lambda>b. PInt (if b then 1 else 0)) (fn_input r)),
      (''analysis'', null_or (\<lambda>a. a) (fn_analysis r)), (''entry_role'', PStr (fn_role r)),
      (''entry_confidence'', fn_confidence r), (''r3_decision'', null_or PStr (fn_r3 r)), (''r4_decision'', null_or PStr (fn_r4 r)),
      (''entry_category'', PStr (fn_category r)), (''file_path'', null_or (PStr \<circ> fm_rel) f),
      (''original_path'', null_or (PStr \<circ> fm_path) f), (''tag'', tag)]"

section \<open>The run\<close>

datatype engine_end = Ended "pyval list" bool | Fatal string | EngineRaised string

datatype run_outcome = OutPassed | OutFailed | OutError | OutCancelled

datatype run_error = ErCancelled | ErAborted | ErNoEntries | ErNoModule | ErModuleData | ErNoFiles | ErFatal string | ErRaised string

datatype out_event = ErrorEvent run_error bool | AutoFix "(nat \<times> fix_event) list" nat nat | ListErrors "list_defect list"
  | TaskEnd run_outcome | TaskEndCounts run_outcome nat nat

text \<open>
  The output directory: the flag, the three lists, the copy of \<open>incomplete_functions.json\<close> and
  the names in \<open>funcdb\<close>, which is \<open>None\<close> while the directory does not exist.
\<close>

record out_dir =
  od_flag :: string
  od_functions :: "dict list option"
  od_handlers :: "dict list option"
  od_details :: "dict list option"
  od_incomplete :: "string option"
  od_funcdb :: "string list option"

text \<open>
  \<open>ru_abort\<close> is the reason when the cancel event is set, after the engine and before the products;
  \<open>ru_names\<close> is what the directory of the databases holds, when it exists.
\<close>

record run_env =
  ru_fs :: fs_env
  ru_source :: path
  ru_target :: path
  ru_module :: string
  ru_engine :: "path list \<Rightarrow> engine_end"
  ru_abort :: "string option"
  ru_abort_end :: "string option"
  ru_names :: "string list option"
  ru_db :: func_db
  ru_incomplete :: "string option"

text \<open>The value of \<open>_run_r6_finalize\<close>: the list and \<open>_r4_j_confirmed\<close>.\<close>

definition r6_return :: "bool \<Rightarrow> string list \<Rightarrow> cc_db option \<Rightarrow> func_db \<Rightarrow> engine_end" where
  "r6_return cancelled names cc db =
     (let entries = collect_entries names db; (cc', db', cats) = run_r6_finalize cancelled names cc db
      in Ended (map2 (\<lambda>e (h, c). case c of None \<Rightarrow> PDict (keep_dict e) | Some x \<Rightarrow> PDict (dset ''entry_category'' (PStr x) (keep_dict e)))
                  entries cats)
           (entries = [] \<or> \<not> cancelled))"

definition load_files :: "run_env \<Rightarrow> run_error + path list" where
  "load_files env =
     (case load_module (ru_fs env) (ru_target env) (ru_module env) of
        NoModule \<Rightarrow> Inl ErNoModule
      | LoadRaised \<Rightarrow> Inl ErModuleData
      | Found v \<Rightarrow>
          (case resolve_module_files (ru_fs env) (ru_source env) (ru_target env) v of
             None \<Rightarrow> Inl ErModuleData
           | Some ps \<Rightarrow> if ps = [] then Inl ErNoFiles else Inr ps))"

definition classify_run :: "string option \<Rightarrow> pyval list \<Rightarrow> bool \<Rightarrow> run_outcome \<times> run_error option" where
  "classify_run abort entries confirmed =
     (if abort = Some ''cancelled'' then (OutCancelled, Some ErCancelled)
      else if abort \<noteq> None then (OutFailed, Some ErAborted)
      else if entries \<noteq> [] \<or> confirmed then (OutPassed, None)
      else (OutFailed, Some ErNoEntries))"

definition run_pipeline :: "run_env \<Rightarrow> pyval list \<times> run_outcome \<times> run_error option" where
  "run_pipeline env =
     (case load_files env of
        Inl er \<Rightarrow> ([], OutError, Some er)
      | Inr ps \<Rightarrow>
          (case ru_engine env ps of
             Fatal m \<Rightarrow> ([], OutFailed, Some (ErFatal m))
           | EngineRaised m \<Rightarrow> ([], OutError, Some (ErRaised m))
           | Ended entries confirmed \<Rightarrow> (entries, classify_run (ru_abort env) entries confirmed)))"

definition error_events :: "run_outcome \<Rightarrow> run_error option \<Rightarrow> out_event list" where
  "error_events st er =
     (case er of
        None \<Rightarrow> []
      | Some e \<Rightarrow> (case e of ErFatal m \<Rightarrow> [ErrorEvent e True] | ErCancelled \<Rightarrow> [] | ErAborted \<Rightarrow> [] | ErNoEntries \<Rightarrow> []
                   | _ \<Rightarrow> [ErrorEvent e False]))"

section \<open>The products\<close>

definition listed_rows :: "run_env \<Rightarrow> pyval list" where
  "listed_rows env = (case ru_names env of None \<Rightarrow> [] | Some ns \<Rightarrow> map (PDict \<circ> keep_dict) (collect_entries ns (ru_db env)))"

definition all_entries :: "run_env \<Rightarrow> pyval list \<Rightarrow> dict list option" where
  "all_entries env entries =
     flatten_r4_entries (fs_json (ru_fs env)) (if listed_rows env = [] then entries else listed_rows env)"

definition is_handling :: "dict \<Rightarrow> bool" where
  "is_handling d \<longleftrightarrow> get d ''entry_category'' = PStr handling_entry"

text \<open>
  Repair and validation of \<open>functions.list\<close>. The repaired list is only taken when the repair
  wrote a line to its log.
\<close>

definition repair_list :: "dict list \<Rightarrow> (dict list \<times> out_event list) option" where
  "repair_list ext =
     (if ext = [] then Some ([], [])
      else Option.bind (auto_fix_functions_list (PList (map PDict ext))) (\<lambda>(fixed, log).
        (let ext' = if log = [] then ext else fixed in
         map_option (\<lambda>errs. (ext',
             (if log = [] then [] else [AutoFix (take 20 log) (length ext) (length fixed)])
           @ (if errs = [] then [] else [ListErrors (take 5 errs)])))
         (validate_functions_list (PList (map PDict ext'))))))"

text \<open>
  The copies of the databases per file: the directory is made when the source directory
  exists, and a file that is there already is kept.
\<close>

definition copy_dbs :: "string list option \<Rightarrow> string list option \<Rightarrow> string list option" where
  "copy_dbs names dst =
     (case names of
        None \<Rightarrow> dst
      | Some ns \<Rightarrow> (let old = case dst of None \<Rightarrow> [] | Some xs \<Rightarrow> xs
                    in Some (old @ filter (\<lambda>n. per_file_db n \<and> n \<notin> set old) ns)))"

definition write_products :: "run_env \<Rightarrow> run_outcome \<Rightarrow> dict list \<Rightarrow> dict list \<Rightarrow> out_dir \<Rightarrow> out_dir" where
  "write_products env st ext hdl od =
     (let od1 = od\<lparr>od_functions := Some ext, od_handlers := Some hdl, od_details := Some (ext @ hdl),
                   od_incomplete := Some (case ru_incomplete env of None \<Rightarrow> ''[]'' | Some t \<Rightarrow> t)\<rparr>
      in if st = OutPassed then od1\<lparr>od_flag := ''1'', od_funcdb := copy_dbs (ru_names env) (od_funcdb od1)\<rparr> else od1)"

text \<open>
  \<open>Orchestrator.execute\<close>. The result is the output directory, the outcome with its error, or
  \<open>None\<close> when an exception leaves \<open>execute\<close>, and the events.
\<close>

definition execute :: "run_env \<Rightarrow> out_dir \<Rightarrow> out_dir \<times> (run_outcome \<times> run_error option) option \<times> out_event list" where
  "execute env od =
     (let od0 = od\<lparr>od_flag := ''0''\<rparr>; (entries, st, er) = run_pipeline env; evs = error_events st er in
      if ru_abort_end env = Some ''cancelled'' then (od0, Some (st, er), evs @ [TaskEnd st])
      else case all_entries env entries of
             None \<Rightarrow> (od0, None, evs)
           | Some fl \<Rightarrow>
               (case repair_list (filter (\<lambda>d. \<not> is_handling d) fl) of
                  None \<Rightarrow> (od0, None, evs)
                | Some (ext, evs') \<Rightarrow>
                    (let hdl = filter is_handling fl
                     in (write_products env st ext hdl od0, Some (st, er), evs @ evs' @ [TaskEndCounts st (length ext) (length hdl)]))))"

text \<open>
  Where the list of functions of a task is read from (\<open>get_task_funcdb_functions\<close>): the copy when its
  directory exists, else the directory of the run; \<open>False\<close> is the answer with no functions.
\<close>

definition catalogue_found :: "out_dir \<Rightarrow> string list \<Rightarrow> bool" where
  "catalogue_found od run_names \<longleftrightarrow> function_db_file \<in> set (case od_funcdb od of Some ns \<Rightarrow> ns | None \<Rightarrow> run_names)"

end
