(* ===== verification/OrchestratorSafety.thy ===== *)
theory OrchestratorSafety
  imports Orchestrator
begin

text \<open>
  What a run hands on: when the flag tells success, which entries the three lists hold, which
  repairs are lost, how one entry loses all lists, and what a run without stray database
  files reports.
\<close>

section \<open>Flattening\<close>

lemma those_lengths: "those (map f xs) = Some ys \<Longrightarrow> length ys = length xs"
  by (induction xs arbitrary: ys) (auto split: option.splits)

lemma those_None: "those (map f xs) = None \<longleftrightarrow> (\<exists>x \<in> set xs. f x = None)"
  by (induction xs) (auto split: option.splits)

lemma those_nth: "those (map f xs) = Some ys \<Longrightarrow> map f xs = map Some ys"
  by (induction xs arbitrary: ys) (auto split: option.splits)

lemma rows_are_nested: "\<not> passes_through (keep_dict row)"
  by (cases row) (simp add: passes_through_def get_or_Cons get_or_def)

text \<open>An item raises exactly when its analysis is no object or its confidence no number.\<close>

lemma flatten_item_raises:
  "flatten_item js (PDict e) = None \<longleftrightarrow> \<not> passes_through e \<and>
     (case analysis_of js e of None \<Rightarrow> True
      | Some a \<Rightarrow> given_confidence e a \<noteq> PNone \<and> py_float (given_confidence e a) = None)"
  by (auto simp: flat_entry_def flat_confidence_def Let_def split: option.splits bind_splits)

lemma flatten_raises: "flatten_r4_entries js es = None \<longleftrightarrow> (\<exists>e. PDict e \<in> set es \<and> flatten_item js (PDict e) = None)"
proof -
  have "\<exists>e. v = PDict e" if "flatten_item js v = None" for v using that by (cases v) simp_all
  then have "(\<exists>v \<in> set es. flatten_item js v = None) = (\<exists>e. PDict e \<in> set es \<and> flatten_item js (PDict e) = None)"
    by blast
  then show ?thesis by (simp only: flatten_r4_entries_def map_option_is_None those_None)
qed

text \<open>Every dictionary gives one entry, in order, and nothing else does.\<close>

fun is_dict :: "pyval \<Rightarrow> bool" where
  "is_dict (PDict d) = True"
| "is_dict _ = False"

lemma flatten_item_length: "flatten_item js v = Some ds \<Longrightarrow> length ds = (if is_dict v then 1 else 0)"
  by (cases v) (auto split: bind_splits if_splits)

lemma flatten_counts: "flatten_r4_entries js es = Some fl \<Longrightarrow> length fl = length (filter is_dict es)"
proof -
  have "those (map (flatten_item js) es) = Some dss \<Longrightarrow> length (concat dss) = length (filter is_dict es)" for dss
  proof (induction es arbitrary: dss)
    case (Cons v es)
    then show ?case by (auto simp: flatten_item_length split: option.splits)
  qed simp
  then show "flatten_r4_entries js es = Some fl \<Longrightarrow> length fl = length (filter is_dict es)"
    by (auto simp: flatten_r4_entries_def)
qed

section \<open>The repair of a list\<close>

lemma fix_item_other:
  assumes "fix_item d = Some (ev, Some d7)"
    and "k \<notin> {''tag'', ''line'', ''taints'', ''entry_role'', ''entry_confidence'', ''function_description'',
      ''function_description_source'', ''entry_reason'', ''entry_reason_source'', ''definition_kind'', ''is_definition_found'', ''taint_details''}"
  shows "get_or d7 k v = get_or d k v"
proof -
  from assms(1) obtain ev1 d1 ev3 good d3 where st: "fix_tag d = Some (ev1, d1)" "fix_taints (snd (fix_line d1)) = (ev3, Some (good, d3))"
    "fix_details good (fix_texts (snd (fix_confidence (snd (fix_role d3))))) = Some d7" by (rule fix_item_stages)
  have "get_or d7 k v = get_or (fix_texts (snd (fix_confidence (snd (fix_role d3))))) k v"
    using st(3) assms(2) by (auto simp: fix_details_def)
  also have "\<dots> = get_or d k v"
    using assms(2) fix_tag_ok(2) [OF st(1)] fix_taints_ok(3) [OF st(2)]
    by (simp add: fix_texts_fields(4) fix_confidence_other fix_role_other fix_line_ok(2))
  finally show ?thesis .
qed

lemma kept_items:
  assumes "auto_fix_functions_list (PList (map PDict ext)) = Some (fixed, lg)" "d \<in> set fixed"
  obtains d0 ev where "d0 \<in> set ext" "fix_item d0 = Some (ev, Some d)"
proof -
  from assms(1) obtain rs where rs: "those (map fix_entry (map PDict ext)) = Some rs" "fixed = kept rs"
    by (auto simp: auto_fix_functions_list_def)
  with assms(2) obtain ev where "(ev, Some d) \<in> set rs" by (auto simp: kept_def split: option.splits)
  then have "Some (ev, Some d) \<in> set (map (\<lambda>d0. fix_entry (PDict d0)) ext)"
    using those_nth [OF rs(1)] by (simp add: comp_def)
  then obtain d0 where "d0 \<in> set ext" "fix_entry (PDict d0) = Some (ev, Some d)" by force
  then show thesis by (cases "map_of d0 ''_error''") (auto intro: that)
qed

text \<open>What becomes of the external entries: the same list, or the repaired items of it.\<close>

definition repaired_from :: "dict list \<Rightarrow> dict list \<Rightarrow> bool" where
  "repaired_from ext0 ext \<longleftrightarrow> (\<forall>d \<in> set ext. \<exists>d0 \<in> set ext0. \<exists>ev. fix_item d0 = Some (ev, Some d))"

lemma repair_list_cases:
  assumes "repair_list ext0 = Some (ext, evs)"
  shows "ext = ext0 \<or> repaired_from ext0 ext"
proof (cases "ext0 = []")
  case False
  with assms obtain fixed lg where fx: "auto_fix_functions_list (PList (map PDict ext0)) = Some (fixed, lg)"
      "ext = (if lg = [] then ext0 else fixed)"
    by (auto simp: repair_list_def Let_def split: bind_splits)
  have "repaired_from ext0 fixed"
    unfolding repaired_from_def using kept_items [OF fx(1)] by blast
  with fx(2) show ?thesis by simp
qed (use assms in \<open>simp add: repair_list_def\<close>)

lemma handling_kept: "fix_item d0 = Some (ev, Some d) \<Longrightarrow> is_handling d = is_handling d0"
  by (simp add: is_handling_def fix_item_other)

lemma repaired_external:
  assumes "repair_list (filter (\<lambda>d. \<not> is_handling d) fl) = Some (ext, evs)" "d \<in> set ext"
  shows "\<not> is_handling d"
  using repair_list_cases [OF assms(1)] assms(2) handling_kept by (fastforce simp: repaired_from_def)

lemma repaired_defects: "repaired_from ext0 ext \<Longrightarrow> d \<in> set ext \<Longrightarrow> \<exists>es. item_defects d = Some es \<and> set es \<subseteq> residual d"
  by (auto simp: repaired_from_def dest: fixed_item_defects)

section \<open>The outcome\<close>

lemma passed_no_error: "run_pipeline env = (entries, OutPassed, er) \<Longrightarrow> er = None"
  by (auto simp: run_pipeline_def classify_run_def split: sum.splits engine_end.splits if_splits)

text \<open>
  What reaches the engine: at least one path, and every one of them is made from a listed name with the
  extension of a source and is a regular file or the first hit of \<open>rglob\<close> for that name.
\<close>
theorem engine_gets_sources:
  assumes "load_files env = Inr ps"
  shows "ps \<noteq> [] \<and> (\<forall>p \<in> set ps. \<exists>s q t. p = abspath q \<and> is_source_name s \<and> t \<in> {ru_source env, ru_target env} \<and>
    resolve_file_path (ru_fs env) s t = Some q \<and>
    (is_file (ru_fs env) q \<or> q \<in> set (fs_rglob (ru_fs env) t (os_basename (py_strip s)))))"
proof -
  from assms obtain v where v: "resolve_module_files (ru_fs env) (ru_source env) (ru_target env) v = Some ps" "ps \<noteq> []"
    by (auto simp: load_files_def split: load_result.splits option.splits if_splits)
  then have "\<exists>s q t. p = abspath q \<and> is_source_name s \<and> t \<in> {ru_source env, ru_target env} \<and> resolve_file_path (ru_fs env) s t = Some q"
    if "p \<in> set ps" for p
    using that by (fastforce simp: resolve_module_files_def filter_source_files_def List.map_filter_def split: option.splits)
  with v(2) resolved_exists show ?thesis by blast
qed

text \<open>
  C11: The flag of a run is 1 only when the run passed and wrote its lists: the handling entries in
  \<open>handler.list\<close>, in order; the external ones in \<open>functions.list\<close>, as they are or repaired; both in
  \<open>entry-details.json\<close>. Otherwise it is 0, and a passed run has it 0 only when a cancel came
  before the products.
\<close>
theorem flag_tells_success:
  assumes "execute env od = (od', res, evs)"
  shows "(od_flag od' = ''1'' \<and> res = Some (OutPassed, None) \<and>
      (\<exists>entries fl ext. run_pipeline env = (entries, OutPassed, None) \<and> all_entries env entries = Some fl \<and>
         od_handlers od' = Some (filter is_handling fl) \<and> od_functions od' = Some ext \<and> od_details od' = Some (ext @ filter is_handling fl) \<and>
         list_all (\<lambda>d. \<not> is_handling d) ext \<and>
         (ext = filter (\<lambda>d. \<not> is_handling d) fl \<or> repaired_from (filter (\<lambda>d. \<not> is_handling d) fl) ext))) \<or>
    (od_flag od' = ''0'' \<and> (res = Some (OutPassed, None) \<longrightarrow> ru_abort_end env = Some ''cancelled''))"
proof -
  obtain entries st er where pl: "run_pipeline env = (entries, st, er)" by (cases "run_pipeline env")
  show ?thesis
  proof (cases "ru_abort_end env = Some ''cancelled''")
    case True
    with assms pl show ?thesis by (auto simp: execute_def Let_def)
  next
    case False
    show ?thesis
    proof (cases "all_entries env entries")
      case None
      with False assms pl show ?thesis by (auto simp: execute_def Let_def)
    next
      case (Some fl)
      show ?thesis
      proof (cases "repair_list (filter (\<lambda>d. \<not> is_handling d) fl)")
        case None
        with False Some assms pl show ?thesis by (auto simp: execute_def Let_def)
      next
        case (Some p)
        then obtain ext evs' where rp: "repair_list (filter (\<lambda>d. \<not> is_handling d) fl) = Some (ext, evs')" by (cases p) auto
        have od': "od' = write_products env st ext (filter is_handling fl) (od\<lparr>od_flag := ''0''\<rparr>)" and res: "res = Some (st, er)"
          using False \<open>all_entries env entries = Some fl\<close> rp assms pl by (auto simp: execute_def Let_def)
        have "list_all (\<lambda>d. \<not> is_handling d) ext" using repaired_external [OF rp] by (auto simp: list_all_iff)
        then show ?thesis
          using od' res pl \<open>all_entries env entries = Some fl\<close> passed_no_error [of env entries er] repair_list_cases [OF rp]
          by (cases "st = OutPassed") (auto simp: write_products_def Let_def)
      qed
    qed
  qed
qed

text \<open>
  One entry whose confidence is no number, or whose analysis is no object, loses all: \<open>execute\<close> raises
  after the pipeline has passed, the flag is 0 and no list is written.
\<close>
theorem bad_entry_loses_the_lists:
  assumes "run_pipeline env = (entries, st, er)" "listed_rows env = []" "ru_abort_end env \<noteq> Some ''cancelled''"
    and "PDict e \<in> set entries" "flatten_item (fs_json (ru_fs env)) (PDict e) = None"
  shows "execute env od = (od\<lparr>od_flag := ''0''\<rparr>, None, error_events st er)"
proof -
  have "all_entries env entries = None"
    using assms(2,4,5) unfolding all_entries_def by (simp only: simp_thms if_True flatten_raises) blast
  with assms(1,3) show ?thesis by (simp add: execute_def)
qed

text \<open>
  C12: As long as the directory of the databases holds no file per source file, a run whose engine returns what R6
  returns passes with flag 1 and empty lists whatever the database holds, and reports no error. The function catalogue
  of the finished task is then empty, because the copy of the databases is an empty directory.
\<close>
theorem passed_run_lists_nothing:
  assumes "load_files env = Inr ps" "ru_engine env ps = r6_return c names cc db" "filter per_file_db names = []"
    and "ru_names env = Some names'" "filter per_file_db names' = []"
    and "ru_abort env = None" "ru_abort_end env = None" "od_funcdb od = None"
  shows "\<exists>od'. execute env od = (od', Some (OutPassed, None), [TaskEndCounts OutPassed 0 0]) \<and> od_flag od' = ''1'' \<and>
    od_functions od' = Some [] \<and> od_handlers od' = Some [] \<and> \<not> catalogue_found od' names'"
proof -
  have "r6_return c names cc db = Ended [] True"
    using assms(3) by (simp add: r6_return_def collect_entries_def run_r6_finalize_def)
  then have pl: "run_pipeline env = ([], OutPassed, None)"
    using assms(1,2,6) by (simp add: run_pipeline_def classify_run_def)
  have "listed_rows env = []" using assms(4,5) by (simp add: listed_rows_def collect_entries_def)
  then have al: "all_entries env [] = Some []" by (simp add: all_entries_def flatten_r4_entries_def)
  have "filter (\<lambda>n. per_file_db n \<and> n \<notin> {}) names' = []" using assms(5) by simp
  then have cp: "copy_dbs (Some names') None = Some []" by (simp add: copy_dbs_def)
  show ?thesis
    using pl al assms(4,7,8) cp
    by (simp add: execute_def write_products_def repair_list_def error_events_def catalogue_found_def)
qed

text \<open>
  Repairs that log nothing are lost: the defaults for a missing description, reason and taint
  details are computed, and the list is written without them.
\<close>

definition silent_entry :: dict where
  "silent_entry = [(''tag'', PStr ''P''), (''file'', PStr ''a.c''), (''line'', PInt 7), (''function'', PStr ''recv''),
     (''taints'', PList [PStr ''buf''])]"

lemma silent_fixed: "\<exists>d. fix_item silent_entry = Some ([], Some d)"
proof -
  have tag: "fix_tag silent_entry = Some ([], silent_entry)" by (simp add: fix_tag_def silent_entry_def get_or_def)
  have line: "fix_line silent_entry = ([], silent_entry)" by (simp add: fix_line_def silent_entry_def get_or_def)
  have "py_strip ''buf'' = ''buf''" by (simp add: py_strip_def is_space_def)
  moreover have "taint_re ''buf''"
    by (simp add: taint_tail.simps taint_end_def ident_char_def ident_start_def lower_char_def is_digit_def)
  ultimately have gt: "good_taint (PStr ''buf'')" by (simp del: taint_re.simps)
  have ts: "get silent_entry ''taints'' = PList [PStr ''buf'']" by (simp add: silent_entry_def get_or_def)
  let ?d3 = "dset ''taints'' (PList [PStr ''buf'']) silent_entry"
  have taints: "fix_taints silent_entry = ([], Some ([PStr ''buf''], ?d3))"
    using gt by (simp add: fix_taints_def ts Let_def del: good_taint.simps)
  have role: "fix_role ?d3 = ([], ?d3)" and conf: "fix_confidence ?d3 = ([], ?d3)" and raw: "raw_details ?d3 = PList []"
    by (simp_all add: fix_role_def fix_confidence_def raw_details_def silent_entry_def get_or_def py_or_def)
  have "fix_details [PStr ''buf''] (fix_texts ?d3) \<noteq> None" by (simp add: fix_details_def raw_details_texts raw)
  then show ?thesis by (auto simp: fix_item_def tag line taints role conf)
qed

text \<open>The defects the validator finds in the entry, and those it finds in the repaired one.\<close>

lemma silent_defects: "item_defects silent_entry = Some [NoDescription, NoReason, DetailCount]"
proof -
  have "taint_re ''buf''"
    by (simp add: taint_tail.simps taint_end_def ident_char_def ident_start_def lower_char_def is_digit_def)
  moreover have "py_strip ''buf'' = ''buf''" "py_strip ''a.c'' = ''a.c''" "py_strip ''recv'' = ''recv''"
    by (simp_all add: py_strip_def is_space_def)
  ultimately show ?thesis
    by (simp add: item_defects_def details_defects_def taints_defects_def role_defects_def confidence_defects_def
        silent_entry_def get_or_def chk_def Let_def del: taint_re.simps)
qed

theorem silent_repairs_are_lost:
  assumes "auto_fix_functions_list (PList (map PDict ext)) = Some (fixed, [])" "repair_list ext = Some (ext', evs)"
  shows "ext' = ext"
  using assms by (auto simp: repair_list_def split: if_splits bind_splits)

theorem silent_repairs_are_lost_witness:
  "\<exists>d. auto_fix_functions_list (PList [PDict silent_entry]) = Some ([d], []) \<and> item_defects d \<noteq> item_defects silent_entry \<and>
     repair_list [silent_entry] = Some ([silent_entry], [ListErrors [Item 0 NoDescription, Item 0 NoReason, Item 0 DetailCount]])"
proof -
  obtain d where d: "fix_item silent_entry = Some ([], Some d)" using silent_fixed by blast
  have ne: "map_of silent_entry ''_error'' = None" by (simp add: silent_entry_def)
  have a: "auto_fix_functions_list (PList (map PDict [silent_entry])) = Some ([d], [])"
    by (simp add: auto_fix_functions_list_def ne d kept_def events_def)
  have r: "repair_list [silent_entry] = Some ([silent_entry], [ListErrors [Item 0 NoDescription, Item 0 NoReason, Item 0 DetailCount]])"
    using a by (simp add: repair_list_def validate_functions_list_def ne silent_defects)
  have "item_defects d \<noteq> item_defects silent_entry"
    using fixed_item_defects [OF d] by (auto simp: silent_defects residual_def split: if_splits)
  with a r silent_repairs_are_lost [OF a r] show ?thesis by auto
qed

section \<open>Witnesses\<close>

definition files_of :: "path \<Rightarrow> string option" where
  "files_of p = map_of [([''t'', ''modules'', ''m'', ''files.list''], ''a.c''), ([''t'', ''a.c''], ''int a;'')] p"

definition demo_fs :: fs_env where
  "demo_fs = \<lparr>fs_files = files_of, fs_walk = \<lambda>p. [], fs_rglob = \<lambda>p s. [], fs_json = \<lambda>s. None, fs_default_target = ''/data/target''\<rparr>"

definition demo_env :: "engine_end \<Rightarrow> run_env" where
  "demo_env e = \<lparr>ru_fs = demo_fs, ru_source = [''t''], ru_target = [''t''], ru_module = ''m'', ru_engine = \<lambda>ps. e, ru_abort = None,
     ru_abort_end = None, ru_names = Some [function_db_file], ru_db = empty_fdb, ru_incomplete = None\<rparr>"

definition empty_out :: out_dir where
  "empty_out = \<lparr>od_flag = [], od_functions = None, od_handlers = None, od_details = None, od_incomplete = None, od_funcdb = None\<rparr>"

lemma demo_fields [simp]:
  "ru_abort (demo_env e) = None" "ru_abort_end (demo_env e) = None" "ru_names (demo_env e) = Some [function_db_file]"
  "ru_engine (demo_env e) ps = e" "od_funcdb empty_out = None"
  by (simp_all add: demo_env_def empty_out_def)

lemma demo_files: "load_files (demo_env e) = Inr [[''t'', ''a.c'']]"
proof -
  have "load_files (demo_env e) = load_files (demo_env (Fatal []))"
  proof -
    have "ru_fs (demo_env e) = ru_fs (demo_env (Fatal []))" "ru_source (demo_env e) = ru_source (demo_env (Fatal []))"
      "ru_target (demo_env e) = ru_target (demo_env (Fatal []))" "ru_module (demo_env e) = ru_module (demo_env (Fatal []))"
      by (simp_all add: demo_env_def)
    then show ?thesis by (simp only: load_files_def)
  qed
  also have "\<dots> = Inr [[''t'', ''a.c'']]" by code_simp
  finally show ?thesis .
qed

lemma demo_rows: "listed_rows (demo_env e) = []"
  by (simp add: listed_rows_def collect_entries_def per_file_db_def function_db_file_def)

theorem engine_gets_sources_witness:
  "\<exists>s q t. [''t'', ''a.c''] = abspath q \<and> is_source_name s \<and> t \<in> {[''t'']} \<and> resolve_file_path demo_fs s t = Some q"
  using engine_gets_sources [OF demo_files [of "Fatal []"]] by (auto simp: demo_env_def)

definition handler_item :: dict where
  "handler_item = [(''tag'', PStr ''P''), (''file'', PStr ''a.c''), (''taints'', PList []), (''entry_category'', PStr handling_entry)]"

lemma demo_execute:
  "\<exists>od' evs. execute (demo_env (Ended [PDict handler_item, PDict silent_entry] True)) empty_out = (od', Some (OutPassed, None), evs)"
proof -
  have "all_entries (demo_env (Ended [PDict handler_item, PDict silent_entry] True)) [PDict handler_item, PDict silent_entry]
      = Some [handler_item, silent_entry]"
    by (simp add: all_entries_def demo_rows flatten_r4_entries_def passes_through_def with_file_def handler_item_def silent_entry_def get_or_def)
  moreover have "is_handling handler_item" "\<not> is_handling silent_entry"
    by (simp_all add: is_handling_def handler_item_def silent_entry_def get_or_def)
  moreover obtain d where d: "fix_item silent_entry = Some ([], Some d)" using silent_fixed by blast
  have "map_of silent_entry ''_error'' = None" by (simp add: silent_entry_def)
  with d have "\<exists>p. repair_list [silent_entry] = Some p"
    by (simp add: repair_list_def auto_fix_functions_list_def kept_def events_def validate_functions_list_def silent_defects)
  ultimately show ?thesis
    by (auto simp: execute_def run_pipeline_def demo_files classify_run_def)
qed

theorem flag_tells_success_witness:
  "\<exists>od' evs ext. execute (demo_env (Ended [PDict handler_item, PDict silent_entry] True)) empty_out = (od', Some (OutPassed, None), evs) \<and>
     od_flag od' = ''1'' \<and> od_functions od' = Some ext \<and> list_all (\<lambda>d. \<not> is_handling d) ext"
proof -
  obtain od' evs where e: "execute (demo_env (Ended [PDict handler_item, PDict silent_entry] True)) empty_out = (od', Some (OutPassed, None), evs)"
    using demo_execute by blast
  from flag_tells_success [OF e] e show ?thesis by auto
qed

definition bad_item :: dict where
  "bad_item = [(''name'', PStr ''recv''), (''analysis'', PDict [(''entry_confidence'', PStr ''high'')])]"

lemma bad_item_raises: "flatten_item js (PDict bad_item) = None"
proof -
  have "py_float (PStr ''high'') = None" by code_simp
  then show ?thesis
    by (simp add: flat_entry_def flat_confidence_def passes_through_def analysis_of_def given_confidence_def bad_item_def get_or_def py_or_def)
qed

theorem bad_entry_loses_the_lists_witness:
  "execute (demo_env (Ended [PDict silent_entry, PDict bad_item] True)) empty_out = (empty_out\<lparr>od_flag := ''0''\<rparr>, None, [])"
proof -
  have "run_pipeline (demo_env (Ended [PDict silent_entry, PDict bad_item] True)) = ([PDict silent_entry, PDict bad_item], OutPassed, None)"
    by (simp add: run_pipeline_def demo_files classify_run_def)
  from bad_entry_loses_the_lists [OF this demo_rows _ _ bad_item_raises] show ?thesis by (simp add: error_events_def)
qed

text \<open>A database with one kept function, which the finished task does not show.\<close>

definition kept_function :: func_row where
  "kept_function = \<lparr>fn_hash = ''h'', fn_file = ''f'', fn_name = ''recv'', fn_signature = ''int recv(char *buf)'', fn_start = 1, fn_end = 3,
     fn_body = [], fn_body_lines = 3, fn_analysis = None, fn_input = Some True, fn_role = [], fn_confidence = PNone,
     fn_r3 = Some ''keep'', fn_r4 = None, fn_category = []\<rparr>"

definition kept_db :: func_db where
  "kept_db = \<lparr>fdb_files = [], fdb_funcs = [kept_function]\<rparr>"

theorem passed_run_lists_nothing_witness:
  "get_keep_entries kept_db \<noteq> [] \<and>
   (\<exists>od'. execute (demo_env (r6_return False [function_db_file] None kept_db)) empty_out = (od', Some (OutPassed, None), [TaskEndCounts OutPassed 0 0])
     \<and> od_flag od' = ''1'' \<and> od_functions od' = Some [])"
proof -
  have "get_keep_entries kept_db \<noteq> []"
    by (simp add: get_keep_entries_def kept_db_def kept_function_def is_kept_def internal_entry_def)
  moreover have n: "filter per_file_db [function_db_file] = []" by (simp add: per_file_db_def function_db_file_def)
  ultimately show ?thesis
    using passed_run_lists_nothing [OF demo_files _ n _ n, of "r6_return False [function_db_file] None kept_db" False None kept_db empty_out] by auto
qed

end
