(* ===== verification/Spec2Isabelle.thy ===== *)
theory Spec2Isabelle
  imports AgentSlotsSafety DispatcherSafety StageQueue PipelineState Confidence FunctionsListSafety
    CallchainSafety SourceTextSafety FunctionDBSafety AgentRetrySafety PiCommand
    CallExtractorSafety EngineRunSafety EngineStagesSafety FastModeSafety SuperFastSafety
    TaskRecordSafety OrchestratorSafety
begin

text \<open>
  A model of the core of \<open>entry_analyse\<close>, the service that finds the external entry points of
  the modules of a C code base, with the theorems that make it correct.

  \<^bold>\<open>The program.\<close> A request becomes a row of the task table (\<open>app/db/models.py\<close>). The dispatcher
  (\<open>app/dispatcher.py\<close>) publishes pending rows to a message queue; a worker takes a message, claims
  the row under a lease (\<open>app/service/execution_coordinator.py\<close>) and runs the analysis
  (\<open>app/celery_tasks.py\<close>). The analysis is a pipeline over files and functions: a pool of threads
  per stage (\<open>app/pipeline/stage_queue.py\<close>), a state that survives a restart
  (\<open>app/pipeline/state.py\<close>), and agents, external processes that the pool of
  \<open>app/agent_slots.py\<close> limits per pod. Its results go into SQLite databases: the call graph of the module
  (\<open>app/pipeline/callchain_db.py\<close>), from which entries get a category, and a
  confidence (\<open>app/pipeline/confidence.py\<close>). The product is \<open>functions.list\<close>
  (\<open>app/functions_list.py\<close>), which is generated from the answer of an agent, repaired and
  validated.

  \<^bold>\<open>The theories.\<close>
  \<^item> \<open>Prelude\<close>: Python's string helpers, the interfaces (a priority queue, a codec, an inductive
    invariant of a step relation) and reachability.
  \<^item> \<open>AgentSlots\<close>: the state of \<open>AgentProcessSlotManager\<close> as the record \<open>slot_mgr\<close> (capacity, slots in
    use, the waiter heap, tickets, leases) and one definition per method; \<open>acquire\<close>, a coroutine, is
    split where it awaits, into \<open>acquire_begin\<close>, \<open>acquire_resume\<close> and \<open>acquire_abort\<close>.
    \<open>AgentSlotsSafety\<close> runs them as a transition system with the coroutines of the clients and proves the
    accounting of the slots, the capacity bound, that no wake-up is lost and that the best waiter
    is served, and shows how the two fault paths (forced release, closed loop) break the accounting.
  \<^item> \<open>TaskStore\<close>: the dispatch columns of a task and of a debug report, claim, renewal and clean-up. The
    interface \<open>lease_protocol\<close> states what both tables promise and is interpreted on both.
    \<open>Dispatcher\<close> models the loops of the dispatcher and the guards of the Celery tasks over the
    table; \<open>DispatcherSafety\<close> proves fencing, exclusive claims, what pump and stale scan do exactly,
    and the races that the code leaves open.
  \<^item> \<open>TaskEvents\<close>: the timeline of a task (\<open>app/service/task_service.py\<close>): which events are kept, their keys, trimming and
    clearing. \<open>TaskService\<close>: create, restart, resume, cancel and delete over a database session, where the write of an event
    may roll back what is pending, and the reason of an abnormal end. \<open>TaskRunner\<close>: the transactions of one run
    (\<open>app/task_runner.py\<close>), the message around it, and every operation on a task as one type, \<open>life_op\<close>, so that an
    interleaving is a list. \<open>TaskServiceSafety\<close>: what every interleaving keeps, with the interface \<open>db_invariant\<close>;
    \<open>TaskLifeSafety\<close>: what a run, a cancellation and a restart leave, also when a write fails; \<open>TaskRecordSafety\<close>: one task for
    an item of a parent task, deletion, and what the records show after several runs.
  \<^item> \<open>StageQueue\<close>: threads, queues, sentinels and counters as a step relation \<open>sq_step\<close>; a run that
    returns has processed everything, a run without faults is never stuck, and the two faults that make
    \<open>run\<close> wait for ever.
  \<^item> \<open>PyVal\<close>: the JSON values the program handles, with Python's truth value, \<open>get\<close>, \<open>str\<close>,
    \<open>float\<close>, \<open>round\<close>.
  \<^item> \<open>PipelineState\<close>: the three dataclasses, their dictionaries, the migration of older state files,
    saving, loading and registration; the encoders and decoders are instances of \<open>codec\<close>.
  \<^item> \<open>Confidence\<close>: the score in hundredths, the meters and labels; bounds, monotonicity.
  \<^item> \<open>FunctionsList\<close>: validator, repair, generation and the markdown fallback;
    \<open>FunctionsListSafety\<close>: the language of the taint pattern, what the repair guarantees to the validator,
    the format of generated lists.
  \<^item> \<open>CallchainDB\<close>: the tables as lists of rows in insertion order and the methods over them;
    \<open>CallchainSafety\<close>: the closure is the bounded reachability of the call graph, the trees are exact, and
    the categories follow from both.
  \<^item> \<open>CallExtractor\<close>: the scan of the source for calls, from lines to the dictionary of edges;
    \<open>CallExtractorSafety\<close>: the edges are the calls a line-by-line reading of the text gives, and reachability in the
    database is reachability in the text.
  \<^item> \<open>EngineRun\<close>: the coroutines of \<open>PipelineEngine.run\<close> as a step relation \<open>run_step\<close>; \<open>EngineRunSafety\<close>: the barrier
    before the call chain, that a run without a cancel returns, and the cancel after which it waits for ever.
  \<^item> \<open>EngineStages\<close>: what happens to one function in R2, R3, R4 and R5, over the three databases and the answers of the agents, the
    construction of the call chain and the collection of the entries; \<open>EngineStagesSafety\<close>: the rounds end, R2 lets every
    function through, a function its worker keeps reaches the list, and the ways in which one is lost.
  \<^item> \<open>FastMode\<close>: the batch processor of the fast mode (\<open>app/pipeline/fast_mode_engine.py\<close>) as a step relation, with the parsing of the
    answers and the retries of its agents (\<open>fast_mode_worker.py\<close>); \<open>FastModeSafety\<close>: every call of \<open>enqueue\<close> is in one place and
    is answered, and exactly when a function is filtered.
  \<^item> \<open>SuperFast\<close>: the engine of the super fast mode (\<open>app/pipeline/super_fast_engine.py\<close>), its five processors over the databases
    and its threads over the staged pipeline of \<open>StageQueue\<close>; \<open>SuperFastSafety\<close>: a run that never returns and the absence of any
    other way to be stuck, and that the final list is the choice of the signature filter.
  \<^item> \<open>ModuleLoader\<close>: the eight formats a module can be described in, the filter of its sources and the resolution of its
    paths (\<open>app/module_loader.py\<close>), over a map from paths to contents.
  \<^item> \<open>Orchestrator\<close>: one run of a task (\<open>Orchestrator.execute\<close>), from the files of the module over the result of the engine to the
    lists, the flag and the copied databases; \<open>OrchestratorSafety\<close>: what a set flag promises, which files reach the engine, the repairs and
    lists that are lost, and the passed run whose lists are empty.
  \<^item> \<open>SourceText\<close>: the scanner for the end of a function body and the comparison of a stored body with the file;
    \<open>SourceTextSafety\<close> proves the scanner equal to a lexer followed by a count of braces.
  \<^item> \<open>FunctionDB\<close>: the tables and methods of the function database, with the corrections an agent sends
    (\<open>apply_corrections\<close>); \<open>FunctionDBSafety\<close>: its invariant under every operation, what a resumed run keeps,
    and that a corrected function passes the comparison of \<open>SourceText\<close>.
  \<^item> \<open>AgentRunner\<close>: what one agent process leaves behind (\<open>app/runner.py\<close>): its events, the classification of its
    error, the session file. \<open>AgentRetry\<close>: the three nested retry loops over a sequence of attempts, as partial functions
    whose \<open>None\<close> is a loop that never ends; \<open>AgentRetrySafety\<close>: a bound on the attempts, that a cancel ends the run, that
    fatal errors are final, and three ways in which the loops ignore their limits. \<open>PiCommand\<close>: model names and arguments.

  \<^bold>\<open>Conventions.\<close> Times are integers (the theory says in which unit). A Python \<open>str\<close> is a list
  of UTF-8 bytes. A score is an integer number of hundredths, so the sum of weights is exact where the
  program adds binary floating-point numbers that it then rounds to two decimals. An exception is \<open>None\<close>
  or an error value of the operation. Rows without an \<open>ORDER BY\<close> come in insertion
  order, which SQLite does not promise; no property depends on it except through \<open>fetchone\<close>. Loops
  run on the data; where a bound is needed (the levels of \<open>build_closure\<close>) it is the program's own
  argument \<open>max_depth\<close>, and the transitive search of a tree ends because each queue entry is a
  new function.

  \<^bold>\<open>Parameters.\<close> The broker and \<open>inspect()\<close> of Celery, the engine a task runs, how a write to the database ends, the processors
  of a stage queue, \<open>json.loads\<close>, sha1 and md5 are arguments of the definitions that use them.

  \<^bold>\<open>Not modelled.\<close> Prompts, the agent process itself, HTTP routes, the queries of the task service that only read, metrics, file layout, the TCP
  scheduler of the previous architecture, logging. Next in line: the worker slot registry.
\<close>

end
